(* ===== verification/Neuron_Prelude.thy ===== *)
theory Neuron_Prelude
  imports Main "HOL-Library.Word" "HOL-Library.Monad_Syntax"
begin

text \<open>
  Shared vocabulary of the development: the C integer widths, byte memories and the
  operations the sources perform on them, and the generic lemmas about both.

  A C array is a \<open>u8 list\<close> whose length is the size of the array. Every access
  is a partial operation: \<open>None\<close> stands for an access outside the array, which
  C leaves undefined. A theorem that an operation is \<open>Some\<close> of something is
  therefore a memory-safety theorem. C's \<open>int\<close> is \<open>int\<close>; \<open>uint8_t\<close>,
  \<open>uint16_t\<close> and \<open>uint32_t\<close> are words of that width, so that they wrap
  where the code lets them wrap.
\<close>

unbundle bit_operations_syntax

section \<open>Types and hint collections\<close>

type_synonym u8 = "8 word"
type_synonym u16 = "16 word"
type_synonym u32 = "32 word"
type_synonym mem = "u8 list"

named_theorems mem_simps \<open>sizes and contents of a byte memory after an access\<close>
named_theorems no_fault \<open>when a byte access stays inside its memory\<close>

section \<open>Bytes of a 16-bit word\<close>

definition lo8 :: "u16 \<Rightarrow> u8" where
  "lo8 w = ucast w"

definition hi8 :: "u16 \<Rightarrow> u8" where
  "hi8 w = ucast (drop_bit 8 w)"

definition join16 :: "u8 \<Rightarrow> u8 \<Rightarrow> u16" where
  "join16 hi lo = push_bit 8 (ucast hi) OR ucast lo"

definition swap16 :: "u16 \<Rightarrow> u16" where
  "swap16 w = push_bit 8 w OR drop_bit 8 w"

text \<open>The two-byte big-endian number \<open>(hi << 8) + lo\<close> of the Modbus code.\<close>

definition be16 :: "u8 \<Rightarrow> u8 \<Rightarrow> int" where
  "be16 hi lo = 256 * uint hi + uint lo"

lemma join16_hi_lo [simp]: "join16 (hi8 w) (lo8 w) = w"
  by (rule bit_word_eqI) (auto simp: join16_def hi8_def lo8_def bit_simps)

lemma lo8_join16 [simp]: "lo8 (join16 hi lo) = lo"
  by (rule bit_word_eqI) (auto simp: join16_def lo8_def bit_simps)

lemma hi8_join16 [simp]: "hi8 (join16 hi lo) = hi"
  by (rule bit_word_eqI) (auto simp: join16_def hi8_def bit_simps dest: bit_imp_le_length)

lemma join16_eq_iff: "join16 h l = w \<longleftrightarrow> h = hi8 w \<and> l = lo8 w"
  by auto

lemma swap16_swap16 [simp]: "swap16 (swap16 w) = w"
  by (rule bit_word_eqI) (auto simp: swap16_def bit_simps dest: bit_imp_le_length)

lemma swap16_xor: "swap16 (v XOR w) = swap16 v XOR swap16 w"
  by (rule bit_word_eqI) (auto simp: swap16_def bit_simps dest: bit_imp_le_length)

lemma swap16_eq_iff [simp]: "swap16 v = swap16 w \<longleftrightarrow> v = w"
  using swap16_swap16 by metis

lemma be16_bounds: "0 \<le> be16 h l" "be16 h l < 65536"
  using uint_lt2p [of h] uint_lt2p [of l] by (simp_all add: be16_def)

lemma be16_div_mod: "be16 h l div 256 = uint h" "be16 h l mod 256 = uint l"
  using uint_lt2p [of l] uint_ge_0 [of l] by (simp_all add: be16_def)

lemma be16_inject: "be16 h l = be16 h' l' \<longleftrightarrow> h = h' \<and> l = l'"
  by (metis be16_div_mod word_eq_iff_unsigned)

section \<open>Access to byte memories\<close>

definition rd8 :: "mem \<Rightarrow> nat \<Rightarrow> u8 option" where
  "rd8 m i = (if i < length m then Some (m ! i) else None)"

definition wr8 :: "mem \<Rightarrow> nat \<Rightarrow> u8 \<Rightarrow> mem option" where
  "wr8 m i b = (if i < length m then Some (m[i := b]) else None)"

text \<open>\<open>memmove\<close> and \<open>memcpy\<close> are a block read from the source followed by a block write.\<close>

definition rd_block :: "mem \<Rightarrow> nat \<Rightarrow> nat \<Rightarrow> mem option" where
  "rd_block m i n = (if i + n \<le> length m then Some (take n (drop i m)) else None)"

definition overlay :: "'a list \<Rightarrow> nat \<Rightarrow> 'a list \<Rightarrow> 'a list" where
  "overlay m i bs = take i m @ bs @ drop (i + length bs) m"

definition wr_block :: "mem \<Rightarrow> nat \<Rightarrow> mem \<Rightarrow> mem option" where
  "wr_block m i bs = (if i + length bs \<le> length m then Some (overlay m i bs) else None)"

text \<open>The same where offsets and sizes are C integers; a negative one is a fault.\<close>

definition rd_blk :: "mem \<Rightarrow> int \<Rightarrow> int \<Rightarrow> mem option" where
  "rd_blk m i n = (if 0 \<le> i \<and> 0 \<le> n then rd_block m (nat i) (nat n) else None)"

definition wr_blk :: "mem \<Rightarrow> int \<Rightarrow> mem \<Rightarrow> mem option" where
  "wr_blk m i bs = (if 0 \<le> i then wr_block m (nat i) bs else None)"

text \<open>A \<open>uint16_t\<close> read or written through a pointer cast: the target is little-endian.\<close>

definition rd16 :: "mem \<Rightarrow> nat \<Rightarrow> u16 option" where
  "rd16 m i = do { lo \<leftarrow> rd8 m i; hi \<leftarrow> rd8 m (i + 1); Some (join16 hi lo) }"

definition wr16 :: "mem \<Rightarrow> nat \<Rightarrow> u16 \<Rightarrow> mem option" where
  "wr16 m i w = do { m \<leftarrow> wr8 m i (lo8 w); wr8 m (i + 1) (hi8 w) }"

lemma rd8_in [no_fault]: "i < length m \<Longrightarrow> rd8 m i = Some (m ! i)"
  by (simp add: rd8_def)

lemma wr8_in [no_fault]: "i < length m \<Longrightarrow> wr8 m i b = Some (m[i := b])"
  by (simp add: wr8_def)

lemma rd_block_in [no_fault]: "i + n \<le> length m \<Longrightarrow> rd_block m i n = Some (take n (drop i m))"
  by (simp add: rd_block_def)

lemma wr_block_in [no_fault]: "i + length bs \<le> length m \<Longrightarrow> wr_block m i bs = Some (overlay m i bs)"
  by (simp add: wr_block_def)

lemma rd_blk_in [no_fault]:
  "0 \<le> i \<Longrightarrow> 0 \<le> n \<Longrightarrow> nat i + nat n \<le> length m \<Longrightarrow> rd_blk m i n = Some (take (nat n) (drop (nat i) m))"
  by (simp add: rd_blk_def rd_block_def)

lemma wr_blk_in [no_fault]:
  "0 \<le> i \<Longrightarrow> nat i + length bs \<le> length m \<Longrightarrow> wr_blk m i bs = Some (overlay m (nat i) bs)"
  by (simp add: wr_blk_def wr_block_def)

lemma rd16_in [no_fault]:
  "i + 1 < length m \<Longrightarrow> rd16 m i = Some (join16 (m ! (i + 1)) (m ! i))"
  by (simp add: rd16_def rd8_def)

lemma wr16_in [no_fault]:
  "i + 1 < length m \<Longrightarrow> wr16 m i w = Some (m[i := lo8 w, i + 1 := hi8 w])"
  by (simp add: wr16_def wr8_def)

lemma wr8_Some [mem_simps]: "wr8 m i b = Some m' \<longleftrightarrow> i < length m \<and> m' = m[i := b]"
  by (auto simp: wr8_def)

lemma rd8_Some [mem_simps]: "rd8 m i = Some b \<longleftrightarrow> i < length m \<and> b = m ! i"
  by (auto simp: rd8_def)

lemma rd_block_Some [mem_simps]:
  "rd_block m i n = Some bs \<longleftrightarrow> i + n \<le> length m \<and> bs = take n (drop i m)"
  by (auto simp: rd_block_def)

lemma wr_block_Some [mem_simps]:
  "wr_block m i bs = Some m' \<longleftrightarrow> i + length bs \<le> length m \<and> m' = overlay m i bs"
  by (auto simp: wr_block_def)

lemma length_overlay [simp]: "i + length bs \<le> length m \<Longrightarrow> length (overlay m i bs) = length m"
  by (simp add: overlay_def)

lemma overlay_Nil [simp]: "overlay m i [] = m"
  by (simp add: overlay_def)

lemma overlay_overlay:
  "i + length bs + length cs \<le> length m \<Longrightarrow>
     overlay (overlay m i bs) (i + length bs) cs = overlay m i (bs @ cs)"
  by (simp add: overlay_def ac_simps)

lemma take_overlay [mem_simps]:
  "i + length bs \<le> length m \<Longrightarrow> take (i + length bs) (overlay m i bs) = take i m @ bs"
  by (simp add: overlay_def)

lemma take_overlay_0 [mem_simps]: "length bs \<le> length m \<Longrightarrow> take (length bs) (overlay m 0 bs) = bs"
  by (simp add: overlay_def)

lemma nth_overlay:
  "i + length bs \<le> length m \<Longrightarrow> j < length m \<Longrightarrow>
     overlay m i bs ! j = (if i \<le> j \<and> j < i + length bs then bs ! (j - i) else m ! j)"
  by (auto simp: overlay_def nth_append)

lemma rd_block_overlay:
  "i + length bs \<le> length m \<Longrightarrow> rd_block (overlay m i bs) i (length bs) = Some bs"
  by (simp add: rd_block_def) (simp add: overlay_def)

lemma rd16_wr16: "i + 1 < length m \<Longrightarrow> (wr16 m i w \<bind> (\<lambda>m. rd16 m i)) = Some w"
  by (simp add: no_fault)

section \<open>Generic lemmas\<close>

lemma xor_cancel [simp]:
  fixes a b c :: "'a::len word"
  shows "a XOR b = a XOR c \<longleftrightarrow> b = c" and "b XOR a = c XOR a \<longleftrightarrow> b = c"
  by (metis xor.assoc xor.left_neutral xor.right_neutral xor_self_eq)+

lemma unat_ucast_8_16 [simp]: "unat (ucast (b :: u8) :: u16) = unat b"
  using unsigned_less [of b, where 'a = nat]
  by (simp add: unsigned_ucast_eq take_bit_nat_eq_self_iff)

lemma uint_ucast_8_16 [simp]: "uint (ucast (b :: u8) :: u16) = uint b"
  using unsigned_less [of b, where 'a = int]
  by (simp add: unsigned_ucast_eq take_bit_int_eq_self_iff)

lemma bind_SomeE:
  assumes "Option.bind x f = Some y"
  obtains a where "x = Some a" "f a = Some y"
  using assms by (cases x) auto

lemma uint8_bounds: "0 \<le> uint (b :: u8)" "uint (b :: u8) < 256" "uint (b :: u8) \<le> 255"
  using uint_lt2p [of b] by simp_all

lemma unat8_bounds: "unat (b :: u8) < 256" "unat (b :: u8) \<le> 255"
  using unsigned_less [of b, where 'a = nat] by simp_all

lemma unat16_bounds: "unat (w :: u16) < 65536"
  using unsigned_less [of w, where 'a = nat] by simp

lemma uint16_bounds: "0 \<le> uint (w :: u16)" "uint (w :: u16) < 65536"
  using uint_lt2p [of w] by simp_all

lemma take_drop_join: "take n xs @ take m (drop n xs) = take (n + m) xs"
  by (simp add: take_add)

text \<open>Arrays of any type indexed by a C \<open>int\<close>; a negative index is a fault.\<close>

definition rd_at :: "'a list \<Rightarrow> int \<Rightarrow> 'a option" where
  "rd_at xs i = (if 0 \<le> i \<and> nat i < length xs then Some (xs ! nat i) else None)"

definition wr_at :: "'a list \<Rightarrow> int \<Rightarrow> 'a \<Rightarrow> 'a list option" where
  "wr_at xs i x = (if 0 \<le> i \<and> nat i < length xs then Some (xs[nat i := x]) else None)"

lemma rd_at_in [no_fault]: "0 \<le> i \<Longrightarrow> nat i < length xs \<Longrightarrow> rd_at xs i = Some (xs ! nat i)"
  by (simp add: rd_at_def)

lemma wr_at_in [no_fault]: "0 \<le> i \<Longrightarrow> nat i < length xs \<Longrightarrow> wr_at xs i x = Some (xs[nat i := x])"
  by (simp add: wr_at_def)

lemma ceil_div_8: "n div 8 + (if n mod 8 \<noteq> 0 then 1 else 0) = (n + 7) div (8 :: int)"
proof -
  have "(n + 7) div 8 = n div 8 + (n mod 8 + 7) div 8"
    using div_mult_self1 [of 8 "n mod 8 + 7" "n div 8"] by (simp add: add.commute)
  also have "(n mod 8 + 7) div 8 = (if n mod 8 \<noteq> 0 then 1 else 0)"
    using pos_mod_bound [of 8 n] pos_mod_sign [of 8 n] by (auto simp: div_pos_pos_trivial intro: int_div_pos_eq)
  finally show ?thesis by simp
qed

section \<open>Counting loops\<close>

text \<open>
  A C \<open>for\<close> loop over a range of indices: the body runs once for each index and fails
  with the first body that fails.
\<close>

fun for_each :: "'i list \<Rightarrow> ('i \<Rightarrow> 's \<Rightarrow> 's option) \<Rightarrow> 's \<Rightarrow> 's option" where
  "for_each [] f s = Some s"
| "for_each (i # is) f s = do { s \<leftarrow> f i s; for_each is f s }"

lemma for_each_append: "for_each (xs @ ys) f s = do { s \<leftarrow> for_each xs f s; for_each ys f s }"
proof (induction xs arbitrary: s)
  case (Cons x xs)
  then show ?case by (cases "f x s") simp_all
qed simp

text \<open>The loop rule: a relation between the index and the state that every body keeps.\<close>

lemma for_each_upt:
  assumes "P m s" and "m \<le> n"
    and "\<And>i s. m \<le> i \<Longrightarrow> i < n \<Longrightarrow> P i s \<Longrightarrow> \<exists>s'. f i s = Some s' \<and> P (Suc i) s'"
  shows "\<exists>s'. for_each [m..<n] f s = Some s' \<and> P n s'"
  using assms(2,1,3)
proof (induction n rule: dec_induct)
  case (step n)
  then obtain s' where "for_each [m..<n] f s = Some s'" "P n s'" by auto
  moreover from this step obtain s'' where "f n s' = Some s''" "P (Suc n) s''" by auto
  ultimately show ?case using step by (simp add: for_each_append)
qed simp

end
