(* ===== verification/Net_Calls.thy ===== *)
theory Net_Calls
  imports Neuron_Prelude
begin

text \<open>
  The system calls of \<open>libmodbus\<close>, as functions over an arbitrary state \<open>'w\<close> of the outside
  world. A call returns its result, the \<open>errno\<close> it sets when the result is an error, and the
  new state. Nothing is assumed of them here.
\<close>

type_synonym timeval = "int \<times> int"

text \<open>
  \<open>net_select fd tv w\<close> waits for \<open>fd\<close> to become readable and also returns what it leaves
  in the \<open>timeval\<close> (on Linux the time that is left), \<open>net_select_write\<close> for \<open>fd\<close> to become writable;
  \<open>net_recv fd n dontwait w\<close> also returns the bytes it stored. \<open>net_nanosleep\<close> returns the
  remaining time. An address is what \<open>bind\<close> and \<open>connect\<close> take, and what \<open>getaddrinfo\<close>
  lists, of a type of its own.
\<close>

record ('a, 'w) net =
  net_nanosleep :: "timeval \<Rightarrow> 'w \<Rightarrow> int \<times> timeval \<times> int \<times> 'w"
  net_select :: "int \<Rightarrow> timeval option \<Rightarrow> 'w \<Rightarrow> int \<times> timeval \<times> int \<times> 'w"
  net_select_write :: "int \<Rightarrow> timeval \<Rightarrow> 'w \<Rightarrow> int \<times> int \<times> 'w"
  net_recv :: "int \<Rightarrow> nat \<Rightarrow> bool \<Rightarrow> 'w \<Rightarrow> int \<times> u8 list \<times> int \<times> 'w"
  net_send :: "int \<Rightarrow> u8 list \<Rightarrow> 'w \<Rightarrow> int \<times> int \<times> 'w"
  net_socket :: "int \<Rightarrow> int \<Rightarrow> int \<Rightarrow> 'w \<Rightarrow> int \<times> int \<times> 'w"
  net_setsockopt :: "int \<Rightarrow> int \<Rightarrow> int \<Rightarrow> int \<Rightarrow> 'w \<Rightarrow> int \<times> int \<times> 'w"
  net_so_error :: "int \<Rightarrow> 'w \<Rightarrow> int \<times> int \<times> int \<times> 'w"
  net_connect :: "int \<Rightarrow> 'a \<Rightarrow> 'w \<Rightarrow> int \<times> int \<times> 'w"
  net_bind :: "int \<Rightarrow> 'a \<Rightarrow> 'w \<Rightarrow> int \<times> int \<times> 'w"
  net_listen :: "int \<Rightarrow> int \<Rightarrow> 'w \<Rightarrow> int \<times> int \<times> 'w"
  net_accept :: "int \<Rightarrow> 'w \<Rightarrow> int \<times> int \<times> 'w"
  net_shutdown :: "int \<Rightarrow> 'w \<Rightarrow> 'w"
  net_close :: "int \<Rightarrow> 'w \<Rightarrow> 'w"

definition EINTR :: int where "EINTR = 4"
definition EBADF :: int where "EBADF = 9"
definition EINVAL :: int where "EINVAL = 22"
definition EPIPE :: int where "EPIPE = 32"
definition ENOPROTOOPT :: int where "ENOPROTOOPT = 92"
definition ECONNRESET :: int where "ECONNRESET = 104"
definition ETIMEDOUT :: int where "ETIMEDOUT = 110"
definition ECONNREFUSED :: int where "ECONNREFUSED = 111"
definition EINPROGRESS :: int where "EINPROGRESS = 115"

end
