(* ===== verification/Modbus_Data.thy ===== *)
theory Modbus_Data
  imports Neuron_Prelude
begin

text \<open>
  \<open>libmodbus-master/src/modbus-data.c\<close> and the bit packing loops of \<open>modbus.c\<close>: bits and
  floats in bytes and registers. A \<open>float\<close> is its 32-bit pattern, which is all the code
  copies. The byte order of the host is the argument \<open>big\<close> of \<open>ntohl\<close> and \<open>htonl\<close>.
\<close>

section \<open>Bits and bytes\<close>

definition bit_of :: "u8 \<Rightarrow> nat \<Rightarrow> u8" where
  "bit_of v i = (if bit v i then 1 else 0)"

definition modbus_set_bits_from_byte :: "mem \<Rightarrow> int \<Rightarrow> u8 \<Rightarrow> mem option" where
  "modbus_set_bits_from_byte dest idx v =
     for_each [0..<8] (\<lambda>i dest. wr_at dest (idx + int i) (bit_of v i)) dest"

text \<open>
  The index \<open>idx\<close> is not negative here, as all callers make sure; \<open>tab\<close> is read from
  position \<open>off\<close>. The loop keeps the destination and \<open>shift\<close>.
\<close>

definition modbus_set_bits_from_bytes :: "mem \<Rightarrow> nat \<Rightarrow> nat \<Rightarrow> mem \<Rightarrow> nat \<Rightarrow> mem option" where
  "modbus_set_bits_from_bytes dest idx nb_bits tab off =
     map_option fst (for_each [0..<nb_bits] (\<lambda>i (dest, shift).
       do { b \<leftarrow> rd8 tab (off + i div 8);
            dest \<leftarrow> wr8 dest (idx + i) (bit_of b shift);
            Some (dest, (shift + 1) mod 8) }) (dest, 0))"

text \<open>With assertions compiled in, more than eight bits abort the program.\<close>

definition modbus_get_byte_from_bits :: "bool \<Rightarrow> mem \<Rightarrow> int \<Rightarrow> nat \<Rightarrow> u8 option" where
  "modbus_get_byte_from_bits ndebug src idx nb_bits =
     (if 8 < nb_bits \<and> \<not> ndebug then None
      else let nb_bits = (if 8 < nb_bits then 8 else nb_bits) in
        for_each [0..<nb_bits] (\<lambda>i v.
          do { s \<leftarrow> rd_at src (idx + int i); Some (v OR push_bit i s) }) 0)"

section \<open>Floats and registers\<close>

definition bswap_16 :: "u16 \<Rightarrow> u16" where
  "bswap_16 x = drop_bit 8 x OR push_bit 8 x"

definition bswap_32 :: "u32 \<Rightarrow> u32" where
  "bswap_32 x = push_bit 16 (ucast (bswap_16 (ucast (x AND 0xffff)))) OR
     ucast (bswap_16 (ucast (drop_bit 16 x)))"

definition ntohl :: "bool \<Rightarrow> u32 \<Rightarrow> u32" where
  "ntohl big x = (if big then x else bswap_32 x)"

text \<open>\<open>(a << 16) + b\<close>\<close>

definition join32 :: "u16 \<Rightarrow> u16 \<Rightarrow> u32" where
  "join32 a b = push_bit 16 (ucast a) + ucast b"

definition get_float_regs :: "(u16 \<Rightarrow> u16 \<Rightarrow> u32) \<Rightarrow> u16 list \<Rightarrow> u32 option" where
  "get_float_regs f src = do { a \<leftarrow> rd_at src 0; b \<leftarrow> rd_at src 1; Some (f a b) }"

definition set_float_regs :: "u16 \<Rightarrow> u16 \<Rightarrow> u16 list \<Rightarrow> u16 list option" where
  "set_float_regs a b dest = do { dest \<leftarrow> wr_at dest 0 a; wr_at dest 1 b }"

definition modbus_get_float_abcd :: "bool \<Rightarrow> u16 list \<Rightarrow> u32 option" where
  "modbus_get_float_abcd big = get_float_regs (\<lambda>a b. ntohl big (join32 a b))"

definition modbus_get_float_dcba :: "bool \<Rightarrow> u16 list \<Rightarrow> u32 option" where
  "modbus_get_float_dcba big = get_float_regs (\<lambda>a b. ntohl big (bswap_32 (join32 a b)))"

definition modbus_get_float_badc :: "bool \<Rightarrow> u16 list \<Rightarrow> u32 option" where
  "modbus_get_float_badc big = get_float_regs (\<lambda>a b. ntohl big (join32 (bswap_16 a) (bswap_16 b)))"

definition modbus_get_float_cdab :: "bool \<Rightarrow> u16 list \<Rightarrow> u32 option" where
  "modbus_get_float_cdab big = get_float_regs (\<lambda>a b. ntohl big (join32 b a))"

definition modbus_get_float :: "u16 list \<Rightarrow> u32 option" where
  "modbus_get_float = get_float_regs (\<lambda>a b. join32 b a)"

definition modbus_set_float_abcd :: "bool \<Rightarrow> u32 \<Rightarrow> u16 list \<Rightarrow> u16 list option" where
  "modbus_set_float_abcd big f =
     (let i = ntohl big f in set_float_regs (ucast (drop_bit 16 i)) (ucast i))"

definition modbus_set_float_dcba :: "bool \<Rightarrow> u32 \<Rightarrow> u16 list \<Rightarrow> u16 list option" where
  "modbus_set_float_dcba big f =
     (let i = bswap_32 (ntohl big f) in set_float_regs (ucast (drop_bit 16 i)) (ucast i))"

definition modbus_set_float_badc :: "bool \<Rightarrow> u32 \<Rightarrow> u16 list \<Rightarrow> u16 list option" where
  "modbus_set_float_badc big f =
     (let i = ntohl big f in
      set_float_regs (bswap_16 (ucast (drop_bit 16 i))) (bswap_16 (ucast (i AND 0xFFFF))))"

definition modbus_set_float_cdab :: "bool \<Rightarrow> u32 \<Rightarrow> u16 list \<Rightarrow> u16 list option" where
  "modbus_set_float_cdab big f =
     (let i = ntohl big f in set_float_regs (ucast i) (ucast (drop_bit 16 i)))"

definition modbus_set_float :: "u32 \<Rightarrow> u16 list \<Rightarrow> u16 list option" where
  "modbus_set_float f = set_float_regs (ucast f) (ucast (drop_bit 16 f))"

section \<open>Byte order\<close>

lemma bswap_16_swap16: "bswap_16 = swap16"
  by (rule ext) (simp add: bswap_16_def swap16_def or.commute)

definition hi16 :: "u32 \<Rightarrow> u16" where "hi16 w = ucast (drop_bit 16 w)"
definition lo16 :: "u32 \<Rightarrow> u16" where "lo16 w = ucast w"

lemma join32_or: "join32 a b = push_bit 16 (ucast a) OR ucast b"
  unfolding join32_def
  by (rule disjunctive_add_eq_or)
    (rule bit_word_eqI, auto simp: bit_simps dest: bit_imp_le_length)

lemma hi16_join32 [simp]: "hi16 (join32 a b) = a"
  unfolding join32_or hi16_def
  by (rule bit_word_eqI) (auto simp: bit_simps dest: bit_imp_le_length)

lemma lo16_join32 [simp]: "lo16 (join32 a b) = b"
  unfolding join32_or lo16_def by (rule bit_word_eqI) (auto simp: bit_simps)

lemma join32_hi_lo [simp]: "join32 (hi16 w) (lo16 w) = w"
  unfolding join32_or hi16_def lo16_def by (rule bit_word_eqI) (auto simp: bit_simps)

lemma low_half [simp]: "lo16 (w AND 0xFFFF) = lo16 w"
proof -
  have mask: "(0xFFFF :: u32) = mask 16" by (simp add: mask_eq_exp_minus_1)
  show ?thesis unfolding mask lo16_def by (rule bit_word_eqI) (auto simp: bit_simps)
qed

lemma halves: "(ucast w :: u16) = lo16 w" "lo16 (drop_bit 16 w) = hi16 w"
  by (simp_all add: hi16_def lo16_def)

lemma bswap_32_join32: "bswap_32 w = join32 (swap16 (lo16 w)) (swap16 (hi16 w))"
  by (simp add: bswap_32_def join32_or bswap_16_swap16 halves)

lemma bswap_32_twice [simp]: "bswap_32 (bswap_32 w) = w"
  by (simp add: bswap_32_join32)

lemma ntohl_twice [simp]: "ntohl big (ntohl big w) = w"
  by (simp add: ntohl_def)

text \<open>The setters in terms of the two halves of the converted value.\<close>

lemmas set_float_defs = modbus_set_float_abcd_def modbus_set_float_dcba_def modbus_set_float_badc_def
  modbus_set_float_cdab_def modbus_set_float_def
lemmas get_float_defs = modbus_get_float_abcd_def modbus_get_float_dcba_def modbus_get_float_badc_def
  modbus_get_float_cdab_def modbus_get_float_def

lemma set_get_regs:
  assumes "2 \<le> length dest"
  shows "(set_float_regs a b dest \<bind> get_float_regs f) = Some (f a b)"
  using assms by (cases dest; cases "tl dest")
    (auto simp: set_float_regs_def get_float_regs_def rd_at_def wr_at_def)

text \<open>
  C39. In each of the five register formats, on hosts of both byte orders, the getter reads
  back exactly the float that the setter stored.
\<close>

theorem float_round_trip:
  assumes "2 \<le> length dest"
  shows "(modbus_set_float_abcd big f dest \<bind> modbus_get_float_abcd big) = Some f \<and>
         (modbus_set_float_dcba big f dest \<bind> modbus_get_float_dcba big) = Some f \<and>
         (modbus_set_float_badc big f dest \<bind> modbus_get_float_badc big) = Some f \<and>
         (modbus_set_float_cdab big f dest \<bind> modbus_get_float_cdab big) = Some f \<and>
         (modbus_set_float f dest \<bind> modbus_get_float) = Some f"
  using assms
  by (simp add: set_float_defs get_float_defs set_get_regs Let_def halves bswap_16_swap16)

theorem float_round_trip_witness:
  "(modbus_set_float_abcd False 0x47F12000 [0, 0] \<bind> modbus_get_float_abcd False) = Some 0x47F12000"
  using float_round_trip [of "[0, 0]" False "0x47F12000"] by simp

text \<open>
  The registers depend on the host: what a little-endian host stores with
  \<open>modbus_set_float_abcd\<close> is what a big-endian host stores with \<open>modbus_set_float_dcba\<close>,
  the reverse of the order the name promises.
\<close>

theorem float_abcd_host_order:
  "modbus_set_float_abcd False f dest = modbus_set_float_dcba True f dest"
  by (simp add: set_float_defs ntohl_def)

section \<open>Packing bits\<close>

lemma overlay_snoc:
  assumes "i + length bs < length m"
  shows "(overlay m i bs)[i + length bs := b] = overlay m i (bs @ [b])"
proof -
  have "drop (i + length bs) m = m ! (i + length bs) # drop (Suc (i + length bs)) m"
    using assms by (simp add: Cons_nth_drop_Suc)
  then show ?thesis using assms by (simp add: overlay_def list_update_append)
qed

lemma overlay_single: "i < length m \<Longrightarrow> overlay m i [b] = m[i := b]"
  by (simp add: overlay_def upd_conv_take_nth_drop)

lemma modbus_set_bits_from_bytes_spec:
  assumes "idx + nb \<le> length dest" and "off + (nb + 7) div 8 \<le> length tab"
  shows "modbus_set_bits_from_bytes dest idx nb tab off =
     Some (overlay dest idx (map (\<lambda>i. bit_of (tab ! (off + i div 8)) (i mod 8)) [0..<nb]))"
proof -
  let ?v = "\<lambda>n. map (\<lambda>i. bit_of (tab ! (off + i div 8)) (i mod 8)) [0..<n]"
  let ?P = "\<lambda>n s. s = (overlay dest idx (?v n), n mod 8)"
  let ?f = "\<lambda>i (d, shift). do { b \<leftarrow> rd8 tab (off + i div 8);
            d \<leftarrow> wr8 d (idx + i) (bit_of b shift); Some (d, (shift + 1) mod 8) }"
  have "\<exists>s. for_each [0..<nb] ?f (dest, 0) = Some s \<and> ?P nb s"
  proof (rule for_each_upt)
    fix i and s :: "mem \<times> nat" assume i: "i < nb" and s: "?P i s"
    have "off + i div 8 < length tab" using assms(2) i by linarith
    moreover have "(overlay dest idx (?v i))[idx + i := b] = overlay dest idx (?v i @ [b])" for b
      using overlay_snoc [of idx "?v i" dest b] i assms(1) by simp
    ultimately show "\<exists>s'. ?f i s = Some s' \<and> ?P (Suc i) s'"
      using s i assms(1) by (simp add: no_fault mod_Suc_eq)
  qed simp_all
  then show ?thesis by (auto simp: modbus_set_bits_from_bytes_def)
qed

lemma modbus_set_bits_from_byte_spec:
  assumes "idx + 8 \<le> length dest"
  shows "modbus_set_bits_from_byte dest (int idx) v = Some (overlay dest idx (map (bit_of v) [0..<8]))"
proof -
  let ?P = "\<lambda>n d. d = overlay dest idx (map (bit_of v) [0..<n])"
  have "\<exists>d. for_each [0..<8] (\<lambda>i d. wr_at d (int idx + int i) (bit_of v i)) dest = Some d \<and> ?P 8 d"
  proof (rule for_each_upt)
    fix i d assume i: "i < (8::nat)" and d: "?P i d"
    have "d[idx + i := bit_of v i] = overlay dest idx (map (bit_of v) [0..<i] @ [bit_of v i])"
      using overlay_snoc [of idx "map (bit_of v) [0..<i]" dest "bit_of v i"] i d assms by simp
    then show "\<exists>d'. wr_at d (int idx + int i) (bit_of v i) = Some d' \<and> ?P (Suc i) d'"
      using i d assms by (simp add: no_fault nat_add_distrib)
  qed simp_all
  then show ?thesis by (auto simp: modbus_set_bits_from_byte_def)
qed

lemma take_bit_or_bit: "take_bit i v OR push_bit i (bit_of v i) = take_bit (Suc i) v"
  by (rule bit_word_eqI) (auto simp: bit_of_def bit_simps less_Suc_eq)

lemma modbus_get_byte_from_bits_spec:
  assumes "n \<le> 8" and "idx + n \<le> length src" and "\<And>i. i < n \<Longrightarrow> src ! (idx + i) = bit_of v i"
  shows "modbus_get_byte_from_bits ndebug src (int idx) n = Some (take_bit n v)"
proof -
  let ?P = "\<lambda>i x. x = take_bit i v"
  have "\<exists>x. for_each [0..<n] (\<lambda>i v. do { s \<leftarrow> rd_at src (int idx + int i); Some (v OR push_bit i s) }) 0 =
      Some x \<and> ?P n x"
  proof (rule for_each_upt)
    fix i x assume "i < n" and "?P i x"
    then show "\<exists>x'. (do { s \<leftarrow> rd_at src (int idx + int i); Some (x OR push_bit i s) }) = Some x' \<and> ?P (Suc i) x'"
      using assms(2,3) by (simp add: no_fault nat_add_distrib take_bit_or_bit)
  qed simp_all
  then show ?thesis using assms(1) by (simp add: modbus_get_byte_from_bits_def)
qed

text \<open>
  A byte spread over eight array elements by \<open>modbus_set_bits_from_byte\<close> is read back by
  \<open>modbus_get_byte_from_bits\<close>; of fewer than eight bits, the low ones are.
\<close>

theorem byte_bits_round_trip:
  assumes "idx + 8 \<le> length dest" and "n \<le> 8"
  shows "(modbus_set_bits_from_byte dest (int idx) v \<bind>
           (\<lambda>d. modbus_get_byte_from_bits ndebug d (int idx) n)) = Some (take_bit n v)"
proof -
  have "overlay dest idx (map (bit_of v) [0..<8]) ! (idx + i) = bit_of v i" if "i < n" for i
    using that assms by (simp add: nth_overlay)
  then show ?thesis
    using assms by (simp add: modbus_set_bits_from_byte_spec modbus_get_byte_from_bits_spec)
qed

theorem byte_bits_round_trip_witness:
  "(modbus_set_bits_from_byte (replicate 10 0) 1 0xA5 \<bind>
     (\<lambda>d. modbus_get_byte_from_bits True d 1 8)) = Some 0xA5"
  using byte_bits_round_trip [of 1 "replicate 10 0" 8 "0xA5" True] by simp

end
