(* ===== verification/Modbus_Core.thy ===== *)
theory Modbus_Core
  imports Net_Calls Modbus_Data "HOL-Library.Signed_Division"
begin

text \<open>
  \<open>libmodbus-master/src/modbus.c\<close> with \<open>modbus-private.h\<close>: the part of libmodbus that is
  common to its two transports. The table of function pointers \<open>modbus_backend_t\<close> is a
  record of functions, of which \<open>Modbus_Tcp\<close> and \<open>Modbus_Rtu\<close> define one each. Messages are
  built and read in buffers of 260 bytes, whose initial contents is an argument, since the C
  arrays are not initialised. Debug output is left out, and a context exists: the calls with
  a null context, which only set \<open>errno\<close>, are not modelled.
\<close>

section \<open>Constants, contexts and backends\<close>

definition MAX_MESSAGE_LENGTH :: nat where "MAX_MESSAGE_LENGTH = 260"
definition MODBUS_MAX_PDU_LENGTH :: int where "MODBUS_MAX_PDU_LENGTH = 253"
definition MODBUS_BROADCAST_ADDRESS :: int where "MODBUS_BROADCAST_ADDRESS = 0"
definition MODBUS_EXCEPTION_MAX :: int where "MODBUS_EXCEPTION_MAX = 12"
definition MODBUS_ENOBASE :: int where "MODBUS_ENOBASE = 112345678"
definition EMBBADCRC :: int where "EMBBADCRC = MODBUS_ENOBASE + 12"
definition EMBBADDATA :: int where "EMBBADDATA = MODBUS_ENOBASE + 13"
definition EMBBADEXC :: int where "EMBBADEXC = MODBUS_ENOBASE + 14"
definition EMBMDATA :: int where "EMBMDATA = MODBUS_ENOBASE + 16"
definition EMBBADSLAVE :: int where "EMBBADSLAVE = MODBUS_ENOBASE + 17"
definition MODBUS_ERROR_RECOVERY_NONE :: int where "MODBUS_ERROR_RECOVERY_NONE = 0"
definition MODBUS_ERROR_RECOVERY_LINK :: int where "MODBUS_ERROR_RECOVERY_LINK = 2"
definition MODBUS_ERROR_RECOVERY_PROTOCOL :: int where "MODBUS_ERROR_RECOVERY_PROTOCOL = 4"
definition MSG_LENGTH_UNDEFINED :: int where "MSG_LENGTH_UNDEFINED = -1"
definition RESPONSE_TIMEOUT :: int where "RESPONSE_TIMEOUT = 500000"
definition BYTE_TIMEOUT :: int where "BYTE_TIMEOUT = 500000"
definition MIN_REQ_LENGTH :: nat where "MIN_REQ_LENGTH = 12"
definition MAX_READ_BITS :: int where "MAX_READ_BITS = 2000"
definition MAX_WRITE_BITS :: int where "MAX_WRITE_BITS = 1968"
definition MAX_READ_REGISTERS :: int where "MAX_READ_REGISTERS = 125"
definition MAX_WRITE_REGISTERS :: int where "MAX_WRITE_REGISTERS = 123"
definition MAX_WR_WRITE_REGISTERS :: int where "MAX_WR_WRITE_REGISTERS = 121"
definition MAX_WR_READ_REGISTERS :: int where "MAX_WR_READ_REGISTERS = 125"

datatype msg_type = MSG_INDICATION | MSG_CONFIRMATION

datatype step_t = STEP_FUNCTION | STEP_META | STEP_DATA

record sft =
  sft_slave :: int
  sft_function :: int
  sft_t_id :: int

text \<open>\<open>modbus_t\<close>, with \<open>errno\<close> kept beside it; \<open>'d\<close> is the backend's own data.\<close>

record 'd modbus =
  mb_slave :: int
  mb_s :: int
  mb_debug :: int
  error_recovery :: int
  response_timeout :: timeval
  byte_timeout :: timeval
  backend_data :: 'd
  errno :: int

text \<open>
  \<open>be_receive\<close> is given the function \<open>_modbus_receive_msg\<close> that it calls back.
\<close>

type_synonym ('d, 'w) receiver = "mem \<Rightarrow> msg_type \<Rightarrow> 'd modbus \<Rightarrow> 'w \<Rightarrow> (int \<times> mem \<times> 'd modbus \<times> 'w) option"

record ('d, 'w) modbus_backend =
  backend_type :: nat
  header_length :: nat
  checksum_length :: nat
  max_adu_length :: nat
  be_set_slave :: "int \<Rightarrow> 'd modbus \<Rightarrow> int \<times> 'd modbus"
  be_build_request_basis :: "int \<Rightarrow> int \<Rightarrow> int \<Rightarrow> mem \<Rightarrow> 'd modbus \<Rightarrow> (nat \<times> mem \<times> 'd modbus) option"
  be_build_response_basis :: "sft \<Rightarrow> mem \<Rightarrow> (nat \<times> mem) option"
  be_prepare_response_tid :: "mem \<Rightarrow> nat \<Rightarrow> (int \<times> nat) option"
  be_send_msg_pre :: "mem \<Rightarrow> nat \<Rightarrow> (nat \<times> mem) option"
  be_send :: "u8 list \<Rightarrow> 'd modbus \<Rightarrow> 'w \<Rightarrow> int \<times> 'd modbus \<times> 'w"
  be_receive :: "('d, 'w) receiver \<Rightarrow> mem \<Rightarrow> 'd modbus \<Rightarrow> 'w \<Rightarrow> (int \<times> mem \<times> 'd modbus \<times> 'w) option"
  be_recv :: "nat \<Rightarrow> 'd modbus \<Rightarrow> 'w \<Rightarrow> int \<times> u8 list \<times> 'd modbus \<times> 'w"
  be_check_integrity :: "mem \<Rightarrow> nat \<Rightarrow> 'd modbus \<Rightarrow> 'w \<Rightarrow> (int \<times> 'd modbus \<times> 'w) option"
  be_pre_check_confirmation :: "mem \<Rightarrow> mem \<Rightarrow> int \<Rightarrow> 'd modbus \<Rightarrow> (int \<times> 'd modbus) option"
  be_connect :: "'d modbus \<Rightarrow> 'w \<Rightarrow> int \<times> 'd modbus \<times> 'w"
  be_close :: "'d modbus \<Rightarrow> 'w \<Rightarrow> 'd modbus \<times> 'w"
  be_flush :: "'d modbus \<Rightarrow> 'w \<Rightarrow> (int \<times> 'd modbus \<times> 'w) option"
  be_select :: "timeval option \<Rightarrow> nat \<Rightarrow> 'd modbus \<Rightarrow> 'w \<Rightarrow> (int \<times> timeval option \<times> 'd modbus \<times> 'w) option"

definition link_recovery :: "'d modbus \<Rightarrow> bool" where
  "link_recovery ctx \<longleftrightarrow> error_recovery ctx AND MODBUS_ERROR_RECOVERY_LINK \<noteq> 0"

definition protocol_recovery :: "'d modbus \<Rightarrow> bool" where
  "protocol_recovery ctx \<longleftrightarrow> error_recovery ctx AND MODBUS_ERROR_RECOVERY_PROTOCOL \<noteq> 0"

section \<open>Sleeping and sending\<close>

partial_function (option) nanosleep_retry :: "('a, 'w) net \<Rightarrow> timeval \<Rightarrow> int \<Rightarrow> 'w \<Rightarrow> (int \<times> 'w) option" where
  "nanosleep_retry net request err w =
     (case net_nanosleep net request w of (rc, remaining, err', w) \<Rightarrow>
        if rc = -1 \<and> err' = EINTR then nanosleep_retry net remaining err' w
        else Some (if rc = -1 then err' else err, w))"

definition sleep_response_timeout ::
  "('a, 'w) net \<Rightarrow> 'd modbus \<Rightarrow> 'w \<Rightarrow> ('d modbus \<times> 'w) option" where
  "sleep_response_timeout net ctx w =
     (let (sec, usec) = response_timeout ctx in
      do { (err, w) \<leftarrow> nanosleep_retry net (sec, usec * 1000) (errno ctx) w;
           Some (ctx\<lparr>errno := err\<rparr>, w) })"

text \<open>\<open>modbus_flush\<close>, \<open>modbus_connect\<close> and \<open>modbus_close\<close>.\<close>

definition modbus_flush ::
  "('d, 'w) modbus_backend \<Rightarrow> 'd modbus \<Rightarrow> 'w \<Rightarrow> (int \<times> 'd modbus \<times> 'w) option" where
  "modbus_flush be ctx w = be_flush be ctx w"

definition modbus_connect ::
  "('d, 'w) modbus_backend \<Rightarrow> 'd modbus \<Rightarrow> 'w \<Rightarrow> int \<times> 'd modbus \<times> 'w" where
  "modbus_connect be ctx w = be_connect be ctx w"

definition modbus_close ::
  "('d, 'w) modbus_backend \<Rightarrow> 'd modbus \<Rightarrow> 'w \<Rightarrow> 'd modbus \<times> 'w" where
  "modbus_close be ctx w = be_close be ctx w"

definition sleep_and_flush ::
  "('a, 'w) net \<Rightarrow> ('d, 'w) modbus_backend \<Rightarrow> 'd modbus \<Rightarrow> 'w \<Rightarrow> ('d modbus \<times> 'w) option" where
  "sleep_and_flush net be ctx w =
     do { (ctx, w) \<leftarrow> sleep_response_timeout net ctx w;
          (_, ctx, w) \<leftarrow> modbus_flush be ctx w;
          Some (ctx, w) }"

definition close_and_connect ::
  "('d, 'w) modbus_backend \<Rightarrow> 'd modbus \<Rightarrow> 'w \<Rightarrow> 'd modbus \<times> 'w" where
  "close_and_connect be ctx w =
     (let (ctx, w) = modbus_close be ctx w; (_, ctx, w) = modbus_connect be ctx w in (ctx, w))"

text \<open>What the recovery mode does after a failed send, before the next try.\<close>

definition recover_send ::
  "('a, 'w) net \<Rightarrow> ('d, 'w) modbus_backend \<Rightarrow> 'd modbus \<Rightarrow> 'w \<Rightarrow> ('d modbus \<times> 'w) option" where
  "recover_send net be ctx w =
     (let saved_errno = errno ctx in
      do { (ctx, w) \<leftarrow>
             (if saved_errno = EBADF \<or> saved_errno = ECONNRESET \<or> saved_errno = EPIPE then
                let (ctx, w) = modbus_close be ctx w in
                do { (ctx, w) \<leftarrow> sleep_response_timeout net ctx w;
                     let (_, ctx, w) = modbus_connect be ctx w; Some (ctx, w) }
              else sleep_and_flush net be ctx w);
           Some (ctx\<lparr>errno := saved_errno\<rparr>, w) })"

partial_function (option) send_loop ::
  "('a, 'w) net \<Rightarrow> ('d, 'w) modbus_backend \<Rightarrow> u8 list \<Rightarrow> 'd modbus \<Rightarrow> 'w \<Rightarrow> (int \<times> 'd modbus \<times> 'w) option" where
  "send_loop net be bytes ctx w =
     (case be_send be bytes ctx w of (rc, ctx, w) \<Rightarrow>
        if rc = -1 \<and> link_recovery ctx then
          do { (ctx, w) \<leftarrow> recover_send net be ctx w; send_loop net be bytes ctx w }
        else Some (rc, ctx, w))"

definition send_msg ::
  "('a, 'w) net \<Rightarrow> ('d, 'w) modbus_backend \<Rightarrow> mem \<Rightarrow> nat \<Rightarrow> 'd modbus \<Rightarrow> 'w \<Rightarrow>
     (int \<times> mem \<times> 'd modbus \<times> 'w) option" where
  "send_msg net be msg msg_length ctx w =
     do { (msg_length, msg) \<leftarrow> be_send_msg_pre be msg msg_length;
          bytes \<leftarrow> rd_block msg 0 msg_length;
          (rc, ctx, w) \<leftarrow> send_loop net be bytes ctx w;
          if 0 < rc \<and> rc \<noteq> int msg_length then Some (-1, msg, ctx\<lparr>errno := EMBBADDATA\<rparr>, w)
          else Some (rc, msg, ctx, w) }"

definition modbus_send_raw_request ::
  "('a, 'w) net \<Rightarrow> ('d, 'w) modbus_backend \<Rightarrow> mem \<Rightarrow> int \<Rightarrow> mem \<Rightarrow> 'd modbus \<Rightarrow> 'w \<Rightarrow>
     (int \<times> 'd modbus \<times> 'w) option" where
  "modbus_send_raw_request net be raw_req raw_req_length req ctx w =
     (if raw_req_length < 2 \<or> MODBUS_MAX_PDU_LENGTH + 1 < raw_req_length then
        Some (-1, ctx\<lparr>errno := EINVAL\<rparr>, w)
      else do {
        s \<leftarrow> rd8 raw_req 0;
        f \<leftarrow> rd8 raw_req 1;
        (req_length, req) \<leftarrow> be_build_response_basis be
           \<lparr>sft_slave = uint s, sft_function = uint f, sft_t_id = 0\<rparr> req;
        rest \<leftarrow> rd_block raw_req 2 (nat raw_req_length - 2);
        req \<leftarrow> wr_block req req_length rest;
        (rc, _, ctx, w) \<leftarrow> send_msg net be req (req_length + length rest) ctx w;
        Some (rc, ctx, w) })"

section \<open>Lengths\<close>

text \<open>The 16-bit number at \<open>m[i]\<close> and \<open>m[i + 1]\<close>, most significant byte first.\<close>

definition rd_be16 :: "mem \<Rightarrow> nat \<Rightarrow> int option" where
  "rd_be16 m i = do { hi \<leftarrow> rd8 m i; lo \<leftarrow> rd8 m (i + 1); Some (be16 hi lo) }"

text \<open>\<open>(nb / 8) + ((nb % 8) ? 1 : 0)\<close>\<close>

definition byte_count :: "int \<Rightarrow> int" where
  "byte_count nb = nb sdiv 8 + (if nb smod 8 \<noteq> 0 then 1 else 0)"

lemma byte_count_nonneg: "0 \<le> nb \<Longrightarrow> byte_count nb = (nb + 7) div 8"
proof -
  assume "0 \<le> nb"
  then have "nb sdiv 8 = nb div 8" "nb smod 8 = nb mod 8"
    by (simp_all add: signed_divide_int_def signed_modulo_int_def sgn_if minus_div_mult_eq_mod)
  then show ?thesis by (simp only: byte_count_def ceil_div_8)
qed

definition compute_response_length_from_request :: "('d, 'w) modbus_backend \<Rightarrow> mem \<Rightarrow> int option" where
  "compute_response_length_from_request be req =
     (let offset = header_length be;
          result = (\<lambda>len. Some (int offset + len + int (checksum_length be))) in
      do { f \<leftarrow> rd8 req offset;
           if f = 0x01 \<or> f = 0x02 then do { nb \<leftarrow> rd_be16 req (offset + 3); result (2 + byte_count nb) }
           else if f = 0x17 \<or> f = 0x03 \<or> f = 0x04 then
             do { nb \<leftarrow> rd_be16 req (offset + 3); result (2 + 2 * nb) }
           else if f = 0x07 then result 3
           else if f = 0x11 then Some MSG_LENGTH_UNDEFINED
           else if f = 0x16 then result 7
           else result 5 })"

definition compute_meta_length_after_function :: "u8 \<Rightarrow> msg_type \<Rightarrow> nat" where
  "compute_meta_length_after_function f msg_type =
     (case msg_type of
        MSG_INDICATION \<Rightarrow>
          if f \<le> 0x06 then 4
          else if f = 0x0F \<or> f = 0x10 then 5
          else if f = 0x16 then 6
          else if f = 0x17 then 9
          else 0
      | MSG_CONFIRMATION \<Rightarrow>
          if f = 0x05 \<or> f = 0x06 \<or> f = 0x0F \<or> f = 0x10 then 4
          else if f = 0x16 then 6
          else 1)"

definition compute_data_length_after_meta ::
  "('d, 'w) modbus_backend \<Rightarrow> mem \<Rightarrow> msg_type \<Rightarrow> nat option" where
  "compute_data_length_after_meta be msg msg_type =
     (let offset = header_length be in
      do { f \<leftarrow> rd8 msg offset;
           len \<leftarrow> (case msg_type of
              MSG_INDICATION \<Rightarrow>
                if f = 0x0F \<or> f = 0x10 then map_option unat (rd8 msg (offset + 5))
                else if f = 0x17 then map_option unat (rd8 msg (offset + 9))
                else Some 0
            | MSG_CONFIRMATION \<Rightarrow>
                if f \<le> 0x04 \<or> f = 0x11 \<or> f = 0x17 then map_option unat (rd8 msg (offset + 1))
                else Some 0);
           Some (len + checksum_length be) })"

section \<open>Receiving a message\<close>

text \<open>
  The variables of the loop of \<open>_modbus_receive_msg\<close>. \<open>receive_step\<close> is one iteration: it
  ends the function with a result (\<open>Inl\<close>) or goes on (\<open>Inr\<close>). A transport that returns
  more bytes than it was asked for is outside the contract of \<open>recv\<close>; it is a fault here.
  \<open>rv_tv\<close> is \<open>*p_tv\<close>, which \<open>select\<close> may change, or \<open>None\<close> for a null pointer.
\<close>

record ('d, 'w) receive_state =
  rv_step :: step_t
  length_to_read :: nat
  msg_length :: nat
  rv_msg :: mem
  rv_tv :: "timeval option"
  rv_ctx :: "'d modbus"
  rv_w :: 'w

definition recover_select ::
  "('a, 'w) net \<Rightarrow> ('d, 'w) modbus_backend \<Rightarrow> 'd modbus \<Rightarrow> 'w \<Rightarrow> ('d modbus \<times> 'w) option" where
  "recover_select net be ctx w =
     (if link_recovery ctx then
        let saved_errno = errno ctx in
        do { (ctx, w) \<leftarrow>
               (if saved_errno = ETIMEDOUT then sleep_and_flush net be ctx w
                else if saved_errno = EBADF then Some (close_and_connect be ctx w)
                else Some (ctx, w));
             Some (ctx\<lparr>errno := saved_errno\<rparr>, w) }
      else Some (ctx, w))"

definition recover_recv :: "('d, 'w) modbus_backend \<Rightarrow> 'd modbus \<Rightarrow> 'w \<Rightarrow> 'd modbus \<times> 'w" where
  "recover_recv be ctx w =
     (let saved_errno = errno ctx in
      if link_recovery ctx \<and> (saved_errno = ECONNRESET \<or> saved_errno = ECONNREFUSED \<or> saved_errno = EBADF)
      then let (ctx, w) = close_and_connect be ctx w in (ctx\<lparr>errno := saved_errno\<rparr>, w)
      else (ctx, w))"

text \<open>The step after all bytes asked for have arrived; \<open>None\<close> for a message that is too long.\<close>

definition next_step ::
  "('d, 'w) modbus_backend \<Rightarrow> msg_type \<Rightarrow> mem \<Rightarrow> nat \<Rightarrow> step_t \<Rightarrow> (step_t \<times> nat) option option" where
  "next_step be msg_type msg len stp =
     (let meta = do { n \<leftarrow> compute_data_length_after_meta be msg msg_type;
                      Some (if max_adu_length be < len + n then None else Some (STEP_DATA, n)) } in
      case stp of
        STEP_FUNCTION \<Rightarrow>
          do { f \<leftarrow> rd8 msg (header_length be);
               let n = compute_meta_length_after_function f msg_type;
               if n \<noteq> 0 then Some (Some (STEP_META, n)) else meta }
      | STEP_META \<Rightarrow> meta
      | STEP_DATA \<Rightarrow> Some (Some (STEP_DATA, 0)))"

definition byte_timeout_set :: "'d modbus \<Rightarrow> bool" where
  "byte_timeout_set ctx \<longleftrightarrow> 0 < fst (byte_timeout ctx) \<or> 0 < snd (byte_timeout ctx)"

definition receive_step ::
  "('a, 'w) net \<Rightarrow> ('d, 'w) modbus_backend \<Rightarrow> msg_type \<Rightarrow> ('d, 'w) receive_state \<Rightarrow>
     ((int \<times> mem \<times> 'd modbus \<times> 'w) + ('d, 'w) receive_state) option" where
  "receive_step net be msg_type r =
     do { (rc, tv, ctx, w) \<leftarrow> be_select be (rv_tv r) (length_to_read r) (rv_ctx r) (rv_w r);
          if rc = -1 then
            do { (ctx, w) \<leftarrow> recover_select net be ctx w; Some (Inl (-1, rv_msg r, ctx, w)) }
          else
            let (rc, bytes, ctx, w) = be_recv be (length_to_read r) ctx w;
                ctx = (if rc = 0 then ctx\<lparr>errno := ECONNRESET\<rparr> else ctx) in
            if rc = 0 \<or> rc = -1 then
              let (ctx, w) = recover_recv be ctx w in Some (Inl (-1, rv_msg r, ctx, w))
            else if rc < 0 \<or> int (length_to_read r) < rc \<or> int (length bytes) \<noteq> rc then None
            else do {
              msg \<leftarrow> wr_block (rv_msg r) (msg_length r) bytes;
              let len = msg_length r + length bytes;
              let n = length_to_read r - length bytes;
              next \<leftarrow> (if n = 0 then next_step be msg_type msg len (rv_step r) else Some (Some (rv_step r, n)));
              case next of
                None \<Rightarrow> Some (Inl (-1, msg, ctx\<lparr>errno := EMBBADDATA\<rparr>, w))
              | Some (stp, n) \<Rightarrow>
                  Some (Inr \<lparr>rv_step = stp, length_to_read = n, msg_length = len, rv_msg = msg,
                    rv_tv = (if 0 < n \<and> byte_timeout_set ctx then Some (byte_timeout ctx) else tv),
                    rv_ctx = ctx, rv_w = w\<rparr>) } }"

text \<open>Every iteration reads a byte or ends a step, so the loop ends.\<close>

instantiation step_t :: linorder
begin

definition remaining_steps :: "step_t \<Rightarrow> nat" where
  "remaining_steps s = (case s of STEP_FUNCTION \<Rightarrow> 2 | STEP_META \<Rightarrow> 1 | STEP_DATA \<Rightarrow> 0)"

definition less_eq_step_t :: "step_t \<Rightarrow> step_t \<Rightarrow> bool" where
  "less_eq_step_t s t \<longleftrightarrow> remaining_steps t \<le> remaining_steps s"

definition less_step_t :: "step_t \<Rightarrow> step_t \<Rightarrow> bool" where
  "less_step_t s t \<longleftrightarrow> remaining_steps t < remaining_steps s"

instance
  by standard
    (auto simp: less_eq_step_t_def less_step_t_def remaining_steps_def split: step_t.splits)

end

lemma next_step_progress:
  assumes "next_step be ty msg len stp = Some (Some (stp', n))"
  shows "stp < stp' \<or> stp' = STEP_DATA \<and> stp = STEP_DATA \<and> n = 0"
  using assms
  by (auto simp: next_step_def less_step_t_def remaining_steps_def Let_def split: step_t.splits if_splits
      elim!: bind_SomeE)

lemma receive_step_progress:
  assumes "receive_step net be ty r = Some (Inr r')" and "length_to_read r \<noteq> 0"
  shows "rv_step r < rv_step r' \<or> rv_step r' = rv_step r \<and> length_to_read r' < length_to_read r"
  using assms
  by (auto simp: receive_step_def Let_def split: if_splits option.splits prod.splits
      elim!: bind_SomeE dest!: next_step_progress)

function receive_loop ::
  "('a, 'w) net \<Rightarrow> ('d, 'w) modbus_backend \<Rightarrow> msg_type \<Rightarrow> ('d, 'w) receive_state \<Rightarrow>
     (int \<times> mem \<times> 'd modbus \<times> 'w) option" where
  "receive_loop net be msg_type r =
     (if length_to_read r = 0 then
        do { (rc, ctx, w) \<leftarrow> be_check_integrity be (rv_msg r) (msg_length r) (rv_ctx r) (rv_w r);
             Some (rc, rv_msg r, ctx, w) }
      else case receive_step net be msg_type r of
        None \<Rightarrow> None
      | Some (Inl result) \<Rightarrow> Some result
      | Some (Inr r') \<Rightarrow> receive_loop net be msg_type r')"
  by pat_completeness auto
termination
  by (relation "measures [\<lambda>(net, be, ty, r). remaining_steps (rv_step r), \<lambda>(net, be, ty, r). length_to_read r]")
    (auto dest!: receive_step_progress simp: less_step_t_def)

declare receive_loop.simps [simp del]

text \<open>\<open>_modbus_receive_msg\<close>\<close>

definition modbus_receive_msg ::
  "('a, 'w) net \<Rightarrow> ('d, 'w) modbus_backend \<Rightarrow> ('d, 'w) receiver" where
  "modbus_receive_msg net be msg msg_type ctx w =
     receive_loop net be msg_type
       \<lparr>rv_step = STEP_FUNCTION, length_to_read = header_length be + 1, msg_length = 0, rv_msg = msg,
        rv_tv = (case msg_type of MSG_INDICATION \<Rightarrow> None | MSG_CONFIRMATION \<Rightarrow> Some (response_timeout ctx)),
        rv_ctx = ctx, rv_w = w\<rparr>"

definition modbus_receive ::
  "('a, 'w) net \<Rightarrow> ('d, 'w) modbus_backend \<Rightarrow> mem \<Rightarrow> 'd modbus \<Rightarrow> 'w \<Rightarrow> (int \<times> mem \<times> 'd modbus \<times> 'w) option" where
  "modbus_receive net be req ctx w = be_receive be (modbus_receive_msg net be) req ctx w"

definition modbus_receive_confirmation ::
  "('a, 'w) net \<Rightarrow> ('d, 'w) modbus_backend \<Rightarrow> mem \<Rightarrow> 'd modbus \<Rightarrow> 'w \<Rightarrow> (int \<times> mem \<times> 'd modbus \<times> 'w) option" where
  "modbus_receive_confirmation net be rsp ctx w = modbus_receive_msg net be rsp MSG_CONFIRMATION ctx w"

section \<open>Checking a confirmation\<close>

definition recover_protocol ::
  "('a, 'w) net \<Rightarrow> ('d, 'w) modbus_backend \<Rightarrow> 'd modbus \<Rightarrow> 'w \<Rightarrow> ('d modbus \<times> 'w) option" where
  "recover_protocol net be ctx w =
     (if protocol_recovery ctx then sleep_and_flush net be ctx w else Some (ctx, w))"

definition bad_data ::
  "('a, 'w) net \<Rightarrow> ('d, 'w) modbus_backend \<Rightarrow> 'd modbus \<Rightarrow> 'w \<Rightarrow> (int \<times> 'd modbus \<times> 'w) option" where
  "bad_data net be ctx w =
     do { (ctx, w) \<leftarrow> recover_protocol net be ctx w; Some (-1, ctx\<lparr>errno := EMBBADDATA\<rparr>, w) }"

text \<open>The number of values in the request and in the response, by function code.\<close>

definition confirmation_values :: "nat \<Rightarrow> u8 \<Rightarrow> mem \<Rightarrow> mem \<Rightarrow> (int \<times> int) option" where
  "confirmation_values offset f req rsp =
     (if f = 0x01 \<or> f = 0x02 then
        do { nb \<leftarrow> rd_be16 req (offset + 3); n \<leftarrow> rd8 rsp (offset + 1); Some (byte_count nb, uint n) }
      else if f = 0x17 \<or> f = 0x03 \<or> f = 0x04 then
        do { nb \<leftarrow> rd_be16 req (offset + 3); n \<leftarrow> rd8 rsp (offset + 1); Some (nb, uint n div 2) }
      else if f = 0x0F \<or> f = 0x10 then
        do { nb \<leftarrow> rd_be16 req (offset + 3); n \<leftarrow> rd_be16 rsp (offset + 3); Some (nb, n) }
      else if f = 0x11 then do { n \<leftarrow> rd8 rsp (offset + 1); Some (uint n, uint n) }
      else Some (1, 1))"

definition check_confirmation ::
  "('a, 'w) net \<Rightarrow> ('d, 'w) modbus_backend \<Rightarrow> mem \<Rightarrow> mem \<Rightarrow> int \<Rightarrow> 'd modbus \<Rightarrow> 'w \<Rightarrow>
     (int \<times> 'd modbus \<times> 'w) option" where
  "check_confirmation net be req rsp rsp_length ctx w =
     (let offset = header_length be in
      do { f \<leftarrow> rd8 rsp offset;
           (rc, ctx) \<leftarrow> be_pre_check_confirmation be req rsp rsp_length ctx;
           if rc = -1 then
             do { (ctx, w) \<leftarrow> recover_protocol net be ctx w; Some (-1, ctx, w) }
           else do {
             computed \<leftarrow> compute_response_length_from_request be req;
             rf \<leftarrow> rd8 req offset;
             if 0x80 \<le> f then
               (if rsp_length = int (offset + 2 + checksum_length be) \<and> uint rf = uint f - 0x80 then
                  do { code \<leftarrow> rd8 rsp (offset + 1);
                       Some (-1, ctx\<lparr>errno := if uint code < MODBUS_EXCEPTION_MAX
                         then MODBUS_ENOBASE + uint code else EMBBADEXC\<rparr>, w) }
                else Some (-1, ctx\<lparr>errno := EMBBADEXC\<rparr>, w))
             else if rsp_length = computed \<or> computed = MSG_LENGTH_UNDEFINED then
               (if f \<noteq> rf then bad_data net be ctx w
                else do {
                  (req_nb_value, rsp_nb_value) \<leftarrow> confirmation_values offset f req rsp;
                  if req_nb_value = rsp_nb_value then Some (rsp_nb_value, ctx, w)
                  else bad_data net be ctx w })
             else bad_data net be ctx w } })"

end
