(* ===== verification/Modbus_Server.thy ===== *)
theory Modbus_Server
  imports Modbus_Core
begin

text \<open>
  The server half of \<open>libmodbus-master/src/modbus.c\<close>: the mapping of bits and registers and
  \<open>modbus_reply\<close>, which answers a request from it. Each \<open>case\<close> of its \<open>switch\<close> is a
  definition that returns the length of the response, the response buffer and the new
  mapping. All offsets are those of the code, relative to the header length of the backend.
\<close>

section \<open>The mapping\<close>

record modbus_mapping =
  nb_bits :: int
  start_bits :: int
  nb_input_bits :: int
  start_input_bits :: int
  nb_input_registers :: int
  start_input_registers :: int
  nb_registers :: int
  start_registers :: int
  tab_bits :: mem
  tab_input_bits :: mem
  tab_input_registers :: "u16 list"
  tab_registers :: "u16 list"

text \<open>
  \<open>malloc\<close> is the argument \<open>alloc\<close>, which says whether \<open>n\<close> bytes can be had; the sizes are
  \<open>unsigned int\<close>, stored in \<open>int\<close> fields. \<open>None\<close> is the null pointer. A table of size
  0 is a null pointer in C and the empty list here; both have no element. The structure has 48 bytes on the 32-bit target.
\<close>

definition alloc_table :: "(nat \<Rightarrow> bool) \<Rightarrow> nat \<Rightarrow> 'a \<Rightarrow> u32 \<Rightarrow> 'a list option" where
  "alloc_table alloc sz x nb =
     (if nb = 0 then Some [] else if alloc (unat nb * sz) then Some (replicate (unat nb) x) else None)"

definition modbus_mapping_new_start_address ::
  "(nat \<Rightarrow> bool) \<Rightarrow> u32 \<Rightarrow> u32 \<Rightarrow> u32 \<Rightarrow> u32 \<Rightarrow> u32 \<Rightarrow> u32 \<Rightarrow> u32 \<Rightarrow> u32 \<Rightarrow> modbus_mapping option" where
  "modbus_mapping_new_start_address alloc sb nb sib nib sr nr sir nir =
     (if \<not> alloc 48 then None
      else do {
        bits \<leftarrow> alloc_table alloc 1 0 nb;
        input_bits \<leftarrow> alloc_table alloc 1 0 nib;
        registers \<leftarrow> alloc_table alloc 2 0 nr;
        input_registers \<leftarrow> alloc_table alloc 2 0 nir;
        Some \<lparr>nb_bits = sint nb, start_bits = sint sb, nb_input_bits = sint nib, start_input_bits = sint sib,
          nb_input_registers = sint nir, start_input_registers = sint sir, nb_registers = sint nr,
          start_registers = sint sr, tab_bits = bits, tab_input_bits = input_bits,
          tab_input_registers = input_registers, tab_registers = registers\<rparr> })"

definition modbus_mapping_new ::
  "(nat \<Rightarrow> bool) \<Rightarrow> int \<Rightarrow> int \<Rightarrow> int \<Rightarrow> int \<Rightarrow> modbus_mapping option" where
  "modbus_mapping_new alloc nb nib nr nir =
     modbus_mapping_new_start_address alloc 0 (word_of_int nb) 0 (word_of_int nib) 0 (word_of_int nr) 0 (word_of_int nir)"

section \<open>Parts of a response\<close>

definition response_io_status :: "mem \<Rightarrow> int \<Rightarrow> int \<Rightarrow> mem \<Rightarrow> nat \<Rightarrow> (nat \<times> mem) option" where
  "response_io_status tab_io_status address nb rsp offset =
     do { (shift, one_byte, rsp, offset) \<leftarrow>
            for_each [0..<nat nb] (\<lambda>i (shift, one_byte, rsp, offset).
              do { b \<leftarrow> rd_at tab_io_status (address + int i);
                   let one_byte = one_byte OR push_bit shift (uint b);
                   if shift = 7 then
                     do { rsp \<leftarrow> wr8 rsp offset (word_of_int one_byte); Some (0, 0, rsp, offset + 1) }
                   else Some (shift + 1, one_byte, rsp, offset) })
              (0 :: nat, 0 :: int, rsp, offset);
          if shift \<noteq> 0 then
            do { rsp \<leftarrow> wr8 rsp offset (word_of_int one_byte); Some (offset + 1, rsp) }
          else Some (offset, rsp) }"

definition response_exception ::
  "('a, 'w) net \<Rightarrow> ('d, 'w) modbus_backend \<Rightarrow> sft \<Rightarrow> int \<Rightarrow> mem \<Rightarrow> bool \<Rightarrow> 'd modbus \<Rightarrow> 'w \<Rightarrow>
     (nat \<times> mem \<times> 'd modbus \<times> 'w) option" where
  "response_exception net be sft exception_code rsp to_flush ctx w =
     do { (ctx, w) \<leftarrow> (if to_flush then sleep_and_flush net be ctx w else Some (ctx, w));
          (rsp_length, rsp) \<leftarrow> be_build_response_basis be (sft\<lparr>sft_function := sft_function sft + 0x80\<rparr>) rsp;
          rsp \<leftarrow> wr8 rsp rsp_length (word_of_int exception_code);
          Some (rsp_length + 1, rsp, ctx, w) }"

text \<open>\<open>memcpy(rsp + rsp_length, req + rsp_length, 4)\<close> after the response basis.\<close>

definition echo_response ::
  "('d, 'w) modbus_backend \<Rightarrow> sft \<Rightarrow> mem \<Rightarrow> mem \<Rightarrow> (nat \<times> mem) option" where
  "echo_response be sft req rsp =
     do { (rsp_length, rsp) \<leftarrow> be_build_response_basis be sft rsp;
          bs \<leftarrow> rd_block req rsp_length 4;
          rsp \<leftarrow> wr_block rsp rsp_length bs;
          Some (rsp_length + 4, rsp) }"

text \<open>\<open>memcpy(rsp, req, req_length)\<close>\<close>

definition copy_request :: "mem \<Rightarrow> nat \<Rightarrow> mem \<Rightarrow> (nat \<times> mem) option" where
  "copy_request req req_length rsp =
     do { bs \<leftarrow> rd_block req 0 req_length; rsp \<leftarrow> wr_block rsp 0 bs; Some (req_length, rsp) }"

text \<open>The loop that puts registers into the response.\<close>

definition put_registers :: "u16 list \<Rightarrow> int \<Rightarrow> int \<Rightarrow> mem \<Rightarrow> nat \<Rightarrow> (nat \<times> mem) option" where
  "put_registers tab address nb rsp rsp_length =
     for_each [0..<nat nb] (\<lambda>i (rsp_length, rsp).
       do { r \<leftarrow> rd_at tab (address + int i);
            rsp \<leftarrow> wr8 rsp rsp_length (hi8 r);
            rsp \<leftarrow> wr8 rsp (rsp_length + 1) (lo8 r);
            Some (rsp_length + 2, rsp) }) (rsp_length, rsp)"

text \<open>The loop that stores the registers of a request, from offset \<open>j\<close> on.\<close>

definition store_registers :: "u16 list \<Rightarrow> int \<Rightarrow> int \<Rightarrow> mem \<Rightarrow> nat \<Rightarrow> u16 list option" where
  "store_registers tab address nb req j =
     for_each [0..<nat nb] (\<lambda>i tab.
       do { v \<leftarrow> rd_be16 req (j + 2 * i); wr_at tab (address + int i) (word_of_int v) }) tab"

section \<open>The cases of \<open>modbus_reply\<close>\<close>

type_synonym ('d, 'w) reply_result = "(nat \<times> mem \<times> modbus_mapping \<times> 'd modbus \<times> 'w) option"

definition exception_reply ::
  "('a, 'w) net \<Rightarrow> ('d, 'w) modbus_backend \<Rightarrow> sft \<Rightarrow> int \<Rightarrow> mem \<Rightarrow> bool \<Rightarrow> modbus_mapping \<Rightarrow> 'd modbus \<Rightarrow> 'w \<Rightarrow>
     ('d, 'w) reply_result" where
  "exception_reply net be sft code rsp to_flush mm ctx w =
     do { (n, rsp, ctx, w) \<leftarrow> response_exception net be sft code rsp to_flush ctx w;
          Some (n, rsp, mm, ctx, w) }"

definition mb_read_bits ::
  "('a, 'w) net \<Rightarrow> ('d, 'w) modbus_backend \<Rightarrow> sft \<Rightarrow> bool \<Rightarrow> int \<Rightarrow> mem \<Rightarrow> mem \<Rightarrow> modbus_mapping \<Rightarrow>
     'd modbus \<Rightarrow> 'w \<Rightarrow> ('d, 'w) reply_result" where
  "mb_read_bits net be sft is_input address req rsp mm ctx w =
     (let start = (if is_input then start_input_bits mm else start_bits mm);
          total = (if is_input then nb_input_bits mm else nb_bits mm);
          tab = (if is_input then tab_input_bits mm else tab_bits mm);
          mapping_address = address - start in
      do { nb \<leftarrow> rd_be16 req (header_length be + 3);
           if nb < 1 \<or> MAX_READ_BITS < nb then exception_reply net be sft 3 rsp True mm ctx w
           else if mapping_address < 0 \<or> total < mapping_address + nb then
             exception_reply net be sft 2 rsp False mm ctx w
           else do {
             (n, rsp) \<leftarrow> be_build_response_basis be sft rsp;
             rsp \<leftarrow> wr8 rsp n (word_of_int (byte_count nb));
             (n, rsp) \<leftarrow> response_io_status tab mapping_address nb rsp (n + 1);
             Some (n, rsp, mm, ctx, w) } })"

definition mb_read_registers ::
  "('a, 'w) net \<Rightarrow> ('d, 'w) modbus_backend \<Rightarrow> sft \<Rightarrow> bool \<Rightarrow> int \<Rightarrow> mem \<Rightarrow> mem \<Rightarrow> modbus_mapping \<Rightarrow>
     'd modbus \<Rightarrow> 'w \<Rightarrow> ('d, 'w) reply_result" where
  "mb_read_registers net be sft is_input address req rsp mm ctx w =
     (let start = (if is_input then start_input_registers mm else start_registers mm);
          total = (if is_input then nb_input_registers mm else nb_registers mm);
          tab = (if is_input then tab_input_registers mm else tab_registers mm);
          mapping_address = address - start in
      do { nb \<leftarrow> rd_be16 req (header_length be + 3);
           if nb < 1 \<or> MAX_READ_REGISTERS < nb then exception_reply net be sft 3 rsp True mm ctx w
           else if mapping_address < 0 \<or> total < mapping_address + nb then
             exception_reply net be sft 2 rsp False mm ctx w
           else do {
             (n, rsp) \<leftarrow> be_build_response_basis be sft rsp;
             rsp \<leftarrow> wr8 rsp n (word_of_int (2 * nb));
             (n, rsp) \<leftarrow> put_registers tab mapping_address nb rsp (n + 1);
             Some (n, rsp, mm, ctx, w) } })"

definition mb_write_bit ::
  "('a, 'w) net \<Rightarrow> ('d, 'w) modbus_backend \<Rightarrow> sft \<Rightarrow> int \<Rightarrow> mem \<Rightarrow> nat \<Rightarrow> mem \<Rightarrow> modbus_mapping \<Rightarrow>
     'd modbus \<Rightarrow> 'w \<Rightarrow> ('d, 'w) reply_result" where
  "mb_write_bit net be sft address req req_length rsp mm ctx w =
     (let mapping_address = address - start_bits mm in
      if mapping_address < 0 \<or> nb_bits mm \<le> mapping_address then
        exception_reply net be sft 2 rsp False mm ctx w
      else do {
        data \<leftarrow> rd_be16 req (header_length be + 3);
        if data = 0xFF00 \<or> data = 0 then
          do { tab \<leftarrow> wr_at (tab_bits mm) mapping_address (if data \<noteq> 0 then 1 else 0);
               (n, rsp) \<leftarrow> copy_request req req_length rsp;
               Some (n, rsp, mm\<lparr>tab_bits := tab\<rparr>, ctx, w) }
        else exception_reply net be sft 3 rsp False mm ctx w })"

definition mb_write_register ::
  "('a, 'w) net \<Rightarrow> ('d, 'w) modbus_backend \<Rightarrow> sft \<Rightarrow> int \<Rightarrow> mem \<Rightarrow> nat \<Rightarrow> mem \<Rightarrow> modbus_mapping \<Rightarrow>
     'd modbus \<Rightarrow> 'w \<Rightarrow> ('d, 'w) reply_result" where
  "mb_write_register net be sft address req req_length rsp mm ctx w =
     (let mapping_address = address - start_registers mm in
      if mapping_address < 0 \<or> nb_registers mm \<le> mapping_address then
        exception_reply net be sft 2 rsp False mm ctx w
      else do {
        data \<leftarrow> rd_be16 req (header_length be + 3);
        tab \<leftarrow> wr_at (tab_registers mm) mapping_address (word_of_int data);
        (n, rsp) \<leftarrow> copy_request req req_length rsp;
        Some (n, rsp, mm\<lparr>tab_registers := tab\<rparr>, ctx, w) })"

definition mb_write_bits ::
  "('a, 'w) net \<Rightarrow> ('d, 'w) modbus_backend \<Rightarrow> sft \<Rightarrow> int \<Rightarrow> mem \<Rightarrow> mem \<Rightarrow> modbus_mapping \<Rightarrow>
     'd modbus \<Rightarrow> 'w \<Rightarrow> ('d, 'w) reply_result" where
  "mb_write_bits net be sft address req rsp mm ctx w =
     (let mapping_address = address - start_bits mm in
      do { nb \<leftarrow> rd_be16 req (header_length be + 3);
           if nb < 1 \<or> MAX_WRITE_BITS < nb then exception_reply net be sft 3 rsp True mm ctx w
           else if mapping_address < 0 \<or> nb_bits mm < mapping_address + nb then
             exception_reply net be sft 2 rsp False mm ctx w
           else do {
             tab \<leftarrow> modbus_set_bits_from_bytes (tab_bits mm) (nat mapping_address) (nat nb) req (header_length be + 6);
             (n, rsp) \<leftarrow> echo_response be sft req rsp;
             Some (n, rsp, mm\<lparr>tab_bits := tab\<rparr>, ctx, w) } })"

definition mb_write_registers ::
  "('a, 'w) net \<Rightarrow> ('d, 'w) modbus_backend \<Rightarrow> sft \<Rightarrow> int \<Rightarrow> mem \<Rightarrow> mem \<Rightarrow> modbus_mapping \<Rightarrow>
     'd modbus \<Rightarrow> 'w \<Rightarrow> ('d, 'w) reply_result" where
  "mb_write_registers net be sft address req rsp mm ctx w =
     (let mapping_address = address - start_registers mm in
      do { nb \<leftarrow> rd_be16 req (header_length be + 3);
           if nb < 1 \<or> MAX_WRITE_REGISTERS < nb then exception_reply net be sft 3 rsp True mm ctx w
           else if mapping_address < 0 \<or> nb_registers mm < mapping_address + nb then
             exception_reply net be sft 2 rsp False mm ctx w
           else do {
             tab \<leftarrow> store_registers (tab_registers mm) mapping_address nb req (header_length be + 6);
             (n, rsp) \<leftarrow> echo_response be sft req rsp;
             Some (n, rsp, mm\<lparr>tab_registers := tab\<rparr>, ctx, w) } })"

definition mb_report_slave_id ::
  "string \<Rightarrow> ('d, 'w) modbus_backend \<Rightarrow> sft \<Rightarrow> mem \<Rightarrow> modbus_mapping \<Rightarrow> 'd modbus \<Rightarrow> 'w \<Rightarrow> ('d, 'w) reply_result" where
  "mb_report_slave_id version be sft rsp mm ctx w =
     do { (byte_count_pos, rsp) \<leftarrow> be_build_response_basis be sft rsp;
          rsp \<leftarrow> wr8 rsp (byte_count_pos + 1) 180;
          rsp \<leftarrow> wr8 rsp (byte_count_pos + 2) 0xFF;
          let str_len = 3 + length version;
          rsp \<leftarrow> wr_block rsp (byte_count_pos + 3) (map of_char (''LMB'' @ version));
          let rsp_length = byte_count_pos + 3 + str_len;
          rsp \<leftarrow> wr8 rsp byte_count_pos (word_of_nat (rsp_length - byte_count_pos - 1));
          Some (rsp_length, rsp, mm, ctx, w) }"

definition mb_mask_write_register ::
  "('a, 'w) net \<Rightarrow> ('d, 'w) modbus_backend \<Rightarrow> sft \<Rightarrow> int \<Rightarrow> mem \<Rightarrow> nat \<Rightarrow> mem \<Rightarrow> modbus_mapping \<Rightarrow>
     'd modbus \<Rightarrow> 'w \<Rightarrow> ('d, 'w) reply_result" where
  "mb_mask_write_register net be sft address req req_length rsp mm ctx w =
     (let mapping_address = address - start_registers mm in
      if mapping_address < 0 \<or> nb_registers mm \<le> mapping_address then
        exception_reply net be sft 2 rsp False mm ctx w
      else do {
        data \<leftarrow> rd_at (tab_registers mm) mapping_address;
        a \<leftarrow> rd_be16 req (header_length be + 3);
        b \<leftarrow> rd_be16 req (header_length be + 5);
        let and_mask = (word_of_int a :: u16);
        let or_mask = (word_of_int b :: u16);
        let data = (data AND and_mask) OR (or_mask AND NOT and_mask);
        tab \<leftarrow> wr_at (tab_registers mm) mapping_address data;
        (n, rsp) \<leftarrow> copy_request req req_length rsp;
        Some (n, rsp, mm\<lparr>tab_registers := tab\<rparr>, ctx, w) })"

text \<open>
  The second range check of the code tests \<open>mapping_address < 0\<close> twice and
  \<open>mapping_address_write < 0\<close> never.
\<close>

definition mb_write_and_read_registers ::
  "('a, 'w) net \<Rightarrow> ('d, 'w) modbus_backend \<Rightarrow> sft \<Rightarrow> int \<Rightarrow> mem \<Rightarrow> mem \<Rightarrow> modbus_mapping \<Rightarrow>
     'd modbus \<Rightarrow> 'w \<Rightarrow> ('d, 'w) reply_result" where
  "mb_write_and_read_registers net be sft address req rsp mm ctx w =
     (let offset = header_length be; mapping_address = address - start_registers mm in
      do { nb \<leftarrow> rd_be16 req (offset + 3);
           address_write \<leftarrow> rd_be16 req (offset + 5);
           nb_write \<leftarrow> rd_be16 req (offset + 7);
           nb_write_bytes \<leftarrow> rd8 req (offset + 9);
           let mapping_address_write = address_write - start_registers mm;
           if nb_write < 1 \<or> MAX_WR_WRITE_REGISTERS < nb_write \<or> nb < 1 \<or> MAX_WR_READ_REGISTERS < nb \<or>
             uint nb_write_bytes \<noteq> nb_write * 2 then
             exception_reply net be sft 3 rsp True mm ctx w
           else if mapping_address < 0 \<or> nb_registers mm < mapping_address + nb \<or> mapping_address < 0 \<or>
             nb_registers mm < mapping_address_write + nb_write then
             exception_reply net be sft 2 rsp False mm ctx w
           else do {
             (n, rsp) \<leftarrow> be_build_response_basis be sft rsp;
             rsp \<leftarrow> wr8 rsp n (word_of_int (2 * nb));
             tab \<leftarrow> store_registers (tab_registers mm) mapping_address_write nb_write req (offset + 10);
             (n, rsp) \<leftarrow> put_registers tab mapping_address nb rsp (n + 1);
             Some (n, rsp, mm\<lparr>tab_registers := tab\<rparr>, ctx, w) } })"

definition reply_function ::
  "('a, 'w) net \<Rightarrow> ('d, 'w) modbus_backend \<Rightarrow> string \<Rightarrow> sft \<Rightarrow> u8 \<Rightarrow> int \<Rightarrow> mem \<Rightarrow> nat \<Rightarrow> mem \<Rightarrow> modbus_mapping \<Rightarrow>
     'd modbus \<Rightarrow> 'w \<Rightarrow> ('d, 'w) reply_result" where
  "reply_function net be version sft f address req req_length rsp mm ctx w =
     (if f = 0x01 \<or> f = 0x02 then mb_read_bits net be sft (f = 0x02) address req rsp mm ctx w
      else if f = 0x03 \<or> f = 0x04 then mb_read_registers net be sft (f = 0x04) address req rsp mm ctx w
      else if f = 0x05 then mb_write_bit net be sft address req req_length rsp mm ctx w
      else if f = 0x06 then mb_write_register net be sft address req req_length rsp mm ctx w
      else if f = 0x0F then mb_write_bits net be sft address req rsp mm ctx w
      else if f = 0x10 then mb_write_registers net be sft address req rsp mm ctx w
      else if f = 0x11 then mb_report_slave_id version be sft rsp mm ctx w
      else if f = 0x16 then mb_mask_write_register net be sft address req req_length rsp mm ctx w
      else if f = 0x17 then mb_write_and_read_registers net be sft address req rsp mm ctx w
      else exception_reply net be sft 1 rsp True mm ctx w)"

text \<open>
  \<open>rsp\<close> is the uninitialised buffer. The function code 7 is answered with an error of the
  caller, before anything is sent.
\<close>

definition modbus_reply ::
  "('a, 'w) net \<Rightarrow> ('d, 'w) modbus_backend \<Rightarrow> string \<Rightarrow> mem \<Rightarrow> nat \<Rightarrow> mem \<Rightarrow> modbus_mapping \<Rightarrow>
     'd modbus \<Rightarrow> 'w \<Rightarrow> (int \<times> modbus_mapping \<times> 'd modbus \<times> 'w) option" where
  "modbus_reply net be version req req_length rsp mm ctx w =
     (let offset = header_length be in
      do { unit \<leftarrow> rd8 req (offset - 1);
           f \<leftarrow> rd8 req offset;
           address \<leftarrow> rd_be16 req (offset + 1);
           (t_id, req_length) \<leftarrow> be_prepare_response_tid be req req_length;
           if f = 0x07 then Some (-1, mm, ctx\<lparr>errno := ENOPROTOOPT\<rparr>, w)
           else do {
             (n, rsp, mm, ctx, w) \<leftarrow> reply_function net be version
               \<lparr>sft_slave = uint unit, sft_function = uint f, sft_t_id = t_id\<rparr> f address req req_length rsp mm ctx w;
             if uint unit = MODBUS_BROADCAST_ADDRESS then Some (0, mm, ctx, w)
             else do { (rc, _, ctx, w) \<leftarrow> send_msg net be rsp n ctx w; Some (rc, mm, ctx, w) } } })"

definition modbus_reply_exception ::
  "('a, 'w) net \<Rightarrow> ('d, 'w) modbus_backend \<Rightarrow> mem \<Rightarrow> int \<Rightarrow> mem \<Rightarrow> 'd modbus \<Rightarrow> 'w \<Rightarrow> (int \<times> 'd modbus \<times> 'w) option" where
  "modbus_reply_exception net be req exception_code rsp ctx w =
     (let offset = header_length be in
      do { unit \<leftarrow> rd8 req (offset - 1);
           f \<leftarrow> rd8 req offset;
           (t_id, _) \<leftarrow> be_prepare_response_tid be req 99;
           (n, rsp) \<leftarrow> be_build_response_basis be
             \<lparr>sft_slave = uint unit, sft_function = uint f + 0x80, sft_t_id = t_id\<rparr> rsp;
           if exception_code < MODBUS_EXCEPTION_MAX then
             do { rsp \<leftarrow> wr8 rsp n (word_of_int exception_code);
                  (rc, _, ctx, w) \<leftarrow> send_msg net be rsp (n + 1) ctx w;
                  Some (rc, ctx, w) }
           else Some (-1, ctx\<lparr>errno := EINVAL\<rparr>, w) })"

end
