(* ===== verification/Modbus_Client.thy ===== *)
theory Modbus_Client
  imports Modbus_Core
begin

text \<open>
  The client half of \<open>libmodbus-master/src/modbus.c\<close>: the requests, and what is read out of
  their confirmations; the settings of a context; \<open>strlcpy\<close>. The arguments \<open>req\<close> and
  \<open>rsp\<close> are the uninitialised buffers of the C functions, \<open>dest\<close> the caller's array.
\<close>

section \<open>A request and its confirmation\<close>

text \<open>
  The sequence all client functions share: send, receive the confirmation, check it. The
  first component tells whether a valid confirmation is in the response buffer.
\<close>

definition transact ::
  "('a, 'w) net \<Rightarrow> ('d, 'w) modbus_backend \<Rightarrow> mem \<Rightarrow> nat \<Rightarrow> mem \<Rightarrow> 'd modbus \<Rightarrow> 'w \<Rightarrow>
     (bool \<times> int \<times> mem \<times> 'd modbus \<times> 'w) option" where
  "transact net be req req_length rsp ctx w =
     do { (rc, req, ctx, w) \<leftarrow> send_msg net be req req_length ctx w;
          if 0 < rc then do {
            (rc, rsp, ctx, w) \<leftarrow> modbus_receive_msg net be rsp MSG_CONFIRMATION ctx w;
            if rc = -1 then Some (False, -1, rsp, ctx, w)
            else do { (rc, ctx, w) \<leftarrow> check_confirmation net be req rsp rc ctx w;
                      Some (rc \<noteq> -1, rc, rsp, ctx, w) } }
          else Some (False, rc, rsp, ctx, w) }"

text \<open>The loops that unpack a confirmation.\<close>

definition unpack_bits :: "mem \<Rightarrow> nat \<Rightarrow> int \<Rightarrow> int \<Rightarrow> mem \<Rightarrow> mem option" where
  "unpack_bits rsp offset rc nb dest =
     map_option snd (for_each [0..<nat rc] (\<lambda>i s.
       do { temp \<leftarrow> rd8 rsp (offset + i);
            for_each [0..<8] (\<lambda>j (pos, dest).
              if pos < nb then
                do { dest \<leftarrow> wr_at dest pos (if bit temp j then 1 else 0); Some (pos + 1, dest) }
              else Some (pos, dest)) s }) (0 :: int, dest))"

definition unpack_registers :: "mem \<Rightarrow> nat \<Rightarrow> int \<Rightarrow> u16 list \<Rightarrow> u16 list option" where
  "unpack_registers rsp offset rc dest =
     for_each [0..<nat rc] (\<lambda>i dest.
       do { hi \<leftarrow> rd8 rsp (offset + 2 + 2 * i);
            lo \<leftarrow> rd8 rsp (offset + 3 + 2 * i);
            wr_at dest (int i) (join16 hi lo) }) dest"

text \<open>The loops that put values into a request.\<close>

definition put_values :: "u16 list \<Rightarrow> int \<Rightarrow> mem \<Rightarrow> nat \<Rightarrow> (nat \<times> mem) option" where
  "put_values src nb req req_length =
     for_each [0..<nat nb] (\<lambda>i (req_length, req).
       do { v \<leftarrow> rd_at src (int i);
            req \<leftarrow> wr8 req req_length (hi8 v);
            req \<leftarrow> wr8 req (req_length + 1) (lo8 v);
            Some (req_length + 2, req) }) (req_length, req)"

text \<open>\<open>bit_check\<close> and \<open>pos\<close> of the code count together while a bit is left.\<close>

definition put_bits :: "mem \<Rightarrow> int \<Rightarrow> mem \<Rightarrow> nat \<Rightarrow> (nat \<times> mem) option" where
  "put_bits src nb req req_length =
     map_option snd (for_each [0..<nat (byte_count nb)] (\<lambda>i (pos, req_length, req).
       do { req \<leftarrow> wr8 req req_length 0;
            (pos, req) \<leftarrow> for_each [0..<8] (\<lambda>j (pos, req).
              if pos < nb then
                do { s \<leftarrow> rd_at src pos;
                     b \<leftarrow> rd8 req req_length;
                     req \<leftarrow> wr8 req req_length (if s \<noteq> 0 then b OR push_bit j 1 else b AND NOT (push_bit j 1));
                     Some (pos + 1, req) }
              else Some (pos, req)) (pos, req);
            Some (pos, req_length + 1, req) }) (0 :: int, req_length, req))"

definition put16 :: "int \<Rightarrow> mem \<Rightarrow> nat \<Rightarrow> mem option" where
  "put16 v req i =
     do { req \<leftarrow> wr8 req i (word_of_int (drop_bit 8 v)); wr8 req (i + 1) (word_of_int (v AND 0xff)) }"

section \<open>Reading\<close>

definition too_many :: "'d modbus \<Rightarrow> 'd modbus" where
  "too_many ctx = ctx\<lparr>errno := EMBMDATA\<rparr>"

definition read_io_status ::
  "('a, 'w) net \<Rightarrow> ('d, 'w) modbus_backend \<Rightarrow> int \<Rightarrow> int \<Rightarrow> int \<Rightarrow> mem \<Rightarrow> mem \<Rightarrow> mem \<Rightarrow> 'd modbus \<Rightarrow> 'w \<Rightarrow>
     (int \<times> mem \<times> 'd modbus \<times> 'w) option" where
  "read_io_status net be f addr nb req rsp dest ctx w =
     do { (req_length, req, ctx) \<leftarrow> be_build_request_basis be f addr nb req ctx;
          (ok, rc, rsp, ctx, w) \<leftarrow> transact net be req req_length rsp ctx w;
          if ok then
            do { dest \<leftarrow> unpack_bits rsp (header_length be + 2) rc nb dest; Some (rc, dest, ctx, w) }
          else Some (rc, dest, ctx, w) }"

definition modbus_read_bits_fc ::
  "int \<Rightarrow> ('a, 'w) net \<Rightarrow> ('d, 'w) modbus_backend \<Rightarrow> int \<Rightarrow> int \<Rightarrow> mem \<Rightarrow> mem \<Rightarrow> mem \<Rightarrow> 'd modbus \<Rightarrow> 'w \<Rightarrow>
     (int \<times> mem \<times> 'd modbus \<times> 'w) option" where
  "modbus_read_bits_fc f net be addr nb req rsp dest ctx w =
     (if MAX_READ_BITS < nb then Some (-1, dest, too_many ctx, w)
      else do { (rc, dest, ctx, w) \<leftarrow> read_io_status net be f addr nb req rsp dest ctx w;
                Some (if rc = -1 then -1 else nb, dest, ctx, w) })"

definition modbus_read_bits ::
  "('a, 'w) net \<Rightarrow> ('d, 'w) modbus_backend \<Rightarrow> int \<Rightarrow> int \<Rightarrow> mem \<Rightarrow> mem \<Rightarrow> mem \<Rightarrow> 'd modbus \<Rightarrow> 'w \<Rightarrow>
     (int \<times> mem \<times> 'd modbus \<times> 'w) option" where
  "modbus_read_bits = modbus_read_bits_fc 0x01"

definition modbus_read_input_bits ::
  "('a, 'w) net \<Rightarrow> ('d, 'w) modbus_backend \<Rightarrow> int \<Rightarrow> int \<Rightarrow> mem \<Rightarrow> mem \<Rightarrow> mem \<Rightarrow> 'd modbus \<Rightarrow> 'w \<Rightarrow>
     (int \<times> mem \<times> 'd modbus \<times> 'w) option" where
  "modbus_read_input_bits = modbus_read_bits_fc 0x02"

definition mb_client_read_registers ::
  "('a, 'w) net \<Rightarrow> ('d, 'w) modbus_backend \<Rightarrow> int \<Rightarrow> int \<Rightarrow> int \<Rightarrow> mem \<Rightarrow> mem \<Rightarrow> u16 list \<Rightarrow> 'd modbus \<Rightarrow> 'w \<Rightarrow>
     (int \<times> u16 list \<times> 'd modbus \<times> 'w) option" where
  "mb_client_read_registers net be f addr nb req rsp dest ctx w =
     (if MAX_READ_REGISTERS < nb then Some (-1, dest, too_many ctx, w)
      else do {
        (req_length, req, ctx) \<leftarrow> be_build_request_basis be f addr nb req ctx;
        (ok, rc, rsp, ctx, w) \<leftarrow> transact net be req req_length rsp ctx w;
        if ok then
          do { dest \<leftarrow> unpack_registers rsp (header_length be) rc dest; Some (rc, dest, ctx, w) }
        else Some (rc, dest, ctx, w) })"

definition modbus_read_registers ::
  "('a, 'w) net \<Rightarrow> ('d, 'w) modbus_backend \<Rightarrow> int \<Rightarrow> int \<Rightarrow> mem \<Rightarrow> mem \<Rightarrow> u16 list \<Rightarrow> 'd modbus \<Rightarrow> 'w \<Rightarrow>
     (int \<times> u16 list \<times> 'd modbus \<times> 'w) option" where
  "modbus_read_registers net be addr nb req rsp dest ctx w =
     (if MAX_READ_REGISTERS < nb then Some (-1, dest, too_many ctx, w)
      else mb_client_read_registers net be 0x03 addr nb req rsp dest ctx w)"

definition modbus_read_input_registers ::
  "('a, 'w) net \<Rightarrow> ('d, 'w) modbus_backend \<Rightarrow> int \<Rightarrow> int \<Rightarrow> mem \<Rightarrow> mem \<Rightarrow> u16 list \<Rightarrow> 'd modbus \<Rightarrow> 'w \<Rightarrow>
     (int \<times> u16 list \<times> 'd modbus \<times> 'w) option" where
  "modbus_read_input_registers net be addr nb req rsp dest ctx w =
     (if MAX_READ_REGISTERS < nb then Some (-1, dest, too_many ctx, w)
      else mb_client_read_registers net be 0x04 addr nb req rsp dest ctx w)"

section \<open>Writing\<close>

text \<open>The functions that write return the result of the confirmation's check.\<close>

definition confirm_only ::
  "('a, 'w) net \<Rightarrow> ('d, 'w) modbus_backend \<Rightarrow> mem \<Rightarrow> nat \<Rightarrow> mem \<Rightarrow> 'd modbus \<Rightarrow> 'w \<Rightarrow> (int \<times> 'd modbus \<times> 'w) option" where
  "confirm_only net be req req_length rsp ctx w =
     do { (_, rc, _, ctx, w) \<leftarrow> transact net be req req_length rsp ctx w; Some (rc, ctx, w) }"

definition write_single ::
  "('a, 'w) net \<Rightarrow> ('d, 'w) modbus_backend \<Rightarrow> int \<Rightarrow> int \<Rightarrow> int \<Rightarrow> mem \<Rightarrow> mem \<Rightarrow> 'd modbus \<Rightarrow> 'w \<Rightarrow>
     (int \<times> 'd modbus \<times> 'w) option" where
  "write_single net be f addr v req rsp ctx w =
     do { (req_length, req, ctx) \<leftarrow> be_build_request_basis be f addr v req ctx;
          confirm_only net be req req_length rsp ctx w }"

definition modbus_write_bit ::
  "('a, 'w) net \<Rightarrow> ('d, 'w) modbus_backend \<Rightarrow> int \<Rightarrow> int \<Rightarrow> mem \<Rightarrow> mem \<Rightarrow> 'd modbus \<Rightarrow> 'w \<Rightarrow> (int \<times> 'd modbus \<times> 'w) option" where
  "modbus_write_bit net be addr status req rsp ctx w =
     write_single net be 0x05 addr (if status \<noteq> 0 then 0xFF00 else 0) req rsp ctx w"

definition modbus_write_register ::
  "('a, 'w) net \<Rightarrow> ('d, 'w) modbus_backend \<Rightarrow> int \<Rightarrow> int \<Rightarrow> mem \<Rightarrow> mem \<Rightarrow> 'd modbus \<Rightarrow> 'w \<Rightarrow> (int \<times> 'd modbus \<times> 'w) option" where
  "modbus_write_register net be addr v req rsp ctx w = write_single net be 0x06 addr v req rsp ctx w"

definition modbus_write_bits ::
  "('a, 'w) net \<Rightarrow> ('d, 'w) modbus_backend \<Rightarrow> int \<Rightarrow> int \<Rightarrow> mem \<Rightarrow> mem \<Rightarrow> mem \<Rightarrow> 'd modbus \<Rightarrow> 'w \<Rightarrow>
     (int \<times> 'd modbus \<times> 'w) option" where
  "modbus_write_bits net be addr nb src req rsp ctx w =
     (if MAX_WRITE_BITS < nb then Some (-1, too_many ctx, w)
      else do {
        (req_length, req, ctx) \<leftarrow> be_build_request_basis be 0x0F addr nb req ctx;
        req \<leftarrow> wr8 req req_length (word_of_int (byte_count nb));
        (req_length, req) \<leftarrow> put_bits src nb req (req_length + 1);
        confirm_only net be req req_length rsp ctx w })"

definition modbus_write_registers ::
  "('a, 'w) net \<Rightarrow> ('d, 'w) modbus_backend \<Rightarrow> int \<Rightarrow> int \<Rightarrow> u16 list \<Rightarrow> mem \<Rightarrow> mem \<Rightarrow> 'd modbus \<Rightarrow> 'w \<Rightarrow>
     (int \<times> 'd modbus \<times> 'w) option" where
  "modbus_write_registers net be addr nb src req rsp ctx w =
     (if MAX_WRITE_REGISTERS < nb then Some (-1, too_many ctx, w)
      else do {
        (req_length, req, ctx) \<leftarrow> be_build_request_basis be 0x10 addr nb req ctx;
        req \<leftarrow> wr8 req req_length (word_of_int (nb * 2));
        (req_length, req) \<leftarrow> put_values src nb req (req_length + 1);
        confirm_only net be req req_length rsp ctx w })"

definition modbus_mask_write_register ::
  "('a, 'w) net \<Rightarrow> ('d, 'w) modbus_backend \<Rightarrow> int \<Rightarrow> u16 \<Rightarrow> u16 \<Rightarrow> mem \<Rightarrow> mem \<Rightarrow> 'd modbus \<Rightarrow> 'w \<Rightarrow>
     (int \<times> 'd modbus \<times> 'w) option" where
  "modbus_mask_write_register net be addr and_mask or_mask req rsp ctx w =
     do { (req_length, req, ctx) \<leftarrow> be_build_request_basis be 0x16 addr 0 req ctx;
          let req_length = req_length - 2;
          req \<leftarrow> wr8 req req_length (hi8 and_mask);
          req \<leftarrow> wr8 req (req_length + 1) (lo8 and_mask);
          req \<leftarrow> wr8 req (req_length + 2) (hi8 or_mask);
          req \<leftarrow> wr8 req (req_length + 3) (lo8 or_mask);
          confirm_only net be req (req_length + 4) rsp ctx w }"

definition modbus_write_and_read_registers ::
  "('a, 'w) net \<Rightarrow> ('d, 'w) modbus_backend \<Rightarrow> int \<Rightarrow> int \<Rightarrow> u16 list \<Rightarrow> int \<Rightarrow> int \<Rightarrow> u16 list \<Rightarrow> mem \<Rightarrow> mem \<Rightarrow>
     'd modbus \<Rightarrow> 'w \<Rightarrow> (int \<times> u16 list \<times> 'd modbus \<times> 'w) option" where
  "modbus_write_and_read_registers net be write_addr write_nb src read_addr read_nb dest req rsp ctx w =
     (if MAX_WR_WRITE_REGISTERS < write_nb then Some (-1, dest, too_many ctx, w)
      else if MAX_WR_READ_REGISTERS < read_nb then Some (-1, dest, too_many ctx, w)
      else do {
        (n, req, ctx) \<leftarrow> be_build_request_basis be 0x17 read_addr read_nb req ctx;
        req \<leftarrow> put16 write_addr req n;
        req \<leftarrow> put16 write_nb req (n + 2);
        req \<leftarrow> wr8 req (n + 4) (word_of_int (write_nb * 2));
        (n, req) \<leftarrow> put_values src write_nb req (n + 5);
        (ok, rc, rsp, ctx, w) \<leftarrow> transact net be req n rsp ctx w;
        if ok then
          do { dest \<leftarrow> unpack_registers rsp (header_length be) rc dest; Some (rc, dest, ctx, w) }
        else Some (rc, dest, ctx, w) })"

definition modbus_report_slave_id ::
  "('a, 'w) net \<Rightarrow> ('d, 'w) modbus_backend \<Rightarrow> int \<Rightarrow> mem \<Rightarrow> mem \<Rightarrow> mem \<Rightarrow> 'd modbus \<Rightarrow> 'w \<Rightarrow>
     (int \<times> mem \<times> 'd modbus \<times> 'w) option" where
  "modbus_report_slave_id net be max_dest dest req rsp ctx w =
     (if max_dest \<le> 0 then Some (-1, dest, ctx\<lparr>errno := EINVAL\<rparr>, w)
      else do {
        (req_length, req, ctx) \<leftarrow> be_build_request_basis be 0x11 0 0 req ctx;
        (ok, rc, rsp, ctx, w) \<leftarrow> transact net be req (req_length - 4) rsp ctx w;
        if ok then
          do { dest \<leftarrow> for_each [0..<nat (min rc max_dest)] (\<lambda>i dest.
                 do { b \<leftarrow> rd8 rsp (header_length be + 2 + i); wr8 dest i b }) dest;
               Some (rc, dest, ctx, w) }
        else Some (rc, dest, ctx, w) })"

section \<open>Settings\<close>

definition modbus_init_common :: "'d modbus \<Rightarrow> 'd modbus" where
  "modbus_init_common ctx =
     ctx\<lparr>mb_slave := -1, mb_s := -1, mb_debug := 0, error_recovery := MODBUS_ERROR_RECOVERY_NONE,
       response_timeout := (0, RESPONSE_TIMEOUT), byte_timeout := (0, BYTE_TIMEOUT)\<rparr>"

definition modbus_set_slave :: "('d, 'w) modbus_backend \<Rightarrow> int \<Rightarrow> 'd modbus \<Rightarrow> int \<times> 'd modbus" where
  "modbus_set_slave be slave ctx = be_set_slave be slave ctx"

definition modbus_set_error_recovery :: "u32 \<Rightarrow> 'd modbus \<Rightarrow> int \<times> 'd modbus" where
  "modbus_set_error_recovery mode ctx = (0, ctx\<lparr>error_recovery := uint (ucast mode :: u8)\<rparr>)"

definition modbus_set_socket :: "int \<Rightarrow> 'd modbus \<Rightarrow> int \<times> 'd modbus" where
  "modbus_set_socket s ctx = (0, ctx\<lparr>mb_s := s\<rparr>)"

definition modbus_get_socket :: "'d modbus \<Rightarrow> int" where
  "modbus_get_socket ctx = mb_s ctx"

text \<open>The getters of the timeouts return the two values they store.\<close>

definition modbus_get_response_timeout :: "'d modbus \<Rightarrow> int \<times> u32 \<times> u32" where
  "modbus_get_response_timeout ctx =
     (0, word_of_int (fst (response_timeout ctx)), word_of_int (snd (response_timeout ctx)))"

definition modbus_set_response_timeout :: "u32 \<Rightarrow> u32 \<Rightarrow> 'd modbus \<Rightarrow> int \<times> 'd modbus" where
  "modbus_set_response_timeout to_sec to_usec ctx =
     (if to_sec = 0 \<and> to_usec = 0 \<or> 999999 < to_usec then (-1, ctx\<lparr>errno := EINVAL\<rparr>)
      else (0, ctx\<lparr>response_timeout := (sint to_sec, sint to_usec)\<rparr>))"

definition modbus_get_byte_timeout :: "'d modbus \<Rightarrow> int \<times> u32 \<times> u32" where
  "modbus_get_byte_timeout ctx =
     (0, word_of_int (fst (byte_timeout ctx)), word_of_int (snd (byte_timeout ctx)))"

definition modbus_set_byte_timeout :: "u32 \<Rightarrow> u32 \<Rightarrow> 'd modbus \<Rightarrow> int \<times> 'd modbus" where
  "modbus_set_byte_timeout to_sec to_usec ctx =
     (if 999999 < to_usec then (-1, ctx\<lparr>errno := EINVAL\<rparr>)
      else (0, ctx\<lparr>byte_timeout := (sint to_sec, sint to_usec)\<rparr>))"

definition modbus_get_header_length :: "('d, 'w) modbus_backend \<Rightarrow> int" where
  "modbus_get_header_length be = int (header_length be)"

definition modbus_set_debug :: "int \<Rightarrow> 'd modbus \<Rightarrow> int \<times> 'd modbus" where
  "modbus_set_debug flag ctx = (0, ctx\<lparr>mb_debug := flag\<rparr>)"

section \<open>\<open>strlcpy\<close>\<close>

text \<open>
  \<open>src\<close> is the source from \<open>s\<close> on, with its terminating 0, and \<open>d\<close> the position in the
  destination; the loop ends with \<open>n = 0\<close> or after the 0 has been copied.
\<close>

fun strlcpy_copy :: "mem \<Rightarrow> nat \<Rightarrow> mem \<Rightarrow> nat \<Rightarrow> (mem \<times> nat \<times> mem \<times> nat) option" where
  "strlcpy_copy dest d [] n = None"
| "strlcpy_copy dest d (c # src) n =
     do { dest \<leftarrow> wr8 dest d c;
          if c = 0 then Some (dest, d + 1, src, n)
          else if n - 1 \<noteq> 0 then strlcpy_copy dest (d + 1) src (n - 1)
          else Some (dest, d + 1, src, 0) }"

fun skip_string :: "mem \<Rightarrow> mem option" where
  "skip_string [] = None"
| "skip_string (c # src) = (if c = 0 then Some src else skip_string src)"

text \<open>The result is \<open>s - src - 1\<close>, the number of characters passed, without the 0.\<close>

definition strlcpy :: "mem \<Rightarrow> mem \<Rightarrow> nat \<Rightarrow> (nat \<times> mem) option" where
  "strlcpy dest src dest_size =
     do { (dest, d, s, n) \<leftarrow>
            (if dest_size \<noteq> 0 \<and> dest_size - 1 \<noteq> 0 then strlcpy_copy dest 0 src (dest_size - 1)
             else Some (dest, 0, src, 0));
          if n = 0 then
            do { dest \<leftarrow> (if dest_size \<noteq> 0 then wr8 dest d 0 else Some dest);
                 s \<leftarrow> skip_string s;
                 Some (length src - length s - 1, dest) }
          else Some (length src - length s - 1, dest) }"

lemma strlcpy_copy_spec:
  assumes "0 \<notin> set str" and "0 < n" and "d + n \<le> length dest"
  shows "strlcpy_copy dest d (str @ 0 # tail) n =
     Some (if length str < n then (overlay dest d (str @ [0]), d + length str + 1, tail, n - length str)
           else (overlay dest d (take n str), d + n, drop n str @ 0 # tail, 0))"
  using assms
proof (induction str arbitrary: dest d n)
  case Nil
  then show ?case by (simp add: no_fault overlay_single)
next
  case (Cons c str)
  have w: "wr8 dest d c = Some (overlay dest d [c])" "c \<noteq> 0"
    using Cons.prems by (auto simp: no_fault overlay_single)
  show ?case
  proof (cases "n = 1")
    case True
    then show ?thesis using w by simp
  next
    case False
    have o: "overlay (overlay dest d [c]) (Suc d) bs = overlay dest d (c # bs)" if "d + 1 + length bs \<le> length dest" for bs
      using overlay_overlay [of d "[c]" bs dest] that by simp
    have "strlcpy_copy dest d ((c # str) @ 0 # tail) n =
        strlcpy_copy (overlay dest d [c]) (d + 1) (str @ 0 # tail) (n - 1)"
      using w False Cons.prems by simp
    also have "\<dots> = Some (if length str < n - 1
        then (overlay (overlay dest d [c]) (d + 1) (str @ [0]), d + 1 + length str + 1, tail, n - 1 - length str)
        else (overlay (overlay dest d [c]) (d + 1) (take (n - 1) str), d + 1 + (n - 1), drop (n - 1) str @ 0 # tail, 0))"
      using Cons.prems False by (intro Cons.IH) auto
    also have "\<dots> = Some (if length (c # str) < n
        then (overlay dest d ((c # str) @ [0]), d + length (c # str) + 1, tail, n - length (c # str))
        else (overlay dest d (take n (c # str)), d + n, drop n (c # str) @ 0 # tail, 0))"
      using Cons.prems False by (auto simp: o take_Cons' drop_Cons')
    finally show ?thesis .
  qed
qed

lemma skip_string_spec: "0 \<notin> set str \<Longrightarrow> skip_string (str @ 0 # tail) = Some tail"
  by (induction str) auto

text \<open>
  Into a destination of \<open>dest_size\<close> bytes \<open>strlcpy\<close> never writes outside, always leaves a
  terminated string (at most \<open>dest_size - 1\<close> characters of the source), and returns the
  length of the source, so that a result of at least \<open>dest_size\<close> tells the truncation.
\<close>

theorem strlcpy_spec:
  assumes "0 \<notin> set str" and "length dest = dest_size" and "0 < dest_size"
  shows "strlcpy dest (str @ 0 # tail) dest_size =
     Some (length str, overlay dest 0 (take (dest_size - 1) str @ [0]))"
proof (cases "dest_size = 1")
  case True
  then show ?thesis
    using assms by (simp add: strlcpy_def no_fault skip_string_spec overlay_single)
next
  case False
  have "0 \<notin> set (drop (dest_size - 1) str)" using assms(1) by (meson in_set_dropD)
  moreover have "(overlay dest 0 (take (dest_size - 1) str))[dest_size - 1 := 0] =
      overlay dest 0 (take (dest_size - 1) str @ [0])" if "\<not> length str < dest_size - 1"
    using overlay_snoc [of 0 "take (dest_size - 1) str" dest 0] that assms(2,3) by simp
  ultimately show ?thesis
    using assms False
    by (cases "length str < dest_size - 1") (auto simp: strlcpy_def strlcpy_copy_spec no_fault skip_string_spec)
qed

theorem strlcpy_spec_witness:
  "strlcpy [1, 1, 1] [0x61, 0x62, 0x63, 0x64, 0] 3 = Some (4, [0x61, 0x62, 0])"
  using strlcpy_spec [of "[0x61, 0x62, 0x63, 0x64]" "[1, 1, 1]" 3 "[]"] by (simp add: overlay_def)

end
