(* ===== verification/Modbus_Tcp.thy ===== *)
theory Modbus_Tcp
  imports Modbus_Server Modbus_Client
begin

text \<open>
  \<open>libmodbus-master/src/modbus-tcp.c\<close> with \<open>modbus-tcp-private.h\<close>: the TCP transport, for
  IPv4 and protocol independent (\<open>pi\<close>), on a POSIX system with \<open>SOCK_CLOEXEC\<close>,
  \<open>SOCK_NONBLOCK\<close> and \<open>accept4\<close>. Both contexts begin with the transaction identifier and
  the port; the shared functions work on that common part.
\<close>

section \<open>Contexts\<close>

definition TCP_HEADER_LENGTH :: nat where "TCP_HEADER_LENGTH = 7"
definition TCP_PRESET_REQ_LENGTH :: nat where "TCP_PRESET_REQ_LENGTH = 12"
definition TCP_PRESET_RSP_LENGTH :: nat where "TCP_PRESET_RSP_LENGTH = 8"
definition TCP_CHECKSUM_LENGTH :: nat where "TCP_CHECKSUM_LENGTH = 0"
definition TCP_MAX_ADU_LENGTH :: nat where "TCP_MAX_ADU_LENGTH = 260"
definition TCP_SLAVE :: int where "TCP_SLAVE = 0xFF"
definition TCP_PI_NODE_LENGTH :: nat where "TCP_PI_NODE_LENGTH = 1025"
definition TCP_PI_SERVICE_LENGTH :: nat where "TCP_PI_SERVICE_LENGTH = 32"

lemmas tcp_lengths = TCP_HEADER_LENGTH_def TCP_PRESET_REQ_LENGTH_def TCP_PRESET_RSP_LENGTH_def
  TCP_CHECKSUM_LENGTH_def TCP_MAX_ADU_LENGTH_def

record modbus_tcp_base =
  t_id :: u16
  port :: int

record modbus_tcp = modbus_tcp_base +
  ip :: mem

record modbus_tcp_pi = modbus_tcp_base +
  pi_node :: mem
  pi_service :: mem

definition tcp_set_slave :: "int \<Rightarrow> 'd modbus \<Rightarrow> int \<times> 'd modbus" where
  "tcp_set_slave slave ctx =
     (if 0 \<le> slave \<and> slave \<le> 247 then (0, ctx\<lparr>mb_slave := slave\<rparr>)
      else if slave = TCP_SLAVE then (0, ctx\<lparr>mb_slave := slave\<rparr>)
      else (-1, ctx\<lparr>errno := EINVAL\<rparr>))"

section \<open>Headers\<close>

definition tcp_build_request_basis ::
  "int \<Rightarrow> int \<Rightarrow> int \<Rightarrow> mem \<Rightarrow> 'z modbus_tcp_base_scheme modbus \<Rightarrow>
     (nat \<times> mem \<times> 'z modbus_tcp_base_scheme modbus) option" where
  "tcp_build_request_basis f addr nb req ctx =
     (let t = (if t_id (backend_data ctx) < 0xFFFF then t_id (backend_data ctx) + 1 else 0);
          ctx = ctx\<lparr>backend_data := (backend_data ctx)\<lparr>t_id := t\<rparr>\<rparr> in
      do { req \<leftarrow> wr8 req 0 (hi8 t);
           req \<leftarrow> wr8 req 1 (lo8 t);
           req \<leftarrow> wr8 req 2 0;
           req \<leftarrow> wr8 req 3 0;
           req \<leftarrow> wr8 req 6 (word_of_int (mb_slave ctx));
           req \<leftarrow> wr8 req 7 (word_of_int f);
           req \<leftarrow> put16 addr req 8;
           req \<leftarrow> put16 nb req 10;
           Some (TCP_PRESET_REQ_LENGTH, req, ctx) })"

definition tcp_build_response_basis :: "sft \<Rightarrow> mem \<Rightarrow> (nat \<times> mem) option" where
  "tcp_build_response_basis sft rsp =
     do { rsp \<leftarrow> put16 (sft_t_id sft) rsp 0;
          rsp \<leftarrow> wr8 rsp 2 0;
          rsp \<leftarrow> wr8 rsp 3 0;
          rsp \<leftarrow> wr8 rsp 6 (word_of_int (sft_slave sft));
          rsp \<leftarrow> wr8 rsp 7 (word_of_int (sft_function sft));
          Some (TCP_PRESET_RSP_LENGTH, rsp) }"

definition tcp_prepare_response_tid :: "mem \<Rightarrow> nat \<Rightarrow> (int \<times> nat) option" where
  "tcp_prepare_response_tid req req_length = do { t \<leftarrow> rd_be16 req 0; Some (t, req_length) }"

definition tcp_send_msg_pre :: "mem \<Rightarrow> nat \<Rightarrow> (nat \<times> mem) option" where
  "tcp_send_msg_pre req req_length =
     do { req \<leftarrow> put16 (int req_length - 6) req 4; Some (req_length, req) }"

definition tcp_check_integrity :: "mem \<Rightarrow> nat \<Rightarrow> 'd modbus \<Rightarrow> 'w \<Rightarrow> (int \<times> 'd modbus \<times> 'w) option" where
  "tcp_check_integrity msg len ctx w = Some (int len, ctx, w)"

text \<open>The protocol identifier is refused only when both of its bytes are nonzero.\<close>

definition tcp_pre_check_confirmation :: "mem \<Rightarrow> mem \<Rightarrow> int \<Rightarrow> 'd modbus \<Rightarrow> (int \<times> 'd modbus) option" where
  "tcp_pre_check_confirmation req rsp rsp_length ctx =
     do { q0 \<leftarrow> rd8 req 0; r0 \<leftarrow> rd8 rsp 0; q1 \<leftarrow> rd8 req 1; r1 \<leftarrow> rd8 rsp 1;
          r2 \<leftarrow> rd8 rsp 2; r3 \<leftarrow> rd8 rsp 3;
          Some (if q0 \<noteq> r0 \<or> q1 \<noteq> r1 then (-1, ctx\<lparr>errno := EMBBADDATA\<rparr>)
                else if r2 \<noteq> 0 \<and> r3 \<noteq> 0 then (-1, ctx\<lparr>errno := EMBBADDATA\<rparr>)
                else (0, ctx)) }"

section \<open>The socket\<close>

text \<open>The \<open>errno\<close> of a call is kept when the call fails.\<close>

definition fail_errno :: "int \<Rightarrow> int \<Rightarrow> 'd modbus \<Rightarrow> 'd modbus" where
  "fail_errno rc err ctx = (if rc = -1 then ctx\<lparr>errno := err\<rparr> else ctx)"

definition tcp_send :: "('a, 'w) net \<Rightarrow> u8 list \<Rightarrow> 'd modbus \<Rightarrow> 'w \<Rightarrow> int \<times> 'd modbus \<times> 'w" where
  "tcp_send net bytes ctx w =
     (let (rc, err, w) = net_send net (mb_s ctx) bytes w in (rc, fail_errno rc err ctx, w))"

definition tcp_receive ::
  "('d, 'w) receiver \<Rightarrow> mem \<Rightarrow> 'd modbus \<Rightarrow> 'w \<Rightarrow> (int \<times> mem \<times> 'd modbus \<times> 'w) option" where
  "tcp_receive receive_msg req ctx w = receive_msg req MSG_INDICATION ctx w"

definition tcp_recv :: "('a, 'w) net \<Rightarrow> nat \<Rightarrow> 'd modbus \<Rightarrow> 'w \<Rightarrow> int \<times> u8 list \<times> 'd modbus \<times> 'w" where
  "tcp_recv net n ctx w =
     (let (rc, bytes, err, w) = net_recv net (mb_s ctx) n False w in (rc, bytes, fail_errno rc err ctx, w))"

definition IPPROTO_IP :: int where "IPPROTO_IP = 0"
definition IPPROTO_TCP :: int where "IPPROTO_TCP = 6"
definition TCP_NODELAY :: int where "TCP_NODELAY = 1"
definition IP_TOS :: int where "IP_TOS = 1"
definition IPTOS_LOWDELAY :: int where "IPTOS_LOWDELAY = 0x10"
definition SOL_SOCKET :: int where "SOL_SOCKET = 1"
definition SO_REUSEADDR :: int where "SO_REUSEADDR = 2"
definition AF_INET :: int where "AF_INET = 2"
definition SOCK_STREAM :: int where "SOCK_STREAM = 1"
definition SOCK_CLOEXEC :: int where "SOCK_CLOEXEC = 0x80000"
definition SOCK_NONBLOCK :: int where "SOCK_NONBLOCK = 0x800"

definition tcp_set_ipv4_options :: "('a, 'w) net \<Rightarrow> int \<Rightarrow> int \<Rightarrow> 'w \<Rightarrow> int \<times> int \<times> 'w" where
  "tcp_set_ipv4_options net s err w =
     (let (rc, err', w) = net_setsockopt net s IPPROTO_TCP TCP_NODELAY 1 w in
      if rc = -1 then (-1, err', w)
      else let (rc, err', w) = net_setsockopt net s IPPROTO_IP IP_TOS IPTOS_LOWDELAY w in
        if rc = -1 then (-1, err', w) else (0, err, w))"

definition tcp_connect_fd :: "('a, 'w) net \<Rightarrow> int \<Rightarrow> 'a \<Rightarrow> timeval \<Rightarrow> int \<Rightarrow> 'w \<Rightarrow> int \<times> int \<times> 'w" where
  "tcp_connect_fd net sockfd addr ro_tv err w =
     (let (rc, err', w) = net_connect net sockfd addr w; err = (if rc = -1 then err' else err) in
      if rc = -1 \<and> err = EINPROGRESS then
        let (rc, err', w) = net_select_write net sockfd ro_tv w; err = (if rc = -1 then err' else err) in
        if rc \<le> 0 then (-1, err, w)
        else let (rc, optval, err', w) = net_so_error net sockfd w in
          if rc = 0 \<and> optval = 0 then (0, err, w) else (-1, ECONNREFUSED, w)
      else (rc, err, w))"

text \<open>\<open>inet\<close> builds the socket address of an IP string (or of any address) and a port.\<close>

definition tcp_connect ::
  "('a, 'w) net \<Rightarrow> (mem option \<Rightarrow> int \<Rightarrow> 'a) \<Rightarrow> modbus_tcp modbus \<Rightarrow> 'w \<Rightarrow> int \<times> modbus_tcp modbus \<times> 'w" where
  "tcp_connect net inet ctx w =
     (let (s, err, w) = net_socket net AF_INET (SOCK_STREAM OR SOCK_CLOEXEC OR SOCK_NONBLOCK) 0 w;
          ctx = (fail_errno s err ctx)\<lparr>mb_s := s\<rparr> in
      if s = -1 then (-1, ctx, w)
      else let (rc, err, w) = tcp_set_ipv4_options net s (errno ctx) w; ctx = ctx\<lparr>errno := err\<rparr> in
        if rc = -1 then (-1, ctx\<lparr>mb_s := -1\<rparr>, net_close net s w)
        else let addr = inet (Some (ip (backend_data ctx))) (port (backend_data ctx));
                 (rc, err, w) = tcp_connect_fd net s addr (response_timeout ctx) (errno ctx) w;
                 ctx = ctx\<lparr>errno := err\<rparr> in
          if rc = -1 then (-1, ctx\<lparr>mb_s := -1\<rparr>, net_close net s w) else (0, ctx, w))"

record 'a addrinfo =
  ai_family :: int
  ai_socktype :: int
  ai_protocol :: int
  ai_addr :: 'a

text \<open>The loop over the addresses \<open>getaddrinfo\<close> found: the first that accepts is used.\<close>

fun pi_connect_loop ::
  "('a, 'w) net \<Rightarrow> 'a addrinfo list \<Rightarrow> 'd modbus \<Rightarrow> 'w \<Rightarrow> 'd modbus \<times> 'w" where
  "pi_connect_loop net [] ctx w = (ctx, w)"
| "pi_connect_loop net (ai # ais) ctx w =
     (let (s, err, w) = net_socket net (ai_family ai)
            (ai_socktype ai OR SOCK_CLOEXEC OR SOCK_NONBLOCK) (ai_protocol ai) w;
          ctx = fail_errno s err ctx in
      if s < 0 then pi_connect_loop net ais ctx w
      else let (_, err, w) = (if ai_family ai = AF_INET then tcp_set_ipv4_options net s (errno ctx) w
                              else (0, errno ctx, w));
               (rc, err, w) = tcp_connect_fd net s (ai_addr ai) (response_timeout ctx) err w;
               ctx = ctx\<lparr>errno := err\<rparr> in
        if rc = -1 then pi_connect_loop net ais ctx (net_close net s w)
        else (ctx\<lparr>mb_s := s\<rparr>, w))"

definition tcp_pi_connect ::
  "('a, 'w) net \<Rightarrow> (mem \<Rightarrow> mem \<Rightarrow> 'w \<Rightarrow> int \<times> 'a addrinfo list \<times> 'w) \<Rightarrow> modbus_tcp_pi modbus \<Rightarrow> 'w \<Rightarrow>
     int \<times> modbus_tcp_pi modbus \<times> 'w" where
  "tcp_pi_connect net getaddrinfo ctx w =
     (let (rc, ai_list, w) = getaddrinfo (pi_node (backend_data ctx)) (pi_service (backend_data ctx)) w in
      if rc \<noteq> 0 then (-1, ctx\<lparr>errno := ECONNREFUSED\<rparr>, w)
      else let (ctx, w) = pi_connect_loop net ai_list ctx w in
        (if mb_s ctx < 0 then -1 else 0, ctx, w))"

definition tcp_close :: "('a, 'w) net \<Rightarrow> 'd modbus \<Rightarrow> 'w \<Rightarrow> 'd modbus \<times> 'w" where
  "tcp_close net ctx w =
     (if mb_s ctx \<noteq> -1 then
        (ctx\<lparr>mb_s := -1\<rparr>, net_close net (mb_s ctx) (net_shutdown net (mb_s ctx) w))
      else (ctx, w))"

partial_function (option) tcp_flush_loop ::
  "('a, 'w) net \<Rightarrow> int \<Rightarrow> 'd modbus \<Rightarrow> 'w \<Rightarrow> (int \<times> 'd modbus \<times> 'w) option" where
  "tcp_flush_loop net rc_sum ctx w =
     (case net_recv net (mb_s ctx) TCP_MAX_ADU_LENGTH True w of (rc, _, err, w) \<Rightarrow>
        let rc_sum = (if 0 < rc then rc_sum + rc else rc_sum); ctx = fail_errno rc err ctx in
        if rc = int TCP_MAX_ADU_LENGTH then tcp_flush_loop net rc_sum ctx w else Some (rc_sum, ctx, w))"

definition tcp_flush :: "('a, 'w) net \<Rightarrow> 'd modbus \<Rightarrow> 'w \<Rightarrow> (int \<times> 'd modbus \<times> 'w) option" where
  "tcp_flush net ctx w = tcp_flush_loop net 0 ctx w"

section \<open>Listening\<close>

definition modbus_tcp_listen ::
  "('a, 'w) net \<Rightarrow> (mem option \<Rightarrow> int \<Rightarrow> 'a) \<Rightarrow> int \<Rightarrow> modbus_tcp modbus \<Rightarrow> 'w \<Rightarrow> (int \<times> modbus_tcp modbus \<times> 'w) option" where
  "modbus_tcp_listen net inet nb_connection ctx w =
     (let (new_s, err, w) = net_socket net AF_INET SOCK_STREAM IPPROTO_TCP w in
      if new_s = -1 then Some (-1, ctx\<lparr>errno := err\<rparr>, w)
      else let (rc, err, w) = net_setsockopt net new_s SOL_SOCKET SO_REUSEADDR 1 w in
        if rc = -1 then Some (-1, ctx\<lparr>errno := err\<rparr>, net_close net new_s w)
        else do {
          c \<leftarrow> rd8 (ip (backend_data ctx)) 0;
          let addr = inet (if c = of_char (CHR ''0'') then None else Some (ip (backend_data ctx)))
                       (port (backend_data ctx));
          let (rc, err, w) = net_bind net new_s addr w;
          if rc = -1 then Some (-1, ctx\<lparr>errno := err\<rparr>, net_close net new_s w)
          else
            let (rc, err, w) = net_listen net new_s nb_connection w in
            if rc = -1 then Some (-1, ctx\<lparr>errno := err\<rparr>, net_close net new_s w)
            else Some (new_s, ctx, w) })"

text \<open>The loop over the addresses \<open>getaddrinfo\<close> found; the result is the new socket or -1.\<close>

fun pi_listen_loop ::
  "('a, 'w) net \<Rightarrow> int \<Rightarrow> 'a addrinfo list \<Rightarrow> 'd modbus \<Rightarrow> 'w \<Rightarrow> int \<times> 'd modbus \<times> 'w" where
  "pi_listen_loop net nb_connection [] ctx w = (-1, ctx, w)"
| "pi_listen_loop net nb_connection (ai # ais) ctx w =
     (let (s, err, w) = net_socket net (ai_family ai) (ai_socktype ai) (ai_protocol ai) w in
      if s < 0 then pi_listen_loop net nb_connection ais (ctx\<lparr>errno := err\<rparr>) w
      else let (rc, err, w) = net_setsockopt net s SOL_SOCKET SO_REUSEADDR 1 w in
      if rc \<noteq> 0 then pi_listen_loop net nb_connection ais (ctx\<lparr>errno := err\<rparr>) (net_close net s w)
      else let (rc, err, w) = net_bind net s (ai_addr ai) w in
      if rc \<noteq> 0 then pi_listen_loop net nb_connection ais (ctx\<lparr>errno := err\<rparr>) (net_close net s w)
      else let (rc, err, w) = net_listen net s nb_connection w in
      if rc \<noteq> 0 then pi_listen_loop net nb_connection ais (ctx\<lparr>errno := err\<rparr>) (net_close net s w)
      else (s, ctx, w))"

text \<open>\<open>getaddrinfo\<close> is given no node, for any address, or a node, and a service.\<close>

definition modbus_tcp_pi_listen ::
  "('a, 'w) net \<Rightarrow> (mem option \<Rightarrow> mem \<Rightarrow> 'w \<Rightarrow> int \<times> 'a addrinfo list \<times> 'w) \<Rightarrow> int \<Rightarrow> modbus_tcp_pi modbus \<Rightarrow> 'w \<Rightarrow>
     (int \<times> modbus_tcp_pi modbus \<times> 'w) option" where
  "modbus_tcp_pi_listen net getaddrinfo nb_connection ctx w =
     do { n \<leftarrow> rd8 (pi_node (backend_data ctx)) 0;
          s \<leftarrow> rd8 (pi_service (backend_data ctx)) 0;
          let node = (if n = 0 then None else Some (pi_node (backend_data ctx)));
          let service = (if s = 0 then map of_char ''502'' @ [0] else pi_service (backend_data ctx));
          let (rc, ai_list, w) = getaddrinfo node service w;
          Some (if rc \<noteq> 0 then (-1, ctx\<lparr>errno := ECONNREFUSED\<rparr>, w)
                else let (new_s, ctx, w) = pi_listen_loop net nb_connection ai_list ctx w in
                  (if new_s < 0 then -1 else new_s, ctx, w)) }"

text \<open>\<open>modbus_tcp_accept\<close> and \<open>modbus_tcp_pi_accept\<close> differ in the address they do not use.\<close>

definition modbus_tcp_accept :: "('a, 'w) net \<Rightarrow> int \<Rightarrow> 'd modbus \<Rightarrow> 'w \<Rightarrow> int \<times> 'd modbus \<times> 'w" where
  "modbus_tcp_accept net listener ctx w =
     (let (s, err, w) = net_accept net listener w; ctx = (fail_errno s err ctx)\<lparr>mb_s := s\<rparr> in
      if s = -1 then (-1, ctx, w) else (s, ctx, w))"

definition modbus_tcp_pi_accept :: "('a, 'w) net \<Rightarrow> int \<Rightarrow> 'd modbus \<Rightarrow> 'w \<Rightarrow> int \<times> 'd modbus \<times> 'w" where
  "modbus_tcp_pi_accept net listener ctx w =
     (let (s, err, w) = net_accept net listener w; ctx = (fail_errno s err ctx)\<lparr>mb_s := s\<rparr> in
      if s = -1 then (-1, ctx, w) else (s, ctx, w))"

text \<open>Waiting for data; a call interrupted by a signal is repeated.\<close>

partial_function (option) tcp_select ::
  "('a, 'w) net \<Rightarrow> timeval option \<Rightarrow> nat \<Rightarrow> 'd modbus \<Rightarrow> 'w \<Rightarrow> (int \<times> timeval option \<times> 'd modbus \<times> 'w) option" where
  "tcp_select net tv n ctx w =
     (case net_select net (mb_s ctx) tv w of (s_rc, left, err, w) \<Rightarrow>
        let tv = map_option (\<lambda>_. left) tv in
        if s_rc = -1 then
          (if err = EINTR then tcp_select net tv n (ctx\<lparr>errno := err\<rparr>) w
           else Some (-1, tv, ctx\<lparr>errno := err\<rparr>, w))
        else if s_rc = 0 then Some (-1, tv, ctx\<lparr>errno := ETIMEDOUT\<rparr>, w)
        else Some (s_rc, tv, ctx, w))"

section \<open>The backends\<close>

definition tcp_backend ::
  "('a, 'w) net \<Rightarrow> (mem option \<Rightarrow> int \<Rightarrow> 'a) \<Rightarrow> (modbus_tcp, 'w) modbus_backend" where
  "tcp_backend net inet =
     \<lparr>backend_type = 1, header_length = TCP_HEADER_LENGTH, checksum_length = TCP_CHECKSUM_LENGTH,
      max_adu_length = TCP_MAX_ADU_LENGTH, be_set_slave = tcp_set_slave,
      be_build_request_basis = tcp_build_request_basis, be_build_response_basis = tcp_build_response_basis,
      be_prepare_response_tid = tcp_prepare_response_tid, be_send_msg_pre = tcp_send_msg_pre,
      be_send = tcp_send net, be_receive = tcp_receive, be_recv = tcp_recv net,
      be_check_integrity = tcp_check_integrity, be_pre_check_confirmation = tcp_pre_check_confirmation,
      be_connect = tcp_connect net inet, be_close = tcp_close net, be_flush = tcp_flush net,
      be_select = tcp_select net\<rparr>"

definition tcp_pi_backend ::
  "('a, 'w) net \<Rightarrow> (mem \<Rightarrow> mem \<Rightarrow> 'w \<Rightarrow> int \<times> 'a addrinfo list \<times> 'w) \<Rightarrow> (modbus_tcp_pi, 'w) modbus_backend" where
  "tcp_pi_backend net getaddrinfo =
     \<lparr>backend_type = 1, header_length = TCP_HEADER_LENGTH, checksum_length = TCP_CHECKSUM_LENGTH,
      max_adu_length = TCP_MAX_ADU_LENGTH, be_set_slave = tcp_set_slave,
      be_build_request_basis = tcp_build_request_basis, be_build_response_basis = tcp_build_response_basis,
      be_prepare_response_tid = tcp_prepare_response_tid, be_send_msg_pre = tcp_send_msg_pre,
      be_send = tcp_send net, be_receive = tcp_receive, be_recv = tcp_recv net,
      be_check_integrity = tcp_check_integrity, be_pre_check_confirmation = tcp_pre_check_confirmation,
      be_connect = tcp_pi_connect net getaddrinfo, be_close = tcp_close net, be_flush = tcp_flush net,
      be_select = tcp_select net\<rparr>"

text \<open>
  The constructors, from the fresh memory of a context; \<open>None\<close> is the null pointer that an
  invalid argument gives. The results of \<open>malloc\<close> are used unchecked by the code.
\<close>

definition modbus_new_tcp :: "mem option \<Rightarrow> int \<Rightarrow> modbus_tcp modbus \<Rightarrow> modbus_tcp modbus option option" where
  "modbus_new_tcp ip_arg port_arg fresh =
     (let ctx = (modbus_init_common fresh)\<lparr>mb_slave := TCP_SLAVE\<rparr>;
          finish = (\<lambda>m. Some (Some (ctx\<lparr>backend_data := \<lparr>t_id = 0, port = port_arg, ip = m\<rparr>\<rparr>))) in
      case ip_arg of
        Some a \<Rightarrow>
          do { (ret_size, m) \<leftarrow> strlcpy (ip (backend_data ctx)) a 16;
               if ret_size = 0 then Some None
               else if 16 \<le> ret_size then Some None
               else finish m }
      | None \<Rightarrow> do { m \<leftarrow> wr8 (ip (backend_data ctx)) 0 (of_char (CHR ''0'')); finish m })"

definition modbus_new_tcp_pi ::
  "mem option \<Rightarrow> mem option \<Rightarrow> modbus_tcp_pi modbus \<Rightarrow> modbus_tcp_pi modbus option option" where
  "modbus_new_tcp_pi node service fresh =
     (let ctx = (modbus_init_common fresh)\<lparr>mb_slave := TCP_SLAVE\<rparr>; d = backend_data ctx in
      do { node_m \<leftarrow>
             (case node of
                None \<Rightarrow> map_option Some (wr8 (pi_node d) 0 0)
              | Some a \<Rightarrow>
                  do { (n, m) \<leftarrow> strlcpy (pi_node d) a TCP_PI_NODE_LENGTH;
                       Some (if n = 0 \<or> TCP_PI_NODE_LENGTH \<le> n then None else Some m) });
           case node_m of
             None \<Rightarrow> Some None
           | Some m \<Rightarrow>
               do { (n, sm) \<leftarrow>
                      (case service of
                         Some a \<Rightarrow> strlcpy (pi_service d) a TCP_PI_SERVICE_LENGTH
                       | None \<Rightarrow> Some (0, pi_service d));
                    Some (if n = 0 \<or> TCP_PI_SERVICE_LENGTH \<le> n then None
                          else Some (ctx\<lparr>backend_data := d\<lparr>t_id := 0, pi_node := m, pi_service := sm\<rparr>\<rparr>)) } })"

end
