(* ===== verification/Modbus_Rtu.thy ===== *)
theory Modbus_Rtu
  imports Modbus_Server Modbus_Client
begin

text \<open>
  \<open>libmodbus-master/src/modbus-rtu.c\<close> with \<open>modbus-rtu-private.h\<close>: the serial transport on
  a POSIX system that has \<open>TIOCSRS485\<close> and \<open>TIOCM_RTS\<close>. The branches for Windows are not
  modelled.
\<close>

section \<open>The CRC\<close>

definition table_crc_hi :: "u8 list" where
  "table_crc_hi = [
    0x00, 0xC1, 0x81, 0x40, 0x01, 0xC0, 0x80, 0x41, 0x01, 0xC0, 0x80, 0x41, 0x00, 0xC1, 0x81, 0x40,
    0x01, 0xC0, 0x80, 0x41, 0x00, 0xC1, 0x81, 0x40, 0x00, 0xC1, 0x81, 0x40, 0x01, 0xC0, 0x80, 0x41,
    0x01, 0xC0, 0x80, 0x41, 0x00, 0xC1, 0x81, 0x40, 0x00, 0xC1, 0x81, 0x40, 0x01, 0xC0, 0x80, 0x41,
    0x00, 0xC1, 0x81, 0x40, 0x01, 0xC0, 0x80, 0x41, 0x01, 0xC0, 0x80, 0x41, 0x00, 0xC1, 0x81, 0x40,
    0x01, 0xC0, 0x80, 0x41, 0x00, 0xC1, 0x81, 0x40, 0x00, 0xC1, 0x81, 0x40, 0x01, 0xC0, 0x80, 0x41,
    0x00, 0xC1, 0x81, 0x40, 0x01, 0xC0, 0x80, 0x41, 0x01, 0xC0, 0x80, 0x41, 0x00, 0xC1, 0x81, 0x40,
    0x00, 0xC1, 0x81, 0x40, 0x01, 0xC0, 0x80, 0x41, 0x01, 0xC0, 0x80, 0x41, 0x00, 0xC1, 0x81, 0x40,
    0x01, 0xC0, 0x80, 0x41, 0x00, 0xC1, 0x81, 0x40, 0x00, 0xC1, 0x81, 0x40, 0x01, 0xC0, 0x80, 0x41,
    0x01, 0xC0, 0x80, 0x41, 0x00, 0xC1, 0x81, 0x40, 0x00, 0xC1, 0x81, 0x40, 0x01, 0xC0, 0x80, 0x41,
    0x00, 0xC1, 0x81, 0x40, 0x01, 0xC0, 0x80, 0x41, 0x01, 0xC0, 0x80, 0x41, 0x00, 0xC1, 0x81, 0x40,
    0x00, 0xC1, 0x81, 0x40, 0x01, 0xC0, 0x80, 0x41, 0x01, 0xC0, 0x80, 0x41, 0x00, 0xC1, 0x81, 0x40,
    0x01, 0xC0, 0x80, 0x41, 0x00, 0xC1, 0x81, 0x40, 0x00, 0xC1, 0x81, 0x40, 0x01, 0xC0, 0x80, 0x41,
    0x00, 0xC1, 0x81, 0x40, 0x01, 0xC0, 0x80, 0x41, 0x01, 0xC0, 0x80, 0x41, 0x00, 0xC1, 0x81, 0x40,
    0x01, 0xC0, 0x80, 0x41, 0x00, 0xC1, 0x81, 0x40, 0x00, 0xC1, 0x81, 0x40, 0x01, 0xC0, 0x80, 0x41,
    0x01, 0xC0, 0x80, 0x41, 0x00, 0xC1, 0x81, 0x40, 0x00, 0xC1, 0x81, 0x40, 0x01, 0xC0, 0x80, 0x41,
    0x00, 0xC1, 0x81, 0x40, 0x01, 0xC0, 0x80, 0x41, 0x01, 0xC0, 0x80, 0x41, 0x00, 0xC1, 0x81, 0x40]"

definition table_crc_lo :: "u8 list" where
  "table_crc_lo = [
    0x00, 0xC0, 0xC1, 0x01, 0xC3, 0x03, 0x02, 0xC2, 0xC6, 0x06, 0x07, 0xC7, 0x05, 0xC5, 0xC4, 0x04,
    0xCC, 0x0C, 0x0D, 0xCD, 0x0F, 0xCF, 0xCE, 0x0E, 0x0A, 0xCA, 0xCB, 0x0B, 0xC9, 0x09, 0x08, 0xC8,
    0xD8, 0x18, 0x19, 0xD9, 0x1B, 0xDB, 0xDA, 0x1A, 0x1E, 0xDE, 0xDF, 0x1F, 0xDD, 0x1D, 0x1C, 0xDC,
    0x14, 0xD4, 0xD5, 0x15, 0xD7, 0x17, 0x16, 0xD6, 0xD2, 0x12, 0x13, 0xD3, 0x11, 0xD1, 0xD0, 0x10,
    0xF0, 0x30, 0x31, 0xF1, 0x33, 0xF3, 0xF2, 0x32, 0x36, 0xF6, 0xF7, 0x37, 0xF5, 0x35, 0x34, 0xF4,
    0x3C, 0xFC, 0xFD, 0x3D, 0xFF, 0x3F, 0x3E, 0xFE, 0xFA, 0x3A, 0x3B, 0xFB, 0x39, 0xF9, 0xF8, 0x38,
    0x28, 0xE8, 0xE9, 0x29, 0xEB, 0x2B, 0x2A, 0xEA, 0xEE, 0x2E, 0x2F, 0xEF, 0x2D, 0xED, 0xEC, 0x2C,
    0xE4, 0x24, 0x25, 0xE5, 0x27, 0xE7, 0xE6, 0x26, 0x22, 0xE2, 0xE3, 0x23, 0xE1, 0x21, 0x20, 0xE0,
    0xA0, 0x60, 0x61, 0xA1, 0x63, 0xA3, 0xA2, 0x62, 0x66, 0xA6, 0xA7, 0x67, 0xA5, 0x65, 0x64, 0xA4,
    0x6C, 0xAC, 0xAD, 0x6D, 0xAF, 0x6F, 0x6E, 0xAE, 0xAA, 0x6A, 0x6B, 0xAB, 0x69, 0xA9, 0xA8, 0x68,
    0x78, 0xB8, 0xB9, 0x79, 0xBB, 0x7B, 0x7A, 0xBA, 0xBE, 0x7E, 0x7F, 0xBF, 0x7D, 0xBD, 0xBC, 0x7C,
    0xB4, 0x74, 0x75, 0xB5, 0x77, 0xB7, 0xB6, 0x76, 0x72, 0xB2, 0xB3, 0x73, 0xB1, 0x71, 0x70, 0xB0,
    0x50, 0x90, 0x91, 0x51, 0x93, 0x53, 0x52, 0x92, 0x96, 0x56, 0x57, 0x97, 0x55, 0x95, 0x94, 0x54,
    0x9C, 0x5C, 0x5D, 0x9D, 0x5F, 0x9F, 0x9E, 0x5E, 0x5A, 0x9A, 0x9B, 0x5B, 0x99, 0x59, 0x58, 0x98,
    0x88, 0x48, 0x49, 0x89, 0x4B, 0x8B, 0x8A, 0x4A, 0x4E, 0x8E, 0x8F, 0x4F, 0x8D, 0x4D, 0x4C, 0x8C,
    0x44, 0x84, 0x85, 0x45, 0x87, 0x47, 0x46, 0x86, 0x82, 0x42, 0x43, 0x83, 0x41, 0x81, 0x80, 0x40]"

text \<open>One iteration of the loop of \<open>crc16\<close>, on \<open>crc_hi\<close> and \<open>crc_lo\<close>.\<close>

definition crc16_step :: "u8 \<times> u8 \<Rightarrow> u8 \<Rightarrow> u8 \<times> u8" where
  "crc16_step c b =
     (case c of (crc_hi, crc_lo) \<Rightarrow>
        let i = unat (crc_hi XOR b) in (crc_lo XOR table_crc_hi ! i, table_crc_lo ! i))"

definition crc16_bytes :: "u8 list \<Rightarrow> u8 \<times> u8" where
  "crc16_bytes bs = foldl crc16_step (0xFF, 0xFF) bs"

text \<open>\<open>crc16(buffer, buffer_length)\<close>, whose length is a \<open>uint16_t\<close>.\<close>

definition crc16 :: "mem \<Rightarrow> u16 \<Rightarrow> u16 option" where
  "crc16 buffer buffer_length =
     do { bs \<leftarrow> rd_block buffer 0 (unat buffer_length);
          let (crc_hi, crc_lo) = crc16_bytes bs;
          Some (join16 crc_hi crc_lo) }"

section \<open>The context\<close>

definition RTU_HEADER_LENGTH :: nat where "RTU_HEADER_LENGTH = 1"
definition RTU_PRESET_REQ_LENGTH :: nat where "RTU_PRESET_REQ_LENGTH = 6"
definition RTU_PRESET_RSP_LENGTH :: nat where "RTU_PRESET_RSP_LENGTH = 2"
definition RTU_CHECKSUM_LENGTH :: nat where "RTU_CHECKSUM_LENGTH = 2"
definition RTU_MAX_ADU_LENGTH :: nat where "RTU_MAX_ADU_LENGTH = 256"
definition RTU_RS232 :: int where "RTU_RS232 = 0"
definition RTU_RS485 :: int where "RTU_RS485 = 1"
definition RTU_RTS_NONE :: int where "RTU_RTS_NONE = 0"
definition RTU_RTS_UP :: int where "RTU_RTS_UP = 1"
definition RTU_RTS_DOWN :: int where "RTU_RTS_DOWN = 2"

lemmas rtu_lengths = RTU_HEADER_LENGTH_def RTU_PRESET_REQ_LENGTH_def RTU_PRESET_RSP_LENGTH_def
  RTU_CHECKSUM_LENGTH_def RTU_MAX_ADU_LENGTH_def

text \<open>The fields of \<open>struct termios\<close> that the code sets; a speed is one of the \<open>B...\<close> codes.\<close>

record termios =
  c_iflag :: u32
  c_oflag :: u32
  c_cflag :: u32
  c_lflag :: u32
  c_ispeed :: u32
  c_ospeed :: u32
  c_vmin :: u8
  c_vtime :: u8

text \<open>The system calls on the serial device.\<close>

record 'w tty =
  tty_open :: "mem \<Rightarrow> 'w \<Rightarrow> int \<times> int \<times> 'w"
  tty_close :: "int \<Rightarrow> 'w \<Rightarrow> 'w"
  tty_write :: "int \<Rightarrow> u8 list \<Rightarrow> 'w \<Rightarrow> int \<times> int \<times> 'w"
  tty_read :: "int \<Rightarrow> nat \<Rightarrow> 'w \<Rightarrow> int \<times> u8 list \<times> int \<times> 'w"
  tty_tcflush :: "int \<Rightarrow> 'w \<Rightarrow> int \<times> int \<times> 'w"
  tty_tcgetattr :: "int \<Rightarrow> 'w \<Rightarrow> termios \<times> 'w"
  tty_tcsetattr :: "int \<Rightarrow> termios \<Rightarrow> 'w \<Rightarrow> int \<times> int \<times> 'w"
  tty_tiocmget :: "int \<Rightarrow> 'w \<Rightarrow> u32 \<times> 'w"
  tty_tiocmset :: "int \<Rightarrow> u32 \<Rightarrow> 'w \<Rightarrow> 'w"
  tty_tiocsrs485 :: "int \<Rightarrow> bool \<Rightarrow> 'w \<Rightarrow> int \<times> int \<times> 'w"
  tty_usleep :: "int \<Rightarrow> 'w \<Rightarrow> 'w"

text \<open>
  \<open>modbus_rtu_t\<close>. The function \<open>set_rts\<close>, which a client may replace, is given the
  descriptor of the context it is called with.
\<close>

record 'w modbus_rtu =
  device :: mem
  baud :: int
  data_bit :: u8
  stop_bit :: u8
  parity :: char
  old_tios :: termios
  serial_mode :: int
  rts :: int
  rts_delay :: int
  onebyte_time :: int
  set_rts :: "int \<Rightarrow> int \<Rightarrow> 'w \<Rightarrow> 'w"
  confirmation_to_ignore :: bool

definition rtu_set_slave :: "int \<Rightarrow> 'd modbus \<Rightarrow> int \<times> 'd modbus" where
  "rtu_set_slave slave ctx =
     (if 0 \<le> slave \<and> slave \<le> 247 then (0, ctx\<lparr>mb_slave := slave\<rparr>) else (-1, ctx\<lparr>errno := EINVAL\<rparr>))"

section \<open>Messages\<close>

text \<open>The assertion that a slave has been set aborts the program, which is a fault here.\<close>

definition rtu_build_request_basis ::
  "int \<Rightarrow> int \<Rightarrow> int \<Rightarrow> mem \<Rightarrow> 'd modbus \<Rightarrow> (nat \<times> mem \<times> 'd modbus) option" where
  "rtu_build_request_basis f addr nb req ctx =
     (if mb_slave ctx = -1 then None
      else do {
        req \<leftarrow> wr8 req 0 (word_of_int (mb_slave ctx));
        req \<leftarrow> wr8 req 1 (word_of_int f);
        req \<leftarrow> put16 addr req 2;
        req \<leftarrow> put16 nb req 4;
        Some (RTU_PRESET_REQ_LENGTH, req, ctx) })"

definition rtu_build_response_basis :: "sft \<Rightarrow> mem \<Rightarrow> (nat \<times> mem) option" where
  "rtu_build_response_basis sft rsp =
     do { rsp \<leftarrow> wr8 rsp 0 (word_of_int (sft_slave sft));
          rsp \<leftarrow> wr8 rsp 1 (word_of_int (sft_function sft));
          Some (RTU_PRESET_RSP_LENGTH, rsp) }"

text \<open>A length below that of the checksum would become negative; it is a fault here.\<close>

definition rtu_prepare_response_tid :: "mem \<Rightarrow> nat \<Rightarrow> (int \<times> nat) option" where
  "rtu_prepare_response_tid req req_length =
     (if req_length < RTU_CHECKSUM_LENGTH then None else Some (0, req_length - RTU_CHECKSUM_LENGTH))"

definition rtu_send_msg_pre :: "mem \<Rightarrow> nat \<Rightarrow> (nat \<times> mem) option" where
  "rtu_send_msg_pre req req_length =
     do { crc \<leftarrow> crc16 req (word_of_nat req_length);
          req \<leftarrow> wr8 req req_length (hi8 crc);
          req \<leftarrow> wr8 req (req_length + 1) (lo8 crc);
          Some (req_length + 2, req) }"

definition rtu_flush :: "'w tty \<Rightarrow> 'd modbus \<Rightarrow> 'w \<Rightarrow> (int \<times> 'd modbus \<times> 'w) option" where
  "rtu_flush tty ctx w =
     (let (rc, err, w) = tty_tcflush tty (mb_s ctx) w in
      Some (rc, if rc = -1 then ctx\<lparr>errno := err\<rparr> else ctx, w))"

text \<open>
  A message for another slave is ignored (0). The length of a message is at least the
  header's and the checksum's; a shorter one would read before the buffer.
\<close>

definition rtu_check_integrity ::
  "'w tty \<Rightarrow> mem \<Rightarrow> nat \<Rightarrow> 'd modbus \<Rightarrow> 'w \<Rightarrow> (int \<times> 'd modbus \<times> 'w) option" where
  "rtu_check_integrity tty msg len ctx w =
     do { slave \<leftarrow> rd8 msg 0;
          if uint slave \<noteq> mb_slave ctx \<and> uint slave \<noteq> MODBUS_BROADCAST_ADDRESS then Some (0, ctx, w)
          else if len < 2 then None
          else do {
            crc_calculated \<leftarrow> crc16 msg (word_of_nat (len - 2));
            hi \<leftarrow> rd8 msg (len - 2);
            lo \<leftarrow> rd8 msg (len - 1);
            if crc_calculated = join16 hi lo then Some (int len, ctx, w)
            else do {
              (_, ctx, w) \<leftarrow> (if protocol_recovery ctx then rtu_flush tty ctx w else Some (0, ctx, w));
              Some (-1, ctx\<lparr>errno := EMBBADCRC\<rparr>, w) } } }"

definition rtu_pre_check_confirmation :: "mem \<Rightarrow> mem \<Rightarrow> int \<Rightarrow> 'd modbus \<Rightarrow> (int \<times> 'd modbus) option" where
  "rtu_pre_check_confirmation req rsp rsp_length ctx =
     do { q \<leftarrow> rd8 req 0; r \<leftarrow> rd8 rsp 0;
          Some (if q \<noteq> r \<and> uint q \<noteq> MODBUS_BROADCAST_ADDRESS then (-1, ctx\<lparr>errno := EMBBADSLAVE\<rparr>)
                else (0, ctx)) }"

section \<open>Sending and receiving\<close>

definition rtu_ioctl_rts :: "'w tty \<Rightarrow> int \<Rightarrow> int \<Rightarrow> 'w \<Rightarrow> 'w" where
  "rtu_ioctl_rts tty fd on w =
     (let (flags, w) = tty_tiocmget tty fd w;
          flags = (if on \<noteq> 0 then flags OR 0x004 else flags AND NOT 0x004) in
      tty_tiocmset tty fd flags w)"

definition rtu_send :: "'w tty \<Rightarrow> u8 list \<Rightarrow> 'w modbus_rtu modbus \<Rightarrow> 'w \<Rightarrow> int \<times> 'w modbus_rtu modbus \<times> 'w" where
  "rtu_send tty req ctx w =
     (let d = backend_data ctx; fd = mb_s ctx;
          write = (\<lambda>w. let (size, err, w) = tty_write tty fd req w in
                     (size, if size = -1 then ctx\<lparr>errno := err\<rparr> else ctx, w)) in
      if rts d \<noteq> RTU_RTS_NONE then
        let w = set_rts d fd (if rts d = RTU_RTS_UP then 1 else 0) w;
            w = tty_usleep tty (rts_delay d) w;
            (size, ctx, w) = write w;
            w = tty_usleep tty (onebyte_time d * int (length req) + rts_delay d) w;
            w = set_rts d fd (if rts d \<noteq> RTU_RTS_UP then 1 else 0) w
        in (size, ctx, w)
      else write w)"

definition rtu_recv :: "'w tty \<Rightarrow> nat \<Rightarrow> 'd modbus \<Rightarrow> 'w \<Rightarrow> int \<times> u8 list \<times> 'd modbus \<times> 'w" where
  "rtu_recv tty n ctx w =
     (let (rc, bytes, err, w) = tty_read tty (mb_s ctx) n w in
      (rc, bytes, if rc = -1 then ctx\<lparr>errno := err\<rparr> else ctx, w))"

text \<open>A request to another slave is followed on the line by a confirmation that is not ours.\<close>

definition rtu_receive ::
  "('w modbus_rtu, 'w) receiver \<Rightarrow> mem \<Rightarrow> 'w modbus_rtu modbus \<Rightarrow> 'w \<Rightarrow>
     (int \<times> mem \<times> 'w modbus_rtu modbus \<times> 'w) option" where
  "rtu_receive receive_msg req ctx w =
     (let ignoring = (\<lambda>b ctx. ctx\<lparr>backend_data := (backend_data ctx)\<lparr>confirmation_to_ignore := b\<rparr>\<rparr>) in
      if confirmation_to_ignore (backend_data ctx) then
        do { (_, req, ctx, w) \<leftarrow> receive_msg req MSG_CONFIRMATION ctx w;
             Some (0, req, ignoring False ctx, w) }
      else
        do { (rc, req, ctx, w) \<leftarrow> receive_msg req MSG_INDICATION ctx w;
             Some (rc, req, if rc = 0 then ignoring True ctx else ctx, w) })"

partial_function (option) rtu_select ::
  "('a, 'w) net \<Rightarrow> timeval option \<Rightarrow> nat \<Rightarrow> 'd modbus \<Rightarrow> 'w \<Rightarrow> (int \<times> timeval option \<times> 'd modbus \<times> 'w) option" where
  "rtu_select net tv n ctx w =
     (case net_select net (mb_s ctx) tv w of (s_rc, left, err, w) \<Rightarrow>
        let tv = map_option (\<lambda>_. left) tv in
        if s_rc = -1 then
          (if err = EINTR then rtu_select net tv n (ctx\<lparr>errno := err\<rparr>) w
           else Some (-1, tv, ctx\<lparr>errno := err\<rparr>, w))
        else if s_rc = 0 then Some (-1, tv, ctx\<lparr>errno := ETIMEDOUT\<rparr>, w)
        else Some (s_rc, tv, ctx, w))"

section \<open>The serial line\<close>

text \<open>The speed codes of Linux, one pair for each \<open>case\<close> of the code; others give \<open>B9600\<close>.\<close>

definition speed_codes :: "(int \<times> u32) list" where
  "speed_codes =
    [(110, 3), (300, 7), (600, 8), (1200, 9), (2400, 11), (4800, 12), 
     (9600, 13), (19200, 14), (38400, 15), (57600, 4097), (115200, 4098), (230400, 4099), 
     (460800, 4100), (500000, 4101), (576000, 4102), (921600, 4103), (1000000, 4104), (1152000, 4105), 
     (1500000, 4106), (2500000, 4108), (3000000, 4109), (3500000, 4110), (4000000, 4111)]"

definition rtu_speed :: "int \<Rightarrow> u32" where
  "rtu_speed b = (case map_of speed_codes b of Some s \<Rightarrow> s | None \<Rightarrow> 13)"

definition CSIZE :: u32 where "CSIZE = 0x30"
definition CSTOPB :: u32 where "CSTOPB = 0x40"
definition CREAD :: u32 where "CREAD = 0x80"
definition PARENB :: u32 where "PARENB = 0x100"
definition PARODD :: u32 where "PARODD = 0x200"
definition CLOCAL :: u32 where "CLOCAL = 0x800"
definition INPCK :: u32 where "INPCK = 0x10"

text \<open>\<open>cfsetispeed\<close> and \<open>cfsetospeed\<close> take every one of these codes.
  The fields are set from zero, in the order of the code; \<open>CS5\<close> to \<open>CS8\<close> are 0 to 0x30.\<close>

definition rtu_termios :: "'w modbus_rtu \<Rightarrow> termios" where
  "rtu_termios d =
     (let cflag = 0 OR (CREAD OR CLOCAL);
          cflag = cflag AND NOT CSIZE;
          cflag = cflag OR (if data_bit d = 5 then 0 else if data_bit d = 6 then 0x10
                            else if data_bit d = 7 then 0x20 else 0x30);
          cflag = (if stop_bit d = 1 then cflag AND NOT CSTOPB else cflag OR CSTOPB);
          cflag = (if parity d = CHR ''N'' then cflag AND NOT PARENB
                   else if parity d = CHR ''E'' then (cflag OR PARENB) AND NOT PARODD
                   else (cflag OR PARENB) OR PARODD);
          lflag = 0 AND NOT 0x1B;
          iflag = (if parity d = CHR ''N'' then 0 AND NOT INPCK else 0 OR INPCK);
          iflag = iflag AND NOT 0x1C00;
          oflag = 0 AND NOT 1 in
      \<lparr>c_iflag = iflag, c_oflag = oflag, c_cflag = cflag, c_lflag = lflag,
       c_ispeed = rtu_speed (baud d), c_ospeed = rtu_speed (baud d), c_vmin = 0, c_vtime = 0\<rparr>)"

definition rtu_connect :: "'w tty \<Rightarrow> 'w modbus_rtu modbus \<Rightarrow> 'w \<Rightarrow> int \<times> 'w modbus_rtu modbus \<times> 'w" where
  "rtu_connect tty ctx w =
     (let (s, err, w) = tty_open tty (device (backend_data ctx)) w;
          ctx = ctx\<lparr>mb_s := s\<rparr> in
      if s = -1 then (-1, ctx\<lparr>errno := err\<rparr>, w)
      else let (old, w) = tty_tcgetattr tty s w;
               ctx = ctx\<lparr>backend_data := (backend_data ctx)\<lparr>old_tios := old\<rparr>\<rparr>;
               (rc, err, w) = tty_tcsetattr tty s (rtu_termios (backend_data ctx)) w in
        if rc < 0 then (-1, ctx\<lparr>mb_s := -1, errno := err\<rparr>, tty_close tty s w)
        else (0, ctx, w))"

definition rtu_close :: "'w tty \<Rightarrow> 'w modbus_rtu modbus \<Rightarrow> 'w \<Rightarrow> 'w modbus_rtu modbus \<times> 'w" where
  "rtu_close tty ctx w =
     (if mb_s ctx \<noteq> -1 then
        let (_, _, w) = tty_tcsetattr tty (mb_s ctx) (old_tios (backend_data ctx)) w in
        (ctx\<lparr>mb_s := -1\<rparr>, tty_close tty (mb_s ctx) w)
      else (ctx, w))"

section \<open>Settings\<close>

text \<open>
  Each function first checks the kind of the context's backend, \<open>bt\<close>; \<open>not_rtu\<close> is what it
  does for another kind.
\<close>

definition not_rtu :: "'d modbus \<Rightarrow> int \<times> 'd modbus" where
  "not_rtu ctx = (-1, ctx\<lparr>errno := EINVAL\<rparr>)"

definition upd_rtu :: "('w modbus_rtu \<Rightarrow> 'w modbus_rtu) \<Rightarrow> 'w modbus_rtu modbus \<Rightarrow> 'w modbus_rtu modbus" where
  "upd_rtu f ctx = ctx\<lparr>backend_data := f (backend_data ctx)\<rparr>"

definition modbus_rtu_set_serial_mode ::
  "'w tty \<Rightarrow> nat \<Rightarrow> int \<Rightarrow> 'w modbus_rtu modbus \<Rightarrow> 'w \<Rightarrow> int \<times> 'w modbus_rtu modbus \<times> 'w" where
  "modbus_rtu_set_serial_mode tty bt mode ctx w =
     (let invalid = (-1, ctx\<lparr>errno := EINVAL\<rparr>, w) in
      if bt = 0 then
        if mode = RTU_RS485 then
          let (rc, err, w) = tty_tiocsrs485 tty (mb_s ctx) True w in
          if rc < 0 then (-1, ctx\<lparr>errno := err\<rparr>, w) else (0, upd_rtu (serial_mode_update (\<lambda>_. RTU_RS485)) ctx, w)
        else if mode = RTU_RS232 then
          (if serial_mode (backend_data ctx) = RTU_RS485 then
             let (rc, err, w) = tty_tiocsrs485 tty (mb_s ctx) False w in
             if rc < 0 then (-1, ctx\<lparr>errno := err\<rparr>, w) else (0, upd_rtu (serial_mode_update (\<lambda>_. RTU_RS232)) ctx, w)
           else (0, upd_rtu (serial_mode_update (\<lambda>_. RTU_RS232)) ctx, w))
        else invalid
      else invalid)"

definition modbus_rtu_get_serial_mode :: "nat \<Rightarrow> 'w modbus_rtu modbus \<Rightarrow> int \<times> 'w modbus_rtu modbus" where
  "modbus_rtu_get_serial_mode bt ctx = (if bt = 0 then (serial_mode (backend_data ctx), ctx) else not_rtu ctx)"

definition modbus_rtu_get_rts :: "nat \<Rightarrow> 'w modbus_rtu modbus \<Rightarrow> int \<times> 'w modbus_rtu modbus" where
  "modbus_rtu_get_rts bt ctx = (if bt = 0 then (rts (backend_data ctx), ctx) else not_rtu ctx)"

definition modbus_rtu_set_rts ::
  "nat \<Rightarrow> int \<Rightarrow> 'w modbus_rtu modbus \<Rightarrow> 'w \<Rightarrow> int \<times> 'w modbus_rtu modbus \<times> 'w" where
  "modbus_rtu_set_rts bt mode ctx w =
     (let invalid = (-1, ctx\<lparr>errno := EINVAL\<rparr>, w) in
      if bt = 0 then
        if mode = RTU_RTS_NONE \<or> mode = RTU_RTS_UP \<or> mode = RTU_RTS_DOWN then
          let ctx = upd_rtu (rts_update (\<lambda>_. mode)) ctx in
          (0, ctx, set_rts (backend_data ctx) (mb_s ctx) (if mode \<noteq> RTU_RTS_UP then 1 else 0) w)
        else invalid
      else invalid)"

definition modbus_rtu_set_custom_rts ::
  "nat \<Rightarrow> (int \<Rightarrow> int \<Rightarrow> 'w \<Rightarrow> 'w) \<Rightarrow> 'w modbus_rtu modbus \<Rightarrow> int \<times> 'w modbus_rtu modbus" where
  "modbus_rtu_set_custom_rts bt f ctx = (if bt = 0 then (0, upd_rtu (set_rts_update (\<lambda>_. f)) ctx) else not_rtu ctx)"

definition modbus_rtu_get_rts_delay :: "nat \<Rightarrow> 'w modbus_rtu modbus \<Rightarrow> int \<times> 'w modbus_rtu modbus" where
  "modbus_rtu_get_rts_delay bt ctx = (if bt = 0 then (rts_delay (backend_data ctx), ctx) else not_rtu ctx)"

definition modbus_rtu_set_rts_delay :: "nat \<Rightarrow> int \<Rightarrow> 'w modbus_rtu modbus \<Rightarrow> int \<times> 'w modbus_rtu modbus" where
  "modbus_rtu_set_rts_delay bt us ctx =
     (if us < 0 then not_rtu ctx
      else if bt = 0 then (0, upd_rtu (rts_delay_update (\<lambda>_. us)) ctx) else not_rtu ctx)"

section \<open>The backend\<close>

definition rtu_backend :: "('a, 'w) net \<Rightarrow> 'w tty \<Rightarrow> ('w modbus_rtu, 'w) modbus_backend" where
  "rtu_backend net tty =
     \<lparr>backend_type = 0, header_length = RTU_HEADER_LENGTH, checksum_length = RTU_CHECKSUM_LENGTH,
      max_adu_length = RTU_MAX_ADU_LENGTH, be_set_slave = rtu_set_slave,
      be_build_request_basis = rtu_build_request_basis, be_build_response_basis = rtu_build_response_basis,
      be_prepare_response_tid = rtu_prepare_response_tid, be_send_msg_pre = rtu_send_msg_pre,
      be_send = rtu_send tty, be_receive = rtu_receive, be_recv = rtu_recv tty,
      be_check_integrity = rtu_check_integrity tty, be_pre_check_confirmation = rtu_pre_check_confirmation,
      be_connect = rtu_connect tty, be_close = rtu_close tty, be_flush = rtu_flush tty,
      be_select = rtu_select net\<rparr>"

text \<open>
  The constructor, from the fresh memory of a context; \<open>None\<close> is the null pointer. The
  device is a C string, with its 0.
\<close>

definition modbus_new_rtu ::
  "'w tty \<Rightarrow> mem option \<Rightarrow> int \<Rightarrow> char \<Rightarrow> int \<Rightarrow> int \<Rightarrow> 'w modbus_rtu modbus \<Rightarrow> 'w modbus_rtu modbus option" where
  "modbus_new_rtu tty device_arg baud_arg parity_arg data_bit_arg stop_bit_arg fresh =
     (case device_arg of None \<Rightarrow> None
      | Some dev \<Rightarrow>
        if dev = [] \<or> hd dev = 0 then None
        else if baud_arg = 0 then None
        else if parity_arg = CHR ''N'' \<or> parity_arg = CHR ''E'' \<or> parity_arg = CHR ''O'' then
          let ctx = modbus_init_common fresh;
              onebyte = (1000000 * (1 + data_bit_arg + (if parity_arg = CHR ''N'' then 0 else 1) + stop_bit_arg))
                          sdiv baud_arg in
          Some (upd_rtu (\<lambda>d. d\<lparr>device := dev, baud := baud_arg, parity := parity_arg,
             data_bit := word_of_int data_bit_arg, stop_bit := word_of_int stop_bit_arg,
             serial_mode := RTU_RS232, rts := RTU_RTS_NONE, onebyte_time := onebyte,
             set_rts := rtu_ioctl_rts tty, rts_delay := onebyte, confirmation_to_ignore := False\<rparr>) ctx)
        else None)"

end
