(* ===== verification/Spi_Crc.thy ===== *)
theory Spi_Crc
  imports Neuron_Prelude
begin

text \<open>
  \<open>spicrc.c\<close>: the table-driven CRC that protects every SPI frame, a bit-by-bit
  reference CRC it is proved equal to, and the errors it detects. The detection
  lemmas are proved once in the locale \<open>byte_crc\<close>, for any CRC register
  updated byte by byte under two injectivity laws.
\<close>

section \<open>The table and the CRC function\<close>

definition SPI_CRC16TABLE :: "u16 list" where
  "SPI_CRC16TABLE = [
    0,  1408,  3968,  2560,  7040,  7680,  5120,  4480, 13184, 13824, 15360,
    14720, 10240, 11648, 10112,  8704, 25472, 26112, 27648, 27008, 30720, 32128,
    30592, 29184, 20480, 21888, 24448, 23040, 19328, 19968, 17408, 16768, 50048,
    50688, 52224, 51584, 55296, 56704, 55168, 53760, 61440, 62848, 65408, 64000,
    60288, 60928, 58368, 57728, 40960, 42368, 44928, 43520, 48000, 48640, 46080,
    45440, 37760, 38400, 39936, 39296, 34816, 36224, 34688, 33280, 33665, 34305,
    35841, 35201, 38913, 40321, 38785, 37377, 45057, 46465, 49025, 47617, 43905,
    44545, 41985, 41345, 57345, 58753, 61313, 59905, 64385, 65025, 62465, 61825,
    54145, 54785, 56321, 55681, 51201, 52609, 51073, 49665, 16385, 17793, 20353,
    18945, 23425, 24065, 21505, 20865, 29569, 30209, 31745, 31105, 26625, 28033,
    26497, 25089,  9089,  9729, 11265, 10625, 14337, 15745, 14209, 12801,  4097,
    5505,  8065,  6657,  2945,  3585,  1025,   385,   899,  1539,  3075,  2435,
    6147,  7555,  6019,  4611, 12291, 13699, 16259, 14851, 11139, 11779,  9219,
    8579, 24579, 25987, 28547, 27139, 31619, 32259, 29699, 29059, 21379, 22019,
    23555, 22915, 18435, 19843, 18307, 16899, 49155, 50563, 53123, 51715, 56195,
    56835, 54275, 53635, 62339, 62979, 64515, 63875, 59395, 60803, 59267, 57859,
    41859, 42499, 44035, 43395, 47107, 48515, 46979, 45571, 36867, 38275, 40835,
    39427, 35715, 36355, 33795, 33155, 32770, 34178, 36738, 35330, 39810, 40450,
    37890, 37250, 45954, 46594, 48130, 47490, 43010, 44418, 42882, 41474, 58242,
    58882, 60418, 59778, 63490, 64898, 63362, 61954, 53250, 54658, 57218, 55810,
    52098, 52738, 50178, 49538, 17282, 17922, 19458, 18818, 22530, 23938, 22402,
    20994, 28674, 30082, 32642, 31234, 27522, 28162, 25602, 24962,  8194,  9602,
    12162, 10754, 15234, 15874, 13314, 12674,  4994,  5634,  7170,  6530,  2050,
    3458,  1922,   514]"

text \<open>The body of the loop of \<open>SpiCrcString\<close>.\<close>

definition spi_crc_step :: "u16 \<Rightarrow> u8 \<Rightarrow> u16" where
  "spi_crc_step result b =
     drop_bit 8 result XOR SPI_CRC16TABLE ! unat ((result XOR ucast b) AND 0xff)"

text \<open>
  \<open>SpiCrcString(inputstring, length, initval)\<close>; the bytes \<open>inputstring[0..length)\<close>
  are the list.
\<close>

fun SpiCrcString :: "u8 list \<Rightarrow> u16 \<Rightarrow> u16" where
  "SpiCrcString [] result = result"
| "SpiCrcString (b # bs) result = SpiCrcString bs (spi_crc_step result b)"

text \<open>The call on the first \<open>n\<close> bytes of an array, which faults past its end.\<close>

definition crc_of :: "mem \<Rightarrow> nat \<Rightarrow> u16 \<Rightarrow> u16 option" where
  "crc_of m n initval = do { bs \<leftarrow> rd_block m 0 n; Some (SpiCrcString bs initval) }"

section \<open>The reference: a bitwise CRC-16\<close>

text \<open>
  One bit of the CRC with generator \<open>x^16 + x^15 + x^2 + 1\<close>, most significant bit
  first; the register is shifted left and the generator's low bits are added when a one
  falls out.
\<close>

definition crc_bit :: "u16 \<Rightarrow> u16" where
  "crc_bit r = (if bit r 15 then push_bit 1 r XOR 0x8005 else push_bit 1 r)"

definition crc_byte :: "u16 \<Rightarrow> u8 \<Rightarrow> u16" where
  "crc_byte r b = (crc_bit ^^ 8) (r XOR push_bit 8 (ucast b))"

fun crc_bitwise :: "u8 list \<Rightarrow> u16 \<Rightarrow> u16" where
  "crc_bitwise [] r = r"
| "crc_bitwise (b # bs) r = crc_bitwise bs (crc_byte r b)"

text \<open>The reference is linear over exclusive or, so a byte acts on the register bit by bit.\<close>

lemma crc_bit_xor: "crc_bit (v XOR w) = crc_bit v XOR crc_bit w"
  by (simp add: crc_bit_def bit_simps push_bit_xor ac_simps)

lemma crc_bits_xor: "(crc_bit ^^ n) (v XOR w) = (crc_bit ^^ n) v XOR (crc_bit ^^ n) w"
  by (induction n) (simp_all add: crc_bit_xor)

lemma crc_bits_small:
  assumes "n \<le> 16" and "\<And>k. 16 - n \<le> k \<Longrightarrow> \<not> bit y k"
  shows "(crc_bit ^^ n) y = push_bit n y"
  using assms
proof (induction n)
  case (Suc n)
  have "\<not> bit y (15 - n)" using Suc.prems by simp
  moreover have "(crc_bit ^^ n) y = push_bit n y"
    using Suc by simp
  ultimately show ?case
    using Suc.prems(1) by (simp add: crc_bit_def [of "push_bit n y"] bit_simps)
qed simp

text \<open>The table holds the byte-swapped reference values; every entry is checked by evaluation.\<close>

lemma length_SPI_CRC16TABLE [simp]: "length SPI_CRC16TABLE = 256"
  by (simp add: SPI_CRC16TABLE_def)

text \<open>
  The values of a linear function on \<open>0, \<dots>, 2^k - 1\<close> are built by doubling: the
  upper half is the lower half with the value of \<open>2^k\<close> added.
\<close>

lemma word_of_nat_double:
  assumes "i < 2 ^ k" and "k < 16"
  shows "(word_of_nat (2 ^ k + i) :: u16) = 2 ^ k XOR word_of_nat i"
proof -
  have "\<not> bit i k"
    using assms(1) by (metis bit_take_bit_iff less_irrefl take_bit_nat_eq_self)
  then have "(2 ^ k :: u16) AND word_of_nat i = 0"
    by (intro bit_word_eqI) (auto simp: bit_simps)
  then show ?thesis by (simp add: disjunctive_add_eq_xor [symmetric])
qed

definition lin_table :: "(u16 \<Rightarrow> u16) \<Rightarrow> nat \<Rightarrow> u16 list" where
  "lin_table f k = map (\<lambda>i. f (word_of_nat i)) [0..<2 ^ k]"

lemma lin_table_Suc:
  assumes "\<And>v w. f (v XOR w) = f v XOR f w" and "k < 16"
  shows "lin_table f (Suc k) = lin_table f k @ map (\<lambda>x. f (2 ^ k) XOR x) (lin_table f k)"
proof -
  have "[0..<2 ^ Suc k] = [0..<2 ^ k] @ map (\<lambda>i. 2 ^ k + i) [0..<2 ^ k :: nat]"
    using map_add_upt [of "2 ^ k" "2 ^ k"]
    by (simp add: upt_add_eq_append [of 0 "2 ^ k" "2 ^ k", simplified] mult_2 add.commute)
  then show ?thesis
    using assms by (auto simp: lin_table_def word_of_nat_double simp del: of_nat_add)
qed

definition swapped_crc8 :: "u16 \<Rightarrow> u16" where
  "swapped_crc8 i = swap16 ((crc_bit ^^ 8) (push_bit 8 i))"

lemma swapped_crc8_xor: "swapped_crc8 (v XOR w) = swapped_crc8 v XOR swapped_crc8 w"
  by (simp add: swapped_crc8_def push_bit_xor crc_bits_xor swap16_xor)

lemma swapped_crc8_basis:
  "map swapped_crc8 [0, 1, 2, 4, 8, 16, 32, 64, 128] =
     [0, 1408, 3968, 7040, 13184, 25472, 50048, 33665, 899]"
  by code_simp

lemma lin_table_swapped_crc8: "lin_table swapped_crc8 8 = SPI_CRC16TABLE"
proof -
  note eqs = lin_table_Suc [OF swapped_crc8_xor]
  have "lin_table swapped_crc8 0 = [0]"
    using swapped_crc8_basis by (simp add: lin_table_def)
  then have "lin_table swapped_crc8 (Suc (Suc (Suc (Suc (Suc (Suc (Suc (Suc 0)))))))) = SPI_CRC16TABLE"
    using swapped_crc8_basis by (simp add: eqs SPI_CRC16TABLE_def)
  then show ?thesis by (simp add: numeral_eq_Suc)
qed

lemma SPI_CRC16TABLE_nth: "SPI_CRC16TABLE ! unat (b :: u8) = swapped_crc8 (ucast b)"
  using unat8_bounds(1) [of b]
  by (simp add: lin_table_swapped_crc8 [symmetric] lin_table_def)

section \<open>The table step is the byte-swapped reference step\<close>

lemma spi_crc_step_alt:
  "spi_crc_step r b = drop_bit 8 r XOR swapped_crc8 (ucast (lo8 r XOR b))"
proof -
  have mask: "(0xff :: u16) = mask 8" by (simp add: mask_eq_exp_minus_1)
  have "(r XOR ucast b) AND 0xff = ucast (lo8 r XOR b)"
    unfolding mask
    by (rule bit_word_eqI) (auto simp: lo8_def bit_simps dest: bit_imp_le_length)
  then have "unat ((r XOR ucast b) AND 0xff) = unat (lo8 r XOR b)" by simp
  then show ?thesis by (simp only: spi_crc_step_def SPI_CRC16TABLE_nth)
qed

lemma spi_crc_step_swap: "swap16 (spi_crc_step r b) = crc_byte (swap16 r) b"
proof -
  let ?i = "ucast (lo8 r XOR b) :: u16" and ?h = "drop_bit 8 r"
  have split: "swap16 r XOR push_bit 8 (ucast b) = push_bit 8 ?i XOR ?h"
    by (rule bit_word_eqI)
      (auto simp: swap16_def lo8_def bit_simps dest: bit_imp_le_length)
  have "(crc_bit ^^ 8) ?h = push_bit 8 ?h"
    by (rule crc_bits_small) (auto simp: bit_simps dest: bit_imp_le_length)
  moreover have "swap16 ?h = push_bit 8 ?h"
    by (rule bit_word_eqI) (auto simp: swap16_def bit_simps dest: bit_imp_le_length)
  ultimately show ?thesis
    by (simp add: crc_byte_def split crc_bits_xor spi_crc_step_alt swapped_crc8_def swap16_xor
        xor.commute)
qed

text \<open>
  C26. \<open>SpiCrcString\<close> with its 256-entry table computes, on every string and from every
  start value, the bitwise CRC-16 with generator \<open>0x8005\<close>, in byte-swapped form.
\<close>

theorem SpiCrcString_bitwise: "SpiCrcString bs init = swap16 (crc_bitwise bs (swap16 init))"
  by (induction bs arbitrary: init) (simp_all add: spi_crc_step_swap [symmetric])

section \<open>Errors the CRC detects\<close>

text \<open>
  A CRC register updated byte by byte, with the two laws the detection lemmas need: an
  update loses nothing of the register, and two consecutive bytes are recovered from the
  register before and after them.
\<close>

locale byte_crc =
  fixes upd :: "'c \<Rightarrow> u8 \<Rightarrow> 'c"
  assumes upd_inj_state: "upd c b = upd d b \<Longrightarrow> c = d"
    and upd_inj_pair: "upd (upd c a) b = upd (upd c a') b' \<Longrightarrow> a = a' \<and> b = b'"
begin

lemma upd_inj_byte: "upd c b = upd c b' \<Longrightarrow> b = b'"
  using upd_inj_pair [of c b 0 b' 0] by simp

lemma foldl_inj_state: "foldl upd c bs = foldl upd d bs \<longleftrightarrow> c = d"
  by (induction bs arbitrary: c d) (auto dest: upd_inj_state)

lemma detects_pair:
  "foldl upd c (xs @ [a, b] @ ys) = foldl upd c (xs @ [a', b'] @ ys) \<longleftrightarrow> a = a' \<and> b = b'"
  by (auto simp: foldl_inj_state dest: upd_inj_pair)

lemma detects_byte:
  assumes "i < length bs"
  shows "foldl upd c (bs[i := x]) = foldl upd c bs \<longleftrightarrow> x = bs ! i"
proof -
  have "foldl upd c (take i bs @ x # drop (Suc i) bs) = foldl upd c (take i bs @ bs ! i # drop (Suc i) bs)
      \<longleftrightarrow> x = bs ! i"
    by (auto simp: foldl_inj_state dest: upd_inj_byte)
  then show ?thesis
    using assms by (simp add: upd_conv_take_nth_drop id_take_nth_drop [symmetric])
qed

end

lemma SpiCrcString_foldl: "SpiCrcString bs r = foldl spi_crc_step r bs"
  by (induction bs arbitrary: r) simp_all

lemma SpiCrcString_append: "SpiCrcString (xs @ ys) r = SpiCrcString ys (SpiCrcString xs r)"
  by (simp add: SpiCrcString_foldl)

lemma hi8_xor: "hi8 (v XOR w) = hi8 v XOR hi8 w"
  by (rule bit_word_eqI) (auto simp: hi8_def bit_simps)

lemma lo8_xor: "lo8 (v XOR w) = lo8 v XOR lo8 w"
  by (rule bit_word_eqI) (auto simp: lo8_def bit_simps)

lemma hi8_drop_bit: "hi8 (drop_bit 8 w) = 0" "lo8 (drop_bit 8 w) = hi8 w"
  by (rule bit_word_eqI; auto simp: hi8_def lo8_def bit_simps dest: bit_imp_le_length)+

lemma spi_crc_step_bytes:
  "hi8 (spi_crc_step r b) = hi8 (swapped_crc8 (ucast (lo8 r XOR b)))"
  "lo8 (spi_crc_step r b) = hi8 r XOR lo8 (swapped_crc8 (ucast (lo8 r XOR b)))"
  by (simp_all add: spi_crc_step_alt hi8_xor lo8_xor hi8_drop_bit)

lemma SPI_CRC16TABLE_hi: "\<forall>t \<in> set (tl SPI_CRC16TABLE). 256 \<le> t"
  by (simp add: SPI_CRC16TABLE_def)

lemma hi8_crc8_zero:
  assumes "hi8 (swapped_crc8 (ucast (z :: u8))) = 0"
  shows "z = 0"
proof (rule ccontr)
  let ?t = "SPI_CRC16TABLE ! unat z"
  assume "z \<noteq> 0"
  then obtain n where n: "unat z = Suc n" by (cases "unat z") (auto simp: unat_eq_zero)
  then have "?t = tl SPI_CRC16TABLE ! n" "n < length (tl SPI_CRC16TABLE)"
    using unat8_bounds(1) [of z] by (simp_all add: nth_tl)
  then have "256 \<le> ?t" using SPI_CRC16TABLE_hi by (metis nth_mem)
  moreover have "?t = join16 0 (lo8 ?t)"
    using assms by (metis SPI_CRC16TABLE_nth join16_hi_lo)
  then have "?t = ucast (lo8 ?t)" by (simp add: join16_def)
  then have "unat ?t < 256" by (metis unat8_bounds(1) unat_ucast_8_16)
  ultimately show False by (simp add: word_le_nat_alt)
qed

lemma hi8_crc8_inj:
  assumes "hi8 (swapped_crc8 (ucast x)) = hi8 (swapped_crc8 (ucast (y :: u8)))"
  shows "x = y"
proof -
  have "(ucast (x XOR y) :: u16) = ucast x XOR ucast y"
    by (rule bit_word_eqI) (auto simp: bit_simps)
  then have "hi8 (swapped_crc8 (ucast (x XOR y))) = 0"
    using assms by (simp add: swapped_crc8_xor hi8_xor)
  then have "x XOR y = 0" by (rule hi8_crc8_zero)
  then show ?thesis by (metis xor.right_neutral xor.assoc xor_self_eq)
qed

interpretation spi: byte_crc spi_crc_step
proof unfold_locales
  fix c d :: u16 and b :: u8
  assume eq: "spi_crc_step c b = spi_crc_step d b"
  have "hi8 (spi_crc_step c b) = hi8 (spi_crc_step d b)" using eq by simp
  then have lo: "lo8 c XOR b = lo8 d XOR b"
    unfolding spi_crc_step_bytes by (rule hi8_crc8_inj)
  have "lo8 (spi_crc_step c b) = lo8 (spi_crc_step d b)" using eq by simp
  then have "hi8 c = hi8 d" by (simp add: spi_crc_step_bytes lo)
  moreover have "lo8 c = lo8 d" using lo by simp
  ultimately show "c = d" by (metis join16_hi_lo)
next
  fix c :: u16 and a b a' b' :: u8
  let ?s = "spi_crc_step c a" and ?s' = "spi_crc_step c a'"
  assume eq: "spi_crc_step ?s b = spi_crc_step ?s' b'"
  have "hi8 (spi_crc_step ?s b) = hi8 (spi_crc_step ?s' b')" using eq by simp
  then have ix: "lo8 ?s XOR b = lo8 ?s' XOR b'"
    unfolding spi_crc_step_bytes(1) [of ?s] spi_crc_step_bytes(1) [of ?s'] by (rule hi8_crc8_inj)
  have "lo8 (spi_crc_step ?s b) = lo8 (spi_crc_step ?s' b')" using eq by simp
  then have "hi8 ?s = hi8 ?s'"
    unfolding spi_crc_step_bytes(2) [of ?s] spi_crc_step_bytes(2) [of ?s'] ix by simp
  then have "lo8 c XOR a = lo8 c XOR a'"
    unfolding spi_crc_step_bytes(1) by (rule hi8_crc8_inj)
  then have "a = a'" by simp
  with ix show "a = a' \<and> b = b'" by simp
qed

text \<open>
  Two frames that differ in at most two adjacent bytes, anywhere in the frame, have
  the same \<open>SpiCrcString\<close> only if they are equal: every error burst of up to
  16 bits inside two bytes is detected.
\<close>

theorem SpiCrcString_detects_burst:
  "SpiCrcString (xs @ [a, b] @ ys) init = SpiCrcString (xs @ [a', b'] @ ys) init
     \<longleftrightarrow> a = a' \<and> b = b'"
  unfolding SpiCrcString_foldl by (rule spi.detects_pair)

lemma SpiCrcString_detects_byte:
  "i < length bs \<Longrightarrow> SpiCrcString (bs[i := x]) r = SpiCrcString bs r \<longleftrightarrow> x = bs ! i"
  unfolding SpiCrcString_foldl by (rule spi.detects_byte)

lemma spi_crc_step_xor:
  "spi_crc_step (r XOR s) (a XOR b) = spi_crc_step r a XOR spi_crc_step s b"
proof -
  have "(ucast (lo8 (r XOR s) XOR (a XOR b)) :: u16) = ucast (lo8 r XOR a) XOR ucast (lo8 s XOR b)"
    by (rule bit_word_eqI) (auto simp: lo8_def bit_simps)
  then show ?thesis
    by (simp add: spi_crc_step_alt swapped_crc8_xor drop_bit_xor ac_simps)
qed

lemma SpiCrcString_self: "SpiCrcString [lo8 r, hi8 r] r = 0"
proof -
  have zero: "swapped_crc8 0 = 0" using swapped_crc8_basis by simp
  have step: "spi_crc_step r (lo8 r) = drop_bit 8 r" for r
    by (simp add: spi_crc_step_alt zero)
  have "spi_crc_step (spi_crc_step r (lo8 r)) (hi8 r) = drop_bit 8 (drop_bit 8 r)" for r
    using step [of "drop_bit 8 r"] by (simp add: step hi8_drop_bit)
  also have "drop_bit 8 (drop_bit 8 r) = 0" for r :: u16
    by (rule bit_word_eqI) (auto simp: bit_simps dest: bit_imp_le_length)
  finally show ?thesis by (simp only: SpiCrcString.simps)
qed

text \<open>
  The two-byte check at the end of a frame, as \<open>armspi.c\<close> makes it, against the CRC of the
  whole frame with its check bytes.
\<close>

lemma crc_check_iff:
  "SpiCrcString bs init = join16 hi lo \<longleftrightarrow> SpiCrcString (bs @ [lo, hi]) init = 0"
proof -
  let ?r = "SpiCrcString bs init"
  have z: "SpiCrcString (bs @ [lo8 ?r, hi8 ?r]) init = 0"
    by (simp only: SpiCrcString_append SpiCrcString_self)
  have "SpiCrcString (bs @ [lo, hi]) init = SpiCrcString (bs @ [lo8 ?r, hi8 ?r]) init
      \<longleftrightarrow> lo = lo8 ?r \<and> hi = hi8 ?r"
    unfolding SpiCrcString_foldl using spi.detects_pair [of init bs lo hi "[]"] by simp
  then show ?thesis
    unfolding z by (metis hi8_join16 lo8_join16 join16_hi_lo)
qed

text \<open>
  A frame followed by a two-byte check, least significant byte first as the comment of
  the source says, has CRC zero exactly when the check is the frame's own \<open>SpiCrcString\<close>.
\<close>

theorem SpiCrcString_residue:
  "SpiCrcString (bs @ [lo, hi]) init = 0 \<longleftrightarrow> [lo, hi] = [lo8 (SpiCrcString bs init), hi8 (SpiCrcString bs init)]"
  by (auto simp flip: crc_check_iff)

end
