(* ===== verification/Modbus_Rtu_Crc.thy ===== *)
theory Modbus_Rtu_Crc
  imports Modbus_Rtu Spi_Crc
begin

text \<open>
  The CRC of the serial transport: its two tables against the bit-by-bit CRC-16 of the
  Modbus specification, and the errors it detects, by the interpretation of the locale
  \<open>byte_crc\<close> of \<open>Spi_Crc\<close> on the register of \<open>crc16\<close>.
\<close>

section \<open>The reference\<close>

text \<open>
  The specification's procedure: the register is shifted right, and the reversed generator
  \<open>0xA001\<close> is added when a one falls out.
\<close>

definition crc_bit_r :: "u16 \<Rightarrow> u16" where
  "crc_bit_r r = (if bit r 0 then drop_bit 1 r XOR 0xA001 else drop_bit 1 r)"

definition crc_byte_r :: "u16 \<Rightarrow> u8 \<Rightarrow> u16" where
  "crc_byte_r r b = (crc_bit_r ^^ 8) (r XOR ucast b)"

definition crc_bitwise_r :: "u8 list \<Rightarrow> u16" where
  "crc_bitwise_r bs = foldl crc_byte_r 0xFFFF bs"

lemma crc_bit_r_xor: "crc_bit_r (v XOR w) = crc_bit_r v XOR crc_bit_r w"
  by (simp add: crc_bit_r_def bit_simps drop_bit_xor ac_simps)

lemma crc_bits_r_xor: "(crc_bit_r ^^ n) (v XOR w) = (crc_bit_r ^^ n) v XOR (crc_bit_r ^^ n) w"
  by (induction n) (simp_all add: crc_bit_r_xor)

lemma crc_bits_r_shift:
  assumes "\<And>k. k < n \<Longrightarrow> \<not> bit y k"
  shows "(crc_bit_r ^^ n) y = drop_bit n y"
  using assms
proof (induction n)
  case (Suc n)
  have "\<not> bit (drop_bit n y) 0" using Suc.prems by (simp add: bit_simps)
  then show ?case using Suc by (simp add: crc_bit_r_def)
qed simp

section \<open>The tables\<close>

definition crc_table_r :: "u16 list" where
  "crc_table_r = map2 join16 table_crc_lo table_crc_hi"

lemma crc_bits_r_basis:
  "map (crc_bit_r ^^ 8) [0, 1, 2, 4, 8, 16, 32, 64, 128] =
     [0, 0xC0C1, 0xC181, 0xC301, 0xC601, 0xCC01, 0xD801, 0xF001, 0xA001]"
  by code_simp

lemma lin_table_crc_table_r: "lin_table (crc_bit_r ^^ 8) 8 = crc_table_r"
proof -
  note eqs = lin_table_Suc [OF crc_bits_r_xor]
  have "lin_table (crc_bit_r ^^ 8) 0 = [0]"
    using crc_bits_r_basis by (simp add: lin_table_def)
  then have "lin_table (crc_bit_r ^^ 8) (Suc (Suc (Suc (Suc (Suc (Suc (Suc (Suc 0)))))))) = crc_table_r"
    using crc_bits_r_basis
    by (simp add: eqs crc_table_r_def table_crc_lo_def table_crc_hi_def join16_def)
  then show ?thesis by (simp add: numeral_eq_Suc)
qed

lemma length_crc_tables [simp]: "length table_crc_hi = 256" "length table_crc_lo = 256"
  by (simp_all add: table_crc_hi_def table_crc_lo_def)

lemma crc_tables_nth:
  "join16 (table_crc_lo ! unat (b :: u8)) (table_crc_hi ! unat b) = (crc_bit_r ^^ 8) (ucast b)"
proof -
  have b: "unat b < 256" by (rule unat8_bounds)
  then have "crc_table_r ! unat b = join16 (table_crc_lo ! unat b) (table_crc_hi ! unat b)"
    by (simp add: crc_table_r_def)
  moreover have "crc_table_r ! unat b = (crc_bit_r ^^ 8) (ucast b)"
    using b by (simp add: lin_table_crc_table_r [symmetric] lin_table_def)
  ultimately show ?thesis by simp
qed

definition crc_reg :: "u8 \<times> u8 \<Rightarrow> u16" where
  "crc_reg c = join16 (snd c) (fst c)"

lemma join16_xor: "join16 a b XOR join16 c d = join16 (a XOR c) (b XOR d)"
  by (rule bit_word_eqI) (auto simp: join16_def bit_simps dest: bit_imp_le_length)

lemma crc16_step_reg: "crc_reg (crc16_step c b) = crc_byte_r (crc_reg c) b"
proof -
  obtain h l where c: "c = (h, l)" by fastforce
  have "crc_reg (crc16_step c b) = join16 0 l XOR (crc_bit_r ^^ 8) (ucast (h XOR b))"
    by (simp add: c crc16_step_def crc_reg_def Let_def join16_xor flip: crc_tables_nth)
  also have "join16 0 l = (crc_bit_r ^^ 8) (push_bit 8 (ucast l))"
  proof -
    have "(crc_bit_r ^^ 8) (push_bit 8 (ucast l)) = drop_bit 8 (push_bit 8 (ucast l))"
      by (rule crc_bits_r_shift) (simp add: bit_simps)
    also have "\<dots> = join16 0 l"
      by (rule bit_word_eqI) (auto simp: join16_def bit_simps dest: bit_imp_le_length)
    finally show ?thesis ..
  qed
  also have "(crc_bit_r ^^ 8) (push_bit 8 (ucast l)) XOR (crc_bit_r ^^ 8) (ucast (h XOR b)) =
      (crc_bit_r ^^ 8) (push_bit 8 (ucast l) XOR ucast (h XOR b))"
    by (simp only: crc_bits_r_xor)
  also have "push_bit 8 (ucast l) XOR ucast (h XOR b) = crc_reg c XOR ucast b"
    by (rule bit_word_eqI) (auto simp: c crc_reg_def join16_def bit_simps dest: bit_imp_le_length)
  finally show ?thesis by (simp add: crc_byte_r_def)
qed

lemma crc_reg_foldl: "crc_reg (foldl crc16_step c bs) = foldl crc_byte_r (crc_reg c) bs"
  by (induction bs arbitrary: c) (simp_all add: crc16_step_reg)

text \<open>
  C27. On every message of up to 65535 bytes the two-table \<open>crc16\<close> computes the bit-by-bit
  CRC-16 of the Modbus specification, with its bytes swapped.
\<close>

theorem crc16_bitwise:
  assumes "length bs < 65536"
  shows "crc16 (bs @ rest) (word_of_nat (length bs)) = Some (swap16 (crc_bitwise_r bs))"
proof -
  have n: "unat (word_of_nat (length bs) :: u16) = length bs"
    using assms by (simp add: unsigned_of_nat take_bit_nat_eq_self)
  have "crc_reg (crc16_bytes bs) = crc_bitwise_r bs"
  proof -
    have "crc_reg (0xFF, 0xFF) = 0xFFFF" by (simp add: crc_reg_def join16_def)
    then show ?thesis unfolding crc16_bytes_def crc_reg_foldl crc_bitwise_r_def by simp
  qed
  moreover have "join16 (fst c) (snd c) = swap16 (crc_reg c)" for c
    by (rule bit_word_eqI) (auto simp: crc_reg_def swap16_def join16_def bit_simps dest: bit_imp_le_length)
  ultimately show ?thesis by (simp add: crc16_def n no_fault split_beta)
qed

theorem crc16_bitwise_witness:
  "crc16 [0x11, 0x03, 0x00, 0x6B, 0x00, 0x03, 9, 9] 6 = Some (swap16 (crc_bitwise_r [0x11, 0x03, 0x00, 0x6B, 0x00, 0x03]))"
  using crc16_bitwise [of "[0x11, 0x03, 0x00, 0x6B, 0x00, 0x03]" "[9, 9]"] by simp

section \<open>Errors the CRC detects\<close>

lemma table_crc_lo_nonzero: "0 \<notin> set (tl table_crc_lo)"
  by (simp add: table_crc_lo_def)

lemma table_crc_lo_zero:
  assumes "table_crc_lo ! unat (z :: u8) = 0"
  shows "z = 0"
proof (rule ccontr)
  assume "z \<noteq> 0"
  then obtain n where n: "unat z = Suc n" by (cases "unat z") (auto simp: unat_eq_zero)
  then have "table_crc_lo ! unat z = tl table_crc_lo ! n" "n < length (tl table_crc_lo)"
    using unat8_bounds(1) [of z] by (simp_all add: nth_tl)
  with assms table_crc_lo_nonzero show False by (metis nth_mem)
qed

text \<open>The table is linear, so two equal entries would make the entry of the sum zero.\<close>

lemma table_crc_lo_hi8: "table_crc_lo ! unat (b :: u8) = hi8 ((crc_bit_r ^^ 8) (ucast b))"
  by (simp flip: crc_tables_nth)

lemma table_crc_lo_inj:
  assumes "table_crc_lo ! unat a = table_crc_lo ! unat b"
  shows "a = (b :: u8)"
proof -
  have "(ucast (a XOR b) :: u16) = ucast a XOR ucast b"
    by (rule bit_word_eqI) (auto simp: bit_simps)
  then have "table_crc_lo ! unat (a XOR b) = 0"
    using assms unfolding table_crc_lo_hi8 by (simp add: crc_bits_r_xor hi8_xor)
  then have "a XOR b = 0" by (rule table_crc_lo_zero)
  then show ?thesis by (metis xor.right_neutral xor.assoc xor_self_eq)
qed

interpretation rtu: byte_crc crc16_step
proof unfold_locales
  fix c d :: "u8 \<times> u8" and b :: u8
  assume eq: "crc16_step c b = crc16_step d b"
  obtain h l h' l' where cd: "c = (h, l)" "d = (h', l')" by fastforce
  from eq have "h XOR b = h' XOR b" by (auto simp: cd crc16_step_def Let_def dest: table_crc_lo_inj)
  then have "h = h'" by simp
  with eq show "c = d" by (simp add: cd crc16_step_def Let_def)
next
  fix c :: "u8 \<times> u8" and a b a' b' :: u8
  assume eq: "crc16_step (crc16_step c a) b = crc16_step (crc16_step c a') b'"
  obtain h l where c: "c = (h, l)" by fastforce
  let ?i = "h XOR a" and ?i' = "h XOR a'"
  let ?h = "l XOR table_crc_hi ! unat ?i" and ?h' = "l XOR table_crc_hi ! unat ?i'"
  from eq have j: "?h XOR b = ?h' XOR b'"
    by (auto simp: c crc16_step_def Let_def dest: table_crc_lo_inj)
  from eq have "table_crc_lo ! unat ?i = table_crc_lo ! unat ?i'"
    using j by (simp add: c crc16_step_def Let_def)
  then have "?i = ?i'" by (rule table_crc_lo_inj)
  then have "a = a'" by simp
  with j show "a = a' \<and> b = b'" by simp
qed

lemma crc16_bytes_append: "crc16_bytes (xs @ ys) = foldl crc16_step (crc16_bytes xs) ys"
  by (simp add: crc16_bytes_def)

lemma crc16_self: "foldl crc16_step c [fst c, snd c] = (0, 0)"
proof -
  have z: "table_crc_lo ! 0 = 0" "table_crc_hi ! 0 = 0"
    by (simp_all add: table_crc_lo_def table_crc_hi_def)
  obtain h l where "c = (h, l)" by fastforce
  then show ?thesis by (simp add: crc16_step_def Let_def z)
qed

lemma crc16_residue:
  "crc16_bytes (bs @ [hi, lo]) = (0, 0) \<longleftrightarrow> crc16_bytes bs = (hi, lo)"
proof -
  let ?c = "crc16_bytes bs"
  have "crc16_bytes (bs @ [hi, lo]) = crc16_bytes (bs @ [fst ?c, snd ?c]) \<longleftrightarrow> hi = fst ?c \<and> lo = snd ?c"
    unfolding crc16_bytes_append using rtu.detects_pair [of ?c "[]" hi lo "[]" "fst ?c" "snd ?c"] by simp
  moreover have "crc16_bytes (bs @ [fst ?c, snd ?c]) = (0, 0)"
    by (simp only: crc16_bytes_append crc16_self)
  ultimately show ?thesis by (metis prod.collapse fst_conv snd_conv)
qed

section \<open>Sending and checking a message\<close>

lemma crc16_eq:
  "length bs < 65536 \<Longrightarrow> crc16 (bs @ rest) (word_of_nat (length bs)) =
     Some (join16 (fst (crc16_bytes bs)) (snd (crc16_bytes bs)))"
  by (simp add: crc16_def unsigned_of_nat take_bit_nat_eq_self no_fault split_beta)

definition rtu_adu :: "u8 list \<Rightarrow> u8 list" where
  "rtu_adu bs = bs @ [fst (crc16_bytes bs), snd (crc16_bytes bs)]"

lemma rtu_send_msg_pre_eq:
  assumes "length bs < 65536" and "2 \<le> length rest"
  shows "rtu_send_msg_pre (bs @ rest) (length bs) = Some (length bs + 2, rtu_adu bs @ drop 2 rest)"
proof -
  obtain x y zs where "rest = x # y # zs"
    using assms(2) by (cases rest; cases "tl rest") auto
  then show ?thesis
    using assms(1) by (simp add: rtu_send_msg_pre_def crc16_eq no_fault rtu_adu_def list_update_append)
qed

text \<open>
  A message against the residue: the checksum over a whole message, its own checksum included,
  is 0 exactly when the message is intact.
\<close>

definition for_slave :: "'d modbus \<Rightarrow> u8 list \<Rightarrow> bool" where
  "for_slave ctx msg \<longleftrightarrow> uint (msg ! 0) = mb_slave ctx \<or> uint (msg ! 0) = MODBUS_BROADCAST_ADDRESS"

lemma rtu_check_integrity_eq:
  assumes "3 \<le> length msg" and "length msg < 65536"
  shows "rtu_check_integrity tty (msg @ rest) (length msg) ctx w =
     Some (if \<not> for_slave ctx msg then (0, ctx, w)
           else if crc16_bytes msg = (0, 0) then (int (length msg), ctx, w)
           else (-1, ctx\<lparr>errno := EMBBADCRC\<rparr>,
                 if protocol_recovery ctx then snd (snd (tty_tcflush tty (mb_s ctx) w)) else w))"
proof -
  define bs where "bs = take (length msg - 2) msg"
  define hi where "hi = msg ! (length msg - 2)"
  define lo where "lo = msg ! (length msg - 1)"
  have l: "length bs = length msg - 2" "length msg = length bs + 2" using assms(1) by (simp_all add: bs_def)
  have "drop (length msg - 2) msg = msg ! (length msg - 2) # msg ! Suc (length msg - 2) # drop (Suc (Suc (length msg - 2))) msg"
    using assms(1) Cons_nth_drop_Suc [of "length msg - 2" msg] Cons_nth_drop_Suc [of "Suc (length msg - 2)" msg] by auto
  moreover have "Suc (length msg - 2) = length msg - 1" "drop (Suc (Suc (length msg - 2))) msg = []"
    using assms(1) by simp_all
  ultimately have "drop (length msg - 2) msg = [hi, lo]" by (simp only: hi_def lo_def)
  then have m: "msg = bs @ [hi, lo]" by (metis append_take_drop_id bs_def)
  have s: "rd8 (msg @ rest) 0 = Some (msg ! 0)"
    using assms(1) by (cases msg) (simp_all add: no_fault)
  have rd: "rd8 (msg @ rest) (length msg - 2) = Some hi" "rd8 (msg @ rest) (length msg - 1) = Some lo"
  proof -
    have "length msg - 2 < length msg" "length msg - 1 < length msg" using assms(1) by linarith+
    then show "rd8 (msg @ rest) (length msg - 2) = Some hi" "rd8 (msg @ rest) (length msg - 1) = Some lo"
      by (simp_all only: rd8_def nth_append hi_def lo_def length_append if_True trans_less_add1)
  qed
  have "crc16 (bs @ [hi, lo] @ rest) (word_of_nat (length bs)) = Some (join16 (fst (crc16_bytes bs)) (snd (crc16_bytes bs)))"
    using assms(2) l(1) by (intro crc16_eq) simp
  then have c: "crc16 (msg @ rest) (word_of_nat (length msg - 2)) = Some (join16 (fst (crc16_bytes bs)) (snd (crc16_bytes bs)))"
    by (simp add: m)
  have "join16 (fst c) (snd c) = join16 hi lo \<longleftrightarrow> c = (hi, lo)" for c
    by (metis hi8_join16 lo8_join16 prod.collapse fst_conv snd_conv)
  then have k: "join16 (fst (crc16_bytes bs)) (snd (crc16_bytes bs)) = join16 hi lo \<longleftrightarrow> crc16_bytes msg = (0, 0)"
    unfolding m crc16_residue .
  have "\<not> length msg < 2" using assms(1) by simp
  then show ?thesis
    unfolding rtu_check_integrity_def s rd c
    by (auto simp: k for_slave_def rtu_flush_def split_beta)
qed

text \<open>
  C25. A message that \<open>_modbus_rtu_send_msg_pre\<close> completes is accepted by
  \<open>_modbus_rtu_check_integrity\<close> of the slave it is for. When any two adjacent bytes of it, the
  slave number and the checksum included, arrive changed, it is not accepted: if the slave
  number that arrives is not the receiver's and no broadcast, the message is ignored (0), and
  otherwise it is refused with \<open>EMBBADCRC\<close>, the line being flushed when the recovery of the
  protocol is on.
\<close>

theorem rtu_message_integrity:
  assumes "m \<noteq> []" and "length m < 65534" and "2 \<le> length room"
  shows "\<exists>n msg. rtu_send_msg_pre (m @ room) (length m) = Some (n, msg) \<and> n = length m + 2 \<and> take (length m) msg = m \<and>
           (\<forall>xs a b ys c d. take n msg = xs @ [a, b] @ ys \<longrightarrow>
             (let arrived = xs @ [c, d] @ ys in
              rtu_check_integrity tty (arrived @ rest) n ctx w =
                Some (if \<not> for_slave ctx arrived then (0, ctx, w)
                      else if a = c \<and> b = d then (int n, ctx, w)
                      else (-1, ctx\<lparr>errno := EMBBADCRC\<rparr>,
                            if protocol_recovery ctx then snd (snd (tty_tcflush tty (mb_s ctx) w)) else w))))"
proof -
  have p: "rtu_send_msg_pre (m @ room) (length m) = Some (length m + 2, rtu_adu m @ drop 2 room)"
    using rtu_send_msg_pre_eq [of m room] assms(2,3) by simp
  have l: "length (rtu_adu m) = length m + 2" by (simp add: rtu_adu_def)
  have "rtu_check_integrity tty ((xs @ [c, d] @ ys) @ rest) (length m + 2) ctx w =
      Some (if \<not> for_slave ctx (xs @ [c, d] @ ys) then (0, ctx, w)
            else if a = c \<and> b = d then (int (length m + 2), ctx, w)
            else (-1, ctx\<lparr>errno := EMBBADCRC\<rparr>,
                  if protocol_recovery ctx then snd (snd (tty_tcflush tty (mb_s ctx) w)) else w))"
    if f: "rtu_adu m = xs @ [a, b] @ ys" for xs a b ys c d
  proof -
    have n: "length (xs @ [c, d] @ ys) = length m + 2" using arg_cong [OF f, of length] l by simp
    have "crc16_bytes (rtu_adu m) = (0, 0)"
      unfolding rtu_adu_def crc16_residue by simp
    then have "crc16_bytes (xs @ [c, d] @ ys) = (0, 0) \<longleftrightarrow> a = c \<and> b = d"
      unfolding f crc16_bytes_def using rtu.detects_pair [of "(0xFF, 0xFF)" xs c d ys a b] by auto
    moreover have "3 \<le> length (xs @ [c, d] @ ys)" "length (xs @ [c, d] @ ys) < 65536"
      using assms(1,2) unfolding n by (cases m; simp)+
    ultimately show ?thesis
      using rtu_check_integrity_eq [of "xs @ [c, d] @ ys" tty rest ctx w] unfolding n by simp
  qed
  then show ?thesis using p l
    by (intro exI [of _ "length m + 2"] exI [of _ "rtu_adu m @ drop 2 room"]) (simp add: rtu_adu_def Let_def)
qed

text \<open>A terminal that does nothing, and a context on it.\<close>

definition idle_tty :: "unit tty" where
  "idle_tty = \<lparr>tty_open = (\<lambda>_ w. (3, 0, w)), tty_close = (\<lambda>_ w. w), tty_write = (\<lambda>_ bs w. (int (length bs), 0, w)),
     tty_read = (\<lambda>_ _ w. (0, [], 0, w)), tty_tcflush = (\<lambda>_ w. (0, 0, w)),
     tty_tcgetattr = (\<lambda>_ w. (\<lparr>c_iflag = 0, c_oflag = 0, c_cflag = 0, c_lflag = 0, c_ispeed = 0, c_ospeed = 0,
       c_vmin = 0, c_vtime = 0\<rparr>, w)), tty_tcsetattr = (\<lambda>_ _ w. (0, 0, w)), tty_tiocmget = (\<lambda>_ w. (0, w)),
     tty_tiocmset = (\<lambda>_ _ w. w), tty_tiocsrs485 = (\<lambda>_ _ w. (0, 0, w)), tty_usleep = (\<lambda>_ w. w)\<rparr>"

definition rtu_ctx :: "unit modbus" where
  "rtu_ctx = \<lparr>mb_slave = 17, mb_s = 3, mb_debug = 0, error_recovery = 0, response_timeout = (0, 500000),
     byte_timeout = (0, 500000), backend_data = (), errno = 0\<rparr>"

theorem rtu_message_integrity_witness:
  "\<exists>n msg. rtu_send_msg_pre ([17, 3, 0, 0x6B, 0, 3] @ [0, 0, 9]) 6 = Some (n, msg) \<and>
     (\<forall>c d. rtu_check_integrity idle_tty ((msg ! 0 # msg ! 1 # msg ! 2 # msg ! 3 # msg ! 4 # msg ! 5 # [c, d]) @ [9]) 8 rtu_ctx () =
       Some (if msg ! 6 = c \<and> msg ! 7 = d then (8, rtu_ctx, ()) else (-1, rtu_ctx\<lparr>errno := EMBBADCRC\<rparr>, ())))"
proof -
  let ?m = "[17, 3, 0, 0x6B, 0, 3] :: u8 list"
  have l: "length ?m = 6" "?m \<noteq> []" "6 < (65534 :: nat)" by simp_all
  obtain n msg where m: "rtu_send_msg_pre (?m @ [0, 0, 9]) 6 = Some (n, msg)" "n = 6 + 2" "take 6 msg = ?m"
    "\<forall>xs a b ys c d. take n msg = xs @ [a, b] @ ys \<longrightarrow>
             (let arrived = xs @ [c, d] @ ys in
              rtu_check_integrity idle_tty (arrived @ [9]) n rtu_ctx () =
                Some (if \<not> for_slave rtu_ctx arrived then (0, rtu_ctx, ())
                      else if a = c \<and> b = d then (int n, rtu_ctx, ())
                      else (-1, rtu_ctx\<lparr>errno := EMBBADCRC\<rparr>,
                            if protocol_recovery rtu_ctx then snd (snd (tty_tcflush idle_tty (mb_s rtu_ctx) ())) else ())))"
    using rtu_message_integrity [of ?m "[0, 0, 9]" idle_tty "[9]" rtu_ctx "()", unfolded l(1)] by auto
  have "length msg = 9" using m(1) rtu_send_msg_pre_eq [of ?m "[0, 0, 9]", unfolded l(1)] by (auto simp: rtu_adu_def)
  then obtain h k z where msg: "msg = [17, 3, 0, 0x6B, 0, 3, h, k, z]"
    using m(3) by (auto simp: length_Suc_conv eval_nat_numeral)
  have "for_slave rtu_ctx ([17, 3, 0, 0x6B, 0, 3] @ [c, d] @ [])" for c d
    by (simp add: for_slave_def rtu_ctx_def)
  with m(4) [rule_format, of "[17, 3, 0, 0x6B, 0, 3]" h k "[]"] m(1,2) show ?thesis
    by (intro exI [of _ n] exI [of _ msg]) (simp add: msg Let_def)
qed

end
