(* ===== verification/Modbus_Framing.thy ===== *)
theory Modbus_Framing
  imports Modbus_Tcp Modbus_Rtu_Crc
begin

text \<open>
  What the generic code of \<open>modbus.c\<close> relies on in a transport, as the locale
  \<open>modbus_framing\<close>: a message is a header, the protocol data unit (PDU: function code and
  data) and a checksum; the backend's functions build and check header and checksum around a
  PDU that they do not touch. Both backends are instances.
\<close>

locale modbus_framing =
  fixes be :: "('d, 'w) modbus_backend"
    and header_ok :: "int \<Rightarrow> u8 \<Rightarrow> u8 list \<Rightarrow> bool"
    and adu :: "int \<Rightarrow> u8 \<Rightarrow> u8 list \<Rightarrow> u8 list"
    and accepts :: "'d modbus \<Rightarrow> u8 \<Rightarrow> bool"
  assumes header_pos: "1 \<le> header_length be"
    and adu_fits: "header_length be + 253 + checksum_length be = max_adu_length be"
    and max_adu: "max_adu_length be \<le> 260"
    and header: "header_ok t s hdr \<Longrightarrow> length hdr = header_length be \<and> last hdr = s"
    and adu_split: "0 \<le> t \<Longrightarrow> t < 65536 \<Longrightarrow>
       \<exists>hdr chk. adu t s pdu = hdr @ pdu @ chk \<and> header_ok t s hdr \<and> length chk = checksum_length be"
    and response_basis: "length rsp = 260 \<Longrightarrow> 0 \<le> sft_t_id sft \<Longrightarrow> sft_t_id sft < 65536 \<Longrightarrow>
       \<exists>hdr. header_ok (sft_t_id sft) (word_of_int (sft_slave sft)) hdr \<and>
         be_build_response_basis be sft rsp =
           Some (header_length be + 1, hdr @ [word_of_int (sft_function sft)] @ drop (header_length be + 1) rsp)"
    and request_basis: "header_length be + 5 \<le> length req \<Longrightarrow> mb_slave ctx \<noteq> -1 \<Longrightarrow>
       \<exists>t hdr d. 0 \<le> t \<and> t < 65536 \<and> header_ok t (word_of_int (mb_slave ctx)) hdr \<and>
         be_build_request_basis be f addr nb req ctx =
           Some (header_length be + 5,
             hdr @ [word_of_int f, word_of_int (drop_bit 8 addr), word_of_int (addr AND 0xff),
               word_of_int (drop_bit 8 nb), word_of_int (nb AND 0xff)] @ drop (header_length be + 5) req,
             ctx\<lparr>backend_data := d\<rparr>)"
    and send_pre: "header_ok t s hdr \<Longrightarrow> pdu \<noteq> [] \<Longrightarrow> length pdu \<le> 253 \<Longrightarrow> checksum_length be \<le> length rest \<Longrightarrow>
       be_send_msg_pre be (hdr @ pdu @ rest) (header_length be + length pdu) =
         Some (length (adu t s pdu), adu t s pdu @ drop (checksum_length be) rest)"
    and response_tid: "0 \<le> t \<Longrightarrow> t < 65536 \<Longrightarrow> checksum_length be \<le> n \<Longrightarrow>
       \<exists>t'. 0 \<le> t' \<and> t' < 65536 \<and> be_prepare_response_tid be (adu t s pdu @ rest) n = Some (t', n - checksum_length be) \<and>
         adu t' s = adu t s \<and> header_ok t' s = header_ok t s"
    and pre_check: "0 \<le> t \<Longrightarrow> t < 65536 \<Longrightarrow>
       be_pre_check_confirmation be (adu t s pdu @ rest) (adu t s pdu' @ rest') len ctx = Some (0, ctx)"
    and integrity: "0 \<le> t \<Longrightarrow> t < 65536 \<Longrightarrow> accepts ctx s \<Longrightarrow> pdu \<noteq> [] \<Longrightarrow> length pdu \<le> 253 \<Longrightarrow>
       be_check_integrity be (adu t s pdu @ rest) (length (adu t s pdu)) ctx w =
         Some (int (length (adu t s pdu)), ctx, w)"
    and integrity_total: "length msg = 260 \<Longrightarrow> header_length be + 1 + checksum_length be \<le> n \<Longrightarrow>
       n \<le> max_adu_length be \<Longrightarrow>
       \<exists>rc ctx' w'. be_check_integrity be msg n ctx w = Some (rc, ctx', w') \<and> rc \<le> int n"
begin

lemma length_adu:
  assumes "0 \<le> t" "t < 65536"
  shows "length (adu t s pdu) = header_length be + length pdu + checksum_length be"
proof -
  obtain hdr chk where "adu t s pdu = hdr @ pdu @ chk" "header_ok t s hdr" "length chk = checksum_length be"
    using adu_split [OF assms] by blast
  then show ?thesis using header by simp
qed

lemma adu_nth:
  assumes "0 \<le> t" "t < 65536" and "i < length pdu"
  shows "(adu t s pdu @ rest) ! (header_length be + i) = pdu ! i"
proof -
  obtain hdr chk where a: "adu t s pdu = hdr @ pdu @ chk" "header_ok t s hdr" "length chk = checksum_length be"
    using adu_split [OF assms(1,2)] by blast
  then have "length hdr = header_length be" using header by blast
  then have "(hdr @ pdu @ chk @ rest) ! (header_length be + i) = pdu ! i"
    using nth_append_length_plus [of hdr "pdu @ chk @ rest" i] assms(3) by (simp add: nth_append)
  then show ?thesis using a(1) by simp
qed

lemma adu_slave:
  assumes "0 \<le> t" "t < 65536"
  shows "(adu t s pdu @ rest) ! (header_length be - 1) = s"
proof -
  obtain hdr chk where a: "adu t s pdu = hdr @ pdu @ chk" "header_ok t s hdr" "length chk = checksum_length be"
    using adu_split [OF assms] by blast
  then have l: "length hdr = header_length be" "last hdr = s" using header by blast+
  then have "hdr \<noteq> []" using header_pos by auto
  then show ?thesis using l a(1) header_pos by (simp add: nth_append last_conv_nth)
qed

end

section \<open>The TCP transport\<close>

definition tcp_header_ok :: "int \<Rightarrow> u8 \<Rightarrow> u8 list \<Rightarrow> bool" where
  "tcp_header_ok t s hdr \<longleftrightarrow>
     (\<exists>x y. hdr = [word_of_int (drop_bit 8 t), word_of_int (t AND 0xff), 0, 0, x, y, s])"

definition tcp_adu :: "int \<Rightarrow> u8 \<Rightarrow> u8 list \<Rightarrow> u8 list" where
  "tcp_adu t s pdu =
     (let n = int (length pdu) + 1 in
      [word_of_int (drop_bit 8 t), word_of_int (t AND 0xff), 0, 0,
       word_of_int (drop_bit 8 n), word_of_int (n AND 0xff), s] @ pdu)"

lemma put16_in: "i + 1 < length m \<Longrightarrow>
    put16 v m i = Some (m[i := word_of_int (drop_bit 8 v), i + 1 := word_of_int (v AND 0xff)])"
  by (simp add: put16_def no_fault)

lemma and_0xff: "(v :: int) AND 0xff = v mod 256"
proof -
  have "(0xff :: int) = mask 8" by (simp add: mask_eq_exp_minus_1)
  then show ?thesis by (simp only: take_bit_eq_mask [symmetric]) (simp add: take_bit_eq_mod)
qed

lemma drop_bit_8: "drop_bit 8 (v :: int) = v div 256"
  by (simp add: drop_bit_eq_div)

text \<open>The high and low byte of a 16-bit number, as the code splits and joins it.\<close>

lemma be16_split:
  assumes "0 \<le> v" "v < 65536"
  shows "be16 (word_of_int (drop_bit 8 v)) (word_of_int (v AND 0xff)) = v"
  using assms by (simp add: be16_def and_0xff drop_bit_8 uint_word_of_int_eq take_bit_int_eq_self)

lemma be16_bytes: "word_of_int (drop_bit 8 (be16 h l)) = h" "word_of_int (be16 h l AND 0xff) = l"
  by (simp_all add: and_0xff drop_bit_8 be16_div_mod)

lemma uint_join16: "uint (join16 h l) = be16 h l"
proof -
  have "join16 h l = push_bit 8 (ucast h) + ucast l"
    unfolding join16_def
    by (rule disjunctive_add_eq_or [symmetric])
      (rule bit_word_eqI, auto simp: bit_simps dest: bit_imp_le_length)
  also have "uint (push_bit 8 (ucast h) + ucast l :: u16) = be16 h l"
    using uint8_bounds [of h] uint8_bounds [of l]
    by (simp add: be16_def push_bit_eq_mult uint_word_ariths uint_word_of_int)
  finally show ?thesis .
qed

lemma list_split_at:
  assumes "n \<le> length xs"
  obtains ys zs where "xs = ys @ zs" "length ys = n" "zs = drop n xs"
  using that [of "take n xs" "drop n xs"] assms by simp

lemma length_eq_numeral_cases:
  "length xs = 7 \<Longrightarrow> \<exists>a b c d e f g. xs = [a, b, c, d, e, f, g]"
  "length xs = 8 \<Longrightarrow> \<exists>a b c d e f g h. xs = [a, b, c, d, e, f, g, h]"
  "length xs = 12 \<Longrightarrow> \<exists>a b c d e f g h i j k l. xs = [a, b, c, d, e, f, g, h, i, j, k, l]"
  "length xs = 2 \<Longrightarrow> \<exists>a b. xs = [a, b]"
  "length xs = 6 \<Longrightarrow> \<exists>a b c d e f. xs = [a, b, c, d, e, f]"
  by (auto simp: numeral_eq_Suc length_Suc_conv)

lemma tcp_header: "tcp_header_ok t s h \<Longrightarrow> length h = 7 \<and> last h = s"
  by (auto simp: tcp_header_ok_def)

lemma tcp_response_basis:
  assumes "8 \<le> length rsp"
  shows "\<exists>h. tcp_header_ok (sft_t_id sft) (word_of_int (sft_slave sft)) h \<and>
     tcp_build_response_basis sft rsp = Some (8, h @ [word_of_int (sft_function sft)] @ drop 8 rsp)"
proof -
  obtain ys zs where r: "rsp = ys @ zs" "length ys = 8" "zs = drop 8 rsp" by (rule list_split_at [OF assms])
  then obtain a b c d e f g i where ys: "ys = [a, b, c, d, e, f, g, i]"
    using length_eq_numeral_cases(2) by blast
  let ?t = "sft_t_id sft"
  let ?h = "[word_of_int (drop_bit 8 ?t), word_of_int (?t AND 0xff), 0, 0, e, f, word_of_int (sft_slave sft)]"
  have "tcp_build_response_basis sft (ys @ zs) = Some (8, ?h @ [word_of_int (sft_function sft)] @ zs)"
    by (simp add: ys tcp_build_response_basis_def put16_in no_fault tcp_lengths)
  moreover have "tcp_header_ok ?t (word_of_int (sft_slave sft)) ?h" by (simp add: tcp_header_ok_def)
  ultimately show ?thesis using r by metis
qed

lemma tcp_request_basis:
  assumes "12 \<le> length req"
  shows "\<exists>t h d. 0 \<le> t \<and> t < 65536 \<and> tcp_header_ok t (word_of_int (mb_slave ctx)) h \<and>
     tcp_build_request_basis f addr nb req ctx =
       Some (12, h @ [word_of_int f, word_of_int (drop_bit 8 addr), word_of_int (addr AND 0xff),
               word_of_int (drop_bit 8 nb), word_of_int (nb AND 0xff)] @ drop 12 req, ctx\<lparr>backend_data := d\<rparr>)"
proof -
  obtain ys zs where r: "req = ys @ zs" "length ys = 12" "zs = drop 12 req" by (rule list_split_at [OF assms])
  then obtain a b c d e f' g i j k l m where ys: "ys = [a, b, c, d, e, f', g, i, j, k, l, m]"
    using length_eq_numeral_cases(3) [OF r(2)] by auto
  define n where "n = (if t_id (backend_data ctx) < 0xFFFF then t_id (backend_data ctx) + 1 else 0)"
  let ?h = "[hi8 n, lo8 n, 0, 0, e, f', word_of_int (mb_slave ctx)]"
  have t: "0 \<le> uint n" "uint n < 65536" using uint16_bounds by blast+
  have "be16 (hi8 n) (lo8 n) = uint n"
  proof -
    have "uint (join16 (hi8 n) (lo8 n)) = be16 (hi8 n) (lo8 n)" by (rule uint_join16)
    then show ?thesis by simp
  qed
  then have hl: "word_of_int (drop_bit 8 (uint n)) = hi8 n" "word_of_int (uint n AND 0xff) = lo8 n"
    using be16_bytes by metis+
  have "tcp_build_request_basis f addr nb (ys @ zs) ctx =
      Some (12, ?h @ [word_of_int f, word_of_int (drop_bit 8 addr), word_of_int (addr AND 0xff),
               word_of_int (drop_bit 8 nb), word_of_int (nb AND 0xff)] @ zs,
            ctx\<lparr>backend_data := (backend_data ctx)\<lparr>t_id := n\<rparr>\<rparr>)"
    by (simp add: ys tcp_build_request_basis_def put16_in no_fault tcp_lengths Let_def flip: n_def)
  moreover have "tcp_header_ok (uint n) (word_of_int (mb_slave ctx)) ?h"
    unfolding tcp_header_ok_def hl by blast
  moreover have "drop 12 req = zs" using r(1,2) by simp
  ultimately show ?thesis unfolding r(1) using t by (metis append_eq_conv_conj r(2))
qed

lemma tcp_send_pre:
  assumes "tcp_header_ok t s h" and "pdu \<noteq> []" and "length pdu \<le> 253"
  shows "tcp_send_msg_pre (h @ pdu @ rest) (7 + length pdu) = Some (length (tcp_adu t s pdu), tcp_adu t s pdu @ rest)"
proof -
  obtain x y where h: "h = [word_of_int (drop_bit 8 t), word_of_int (t AND 0xff), 0, 0, x, y, s]"
    using assms(1) by (auto simp: tcp_header_ok_def)
  show ?thesis
    by (simp add: h tcp_send_msg_pre_def put16_in tcp_adu_def Let_def add.commute)
qed

lemma tcp_adu_split: "\<exists>h. tcp_adu t s pdu = h @ pdu \<and> tcp_header_ok t s h"
  unfolding tcp_adu_def tcp_header_ok_def Let_def by blast

lemma tcp_tid:
  "0 \<le> t \<Longrightarrow> t < 65536 \<Longrightarrow> tcp_prepare_response_tid (tcp_adu t s pdu @ rest) n = Some (t, n)"
  by (simp add: tcp_prepare_response_tid_def tcp_adu_def Let_def rd_be16_def no_fault be16_split)

lemma tcp_pre_check:
  "tcp_pre_check_confirmation (tcp_adu t s pdu @ rest) (tcp_adu t s pdu' @ rest') len ctx = Some (0, ctx)"
  by (simp add: tcp_pre_check_confirmation_def tcp_adu_def Let_def no_fault)

lemmas tcp_framing = tcp_header tcp_response_basis tcp_request_basis tcp_send_pre tcp_adu_split
  tcp_tid tcp_pre_check

interpretation tcp: modbus_framing "tcp_backend net inet" tcp_header_ok tcp_adu "\<lambda>_ _. True"
  for net :: "('a, 'w) net" and inet
  by unfold_locales
    (use tcp_framing in \<open>auto simp: tcp_backend_def tcp_lengths tcp_check_integrity_def\<close>)

interpretation tcp_pi: modbus_framing "tcp_pi_backend net getaddrinfo" tcp_header_ok tcp_adu "\<lambda>_ _. True"
  for net :: "('a, 'w) net" and getaddrinfo
  by unfold_locales
    (use tcp_framing in \<open>auto simp: tcp_pi_backend_def tcp_lengths tcp_check_integrity_def\<close>)

section \<open>The serial transport\<close>

definition rtu_header_ok :: "int \<Rightarrow> u8 \<Rightarrow> u8 list \<Rightarrow> bool" where
  "rtu_header_ok t s h \<longleftrightarrow> h = [s]"

definition rtu_message :: "int \<Rightarrow> u8 \<Rightarrow> u8 list \<Rightarrow> u8 list" where
  "rtu_message t s pdu = rtu_adu (s # pdu)"

lemma rtu_response_basis:
  assumes "2 \<le> length rsp"
  shows "rtu_build_response_basis sft rsp =
     Some (2, [word_of_int (sft_slave sft), word_of_int (sft_function sft)] @ drop 2 rsp)"
proof -
  obtain ys zs where r: "rsp = ys @ zs" "length ys = 2" by (rule list_split_at [OF assms])
  then obtain a b where "ys = [a, b]" using length_eq_numeral_cases(4) by blast
  then show ?thesis by (simp add: r rtu_build_response_basis_def no_fault rtu_lengths)
qed

lemma rtu_request_basis:
  assumes "6 \<le> length req" and "mb_slave ctx \<noteq> -1"
  shows "rtu_build_request_basis f addr nb req ctx =
     Some (6, [word_of_int (mb_slave ctx), word_of_int f, word_of_int (drop_bit 8 addr), word_of_int (addr AND 0xff),
       word_of_int (drop_bit 8 nb), word_of_int (nb AND 0xff)] @ drop 6 req, ctx)"
proof -
  obtain ys zs where r: "req = ys @ zs" "length ys = 6" by (rule list_split_at [OF assms(1)])
  then obtain a b c d e g where "ys = [a, b, c, d, e, g]" using length_eq_numeral_cases(5) [OF r(2)] by auto
  then show ?thesis using assms(2) by (simp add: r rtu_build_request_basis_def put16_in no_fault rtu_lengths)
qed

lemma rtu_send_pre:
  assumes "length pdu \<le> 253" and "2 \<le> length rest"
  shows "rtu_send_msg_pre ([s] @ pdu @ rest) (1 + length pdu) =
     Some (length (rtu_message t s pdu), rtu_message t s pdu @ drop 2 rest)"
  using rtu_send_msg_pre_eq [of "s # pdu" rest] assms by (simp add: rtu_message_def rtu_adu_def)

definition rtu_accepts :: "'d modbus \<Rightarrow> u8 \<Rightarrow> bool" where
  "rtu_accepts ctx s \<longleftrightarrow> uint s = mb_slave ctx \<or> s = 0"

lemma rtu_integrity:
  assumes "length pdu \<le> 253" and "rtu_accepts ctx s"
  shows "rtu_check_integrity tty (rtu_message t s pdu @ rest) (length (rtu_message t s pdu)) ctx w =
     Some (int (length (rtu_message t s pdu)), ctx, w)"
proof -
  have "crc16 ((s # pdu) @ x # y # rest) (word_of_nat (length (s # pdu))) =
      Some (join16 (fst (crc16_bytes (s # pdu))) (snd (crc16_bytes (s # pdu))))" for x y
    using assms(1) by (intro crc16_eq) simp
  moreover have "uint s = mb_slave ctx \<or> uint s = MODBUS_BROADCAST_ADDRESS"
    using assms(2) by (auto simp: rtu_accepts_def MODBUS_BROADCAST_ADDRESS_def)
  ultimately show ?thesis
    by (simp add: rtu_check_integrity_def rtu_message_def rtu_adu_def no_fault nth_append)
qed

lemma rtu_integrity_total:
  assumes "length msg = 260" and "4 \<le> n" and "n \<le> 256"
  shows "\<exists>rc ctx' w'. rtu_check_integrity tty msg n ctx w = Some (rc, ctx', w') \<and> rc \<le> int n"
proof -
  have "unat (word_of_nat (n - 2) :: u16) = n - 2"
    using assms(3) by (simp add: unsigned_of_nat take_bit_nat_eq_self)
  then have "crc16 msg (word_of_nat (n - 2)) \<noteq> None"
    using assms by (simp add: crc16_def no_fault split_beta)
  then show ?thesis
    using assms by (auto simp: rtu_check_integrity_def no_fault rtu_flush_def split_beta)
qed

lemma rtu_pre_check:
  "rtu_pre_check_confirmation (rtu_message t s pdu @ rest) (rtu_message t s pdu' @ rest') len ctx = Some (0, ctx)"
  by (simp add: rtu_pre_check_confirmation_def rtu_message_def rtu_adu_def no_fault)

lemma numeral_4_eq_4: "(4 :: nat) = Suc (Suc (Suc (Suc 0)))"
  by simp

interpretation rtu_line: modbus_framing "rtu_backend net tty" rtu_header_ok rtu_message rtu_accepts
  for net :: "('a, 'w) net" and tty
proof unfold_locales
  show "\<exists>h c. rtu_message t s pdu = h @ pdu @ c \<and> rtu_header_ok t s h \<and> length c = checksum_length (rtu_backend net tty)"
    for t s pdu
    by (simp add: rtu_message_def rtu_adu_def rtu_header_ok_def rtu_backend_def rtu_lengths)
  show "\<exists>t h d. 0 \<le> t \<and> t < 65536 \<and> rtu_header_ok t (word_of_int (mb_slave ctx)) h \<and>
      be_build_request_basis (rtu_backend net tty) f addr nb req ctx =
       Some (header_length (rtu_backend net tty) + 5,
             h @ [word_of_int f, word_of_int (drop_bit 8 addr), word_of_int (addr AND 0xff),
               word_of_int (drop_bit 8 nb), word_of_int (nb AND 0xff)] @ drop (header_length (rtu_backend net tty) + 5) req,
             ctx\<lparr>backend_data := d\<rparr>)"
    if "header_length (rtu_backend net tty) + 5 \<le> length req" and "mb_slave ctx \<noteq> -1" for req ctx f addr nb
  proof -
    have "ctx = ctx\<lparr>backend_data := backend_data ctx\<rparr>" by simp
    then show ?thesis
      using that rtu_request_basis [of req ctx f addr nb]
      by (intro exI [of _ 0] exI [of _ "[word_of_int (mb_slave ctx)]"] exI [of _ "backend_data ctx"])
        (simp add: rtu_backend_def rtu_lengths rtu_header_ok_def)
  qed
qed (use rtu_response_basis rtu_send_pre rtu_integrity rtu_integrity_total [unfolded numeral_4_eq_4] rtu_pre_check in
  \<open>auto simp: rtu_backend_def rtu_lengths rtu_header_ok_def rtu_prepare_response_tid_def rtu_message_def numeral_2_eq_2\<close>)

end
