(* ===== verification/Modbus_Receive.thy ===== *)
theory Modbus_Receive
  imports Modbus_Framing
begin

text \<open>
  Correctness of \<open>_modbus_receive_msg\<close>: whatever bytes arrive, in whatever pieces, it ends,
  stays inside its buffer of 260 bytes and below the maximal length of a message; and of a
  stream that starts with a complete message it takes exactly this message.
\<close>

section \<open>Any peer\<close>

text \<open>
  The documented behaviour of \<open>select\<close> and \<open>recv\<close>: a call returns, and \<open>recv\<close> returns an
  error or at most as many bytes as it was asked for. The settings of the context are kept.
\<close>

definition transport_ok :: "('d, 'w) modbus_backend \<Rightarrow> bool" where
  "transport_ok be \<longleftrightarrow>
     (\<forall>tv n ctx w. \<exists>rc tv' ctx' w'. be_select be tv n ctx w = Some (rc, tv', ctx', w') \<and>
        error_recovery ctx' = error_recovery ctx) \<and>
     (\<forall>n ctx w rc bytes ctx' w'. be_recv be n ctx w = (rc, bytes, ctx', w') \<longrightarrow>
        error_recovery ctx' = error_recovery ctx \<and> -1 \<le> rc \<and> rc \<le> int n \<and> (0 < rc \<longrightarrow> int (length bytes) = rc))"

lemma transport_select:
  assumes "transport_ok be"
  obtains rc tv' ctx' w' where "be_select be tv n ctx w = Some (rc, tv', ctx', w')" "error_recovery ctx' = error_recovery ctx"
  using assms unfolding transport_ok_def by meson

lemma transport_recv:
  assumes "transport_ok be" and "be_recv be n ctx w = (rc, bytes, ctx', w')"
  shows "error_recovery ctx' = error_recovery ctx" "-1 \<le> rc" "rc \<le> int n" "0 < rc \<Longrightarrow> int (length bytes) = rc"
  using assms unfolding transport_ok_def by blast+

lemma no_link_recovery: "error_recovery ctx = 0 \<Longrightarrow> \<not> link_recovery ctx"
  by (simp add: link_recovery_def)

text \<open>What the loop keeps: it never asks for more than the buffer and the message can hold.\<close>

definition receive_inv :: "('d, 'w) modbus_backend \<Rightarrow> ('d, 'w) receive_state \<Rightarrow> bool" where
  "receive_inv be r \<longleftrightarrow> length (rv_msg r) = 260 \<and> error_recovery (rv_ctx r) = 0 \<and>
     (let n = msg_length r + length_to_read r; h = header_length be + 1 in
      case rv_step r of
        STEP_FUNCTION \<Rightarrow> n = h \<and> 0 < length_to_read r
      | STEP_META \<Rightarrow> h \<le> n \<and> n \<le> h + 9 \<and> 0 < length_to_read r \<and> h \<le> msg_length r
      | STEP_DATA \<Rightarrow> h + checksum_length be \<le> n \<and> n \<le> max_adu_length be \<and> h \<le> msg_length r)"

lemma meta_length_le: "compute_meta_length_after_function f ty \<le> 9"
  by (simp add: compute_meta_length_after_function_def split: msg_type.split)

context modbus_framing
begin

lemma data_length_total:
  assumes "length msg = 260"
  shows "\<exists>n. compute_data_length_after_meta be msg ty = Some (n + checksum_length be)"
proof -
  have "header_length be + 9 < 260" using adu_fits max_adu by simp
  then show ?thesis using assms
    by (auto simp: compute_data_length_after_meta_def no_fault Let_def split: msg_type.split)
qed

lemma next_step_inv:
  assumes "length msg = 260" and "stp = STEP_FUNCTION \<Longrightarrow> len = header_length be + 1"
    and "header_length be + 1 \<le> len" and "stp = STEP_DATA \<Longrightarrow> header_length be + 1 + checksum_length be \<le> len \<and> len \<le> max_adu_length be"
  obtains (too_long) "next_step be ty msg len stp = Some None"
  | (go) stp' n where "next_step be ty msg len stp = Some (Some (stp', n))"
      "\<And>tv ctx w. error_recovery ctx = 0 \<Longrightarrow>
         receive_inv be \<lparr>rv_step = stp', length_to_read = n, msg_length = len, rv_msg = msg, rv_tv = tv, rv_ctx = ctx, rv_w = w\<rparr>"
proof -
  obtain d where d: "compute_data_length_after_meta be msg ty = Some (d + checksum_length be)"
    using data_length_total [OF assms(1)] by blast
  have h: "header_length be < 260" using adu_fits max_adu by simp
  let ?f = "msg ! header_length be"
  consider (data) "stp = STEP_DATA"
    | (meta) "stp = STEP_FUNCTION" "compute_meta_length_after_function ?f ty \<noteq> 0"
    | (last) "stp = STEP_META \<or> stp = STEP_FUNCTION \<and> compute_meta_length_after_function ?f ty = 0"
    by (cases stp) auto
  then show thesis
  proof cases
    case data
    then show thesis using assms by (intro go [of STEP_DATA 0]) (auto simp: next_step_def receive_inv_def Let_def)
  next
    case meta
    then show thesis
      using assms h meta_length_le [of ?f ty]
      by (intro go [of STEP_META "compute_meta_length_after_function ?f ty"])
        (auto simp: next_step_def receive_inv_def Let_def no_fault)
  next
    case last
    then have e: "next_step be ty msg len stp =
        Some (if max_adu_length be < len + (d + checksum_length be) then None else Some (STEP_DATA, d + checksum_length be))"
      using assms(1) h d by (auto simp: next_step_def Let_def no_fault)
    show thesis
    proof (cases "max_adu_length be < len + (d + checksum_length be)")
      case True
      then show thesis using e by (intro too_long) simp
    next
      case False
      then show thesis
        using e assms by (intro go [of STEP_DATA "d + checksum_length be"]) (auto simp: receive_inv_def Let_def)
    qed
  qed
qed

lemma receive_step_inv:
  assumes "transport_ok be" and "receive_inv be r" and "length_to_read r \<noteq> 0"
  obtains (stop) msg ctx w where "receive_step net be ty r = Some (Inl (-1, msg, ctx, w))"
  | (continue) r' where "receive_step net be ty r = Some (Inr r')" "receive_inv be r'"
proof -
  obtain rc tv ctx w where s: "be_select be (rv_tv r) (length_to_read r) (rv_ctx r) (rv_w r) = Some (rc, tv, ctx, w)"
      "error_recovery ctx = error_recovery (rv_ctx r)"
    by (rule transport_select [OF assms(1)])
  have c: "error_recovery ctx = 0" using s(2) assms(2) by (simp add: receive_inv_def)
  obtain rc' bytes ctx' w' where v: "be_recv be (length_to_read r) ctx w = (rc', bytes, ctx', w')"
    by (metis prod_cases4)
  note v' = transport_recv [OF assms(1) v]
  have c': "error_recovery ctx' = 0" using c v'(1) by simp
  consider "rc = -1" | "rc \<noteq> -1" "rc' \<le> 0" | "rc \<noteq> -1" "0 < rc'" by linarith
  then show thesis
  proof cases
    case 1
    then show thesis using s(1) c stop
      by (simp add: receive_step_def recover_select_def no_link_recovery)
  next
    case 2
    then have "rc' = 0 \<or> rc' = -1" using v'(2) by linarith
    then show thesis using s(1) c' v 2 stop
      by (auto simp: receive_step_def recover_recv_def no_link_recovery Let_def)
  next
    case 3
    let ?len = "msg_length r + length bytes" and ?n = "length_to_read r - length bytes"
    have l: "int (length bytes) = rc'" "length bytes \<le> length_to_read r" using 3 v'(3,4) by linarith+
    have b: "msg_length r + length_to_read r \<le> 260" "length (rv_msg r) = 260"
      using assms(2) adu_fits max_adu by (auto simp: receive_inv_def Let_def split: step_t.splits)
    let ?msg = "overlay (rv_msg r) (msg_length r) bytes"
    have m: "wr_block (rv_msg r) (msg_length r) bytes = Some ?msg" "length ?msg = 260"
      using b l(2) by (simp_all add: no_fault)
    let ?next = "\<lambda>x. case x of None \<Rightarrow> Some (Inl (-1, ?msg, ctx'\<lparr>errno := EMBBADDATA\<rparr>, w'))
        | Some (stp, n) \<Rightarrow> Some (Inr \<lparr>rv_step = stp, length_to_read = n, msg_length = ?len, rv_msg = ?msg,
            rv_tv = (if 0 < n \<and> byte_timeout_set ctx' then Some (byte_timeout ctx') else tv),
            rv_ctx = ctx', rv_w = w'\<rparr>)"
    have step: "receive_step net be ty r =
        (if ?n = 0 then next_step be ty ?msg ?len (rv_step r) else Some (Some (rv_step r, ?n))) \<bind> ?next"
      using s(1) v 3 l m(1) by (simp add: receive_step_def Let_def)
    show thesis
    proof (cases "?n = 0")
      case False
      let ?r = "\<lparr>rv_step = rv_step r, length_to_read = ?n, msg_length = ?len, rv_msg = ?msg,
        rv_tv = (if byte_timeout_set ctx' then Some (byte_timeout ctx') else tv), rv_ctx = ctx', rv_w = w'\<rparr>"
      have "receive_step net be ty r = Some (Inr ?r)" using step False by simp
      moreover have "receive_inv be ?r"
        using assms(2) l(2) m(2) c' False by (auto simp: receive_inv_def Let_def split: step_t.splits)
      ultimately show thesis by (rule continue)
    next
      case True
      then have len: "?len = msg_length r + length_to_read r" using l(2) by simp
      show thesis
      proof (rule next_step_inv [of ?msg "rv_step r" ?len ty])
        assume "next_step be ty ?msg ?len (rv_step r) = Some None"
        then show thesis using step True by (intro stop) simp
      next
        fix stp' n
        assume "next_step be ty ?msg ?len (rv_step r) = Some (Some (stp', n))"
          and "\<And>tv ctx w. error_recovery ctx = 0 \<Longrightarrow> receive_inv be \<lparr>rv_step = stp', length_to_read = n,
             msg_length = ?len, rv_msg = ?msg, rv_tv = tv, rv_ctx = ctx, rv_w = w\<rparr>"
        then show thesis using step True c' by (intro continue) auto
      qed (use m(2) assms(2) len in \<open>auto simp: receive_inv_def Let_def split: step_t.splits\<close>)
    qed
  qed
qed

lemma receive_loop_total:
  assumes "transport_ok be"
  shows "receive_inv be r \<Longrightarrow> \<exists>rc msg ctx w. receive_loop net be ty r = Some (rc, msg, ctx, w) \<and> rc \<le> 260"
proof (induction net \<equiv> net be \<equiv> be ty \<equiv> ty r rule: receive_loop.induct)
  case (1 r)
  show ?case
  proof (cases "length_to_read r = 0")
    case True
    then obtain rc ctx w where "be_check_integrity be (rv_msg r) (msg_length r) (rv_ctx r) (rv_w r) = Some (rc, ctx, w)"
      "rc \<le> int (msg_length r)" "msg_length r \<le> 260"
      using integrity_total [of "rv_msg r" "msg_length r" "rv_ctx r" "rv_w r"] 1(2) max_adu
      by (auto simp: receive_inv_def Let_def split: step_t.splits)
    then show ?thesis using True by (auto simp: receive_loop.simps [of net be ty r])
  next
    case False
    show ?thesis
    proof (rule receive_step_inv [OF assms 1(2) False])
      fix msg ctx w assume "receive_step net be ty r = Some (Inl (-1, msg, ctx, w))"
      then show ?thesis using False by (simp add: receive_loop.simps [of net be ty r])
    next
      fix r' assume r': "receive_step net be ty r = Some (Inr r')" "receive_inv be r'"
      then show ?thesis using False 1(1) [OF False r'(1) refl r'(2)] by (simp add: receive_loop.simps [of net be ty r])
    qed
  qed
qed

lemma receive_msg_total:
  assumes "transport_ok be" and "length buf = 260" and "error_recovery ctx = 0"
  shows "\<exists>rc msg ctx' w'. modbus_receive_msg net be buf ty ctx w = Some (rc, msg, ctx', w') \<and> rc \<le> 260"
  unfolding modbus_receive_msg_def
  by (rule receive_loop_total) (use assms in \<open>auto simp: receive_inv_def\<close>)

end

section \<open>A complete message\<close>

text \<open>
  A PDU is complete when it has the function code, the bytes that follow it in every message
  of that function, and as many data bytes as these announce.
\<close>

definition data_length :: "msg_type \<Rightarrow> u8 list \<Rightarrow> nat" where
  "data_length ty pdu =
     (case ty of
        MSG_INDICATION \<Rightarrow>
          if pdu ! 0 = 0x0F \<or> pdu ! 0 = 0x10 then unat (pdu ! 5)
          else if pdu ! 0 = 0x17 then unat (pdu ! 9) else 0
      | MSG_CONFIRMATION \<Rightarrow>
          if pdu ! 0 \<le> 0x04 \<or> pdu ! 0 = 0x11 \<or> pdu ! 0 = 0x17 then unat (pdu ! 1) else 0)"

definition complete_pdu :: "msg_type \<Rightarrow> u8 list \<Rightarrow> bool" where
  "complete_pdu ty pdu \<longleftrightarrow> pdu \<noteq> [] \<and> length pdu \<le> 253 \<and>
     length pdu = 1 + compute_meta_length_after_function (pdu ! 0) ty + data_length ty pdu"

text \<open>
  The transport delivers a stream of bytes, \<open>pending\<close>, in pieces of its own choice: while
  bytes are pending, \<open>select\<close> does not fail and \<open>recv\<close> takes at least one of them. What is
  observed with \<open>keep\<close>, the peer for example, does not change meanwhile.
\<close>

definition delivers_only ::
  "('d, 'w) modbus_backend \<Rightarrow> ('w \<Rightarrow> u8 list) \<Rightarrow> ('w \<Rightarrow> 'k) \<Rightarrow> 'd modbus \<Rightarrow> bool" where
  "delivers_only be pending keep ctx \<longleftrightarrow>
     (\<forall>tv n w. 0 < n \<longrightarrow> pending w \<noteq> [] \<longrightarrow>
        (\<exists>rc tv' w1 bytes w2. be_select be tv n ctx w = Some (rc, tv', ctx, w1) \<and> rc \<noteq> -1 \<and>
           be_recv be n ctx w1 = (int (length bytes), bytes, ctx, w2) \<and>
           bytes \<noteq> [] \<and> length bytes \<le> n \<and> pending w = bytes @ pending w2 \<and> keep w2 = keep w))"

definition delivers :: "('d, 'w) modbus_backend \<Rightarrow> ('w \<Rightarrow> u8 list) \<Rightarrow> 'd modbus \<Rightarrow> bool" where
  "delivers be pending = delivers_only be pending (\<lambda>_. ())"

lemma delivers_onlyE:
  assumes "delivers_only be pending keep ctx" and "0 < n" and "pending w \<noteq> []"
  obtains rc tv' w1 bytes w2 where "be_select be tv n ctx w = Some (rc, tv', ctx, w1)" "rc \<noteq> -1"
    "be_recv be n ctx w1 = (int (length bytes), bytes, ctx, w2)"
    "bytes \<noteq> []" "length bytes \<le> n" "pending w = bytes @ pending w2" "keep w2 = keep w"
  using assms unfolding delivers_only_def by meson

text \<open>The state of the loop when it has read the first \<open>msg_length\<close> bytes of the message \<open>m\<close>.\<close>

definition reading ::
  "('d, 'w) modbus_backend \<Rightarrow> msg_type \<Rightarrow> u8 list \<Rightarrow> u8 list \<Rightarrow> ('w \<Rightarrow> u8 list) \<Rightarrow> u8 list \<Rightarrow> ('w \<Rightarrow> 'k) \<Rightarrow> 'k \<Rightarrow>
     'd modbus \<Rightarrow> mem \<Rightarrow> ('d, 'w) receive_state \<Rightarrow> bool" where
  "reading be ty pdu m pending rest keep k ctx buf r \<longleftrightarrow>
     keep (rv_w r) = k \<and> rv_ctx r = ctx \<and> msg_length r \<le> length m \<and> rv_msg r = overlay buf 0 (take (msg_length r) m) \<and>
     pending (rv_w r) = drop (msg_length r) m @ rest \<and>
     (let n = msg_length r + length_to_read r; h = header_length be + 1;
          meta = compute_meta_length_after_function (pdu ! 0) ty in
      case rv_step r of
        STEP_FUNCTION \<Rightarrow> n = h \<and> 0 < length_to_read r
      | STEP_META \<Rightarrow> n = h + meta \<and> 0 < length_to_read r
      | STEP_DATA \<Rightarrow> n = length m)"

context modbus_framing
begin

lemma data_length_eq:
  assumes "complete_pdu ty pdu" and "0 \<le> t" "t < 65536" and "length buf = 260"
    and "header_length be + 1 + compute_meta_length_after_function (pdu ! 0) ty \<le> k"
    and "k \<le> length (adu t s pdu)"
  shows "compute_data_length_after_meta be (overlay buf 0 (take k (adu t s pdu))) ty =
     Some (data_length ty pdu + checksum_length be)"
proof -
  let ?m = "overlay buf 0 (take k (adu t s pdu))" and ?meta = "compute_meta_length_after_function (pdu ! 0) ty"
  have l: "length (adu t s pdu) = header_length be + length pdu + checksum_length be"
    using length_adu [OF assms(2,3)] .
  have k: "k \<le> 260" using l assms(1,6) adu_fits max_adu by (simp add: complete_pdu_def)
  have len: "length ?m = 260" using assms(4) k by simp
  have nth: "?m ! (header_length be + i) = pdu ! i" if "i \<le> ?meta" for i
  proof -
    have "?m ! (header_length be + i) = adu t s pdu ! (header_length be + i)"
      using that assms(4-6) k by (simp add: nth_overlay)
    also have "\<dots> = pdu ! i"
      using adu_nth [OF assms(2,3), of i pdu s "[]"] that assms(1) by (simp add: complete_pdu_def)
    finally show ?thesis .
  qed
  have h: "header_length be + 9 < 260" using adu_fits max_adu by simp
  have f: "?m ! header_length be = pdu ! 0" using nth [of 0] by simp
  show ?thesis
    using len f h nth [of 1] nth [of 5] nth [of 9]
    by (cases ty)
      (auto simp: compute_data_length_after_meta_def data_length_def compute_meta_length_after_function_def no_fault)
qed

lemma next_step_reading:
  fixes s :: u8
  assumes "complete_pdu ty pdu" and "0 \<le> t" "t < 65536" and "length buf = 260"
  defines "m \<equiv> adu t s pdu" and "h \<equiv> header_length be + 1" and "meta \<equiv> compute_meta_length_after_function (pdu ! 0) ty"
  assumes "stp = STEP_FUNCTION \<Longrightarrow> k = h" "stp = STEP_META \<Longrightarrow> k = h + meta" "stp = STEP_DATA \<Longrightarrow> k = length m"
  obtains stp' n where "next_step be ty (overlay buf 0 (take k m)) k stp = Some (Some (stp', n))"
    "stp' = STEP_META \<and> n = meta \<and> 0 < n \<and> k = h \<or> stp' = STEP_DATA \<and> k + n = length m"
proof -
  let ?b = "overlay buf 0 (take k m)"
  have l: "length m = h + meta + data_length ty pdu + checksum_length be"
    using length_adu [OF assms(2,3), of s pdu] assms(1) by (simp add: m_def h_def meta_def complete_pdu_def)
  have k: "k \<le> length m" "h \<le> k" using assms(8-10) l by (cases stp; simp)+
  have max: "length m \<le> max_adu_length be"
    using length_adu [OF assms(2,3), of s pdu] assms(1) adu_fits by (simp add: m_def complete_pdu_def)
  then have k260: "k \<le> 260" using k(1) max_adu by simp
  have nf: "rd8 ?b (header_length be) = Some (pdu ! 0)"
  proof -
    have "?b ! header_length be = m ! header_length be"
      using k k260 assms(4) by (simp add: nth_overlay h_def)
    also have "\<dots> = pdu ! 0"
      using adu_nth [OF assms(2,3), of 0 pdu s "[]"] assms(1) by (simp add: m_def complete_pdu_def)
    finally show ?thesis using k k260 assms(4) by (simp add: no_fault h_def)
  qed
  have d: "compute_data_length_after_meta be ?b ty = Some (data_length ty pdu + checksum_length be)"
    if "h + meta \<le> k"
    using data_length_eq [OF assms(1-4), of k s] that k(1) by (simp add: m_def h_def meta_def)
  show thesis
  proof (cases stp)
    case STEP_DATA
    then show thesis using assms(10) by (intro that [of STEP_DATA 0]) (simp_all add: next_step_def Let_def)
  next
    case STEP_META
    then show thesis using assms(9) d l max
      by (intro that [of STEP_DATA "data_length ty pdu + checksum_length be"]) (simp_all add: next_step_def Let_def)
  next
    case STEP_FUNCTION
    then show thesis
    proof (cases "meta = 0")
      case True
      then show thesis using STEP_FUNCTION assms(8) d l max nf
        by (intro that [of STEP_DATA "data_length ty pdu + checksum_length be"])
          (simp_all add: next_step_def Let_def meta_def)
    next
      case False
      then show thesis using STEP_FUNCTION assms(8) nf
        by (intro that [of STEP_META meta]) (simp_all add: next_step_def Let_def meta_def)
    qed
  qed
qed

lemma receive_step_reading:
  assumes "complete_pdu ty pdu" and "0 \<le> t" "t < 65536" and "length buf = 260"
    and "delivers_only be pending keep ctx" and "length_to_read r \<noteq> 0"
    and "reading be ty pdu (adu t s pdu) pending rest keep k ctx buf r"
  obtains r' where "receive_step net be ty r = Some (Inr r')"
    "reading be ty pdu (adu t s pdu) pending rest keep k ctx buf r'"
proof -
  let ?m = "adu t s pdu" and ?k = "msg_length r"
  let ?h = "header_length be + 1" and ?meta = "compute_meta_length_after_function (pdu ! 0) ty"
  have l: "length ?m = ?h + ?meta + data_length ty pdu + checksum_length be"
    using length_adu [OF assms(2,3), of s pdu] assms(1) by (simp add: complete_pdu_def)
  have m260: "length ?m \<le> 260"
    using length_adu [OF assms(2,3), of s pdu] assms(1) adu_fits max_adu by (simp add: complete_pdu_def)
  note R = assms(7) [unfolded reading_def]
  have n: "?k + length_to_read r \<le> length ?m" "?k \<le> length ?m"
    using R l by (auto simp: Let_def split: step_t.splits)
  have p: "pending (rv_w r) = drop ?k ?m @ rest" "pending (rv_w r) \<noteq> []"
    using R n assms(6) by auto
  obtain rc tv w1 bytes w2 where d: "be_select be (rv_tv r) (length_to_read r) ctx (rv_w r) = Some (rc, tv, ctx, w1)" "rc \<noteq> -1"
    "be_recv be (length_to_read r) ctx w1 = (int (length bytes), bytes, ctx, w2)"
    "bytes \<noteq> []" "length bytes \<le> length_to_read r" "pending (rv_w r) = bytes @ pending w2" "keep w2 = keep (rv_w r)"
    using delivers_onlyE [OF assms(5) _ p(2)] assms(6) by (metis gr0I)
  let ?len = "?k + length bytes" and ?n = "length_to_read r - length bytes"
  have lb: "length bytes \<le> length (drop ?k ?m)" using d(5) n by simp
  have bytes: "bytes = take (length bytes) (drop ?k ?m)" "pending w2 = drop ?len ?m @ rest"
  proof -
    have e: "bytes @ pending w2 = drop ?k ?m @ rest" using d(6) p(1) by simp
    have "take (length bytes) (bytes @ pending w2) = bytes" by simp
    then show "bytes = take (length bytes) (drop ?k ?m)" unfolding e using lb by simp
    have "drop (length bytes) (bytes @ pending w2) = pending w2" by simp
    then show "pending w2 = drop ?len ?m @ rest" unfolding e using lb by (simp add: add.commute)
  qed
  have tk: "take ?len ?m = take ?k ?m @ bytes" using bytes(1) by (metis take_add)
  have o: "overlay (rv_msg r) ?k bytes = overlay buf 0 (take ?len ?m)"
    using overlay_overlay [of 0 "take ?k ?m" bytes buf] R n d(5) m260 assms(4) by (simp add: tk)
  have fits: "wr_block (rv_msg r) ?k bytes = Some (overlay buf 0 (take ?len ?m))"
    using R n d(5) m260 assms(4) o by (simp add: no_fault)
  let ?r = "\<lambda>stp n. \<lparr>rv_step = stp, length_to_read = n, msg_length = ?len, rv_msg = overlay buf 0 (take ?len ?m),
      rv_tv = (if 0 < n \<and> byte_timeout_set ctx then Some (byte_timeout ctx) else tv), rv_ctx = ctx, rv_w = w2\<rparr>"
  have step: "receive_step net be ty r = Some (Inr (?r stp' n'))"
    if "(if ?n = 0 then next_step be ty (overlay buf 0 (take ?len ?m)) ?len (rv_step r) else Some (Some (rv_step r, ?n))) =
      Some (Some (stp', n'))" for stp' n'
    using d(1-5) R fits that by (simp add: receive_step_def Let_def)
  have reading: "reading be ty pdu ?m pending rest keep k ctx buf (?r stp' n')"
    if "case stp' of STEP_FUNCTION \<Rightarrow> ?len + n' = ?h \<and> 0 < n' | STEP_META \<Rightarrow> ?len + n' = ?h + ?meta \<and> 0 < n'
        | STEP_DATA \<Rightarrow> ?len + n' = length ?m" for stp' n'
    using that bytes(2) n d(5,7) R by (cases stp') (simp_all add: reading_def Let_def)
  show thesis
  proof (cases "?n = 0")
    case False
    then show thesis using R d(5)
      by (intro that [of "?r (rv_step r) ?n"] step reading) (auto simp: Let_def split: step_t.splits)
  next
    case True
    then have len: "?len = ?k + length_to_read r" using d(5) by simp
    obtain stp' n' where e: "next_step be ty (overlay buf 0 (take ?len ?m)) ?len (rv_step r) = Some (Some (stp', n'))"
      "stp' = STEP_META \<and> n' = ?meta \<and> 0 < n' \<and> ?len = ?h \<or> stp' = STEP_DATA \<and> ?len + n' = length ?m"
      by (rule next_step_reading [OF assms(1-4), of "rv_step r" ?len s])
        (use R len in \<open>auto simp: Let_def\<close>)
    show thesis
      by (intro that [of "?r stp' n'"] step reading) (use True e in auto)
  qed
qed

lemma receive_loop_reading:
  assumes "complete_pdu ty pdu" and "0 \<le> t" "t < 65536" and "length buf = 260"
    and "delivers_only be pending keep ctx" and "accepts ctx s"
  shows "reading be ty pdu (adu t s pdu) pending rest keep k ctx buf r \<Longrightarrow>
     \<exists>w'. receive_loop net be ty r = Some (int (length (adu t s pdu)), overlay buf 0 (adu t s pdu), ctx, w') \<and>
       pending w' = rest \<and> keep w' = k"
proof (induction net \<equiv> net be \<equiv> be ty \<equiv> ty r rule: receive_loop.induct)
  case (1 r)
  let ?m = "adu t s pdu"
  show ?case
  proof (cases "length_to_read r = 0")
    case True
    then have len: "msg_length r = length ?m" and R: "rv_ctx r = ctx" "rv_msg r = overlay buf 0 ?m" "pending (rv_w r) = rest" "keep (rv_w r) = k"
      using 1(2) by (auto simp: reading_def Let_def split: step_t.splits)
    have "be_check_integrity be (?m @ drop (length ?m) buf) (length ?m) ctx (rv_w r) = Some (int (length ?m), ctx, rv_w r)"
      using assms by (intro integrity) (auto simp: complete_pdu_def)
    then show ?thesis using True len R by (simp add: receive_loop.simps [of net be ty r] overlay_def)
  next
    case False
    obtain r' where r': "receive_step net be ty r = Some (Inr r')" "reading be ty pdu ?m pending rest keep k ctx buf r'"
      by (rule receive_step_reading [OF assms(1-5) False 1(2)])
    then show ?thesis using False 1(1) [OF False r'(1) refl r'(2)] by (simp add: receive_loop.simps [of net be ty r])
  qed
qed

lemma receive_msg_keeping:
  assumes "complete_pdu ty pdu" and "0 \<le> t" "t < 65536" and "length buf = 260"
    and "delivers_only be pending keep ctx" and "accepts ctx s" and "pending w = adu t s pdu @ rest"
  shows "\<exists>w'. modbus_receive_msg net be buf ty ctx w =
     Some (int (length (adu t s pdu)), overlay buf 0 (adu t s pdu), ctx, w') \<and> pending w' = rest \<and> keep w' = keep w"
  unfolding modbus_receive_msg_def
  by (rule receive_loop_reading [OF assms(1-6)]) (use assms(7) in \<open>simp add: reading_def\<close>)

lemma receive_msg_delivered:
  assumes "complete_pdu ty pdu" and "0 \<le> t" "t < 65536" and "length buf = 260"
    and "delivers be pending ctx" and "accepts ctx s" and "pending w = adu t s pdu @ rest"
  shows "\<exists>w'. modbus_receive_msg net be buf ty ctx w =
     Some (int (length (adu t s pdu)), overlay buf 0 (adu t s pdu), ctx, w') \<and> pending w' = rest"
  using receive_msg_keeping [OF assms(1-4) assms(5) [unfolded delivers_def] assms(6,7)] by blast

end

section \<open>Receiving over TCP\<close>

text \<open>
  What POSIX says of the two calls, with signals blocked: \<open>select\<close> is not interrupted, and
  \<open>recv\<close> returns -1, 0 or the number of the bytes it stored, at most as many as asked for.
\<close>

definition posix_sockets :: "('a, 'w) net \<Rightarrow> bool" where
  "posix_sockets net \<longleftrightarrow>
     (\<forall>fd tv w rc left err w'. net_select net fd tv w = (rc, left, err, w') \<longrightarrow> rc \<noteq> -1 \<or> err \<noteq> EINTR) \<and>
     (\<forall>fd n b w rc bytes err w'. net_recv net fd n b w = (rc, bytes, err, w') \<longrightarrow>
        -1 \<le> rc \<and> rc \<le> int n \<and> (0 < rc \<longrightarrow> int (length bytes) = rc))"

lemma tcp_transport_ok:
  assumes "posix_sockets net"
  shows "transport_ok (tcp_backend net inet)"
proof -
  have sel: "\<exists>rc tv' ctx' w'. tcp_select net tv n ctx w = Some (rc, tv', ctx', w') \<and> error_recovery ctx' = error_recovery ctx"
    for tv n and ctx :: "modbus_tcp modbus" and w
  proof -
    obtain rc left err w' where s: "net_select net (mb_s ctx) tv w = (rc, left, err, w')" by (metis prod_cases4)
    then have "\<not> (rc = -1 \<and> err = EINTR)" using assms unfolding posix_sockets_def by blast
    then show ?thesis by (subst tcp_select.simps) (auto simp: s Let_def)
  qed
  have rcv: "error_recovery ctx' = error_recovery ctx \<and> -1 \<le> rc \<and> rc \<le> int n \<and> (0 < rc \<longrightarrow> int (length bytes) = rc)"
    if "tcp_recv net n ctx w = (rc, bytes, ctx', w')" for n ctx w rc bytes w' and ctx' :: "modbus_tcp modbus"
    using assms that by (auto simp: posix_sockets_def tcp_recv_def fail_errno_def split_beta prod_eq_iff)
  show ?thesis unfolding transport_ok_def using sel rcv by (simp add: tcp_backend_def)
qed

text \<open>
  C23. Whatever bytes a client sends, in whatever pieces, and wherever the connection breaks,
  \<open>modbus_receive\<close> on a TCP connection returns, and never writes outside the 260 bytes of
  its buffer.
\<close>

theorem tcp_receive_safe:
  assumes "posix_sockets net" and "length buf = 260" and "error_recovery ctx = 0"
  shows "\<exists>rc msg ctx' w'. modbus_receive net' (tcp_backend net inet) buf ctx w = Some (rc, msg, ctx', w') \<and> rc \<le> 260"
  using tcp.receive_msg_total [OF tcp_transport_ok [OF assms(1)] assms(2,3)]
  by (simp add: modbus_receive_def tcp_receive_def tcp_backend_def)

text \<open>Sockets over a stream of bytes that arrives in pieces of at most \<open>k\<close> bytes.\<close>

definition stream_net :: "nat \<Rightarrow> (unit, u8 list) net" where
  "stream_net k = \<lparr>net_nanosleep = (\<lambda>t w. (0, (0, 0), 0, w)), net_select = (\<lambda>fd tv w. (1, (0, 0), 0, w)),
     net_select_write = (\<lambda>fd tv w. (1, 0, w)),
     net_recv = (\<lambda>fd n b w. let m = min n k in (int (length (take m w)), take m w, 0, drop m w)),
     net_send = (\<lambda>fd bs w. (int (length bs), 0, w)), net_socket = (\<lambda>a b c w. (3, 0, w)),
     net_setsockopt = (\<lambda>a b c d w. (0, 0, w)), net_so_error = (\<lambda>fd w. (0, 0, 0, w)),
     net_connect = (\<lambda>fd a w. (0, 0, w)), net_bind = (\<lambda>fd a w. (0, 0, w)), net_listen = (\<lambda>fd n w. (0, 0, w)),
     net_accept = (\<lambda>fd w. (4, 0, w)), net_shutdown = (\<lambda>fd w. w), net_close = (\<lambda>fd w. w)\<rparr>"

definition tcp_ctx :: "modbus_tcp modbus" where
  "tcp_ctx = \<lparr>mb_slave = 0xFF, mb_s = 3, mb_debug = 0, error_recovery = 0, response_timeout = (0, 500000),
     byte_timeout = (0, 500000), backend_data = \<lparr>t_id = 0, port = 502, ip = [0x30, 0]\<rparr>, errno = 0\<rparr>"

lemma posix_stream_net: "posix_sockets (stream_net k)"
  by (auto simp: posix_sockets_def stream_net_def Let_def)

theorem tcp_receive_safe_witness:
  "\<exists>rc msg ctx' w'. modbus_receive (stream_net 3) (tcp_backend (stream_net 3) (\<lambda>_ _. ())) (replicate 260 0) tcp_ctx
     (replicate 300 0xFF) = Some (rc, msg, ctx', w') \<and> rc \<le> 260"
  using tcp_receive_safe [OF posix_stream_net, of "replicate 260 0" tcp_ctx] by (simp add: tcp_ctx_def)

text \<open>
  C22. When the bytes that arrive on a connection begin with a complete request, the server's
  \<open>modbus_receive\<close> returns exactly this request at the start of its buffer, however the
  network has cut the bytes into pieces, and leaves the bytes that follow it.
\<close>

theorem tcp_receive_request:
  assumes "complete_pdu MSG_INDICATION pdu" and "0 \<le> t" "t < 65536" and "length buf = 260"
    and "delivers (tcp_backend net inet) pending ctx" and "pending w = tcp_adu t s pdu @ rest"
  shows "\<exists>w'. modbus_receive net' (tcp_backend net inet) buf ctx w =
     Some (int (length (tcp_adu t s pdu)), overlay buf 0 (tcp_adu t s pdu), ctx, w') \<and> pending w' = rest"
  using tcp.receive_msg_delivered [OF assms(1-5) TrueI assms(6)]
  by (simp add: modbus_receive_def tcp_receive_def tcp_backend_def)

lemma stream_net_delivers: "0 < k \<Longrightarrow> delivers (tcp_backend (stream_net k) inet) (\<lambda>w. w) ctx"
  unfolding delivers_def delivers_only_def
  by (auto simp: tcp_backend_def tcp_select.simps tcp_recv_def stream_net_def fail_errno_def Let_def)

theorem tcp_receive_request_witness:
  "\<exists>w'. modbus_receive (stream_net 2) (tcp_backend (stream_net 2) (\<lambda>_ _. ())) (replicate 260 0) tcp_ctx
     ([0, 1, 0, 0, 0, 6, 9, 3, 0, 0, 0, 1] @ [0, 2]) =
   Some (12, [0, 1, 0, 0, 0, 6, 9, 3, 0, 0, 0, 1] @ replicate 248 0, tcp_ctx, w') \<and> w' = [0, 2]"
  using tcp_receive_request [of "[3, 0, 0, 0, 1]" 1 "replicate 260 0" "stream_net 2" "\<lambda>_ _. ()" "\<lambda>w. w" tcp_ctx
      "[0, 1, 0, 0, 0, 6, 9, 3, 0, 0, 0, 1, 0, 2]" 9 "[0, 2]" "stream_net 2"]
  by (simp add: complete_pdu_def compute_meta_length_after_function_def data_length_def stream_net_delivers
      tcp_adu_def Let_def overlay_def)

end
