(* ===== verification/Modbus_Server_Spec.thy ===== *)
theory Modbus_Server_Spec
  imports Modbus_Receive
begin

text \<open>
  An abstract Modbus server: what a request PDU means for a mapping, and the PDU it is
  answered with, in terms of lists only; and the loops of \<open>modbus.c\<close> in these terms.
\<close>

section \<open>Bits and registers as bytes\<close>

fun byte_of_bits :: "u8 list \<Rightarrow> u8" where
  "byte_of_bits [] = 0"
| "byte_of_bits (b # bs) = b OR push_bit 1 (byte_of_bits bs)"

function pack :: "u8 list \<Rightarrow> u8 list" where
  "pack bs = (if bs = [] then [] else byte_of_bits (take 8 bs) # pack (drop 8 bs))"
  by pat_completeness auto
termination by (relation "measure length") auto

declare pack.simps [simp del]

definition unpack :: "nat \<Rightarrow> u8 list \<Rightarrow> u8 list" where
  "unpack nb bytes = map (\<lambda>i. bit_of (bytes ! (i div 8)) (i mod 8)) [0..<nb]"

definition reg_bytes :: "u16 list \<Rightarrow> u8 list" where
  "reg_bytes rs = concat (map (\<lambda>r. [hi8 r, lo8 r]) rs)"

fun regs_of_bytes :: "u8 list \<Rightarrow> u16 list" where
  "regs_of_bytes (a # b # bs) = join16 a b # regs_of_bytes bs"
| "regs_of_bytes bs = []"

lemma pack_Nil [simp]: "pack [] = []"
  by (simp add: pack.simps)

lemma length_reg_bytes [simp]: "length (reg_bytes rs) = 2 * length rs"
  by (induction rs) (simp_all add: reg_bytes_def)

lemma reg_bytes_append: "reg_bytes (xs @ ys) = reg_bytes xs @ reg_bytes ys"
  by (simp add: reg_bytes_def)

lemma regs_of_reg_bytes [simp]: "regs_of_bytes (reg_bytes rs) = rs"
  by (induction rs) (simp_all add: reg_bytes_def)

lemma length_regs_of_bytes [simp]: "length (regs_of_bytes bs) = length bs div 2"
  by (induction bs rule: regs_of_bytes.induct) simp_all

lemma ceil_div_8_nat: "(n + 7) div 8 = n div 8 + (if n mod 8 \<noteq> 0 then 1 else 0 :: nat)"
proof -
  have "int ((n + 7) div 8) = (int n + 7) div 8" by (simp add: zdiv_int)
  also have "\<dots> = int (n div 8 + (if n mod 8 \<noteq> 0 then 1 else 0))"
    unfolding ceil_div_8 [symmetric] using zmod_int [of n 8] by (auto simp: zdiv_int)
  finally show ?thesis by linarith
qed

lemma length_pack: "length (pack bs) = (length bs + 7) div 8"
proof (induction bs rule: pack.induct)
  case (1 bs)
  show ?case
  proof (cases "bs = []")
    case False
    then have "length bs > 0" by simp
    have "(n - 8 + 7) div 8 + 1 = (n + 7) div 8" if "0 < n" for n :: nat
    proof (cases "8 \<le> n")
      case True
      then obtain k where "n = 8 + k" using le_Suc_ex by blast
      then show ?thesis using div_add_self1 [of 8 "k + 7"] by (simp add: ac_simps)
    next
      case False
      then have "(n + 7) div 8 = 1" using that by (intro div_nat_eqI) simp_all
      then show ?thesis using False by simp
    qed
    from this [OF \<open>length bs > 0\<close>] have "(length (drop 8 bs) + 7) div 8 + 1 = (length bs + 7) div 8" by simp
    then show ?thesis using 1 False by (simp add: pack.simps [of bs])
  qed simp
qed

lemma pack_append:
  assumes "length xs mod 8 = 0"
  shows "pack (xs @ ys) = pack xs @ pack ys"
  using assms
proof (induction xs rule: pack.induct)
  case (1 xs)
  show ?case
  proof (cases "xs = []")
    case False
    then have "8 \<le> length xs" using 1(2) by (metis length_0_conv mod_less not_less)
    then have "length (drop 8 xs) mod 8 = 0" using 1(2) by (simp add: le_mod_geq)
    then show ?thesis using 1(1) False \<open>8 \<le> length xs\<close>
      by (simp add: pack.simps [of xs] pack.simps [of "xs @ ys"])
  qed simp
qed

lemma pack_small: "bs \<noteq> [] \<Longrightarrow> length bs \<le> 8 \<Longrightarrow> pack bs = [byte_of_bits bs]"
  by (simp add: pack.simps [of bs])

lemma byte_of_bits_snoc: "byte_of_bits (bs @ [b]) = byte_of_bits bs OR push_bit (length bs) b"
  by (induction bs) (simp_all add: or.assoc push_bit_or)

section \<open>The loops\<close>

lemma word_of_int_or_push:
  "(word_of_int (k OR push_bit n (uint (b :: u8))) :: u8) = word_of_int k OR push_bit n b"
  by (rule bit_word_eqI) (auto simp: bit_simps)

lemma take_snoc: "i < length xs \<Longrightarrow> take (Suc i) xs = take i xs @ [xs ! i]"
  by (rule take_Suc_conv_app_nth)

lemma mod_8_Suc: "Suc i mod 8 = (if i mod 8 = 7 then 0 else Suc (i mod 8))"
  "Suc i div 8 = (if i mod 8 = 7 then Suc (i div 8) else i div 8)"
  by (simp_all add: mod_Suc div_Suc)

text \<open>
  The packing loop after \<open>i\<close> bits: the full bytes are in the buffer, the rest of the bits
  in the byte under construction.
\<close>

lemma response_io_status_spec:
  assumes "0 \<le> a" and "nat a + nb \<le> length tab" and "off + (nb + 7) div 8 \<le> length rsp"
  shows "response_io_status tab a (int nb) rsp off =
     Some (off + (nb + 7) div 8, overlay rsp off (pack (take nb (drop (nat a) tab))))"
proof -
  define bits where "bits = take nb (drop (nat a) tab)"
  have lb: "length bits = nb" using assms(2) by (simp add: bits_def)
  let ?full = "\<lambda>i. take (8 * (i div 8)) bits" and ?part = "\<lambda>i. drop (8 * (i div 8)) (take i bits)"
  let ?P = "\<lambda>i (shift, one, r, p). shift = i mod 8 \<and> (word_of_int one :: u8) = byte_of_bits (?part i) \<and>
      r = overlay rsp off (pack (?full i)) \<and> p = off + i div 8"
  let ?f = "\<lambda>i (shift, one_byte, rsp, offset).
              do { b \<leftarrow> rd_at tab (a + int i);
                   let one_byte = one_byte OR push_bit shift (uint b);
                   if shift = 7 then
                     do { rsp \<leftarrow> wr8 rsp offset (word_of_int one_byte); Some (0, 0, rsp, offset + 1) }
                   else Some (shift + 1, one_byte, rsp, offset) }"
  have "\<exists>s. for_each [0..<nb] ?f (0 :: nat, 0 :: int, rsp, off) = Some s \<and> ?P nb s"
  proof (rule for_each_upt)
    fix i and s :: "nat \<times> int \<times> mem \<times> nat" assume i: "i < nb" and P: "?P i s"
    obtain shift one r off' where s: "s = (shift, one, r, off')" by (cases s)
    note P = P [unfolded s, simplified]
    have rd: "rd_at tab (a + int i) = Some (bits ! i)"
      using i assms(1,2) by (simp add: rd_at_def bits_def nat_add_distrib)
    have d: "8 * (i div 8) + i mod 8 = i" by simp
    then have lp: "length (?part i) = i mod 8" using i lb by (simp add: minus_mult_div_eq_mod)
    have snoc: "drop (8 * (i div 8)) (take (Suc i) bits) = ?part i @ [bits ! i]"
      using i lb d by (simp add: take_snoc)
    let ?one = "one OR push_bit shift (uint (bits ! i))"
    have one: "(word_of_int ?one :: u8) = byte_of_bits (?part i @ [bits ! i])"
      using P lp by (simp add: word_of_int_or_push byte_of_bits_snoc)
    have lf: "length (pack (?full i)) = i div 8" using i lb by (simp add: length_pack)
    show "\<exists>s'. ?f i s = Some s' \<and> ?P (Suc i) s'"
    proof (cases "i mod 8 = 7")
      case False
      then show ?thesis
        using P rd one snoc by (simp add: s mod_8_Suc Let_def)
    next
      case True
      have room: "off + i div 8 < length rsp" using assms(3) i by linarith
      have full: "?full (Suc i) = ?full i @ (?part i @ [bits ! i])"
      proof -
        have "8 * (Suc i div 8) = Suc i" using True d by (simp add: mod_8_Suc)
        then have "?full (Suc i) = take (Suc i) bits" by (simp only:)
        also have "\<dots> = take (8 * (i div 8)) (take (Suc i) bits) @ drop (8 * (i div 8)) (take (Suc i) bits)"
          by (rule append_take_drop_id [symmetric])
        also have "take (8 * (i div 8)) (take (Suc i) bits) = ?full i"
          using d by (simp add: min.absorb1)
        finally show ?thesis using snoc by simp
      qed
      have "pack (?full (Suc i)) = pack (?full i) @ [byte_of_bits (?part i @ [bits ! i])]"
        unfolding full using lp True i lb by (simp add: pack_append pack_small)
      moreover have "(overlay rsp off (pack (?full i)))[off + i div 8 := x] = overlay rsp off (pack (?full i) @ [x])" for x
        using overlay_snoc [of off "pack (?full i)" rsp x] room lf by simp
      ultimately show ?thesis
        using P rd one True room lf by (simp add: s mod_8_Suc Let_def no_fault)
    qed
  qed simp_all
  then obtain one where loop: "for_each [0..<nb] ?f (0, 0, rsp, off) =
      Some (nb mod 8, one, overlay rsp off (pack (?full nb)), off + nb div 8)"
    and one: "(word_of_int one :: u8) = byte_of_bits (?part nb)"
    by (fastforce simp: split_paired_Ex)
  have lf: "length (pack (?full nb)) = nb div 8" using lb by (simp add: length_pack)
  have split: "bits = ?full nb @ ?part nb" using lb by simp
  have lp: "length (?part nb) = nb mod 8" using lb by (simp add: minus_mult_div_eq_mod)
  show ?thesis
  proof (cases "nb mod 8 = 0")
    case True
    then have "bits = ?full nb" "(nb + 7) div 8 = nb div 8" using split lp by auto
    then show ?thesis using loop True by (simp add: response_io_status_def flip: bits_def)
  next
    case False
    then have n: "(nb + 7) div 8 = nb div 8 + 1" by (simp add: ceil_div_8_nat)
    have "pack (?full nb @ ?part nb) = pack (?full nb) @ pack (?part nb)"
      using lb by (intro pack_append) simp
    moreover have "pack (?part nb) = [byte_of_bits (?part nb)]"
    proof (rule pack_small)
      show "?part nb \<noteq> []" using lp False by (metis list.size(3))
      show "length (?part nb) \<le> 8" using lp by simp
    qed
    ultimately have "pack bits = pack (?full nb) @ [byte_of_bits (?part nb)]" using split by metis
    moreover have "(overlay rsp off (pack (?full nb)))[off + nb div 8 := x] = overlay rsp off (pack (?full nb) @ [x])" for x
      using overlay_snoc [of off "pack (?full nb)" rsp x] assms(3) lf n by simp
    ultimately show ?thesis
      using loop False assms(3) n lf one by (simp add: response_io_status_def no_fault flip: bits_def)
  qed
qed

lemma put_registers_spec:
  assumes "0 \<le> a" and "nat a + nb \<le> length tab" and "n + 2 * nb \<le> length rsp"
  shows "put_registers tab a (int nb) rsp n =
     Some (n + 2 * nb, overlay rsp n (reg_bytes (take nb (drop (nat a) tab))))"
proof -
  define regs where "regs = take nb (drop (nat a) tab)"
  have lr: "length regs = nb" using assms(2) by (simp add: regs_def)
  let ?P = "\<lambda>i (m, r). m = n + 2 * i \<and> r = overlay rsp n (reg_bytes (take i regs))"
  let ?f = "\<lambda>i (m, rsp). do { r \<leftarrow> rd_at tab (a + int i); rsp \<leftarrow> wr8 rsp m (hi8 r);
       rsp \<leftarrow> wr8 rsp (m + 1) (lo8 r); Some (m + 2, rsp) }"
  have "\<exists>s. for_each [0..<nb] ?f (n, rsp) = Some s \<and> ?P nb s"
  proof (rule for_each_upt)
    fix i and s :: "nat \<times> mem" assume i: "i < nb" and P: "?P i s"
    obtain m r where s: "s = (m, r)" by fastforce
    have rd: "rd_at tab (a + int i) = Some (regs ! i)"
      using i assms(1,2) by (simp add: rd_at_def regs_def nat_add_distrib)
    let ?bs = "reg_bytes (take i regs)"
    have l: "length ?bs = 2 * i" using i lr by simp
    have "(overlay rsp n ?bs)[n + 2 * i := x, Suc (n + 2 * i) := y] = overlay rsp n (?bs @ [x, y])" for x y
      using overlay_snoc [of n ?bs rsp x] overlay_snoc [of n "?bs @ [x]" rsp y] l assms(3) i by simp
    moreover have "reg_bytes (take (Suc i) regs) = ?bs @ [hi8 (regs ! i), lo8 (regs ! i)]"
      using i lr by (simp add: take_snoc reg_bytes_append) (simp add: reg_bytes_def)
    ultimately show "\<exists>s'. ?f i s = Some s' \<and> ?P (Suc i) s'"
      using P rd i l assms(3) by (simp add: s no_fault)
  qed (simp_all add: reg_bytes_def)
  then show ?thesis using lr by (auto simp: put_registers_def simp flip: regs_def)
qed

lemma join16_be16: "word_of_int (be16 h l) = join16 h l"
  by (simp flip: uint_join16)

lemma regs_of_bytes_map:
  "2 * nb \<le> length xs \<Longrightarrow>
     regs_of_bytes (take (2 * nb) xs) = map (\<lambda>i. join16 (xs ! (2 * i)) (xs ! (2 * i + 1))) [0..<nb]"
proof (induction nb arbitrary: xs)
  case (Suc nb)
  then obtain a b ys where xs: "xs = a # b # ys" by (cases xs; cases "tl xs") auto
  have "map (\<lambda>i. join16 (xs ! (2 * i)) (xs ! (2 * i + 1))) [0..<Suc nb] =
      join16 a b # map (\<lambda>i. join16 (ys ! (2 * i)) (ys ! (2 * i + 1))) [0..<nb]"
    unfolding map_upt_Suc by (simp add: xs)
  then show ?case using Suc.IH [of ys] Suc.prems by (simp add: xs)
qed simp

lemma store_registers_spec:
  assumes "0 \<le> a" and "nat a + nb \<le> length tab" and "j + 2 * nb \<le> length req"
  shows "store_registers tab a (int nb) req j =
     Some (overlay tab (nat a) (regs_of_bytes (take (2 * nb) (drop j req))))"
proof -
  let ?r = "\<lambda>i. join16 (drop j req ! (2 * i)) (drop j req ! (2 * i + 1))"
  let ?P = "\<lambda>i t. t = overlay tab (nat a) (map ?r [0..<i])"
  let ?f = "\<lambda>i tab. do { v \<leftarrow> rd_be16 req (j + 2 * i); wr_at tab (a + int i) (word_of_int v) }"
  have "\<exists>t. for_each [0..<nb] ?f tab = Some t \<and> ?P nb t"
  proof (rule for_each_upt)
    fix i t assume i: "i < nb" and t: "?P i t"
    have "rd_be16 req (j + 2 * i) = Some (be16 (drop j req ! (2 * i)) (drop j req ! (2 * i + 1)))"
      using assms(3) i by (simp add: rd_be16_def no_fault)
    moreover have "(overlay tab (nat a) (map ?r [0..<i]))[nat a + i := x] = overlay tab (nat a) (map ?r [0..<i] @ [x])" for x
      using overlay_snoc [of "nat a" "map ?r [0..<i]" tab x] assms(2) i by simp
    ultimately show "\<exists>t'. ?f i t = Some t' \<and> ?P (Suc i) t'"
      using t assms(1,2) i by (simp add: wr_at_def nat_add_distrib join16_be16)
  qed simp_all
  then show ?thesis
    using assms(3) by (auto simp: store_registers_def regs_of_bytes_map)
qed

section \<open>The abstract server\<close>

definition in_range :: "int \<Rightarrow> int \<Rightarrow> int \<Rightarrow> int \<Rightarrow> bool" where
  "in_range start count a n \<longleftrightarrow> start \<le> a \<and> a + n \<le> start + count"

text \<open>The address and the number (or value) of a request PDU, and an exception response.\<close>

definition pdu_address :: "u8 list \<Rightarrow> int" where
  "pdu_address pdu = be16 (pdu ! 1) (pdu ! 2)"

definition pdu_number :: "u8 list \<Rightarrow> int" where
  "pdu_number pdu = be16 (pdu ! 3) (pdu ! 4)"

definition spec_exception :: "modbus_mapping \<Rightarrow> u8 list \<Rightarrow> u8 \<Rightarrow> u8 list \<times> modbus_mapping" where
  "spec_exception mm pdu code = ([pdu ! 0 + 0x80, code], mm)"

definition spec_read_bits :: "modbus_mapping \<Rightarrow> u8 list \<Rightarrow> int \<Rightarrow> mem \<Rightarrow> u8 list \<times> modbus_mapping" where
  "spec_read_bits mm pdu start tab =
     (let a = pdu_address pdu; n = pdu_number pdu; bytes = pack (take (nat n) (drop (nat (a - start)) tab)) in
      if n < 1 \<or> 2000 < n then spec_exception mm pdu 3
      else if \<not> in_range start (int (length tab)) a n then spec_exception mm pdu 2
      else (pdu ! 0 # word_of_nat (length bytes) # bytes, mm))"

definition spec_read_registers :: "modbus_mapping \<Rightarrow> u8 list \<Rightarrow> int \<Rightarrow> u16 list \<Rightarrow> u8 list \<times> modbus_mapping" where
  "spec_read_registers mm pdu start tab =
     (let a = pdu_address pdu; n = pdu_number pdu in
      if n < 1 \<or> 125 < n then spec_exception mm pdu 3
      else if \<not> in_range start (int (length tab)) a n then spec_exception mm pdu 2
      else (pdu ! 0 # word_of_int (2 * n) # reg_bytes (take (nat n) (drop (nat (a - start)) tab)), mm))"

definition spec_write_bit :: "modbus_mapping \<Rightarrow> u8 list \<Rightarrow> u8 list \<times> modbus_mapping" where
  "spec_write_bit mm pdu =
     (let a = pdu_address pdu; v = pdu_number pdu in
      if \<not> in_range (start_bits mm) (int (length (tab_bits mm))) a 1 then spec_exception mm pdu 2
      else if v = 0xFF00 \<or> v = 0 then
        (pdu, mm\<lparr>tab_bits := (tab_bits mm)[nat (a - start_bits mm) := if v \<noteq> 0 then 1 else 0]\<rparr>)
      else spec_exception mm pdu 3)"

definition spec_write_register :: "modbus_mapping \<Rightarrow> u8 list \<Rightarrow> (u16 \<Rightarrow> u16) \<Rightarrow> u8 list \<times> modbus_mapping" where
  "spec_write_register mm pdu f =
     (let a = pdu_address pdu; i = nat (a - start_registers mm); tab = tab_registers mm in
      if \<not> in_range (start_registers mm) (int (length tab)) a 1 then spec_exception mm pdu 2
      else (pdu, mm\<lparr>tab_registers := tab[i := f (tab ! i)]\<rparr>))"

definition spec_write_bits :: "modbus_mapping \<Rightarrow> u8 list \<Rightarrow> u8 list \<times> modbus_mapping" where
  "spec_write_bits mm pdu =
     (let a = pdu_address pdu; n = pdu_number pdu in
      if n < 1 \<or> 1968 < n then spec_exception mm pdu 3
      else if \<not> in_range (start_bits mm) (int (length (tab_bits mm))) a n then spec_exception mm pdu 2
      else (take 5 pdu,
        mm\<lparr>tab_bits := overlay (tab_bits mm) (nat (a - start_bits mm)) (unpack (nat n) (drop 6 pdu))\<rparr>))"

definition spec_write_registers :: "modbus_mapping \<Rightarrow> u8 list \<Rightarrow> u8 list \<times> modbus_mapping" where
  "spec_write_registers mm pdu =
     (let a = pdu_address pdu; n = pdu_number pdu; tab = tab_registers mm in
      if n < 1 \<or> 123 < n then spec_exception mm pdu 3
      else if \<not> in_range (start_registers mm) (int (length tab)) a n then spec_exception mm pdu 2
      else (take 5 pdu,
        mm\<lparr>tab_registers := overlay tab (nat (a - start_registers mm)) (regs_of_bytes (drop 6 pdu))\<rparr>))"

definition mask_register :: "u8 list \<Rightarrow> u16 \<Rightarrow> u16" where
  "mask_register pdu r =
     (let and_mask = join16 (pdu ! 3) (pdu ! 4); or_mask = join16 (pdu ! 5) (pdu ! 6) in
      (r AND and_mask) OR (or_mask AND NOT and_mask))"

text \<open>The write comes first, and the registers read are those after it.\<close>

definition spec_write_and_read :: "modbus_mapping \<Rightarrow> u8 list \<Rightarrow> u8 list \<times> modbus_mapping" where
  "spec_write_and_read mm pdu =
     (let a = pdu_address pdu; n = pdu_number pdu; b = be16 (pdu ! 5) (pdu ! 6); k = be16 (pdu ! 7) (pdu ! 8);
          start = start_registers mm; count = int (length (tab_registers mm));
          tab = overlay (tab_registers mm) (nat (b - start)) (regs_of_bytes (drop 10 pdu)) in
      if k < 1 \<or> 121 < k \<or> n < 1 \<or> 125 < n \<or> uint (pdu ! 9) \<noteq> 2 * k then spec_exception mm pdu 3
      else if \<not> (in_range start count a n \<and> in_range start count b k) then spec_exception mm pdu 2
      else (pdu ! 0 # word_of_int (2 * n) # reg_bytes (take (nat n) (drop (nat (a - start)) tab)),
            mm\<lparr>tab_registers := tab\<rparr>))"

text \<open>
  The response PDU and the new mapping for a request PDU. The exception codes are 1 for an
  unknown function, 2 for an address and 3 for a value or quantity that is not allowed.
\<close>

definition server_spec :: "string \<Rightarrow> modbus_mapping \<Rightarrow> u8 list \<Rightarrow> u8 list \<times> modbus_mapping" where
  "server_spec version mm pdu =
     (let f = pdu ! 0 in
      if f = 0x01 then spec_read_bits mm pdu (start_bits mm) (tab_bits mm)
      else if f = 0x02 then spec_read_bits mm pdu (start_input_bits mm) (tab_input_bits mm)
      else if f = 0x03 then spec_read_registers mm pdu (start_registers mm) (tab_registers mm)
      else if f = 0x04 then spec_read_registers mm pdu (start_input_registers mm) (tab_input_registers mm)
      else if f = 0x05 then spec_write_bit mm pdu
      else if f = 0x06 then spec_write_register mm pdu (\<lambda>_. join16 (pdu ! 3) (pdu ! 4))
      else if f = 0x0F then spec_write_bits mm pdu
      else if f = 0x10 then spec_write_registers mm pdu
      else if f = 0x11 then
        ([f, word_of_nat (5 + length version), 180, 0xFF] @ map of_char (''LMB'' @ version), mm)
      else if f = 0x16 then spec_write_register mm pdu (mask_register pdu)
      else if f = 0x17 then spec_write_and_read mm pdu
      else spec_exception mm pdu 1)"

text \<open>
  A mapping whose tables have the sizes it states; and a request that a client may send: a
  complete PDU, with the number of data bytes its number of values needs.
\<close>

definition wf_mapping :: "modbus_mapping \<Rightarrow> bool" where
  "wf_mapping mm \<longleftrightarrow> nb_bits mm = int (length (tab_bits mm)) \<and> nb_input_bits mm = int (length (tab_input_bits mm)) \<and>
     nb_registers mm = int (length (tab_registers mm)) \<and> nb_input_registers mm = int (length (tab_input_registers mm))"

definition valid_request :: "u8 list \<Rightarrow> bool" where
  "valid_request pdu \<longleftrightarrow> complete_pdu MSG_INDICATION pdu \<and>
     (let n = pdu_number pdu in
      (pdu ! 0 = 0x0F \<longrightarrow> 1 \<le> n \<longrightarrow> n \<le> 1968 \<longrightarrow> uint (pdu ! 5) = (n + 7) div 8) \<and>
      (pdu ! 0 = 0x10 \<longrightarrow> 1 \<le> n \<longrightarrow> n \<le> 123 \<longrightarrow> uint (pdu ! 5) = 2 * n))"

end
