(* ===== verification/Modbus_Server_Correct.thy ===== *)
theory Modbus_Server_Correct
  imports Modbus_Server_Spec
begin

text \<open>
  \<open>modbus_reply\<close> refines the abstract server: for every valid request it sends the message
  with the PDU of \<open>server_spec\<close>, and changes the mapping as \<open>server_spec\<close> says. The proof is
  made once for every transport, in the locale \<open>modbus_framing\<close>.
\<close>

section \<open>A response under construction\<close>

text \<open>The buffer \<open>r\<close> holds a header, the bytes \<open>p\<close> of the PDU up to position \<open>n\<close>, and a rest.\<close>

definition built :: "nat \<Rightarrow> (u8 list \<Rightarrow> bool) \<Rightarrow> u8 list \<Rightarrow> nat \<Rightarrow> mem \<Rightarrow> bool" where
  "built hl ok p n r \<longleftrightarrow> (\<exists>h q. r = h @ p @ q \<and> ok h \<and> length h = hl \<and> n = hl + length p \<and> length r = 260)"

lemma built_length: "built hl ok p n r \<Longrightarrow> length r = 260 \<and> n = hl + length p"
  by (auto simp: built_def)

lemma built_overlay:
  assumes "built hl ok p n r" and "n + length bs \<le> 260"
  shows "built hl ok (p @ bs) (n + length bs) (overlay r n bs)"
proof -
  obtain h q where r: "r = h @ p @ q" "ok h" "length h = hl" "n = hl + length p" "length r = 260"
    using assms(1) by (auto simp: built_def)
  then have "overlay r n bs = h @ (p @ bs) @ drop (length bs) q"
    by (simp add: overlay_def)
  moreover have "length (overlay r n bs) = 260" using r(5) assms(2) by simp
  ultimately show ?thesis unfolding built_def using r by (metis add.assoc length_append)
qed

lemma built_wr8:
  assumes "built hl ok p n r" and "n < 260"
  obtains r' where "wr8 r n b = Some r'" "built hl ok (p @ [b]) (n + 1) r'"
proof -
  have "length r = 260" using assms(1) by (simp add: built_def) blast
  then have "wr8 r n b = Some (overlay r n [b])" using assms(2) by (simp add: no_fault overlay_single)
  then show thesis using that built_overlay [OF assms(1), of "[b]"] assms(2) by simp
qed

text \<open>The context up to \<open>errno\<close>.\<close>

definition settings :: "'d modbus \<Rightarrow> 'd modbus" where
  "settings ctx = ctx\<lparr>errno := 0\<rparr>"

lemma settings_eqD:
  assumes "settings a = settings b"
  shows "error_recovery a = error_recovery b" and "mb_s a = mb_s b" and "backend_data a = backend_data b"
  using assms by (cases a; cases b; simp add: settings_def)+

lemma settings_errno [simp]: "settings (ctx\<lparr>errno := e\<rparr>) = settings ctx"
  by (simp add: settings_def)

definition answered ::
  "nat \<Rightarrow> (u8 list \<Rightarrow> bool) \<Rightarrow> 'd modbus \<Rightarrow> u8 list \<times> modbus_mapping \<Rightarrow> ('d, 'w) reply_result \<Rightarrow> bool" where
  "answered hl ok er a res \<longleftrightarrow>
     (\<exists>n r ctx w. res = Some (n, r, snd a, ctx, w) \<and> built hl ok (fst a) n r \<and> settings ctx = er)"

text \<open>Sleeping and flushing come to an end and keep the settings.\<close>

definition quiet :: "('a, 'w) net \<Rightarrow> ('d, 'w) modbus_backend \<Rightarrow> bool" where
  "quiet net be \<longleftrightarrow>
     (\<forall>ctx w. \<exists>ctx' w'. sleep_and_flush net be ctx w = Some (ctx', w') \<and> settings ctx' = settings ctx)"

lemma overlay_append: "overlay (ys @ zs) (length ys) bs = ys @ bs @ drop (length bs) zs"
  by (simp add: overlay_def)

lemma in_range_nat:
  assumes "in_range start (int l) a n" and "0 \<le> n"
  shows "nat (a - start) + nat n \<le> l" "0 \<le> a - start"
proof -
  show "0 \<le> a - start" using assms(1) by (simp add: in_range_def)
  then have "nat (a - start) + nat n = nat (a - start + n)" using assms(2) by (simp add: nat_add_distrib)
  then show "nat (a - start) + nat n \<le> l" using assms by (simp add: in_range_def nat_le_iff)
qed

section \<open>Reading the request\<close>

lemma request_rd8: "length h = hl \<Longrightarrow> i < length pdu \<Longrightarrow> rd8 (h @ pdu @ q) (hl + i) = Some (pdu ! i)"
  by (auto simp: rd8_def nth_append)

lemma request_be16:
  "length h = hl \<Longrightarrow> i + 1 < length pdu \<Longrightarrow>
     rd_be16 (h @ pdu @ q) (hl + i) = Some (be16 (pdu ! i) (pdu ! (i + 1)))"
  using request_rd8 [of h hl i pdu q] request_rd8 [of h hl "i + 1" pdu q] by (simp add: rd_be16_def)

lemma request_drop: "length h = hl \<Longrightarrow> i \<le> length pdu \<Longrightarrow> drop (hl + i) (h @ pdu @ q) = drop i pdu @ q"
  by simp

lemma of_int_uint_add: "word_of_int (uint (f :: u8) + 0x80) = f + 0x80"
  by simp

text \<open>The lengths of complete requests.\<close>

lemma request_lengths:
  assumes "complete_pdu MSG_INDICATION pdu"
  shows "pdu ! 0 \<in> {0x01, 0x02, 0x03, 0x04, 0x05, 0x06} \<Longrightarrow> length pdu = 5"
    and "pdu ! 0 \<in> {0x0F, 0x10} \<Longrightarrow> length pdu = 6 + unat (pdu ! 5)"
    and "pdu ! 0 = 0x16 \<Longrightarrow> length pdu = 7"
    and "pdu ! 0 = 0x17 \<Longrightarrow> length pdu = 10 + unat (pdu ! 9)"
    and "1 \<le> length pdu" and "length pdu \<le> 253"
  using assms
  by (auto simp: complete_pdu_def compute_meta_length_after_function_def data_length_def Suc_le_eq)

text \<open>What sending a message comes to when the link is not recovered.\<close>

definition send_result :: "nat \<Rightarrow> int \<times> 'd modbus \<times> 'w \<Rightarrow> int \<times> 'd modbus \<times> 'w" where
  "send_result n r =
     (case r of (rc, ctx, w) \<Rightarrow> if 0 < rc \<and> rc \<noteq> int n then (-1, ctx\<lparr>errno := EMBBADDATA\<rparr>, w) else r)"

definition keeps_settings :: "('d, 'w) modbus_backend \<Rightarrow> bool" where
  "keeps_settings be \<longleftrightarrow> (\<forall>bytes ctx w. settings (fst (snd (be_send be bytes ctx w))) = settings ctx)"

lemma length_pack_read:
  assumes "n \<le> 2000"
  shows "length (pack (take (nat n) xs)) \<le> 250"
proof -
  have "length (take (nat n) xs) \<le> 2000" using assms by simp
  then show ?thesis unfolding length_pack by linarith
qed

lemma spec_exception_length: "fst (spec_exception mm pdu code) \<noteq> [] \<and> length (fst (spec_exception mm pdu code)) \<le> 253"
  by (simp add: spec_exception_def)

text \<open>The response of the abstract server fits in a message.\<close>

lemma server_spec_length:
  assumes "pdu \<noteq> []" and "length pdu \<le> 253" and "length version \<le> 246"
  shows "fst (server_spec version mm pdu) \<noteq> [] \<and> length (fst (server_spec version mm pdu)) \<le> 253"
proof -
  have rb: "fst (spec_read_bits mm pdu start tab) \<noteq> [] \<and> length (fst (spec_read_bits mm pdu start tab)) \<le> 253" for start tab
    using length_pack_read [of "pdu_number pdu" "drop (nat (pdu_address pdu - start)) tab"]
    by (auto simp: spec_read_bits_def Let_def spec_exception_length)
  have rr: "fst (spec_read_registers mm pdu start tab) \<noteq> [] \<and> length (fst (spec_read_registers mm pdu start tab)) \<le> 253"
    for start tab by (auto simp: spec_read_registers_def Let_def spec_exception_length)
  have wr: "fst (spec_write_and_read mm pdu) \<noteq> [] \<and> length (fst (spec_write_and_read mm pdu)) \<le> 253"
    by (auto simp: spec_write_and_read_def Let_def spec_exception_length)
  let ?fits = "\<lambda>a :: u8 list \<times> modbus_mapping. fst a \<noteq> [] \<and> length (fst a) \<le> 253"
  have ws: "?fits (spec_write_bit mm pdu)" "?fits (spec_write_register mm pdu f)" for f
    using assms(1,2) by (auto simp: spec_write_bit_def spec_write_register_def Let_def spec_exception_length)
  have wm: "?fits (spec_write_bits mm pdu)" "?fits (spec_write_registers mm pdu)"
    using assms(1,2) by (auto simp: spec_write_bits_def spec_write_registers_def Let_def spec_exception_length)
  have id: "?fits ([f, word_of_nat (5 + length version), 180, 0xFF] @ map of_char (''LMB'' @ version), mm)" for f
    using assms(3) by simp
  show ?thesis
    unfolding server_spec_def Let_def by (simp only: rb rr wr ws wm id spec_exception_length split: if_split) simp
qed

context modbus_framing
begin

lemma basis_built:
  assumes "length rsp = 260" and "0 \<le> t" "t < 65536"
  obtains r where "be_build_response_basis be \<lparr>sft_slave = uint s, sft_function = k, sft_t_id = t\<rparr> rsp =
      Some (header_length be + 1, r)"
    "built (header_length be) (header_ok t s) [word_of_int k] (header_length be + 1) r"
proof -
  obtain h where h: "header_ok t s h" "be_build_response_basis be \<lparr>sft_slave = uint s, sft_function = k, sft_t_id = t\<rparr> rsp =
      Some (header_length be + 1, h @ [word_of_int k] @ drop (header_length be + 1) rsp)"
    using response_basis [OF assms(1), of "\<lparr>sft_slave = uint s, sft_function = k, sft_t_id = t\<rparr>"] assms(2,3) by auto
  moreover have "header_length be + 1 \<le> 260" using adu_fits max_adu by simp
  ultimately show thesis
    using header [OF h(1)] assms(1) by (intro that [OF h(2)]) (auto simp: built_def)
qed

lemma exception_answered:
  assumes "length rsp = 260" and "0 \<le> t" "t < 65536" and "quiet net be"
  shows "answered (header_length be) (header_ok t s) (settings ctx) ([f + 0x80, word_of_int code], mm)
     (exception_reply net be \<lparr>sft_slave = uint s, sft_function = uint f, sft_t_id = t\<rparr> code rsp fl mm ctx w)"
proof -
  obtain ctx' w' where q: "(if fl then sleep_and_flush net be ctx w else Some (ctx, w)) = Some (ctx', w')"
    "settings ctx' = settings ctx"
    using assms(4) unfolding quiet_def by (cases fl) (auto, blast)
  obtain r where b: "be_build_response_basis be \<lparr>sft_slave = uint s, sft_function = uint f + 0x80, sft_t_id = t\<rparr> rsp =
      Some (header_length be + 1, r)"
    "built (header_length be) (header_ok t s) [f + 0x80] (header_length be + 1) r"
    using basis_built [OF assms(1-3), of s "uint f + 0x80"] unfolding of_int_uint_add by blast
  have "header_length be + 1 < 260" using adu_fits max_adu by simp
  then obtain r' where "wr8 r (header_length be + 1) (word_of_int code) = Some r'"
    "built (header_length be) (header_ok t s) ([f + 0x80] @ [word_of_int code]) (header_length be + 1 + 1) r'"
    by (rule built_wr8 [OF b(2)])
  then show ?thesis
    using q b(1) by (simp add: answered_def exception_reply_def response_exception_def)
qed

lemma copy_request_built:
  assumes "header_ok t s h" and "length rsp = 260" and "length pdu \<le> 253"
  obtains r where "copy_request (h @ pdu @ q) (header_length be + length pdu) rsp = Some (header_length be + length pdu, r)"
    "built (header_length be) (header_ok t s) pdu (header_length be + length pdu) r"
proof -
  have l: "length h = header_length be" using header [OF assms(1)] by simp
  have n: "header_length be + length pdu \<le> 260" using assms(3) adu_fits max_adu by simp
  let ?r = "h @ pdu @ drop (header_length be + length pdu) rsp"
  have "copy_request (h @ pdu @ q) (header_length be + length pdu) rsp = Some (header_length be + length pdu, ?r)"
    using l n assms(2) by (simp add: copy_request_def no_fault overlay_def)
  moreover have "built (header_length be) (header_ok t s) pdu (header_length be + length pdu) ?r"
    using l n assms(1,2) by (auto simp: built_def)
  ultimately show thesis by (rule that)
qed

lemma echo_built:
  assumes "length h = header_length be" and "length rsp = 260" and "0 \<le> t" "t < 65536" and "5 \<le> length pdu"
  obtains r where "echo_response be \<lparr>sft_slave = uint s, sft_function = uint (pdu ! 0), sft_t_id = t\<rparr> (h @ pdu @ q) rsp =
      Some (header_length be + 5, r)"
    "built (header_length be) (header_ok t s) (take 5 pdu) (header_length be + 5) r"
proof -
  obtain r where b: "be_build_response_basis be \<lparr>sft_slave = uint s, sft_function = uint (pdu ! 0), sft_t_id = t\<rparr> rsp =
      Some (header_length be + 1, r)"
    "built (header_length be) (header_ok t s) [pdu ! 0] (header_length be + 1) r"
    using basis_built [OF assms(2-4), of s "uint (pdu ! 0)"] by auto
  obtain p0 p1 p2 p3 p4 ps where p: "pdu = p0 # p1 # p2 # p3 # p4 # ps"
    using assms(5) by (auto simp: numeral_eq_Suc Suc_le_length_iff)
  have n: "header_length be + 5 \<le> 260" using adu_fits max_adu by simp
  have rd: "rd_block (h @ pdu @ q) (header_length be + 1) 4 = Some [p1, p2, p3, p4]"
    using assms(1,5) by (simp add: rd_block_def p)
  have "built (header_length be) (header_ok t s) ([pdu ! 0] @ [p1, p2, p3, p4]) (header_length be + 1 + length [p1, p2, p3, p4])
      (overlay r (header_length be + 1) [p1, p2, p3, p4])"
    by (rule built_overlay [OF b(2)]) (use n in simp)
  moreover have "header_length be + 1 + length [p1, p2, p3, p4] = header_length be + 5" by simp
  ultimately have "built (header_length be) (header_ok t s) (take 5 pdu) (header_length be + 5)
      (overlay r (header_length be + 1) [p1, p2, p3, p4])"
    by (simp only: p) simp
  moreover have "echo_response be \<lparr>sft_slave = uint s, sft_function = uint (pdu ! 0), sft_t_id = t\<rparr> (h @ pdu @ q) rsp =
      Some (header_length be + 5, overlay r (header_length be + 1) [p1, p2, p3, p4])"
    using b(1) rd n built_length [OF b(2)] by (simp add: echo_response_def wr_block_def)
  ultimately show thesis using that by blast
qed

text \<open>The three outcomes of a request on a range of a table.\<close>

lemma range_cases:
  assumes "length rsp = 260" and "0 \<le> t" "t < 65536" and "quiet net be"
    and "\<not> bad \<Longrightarrow> in_range start count a n \<Longrightarrow>
       answered (header_length be) (header_ok t s) (settings ctx) good res"
  shows "answered (header_length be) (header_ok t s) (settings ctx)
      (if bad then spec_exception mm pdu 3 else if \<not> in_range start count a n then spec_exception mm pdu 2 else good)
      (if bad then exception_reply net be \<lparr>sft_slave = uint s, sft_function = uint (pdu ! 0), sft_t_id = t\<rparr> 3 rsp fl mm ctx w
       else if a - start < 0 \<or> count < a - start + n then
         exception_reply net be \<lparr>sft_slave = uint s, sft_function = uint (pdu ! 0), sft_t_id = t\<rparr> 2 rsp False mm ctx w
       else res)"
proof -
  have "a - start < 0 \<or> count < a - start + n \<longleftrightarrow> \<not> in_range start count a n"
    by (auto simp: in_range_def)
  then show ?thesis
    using exception_answered [OF assms(1-4), of s ctx "pdu ! 0" 3 mm fl w]
      exception_answered [OF assms(1-4), of s ctx "pdu ! 0" 2 mm False w] assms(5) by (simp add: spec_exception_def)
qed

lemma read_bits_answered:
  fixes is_input :: bool
  assumes "length h = header_length be" and "length pdu = 5"
    and "length rsp = 260" and "0 \<le> t" "t < 65536" and "quiet net be" and "wf_mapping mm"
  defines "start \<equiv> if is_input then start_input_bits mm else start_bits mm"
    and "tab \<equiv> if is_input then tab_input_bits mm else tab_bits mm"
  shows "answered (header_length be) (header_ok t s) (settings ctx) (spec_read_bits mm pdu start tab)
     (mb_read_bits net be \<lparr>sft_slave = uint s, sft_function = uint (pdu ! 0), sft_t_id = t\<rparr> is_input
        (pdu_address pdu) (h @ pdu @ q) rsp mm ctx w)"
proof -
  let ?f = "pdu ! 0" and ?a = "pdu_address pdu" and ?n = "pdu_number pdu"
  define count where "count = (if is_input then nb_input_bits mm else nb_bits mm)"
  have ct: "int (length tab) = count" using assms(7) by (simp add: wf_mapping_def count_def tab_def)
  let ?B = "pack (take (nat ?n) (drop (nat (?a - start)) tab))"
  let ?good = "(?f # word_of_nat (length ?B) # ?B, mm)"
  let ?sft = "\<lparr>sft_slave = uint s, sft_function = uint ?f, sft_t_id = t\<rparr>"
  let ?res = "do { (n, rsp) \<leftarrow> be_build_response_basis be ?sft rsp;
             rsp \<leftarrow> wr8 rsp n (word_of_int (byte_count ?n));
             (n, rsp) \<leftarrow> response_io_status tab (?a - start) ?n rsp (n + 1);
             Some (n, rsp, mm, ctx, w) }"
  have code: "mb_read_bits net be ?sft is_input ?a (h @ pdu @ q) rsp mm ctx w =
      (if ?n < 1 \<or> 2000 < ?n then exception_reply net be ?sft 3 rsp True mm ctx w
       else if ?a - start < 0 \<or> count < ?a - start + ?n then exception_reply net be ?sft 2 rsp False mm ctx w
       else ?res)"
    using request_be16 [OF assms(1), of 3 pdu q] assms(2)
    by (simp add: mb_read_bits_def MAX_READ_BITS_def Let_def start_def count_def tab_def pdu_number_def)
  have "answered (header_length be) (header_ok t s) (settings ctx) ?good ?res"
    if n: "\<not> (?n < 1 \<or> 2000 < ?n)" and r: "in_range start count ?a ?n"
  proof -
    obtain r1 where b: "be_build_response_basis be ?sft rsp = Some (header_length be + 1, r1)"
      "built (header_length be) (header_ok t s) [?f] (header_length be + 1) r1"
      using basis_built [OF assms(3-5), of s "uint ?f"] by auto
    have H: "header_length be \<le> 7" using adu_fits max_adu by simp
    obtain r2 where w2: "wr8 r1 (header_length be + 1) (word_of_int (byte_count ?n)) = Some r2"
      "built (header_length be) (header_ok t s) ([?f] @ [word_of_int (byte_count ?n)]) (header_length be + 1 + 1) r2"
      by (rule built_wr8 [OF b(2)]) (use H in simp_all)
    have k: "nat (?a - start) + nat ?n \<le> length tab" "0 \<le> ?a - start"
      using in_range_nat [of start "length tab" ?a ?n] r n ct by simp_all
    have lB: "length ?B = (nat ?n + 7) div 8" using k by (simp add: length_pack)
    have "nat ?n \<le> 2000" using n by linarith
    then have B250: "(nat ?n + 7) div 8 \<le> 250" using div_le_mono [of "nat ?n + 7" 2007 8] by simp
    have io: "response_io_status tab (?a - start) ?n r2 (header_length be + 1 + 1) =
        Some (header_length be + 1 + 1 + length ?B, overlay r2 (header_length be + 1 + 1) ?B)"
      using response_io_status_spec [of "?a - start" "nat ?n" tab "header_length be + 1 + 1" r2] k B250 H n lB
        built_length [OF w2(2)] by simp
    have "byte_count ?n = int (length ?B)" unfolding lB using n by (simp add: byte_count_nonneg zdiv_int)
    then have bc: "word_of_int (byte_count ?n) = (word_of_nat (length ?B) :: u8)" by simp
    have "built (header_length be) (header_ok t s) (([?f] @ [word_of_int (byte_count ?n)]) @ ?B)
        (header_length be + 1 + 1 + length ?B) (overlay r2 (header_length be + 1 + 1) ?B)"
      by (rule built_overlay [OF w2(2)]) (use H B250 lB in simp)
    then show ?thesis using b(1) w2(1) io by (simp add: answered_def bc)
  qed
  then show ?thesis
    unfolding code spec_read_bits_def Let_def ct by (rule range_cases [OF assms(3-6)])
qed

lemma header_small: "header_length be \<le> 7"
  using adu_fits max_adu by simp

text \<open>The response of the functions that read registers: a byte count and the registers.\<close>

lemma registers_built:
  assumes "length rsp = 260" and "0 \<le> t" "t < 65536"
    and "in_range start (int (length tab)) a n" and "1 \<le> n" and "n \<le> 125"
  defines "B \<equiv> reg_bytes (take (nat n) (drop (nat (a - start)) tab))"
  obtains r0 r1 r2 where
    "be_build_response_basis be \<lparr>sft_slave = uint s, sft_function = uint f, sft_t_id = t\<rparr> rsp = Some (header_length be + 1, r0)"
    "wr8 r0 (header_length be + 1) (word_of_int (2 * n)) = Some r1"
    "put_registers tab (a - start) n r1 (header_length be + 2) = Some (header_length be + 2 + 2 * nat n, r2)"
    "built (header_length be) (header_ok t s) (f # word_of_int (2 * n) # B) (header_length be + 2 + 2 * nat n) r2"
proof -
  obtain r0 where b: "be_build_response_basis be \<lparr>sft_slave = uint s, sft_function = uint f, sft_t_id = t\<rparr> rsp =
      Some (header_length be + 1, r0)"
    "built (header_length be) (header_ok t s) [f] (header_length be + 1) r0"
    using basis_built [OF assms(1-3), of s "uint f"] by auto
  obtain r1 where w: "wr8 r0 (header_length be + 1) (word_of_int (2 * n)) = Some r1"
    "built (header_length be) (header_ok t s) ([f] @ [word_of_int (2 * n)]) (header_length be + 1 + 1) r1"
    by (rule built_wr8 [OF b(2)]) (use header_small in simp_all)
  have k: "nat (a - start) + nat n \<le> length tab" "0 \<le> a - start"
    using in_range_nat [OF assms(4)] assms(5) by simp_all
  have lB: "length B = 2 * nat n" using k by (simp add: B_def)
  have n: "nat n \<le> 125" "int (nat n) = n" using assms(5,6) by linarith+
  have "put_registers tab (a - start) (int (nat n)) r1 (header_length be + 2) =
      Some (header_length be + 2 + 2 * nat n, overlay r1 (header_length be + 2) B)"
    unfolding B_def
    by (rule put_registers_spec) (use k n header_small built_length [OF w(2)] in simp_all)
  moreover have "built (header_length be) (header_ok t s) (([f] @ [word_of_int (2 * n)]) @ B)
      (header_length be + 1 + 1 + length B) (overlay r1 (header_length be + 1 + 1) B)"
    by (rule built_overlay [OF w(2)]) (use header_small n(1) lB in simp)
  ultimately show thesis using b(1) w(1) n(2) lB by (intro that) simp_all
qed

lemma read_registers_answered:
  fixes is_input :: bool
  assumes "length h = header_length be" and "length pdu = 5"
    and "length rsp = 260" and "0 \<le> t" "t < 65536" and "quiet net be" and "wf_mapping mm"
  defines "start \<equiv> if is_input then start_input_registers mm else start_registers mm"
    and "tab \<equiv> if is_input then tab_input_registers mm else tab_registers mm"
  shows "answered (header_length be) (header_ok t s) (settings ctx) (spec_read_registers mm pdu start tab)
     (mb_read_registers net be \<lparr>sft_slave = uint s, sft_function = uint (pdu ! 0), sft_t_id = t\<rparr> is_input
        (pdu_address pdu) (h @ pdu @ q) rsp mm ctx w)"
proof -
  let ?f = "pdu ! 0" and ?a = "pdu_address pdu" and ?n = "pdu_number pdu"
  define count where "count = (if is_input then nb_input_registers mm else nb_registers mm)"
  have ct: "int (length tab) = count" using assms(7) by (simp add: wf_mapping_def count_def tab_def)
  let ?good = "(?f # word_of_int (2 * ?n) # reg_bytes (take (nat ?n) (drop (nat (?a - start)) tab)), mm)"
  let ?sft = "\<lparr>sft_slave = uint s, sft_function = uint ?f, sft_t_id = t\<rparr>"
  let ?res = "do { (n, rsp) \<leftarrow> be_build_response_basis be ?sft rsp;
             rsp \<leftarrow> wr8 rsp n (word_of_int (2 * ?n));
             (n, rsp) \<leftarrow> put_registers tab (?a - start) ?n rsp (n + 1);
             Some (n, rsp, mm, ctx, w) }"
  have code: "mb_read_registers net be ?sft is_input ?a (h @ pdu @ q) rsp mm ctx w =
      (if ?n < 1 \<or> 125 < ?n then exception_reply net be ?sft 3 rsp True mm ctx w
       else if ?a - start < 0 \<or> count < ?a - start + ?n then exception_reply net be ?sft 2 rsp False mm ctx w
       else ?res)"
    using request_be16 [OF assms(1), of 3 pdu q] assms(2)
    by (simp add: mb_read_registers_def MAX_READ_REGISTERS_def Let_def start_def count_def tab_def pdu_number_def)
  have "answered (header_length be) (header_ok t s) (settings ctx) ?good ?res"
    if n: "\<not> (?n < 1 \<or> 125 < ?n)" and r: "in_range start count ?a ?n"
  proof -
    have r': "in_range start (int (length tab)) ?a ?n" "1 \<le> ?n" "?n \<le> 125" using r ct n by auto
    show ?thesis
      by (rule registers_built [OF assms(3-5) r', of s ?f]) (simp add: answered_def numeral_2_eq_2)
  qed
  then show ?thesis
    unfolding code spec_read_registers_def Let_def ct by (rule range_cases [OF assms(3-6)])
qed

text \<open>The functions that write one value answer with the request.\<close>

lemma single_in_range: "(a - start < 0 \<or> count \<le> a - start) = (\<not> in_range start count a 1)"
  by (auto simp: in_range_def)

lemma write_bit_answered:
  assumes "header_ok t s h" and "length pdu = 5"
    and "length rsp = 260" and "0 \<le> t" "t < 65536" and "quiet net be" and "wf_mapping mm"
  shows "answered (header_length be) (header_ok t s) (settings ctx) (spec_write_bit mm pdu)
     (mb_write_bit net be \<lparr>sft_slave = uint s, sft_function = uint (pdu ! 0), sft_t_id = t\<rparr>
        (pdu_address pdu) (h @ pdu @ q) (header_length be + length pdu) rsp mm ctx w)"
proof -
  let ?a = "pdu_address pdu" and ?n = "pdu_number pdu"
  have l: "length h = header_length be" using header [OF assms(1)] by simp
  have ct: "nb_bits mm = int (length (tab_bits mm))" using assms(7) by (simp add: wf_mapping_def)
  have d: "rd_be16 (h @ pdu @ q) (header_length be + 3) = Some ?n"
    using request_be16 [OF l, of 3 pdu q] assms(2) by (simp add: pdu_number_def)
  note exc = exception_answered [OF assms(3-6), of s ctx "pdu ! 0" _ mm False w, folded spec_exception_def]
  show ?thesis
  proof (cases "in_range (start_bits mm) (int (length (tab_bits mm))) ?a 1")
    case False
    then show ?thesis using exc [of 2]
      unfolding mb_write_bit_def spec_write_bit_def Let_def ct single_in_range by simp
  next
    case True
    have w: "wr_at (tab_bits mm) (?a - start_bits mm) x = Some ((tab_bits mm)[nat (?a - start_bits mm) := x])" for x
      using in_range_nat [OF True] by (simp add: no_fault)
    obtain r where c: "copy_request (h @ pdu @ q) (header_length be + length pdu) rsp =
        Some (header_length be + length pdu, r)" "built (header_length be) (header_ok t s) pdu (header_length be + length pdu) r"
      using copy_request_built [OF assms(1,3), of pdu q] assms(2) by auto
    show ?thesis using True d w c exc [of 3]
      unfolding mb_write_bit_def spec_write_bit_def Let_def ct single_in_range by (auto simp: answered_def)
  qed
qed

lemma write_register_answered:
  assumes "header_ok t s h" and "length pdu = 5"
    and "length rsp = 260" and "0 \<le> t" "t < 65536" and "quiet net be" and "wf_mapping mm"
  shows "answered (header_length be) (header_ok t s) (settings ctx)
      (spec_write_register mm pdu (\<lambda>_. join16 (pdu ! 3) (pdu ! 4)))
     (mb_write_register net be \<lparr>sft_slave = uint s, sft_function = uint (pdu ! 0), sft_t_id = t\<rparr>
        (pdu_address pdu) (h @ pdu @ q) (header_length be + length pdu) rsp mm ctx w)"
proof -
  let ?a = "pdu_address pdu" and ?i = "nat (pdu_address pdu - start_registers mm)"
  have l: "length h = header_length be" using header [OF assms(1)] by simp
  have ct: "nb_registers mm = int (length (tab_registers mm))" using assms(7) by (simp add: wf_mapping_def)
  have d: "rd_be16 (h @ pdu @ q) (header_length be + 3) = Some (be16 (pdu ! 3) (pdu ! 4))"
    using request_be16 [OF l, of 3 pdu q] assms(2) by simp
  note exc = exception_answered [OF assms(3-6), of s ctx "pdu ! 0" 2 mm False w]
  show ?thesis
  proof (cases "in_range (start_registers mm) (int (length (tab_registers mm))) ?a 1")
    case False
    then show ?thesis using exc
      unfolding mb_write_register_def spec_write_register_def Let_def ct single_in_range
      by (simp add: spec_exception_def)
  next
    case True
    have w: "wr_at (tab_registers mm) (?a - start_registers mm) x = Some ((tab_registers mm)[?i := x])" for x
      using in_range_nat [OF True] by (simp add: no_fault)
    obtain r where c: "copy_request (h @ pdu @ q) (header_length be + length pdu) rsp =
        Some (header_length be + length pdu, r)" "built (header_length be) (header_ok t s) pdu (header_length be + length pdu) r"
      using copy_request_built [OF assms(1,3), of pdu q] assms(2) by auto
    show ?thesis using True d w c
      unfolding mb_write_register_def spec_write_register_def Let_def ct single_in_range
      by (simp add: answered_def join16_be16)
  qed
qed

lemma mask_write_answered:
  assumes "header_ok t s h" and "length pdu = 7"
    and "length rsp = 260" and "0 \<le> t" "t < 65536" and "quiet net be" and "wf_mapping mm"
  shows "answered (header_length be) (header_ok t s) (settings ctx)
      (spec_write_register mm pdu (mask_register pdu))
     (mb_mask_write_register net be \<lparr>sft_slave = uint s, sft_function = uint (pdu ! 0), sft_t_id = t\<rparr>
        (pdu_address pdu) (h @ pdu @ q) (header_length be + length pdu) rsp mm ctx w)"
proof -
  let ?a = "pdu_address pdu" and ?i = "nat (pdu_address pdu - start_registers mm)"
  have l: "length h = header_length be" using header [OF assms(1)] by simp
  have ct: "nb_registers mm = int (length (tab_registers mm))" using assms(7) by (simp add: wf_mapping_def)
  have d: "rd_be16 (h @ pdu @ q) (header_length be + 3) = Some (be16 (pdu ! 3) (pdu ! 4))"
    "rd_be16 (h @ pdu @ q) (header_length be + 5) = Some (be16 (pdu ! 5) (pdu ! 6))"
    using request_be16 [OF l, of 3 pdu q] request_be16 [OF l, of 5 pdu q] assms(2) by simp_all
  note exc = exception_answered [OF assms(3-6), of s ctx "pdu ! 0" 2 mm False w]
  show ?thesis
  proof (cases "in_range (start_registers mm) (int (length (tab_registers mm))) ?a 1")
    case False
    then show ?thesis using exc
      unfolding mb_mask_write_register_def spec_write_register_def Let_def ct single_in_range
      by (simp add: spec_exception_def)
  next
    case True
    have w: "wr_at (tab_registers mm) (?a - start_registers mm) x = Some ((tab_registers mm)[?i := x])"
      "rd_at (tab_registers mm) (?a - start_registers mm) = Some (tab_registers mm ! ?i)" for x
      using in_range_nat [OF True] by (simp_all add: no_fault)
    obtain r where c: "copy_request (h @ pdu @ q) (header_length be + length pdu) rsp =
        Some (header_length be + length pdu, r)" "built (header_length be) (header_ok t s) pdu (header_length be + length pdu) r"
      using copy_request_built [OF assms(1,3), of pdu q] assms(2) by auto
    show ?thesis using True d w c
      unfolding mb_mask_write_register_def spec_write_register_def Let_def ct single_in_range
      by (simp add: answered_def join16_be16 mask_register_def Let_def)
  qed
qed

text \<open>The functions that write several values answer with the first five bytes of the request.\<close>

lemma unpack_request:
  assumes "length h = header_length be" and "6 + (nb + 7) div 8 \<le> length pdu"
  shows "map (\<lambda>i. bit_of ((h @ pdu @ q) ! (header_length be + 6 + i div 8)) (i mod 8)) [0..<nb] = unpack nb (drop 6 pdu)"
  unfolding unpack_def
proof (rule map_cong [OF refl])
  fix i assume "i \<in> set [0..<nb]"
  then have "6 + i div 8 < length pdu" using assms(2) by simp
  then have "(h @ pdu @ q) ! (header_length be + 6 + i div 8) = drop 6 pdu ! (i div 8)"
    using assms(1) by (simp add: nth_append add.assoc)
  then show "bit_of ((h @ pdu @ q) ! (header_length be + 6 + i div 8)) (i mod 8) =
      bit_of (drop 6 pdu ! (i div 8)) (i mod 8)" by simp
qed

lemma write_bits_answered:
  assumes "header_ok t s h" and "length pdu = 6 + unat (pdu ! 5)"
    and "length rsp = 260" and "0 \<le> t" "t < 65536" and "quiet net be" and "wf_mapping mm"
    and "1 \<le> pdu_number pdu \<Longrightarrow> pdu_number pdu \<le> 1968 \<Longrightarrow> uint (pdu ! 5) = (pdu_number pdu + 7) div 8"
  shows "answered (header_length be) (header_ok t s) (settings ctx) (spec_write_bits mm pdu)
     (mb_write_bits net be \<lparr>sft_slave = uint s, sft_function = uint (pdu ! 0), sft_t_id = t\<rparr>
        (pdu_address pdu) (h @ pdu @ q) rsp mm ctx w)"
proof -
  let ?a = "pdu_address pdu" and ?n = "pdu_number pdu" and ?start = "start_bits mm" and ?tab = "tab_bits mm"
  have l: "length h = header_length be" using header [OF assms(1)] by simp
  have ct: "nb_bits mm = int (length ?tab)" using assms(7) by (simp add: wf_mapping_def)
  let ?sft = "\<lparr>sft_slave = uint s, sft_function = uint (pdu ! 0), sft_t_id = t\<rparr>" and ?req = "h @ pdu @ q"
  let ?res = "do { tab \<leftarrow> modbus_set_bits_from_bytes ?tab (nat (?a - ?start)) (nat ?n) ?req (header_length be + 6);
             (n, rsp) \<leftarrow> echo_response be ?sft ?req rsp;
             Some (n, rsp, mm\<lparr>tab_bits := tab\<rparr>, ctx, w) }"
  have code: "mb_write_bits net be ?sft ?a ?req rsp mm ctx w =
      (if ?n < 1 \<or> 1968 < ?n then exception_reply net be ?sft 3 rsp True mm ctx w
       else if ?a - ?start < 0 \<or> int (length ?tab) < ?a - ?start + ?n then exception_reply net be ?sft 2 rsp False mm ctx w
       else ?res)"
    using request_be16 [OF l, of 3 pdu q] assms(2)
    by (simp add: mb_write_bits_def MAX_WRITE_BITS_def Let_def pdu_number_def ct)
  let ?good = "(take 5 pdu, mm\<lparr>tab_bits := overlay ?tab (nat (?a - ?start)) (unpack (nat ?n) (drop 6 pdu))\<rparr>)"
  have "answered (header_length be) (header_ok t s) (settings ctx) ?good ?res"
    if n: "\<not> (?n < 1 \<or> 1968 < ?n)" and r: "in_range ?start (int (length ?tab)) ?a ?n"
  proof -
    have "int (unat (pdu ! 5)) = int ((nat ?n + 7) div 8)" using assms(8) n by (simp add: zdiv_int)
    then have "unat (pdu ! 5) = (nat ?n + 7) div 8" by (simp only: of_nat_eq_iff)
    then have len: "6 + (nat ?n + 7) div 8 = length pdu" using assms(2) by simp
    have k: "nat (?a - ?start) + nat ?n \<le> length ?tab" using in_range_nat [OF r] n by simp
    have "modbus_set_bits_from_bytes ?tab (nat (?a - ?start)) (nat ?n) ?req (header_length be + 6) =
        Some (overlay ?tab (nat (?a - ?start)) (unpack (nat ?n) (drop 6 pdu)))"
      using modbus_set_bits_from_bytes_spec [OF k, of "header_length be + 6" ?req] l len
        unpack_request [OF l, of "nat ?n" pdu q] by simp
    moreover obtain r where "echo_response be ?sft ?req rsp = Some (header_length be + 5, r)"
      "built (header_length be) (header_ok t s) (take 5 pdu) (header_length be + 5) r"
      using echo_built [OF l assms(3-5), of pdu s q] assms(2) by auto
    ultimately show ?thesis by (simp add: answered_def)
  qed
  then show ?thesis
    unfolding code spec_write_bits_def Let_def by (rule range_cases [OF assms(3-6)])
qed

lemma write_registers_answered:
  assumes "header_ok t s h" and "length pdu = 6 + unat (pdu ! 5)"
    and "length rsp = 260" and "0 \<le> t" "t < 65536" and "quiet net be" and "wf_mapping mm"
    and "1 \<le> pdu_number pdu \<Longrightarrow> pdu_number pdu \<le> 123 \<Longrightarrow> uint (pdu ! 5) = 2 * pdu_number pdu"
  shows "answered (header_length be) (header_ok t s) (settings ctx) (spec_write_registers mm pdu)
     (mb_write_registers net be \<lparr>sft_slave = uint s, sft_function = uint (pdu ! 0), sft_t_id = t\<rparr>
        (pdu_address pdu) (h @ pdu @ q) rsp mm ctx w)"
proof -
  let ?a = "pdu_address pdu" and ?n = "pdu_number pdu" and ?start = "start_registers mm" and ?tab = "tab_registers mm"
  have l: "length h = header_length be" using header [OF assms(1)] by simp
  have ct: "nb_registers mm = int (length ?tab)" using assms(7) by (simp add: wf_mapping_def)
  let ?sft = "\<lparr>sft_slave = uint s, sft_function = uint (pdu ! 0), sft_t_id = t\<rparr>" and ?req = "h @ pdu @ q"
  let ?res = "do { tab \<leftarrow> store_registers ?tab (?a - ?start) ?n ?req (header_length be + 6);
             (n, rsp) \<leftarrow> echo_response be ?sft ?req rsp;
             Some (n, rsp, mm\<lparr>tab_registers := tab\<rparr>, ctx, w) }"
  have code: "mb_write_registers net be ?sft ?a ?req rsp mm ctx w =
      (if ?n < 1 \<or> 123 < ?n then exception_reply net be ?sft 3 rsp True mm ctx w
       else if ?a - ?start < 0 \<or> int (length ?tab) < ?a - ?start + ?n then exception_reply net be ?sft 2 rsp False mm ctx w
       else ?res)"
    using request_be16 [OF l, of 3 pdu q] assms(2)
    by (simp add: mb_write_registers_def MAX_WRITE_REGISTERS_def Let_def pdu_number_def ct)
  let ?good = "(take 5 pdu, mm\<lparr>tab_registers := overlay ?tab (nat (?a - ?start)) (regs_of_bytes (drop 6 pdu))\<rparr>)"
  have "answered (header_length be) (header_ok t s) (settings ctx) ?good ?res"
    if n: "\<not> (?n < 1 \<or> 123 < ?n)" and r: "in_range ?start (int (length ?tab)) ?a ?n"
  proof -
    have "int (unat (pdu ! 5)) = int (2 * nat ?n)" using assms(8) n by simp
    then have "unat (pdu ! 5) = 2 * nat ?n" by (simp only: of_nat_eq_iff)
    then have len: "length pdu = 6 + 2 * nat ?n" using assms(2) by simp
    have k: "nat (?a - ?start) + nat ?n \<le> length ?tab" "0 \<le> ?a - ?start" using in_range_nat [OF r] n by simp_all
    have "store_registers ?tab (?a - ?start) ?n ?req (header_length be + 6) =
        Some (overlay ?tab (nat (?a - ?start)) (regs_of_bytes (drop 6 pdu)))"
      using store_registers_spec [OF k(2,1), of "header_length be + 6" ?req] l len n by simp
    moreover obtain r where "echo_response be ?sft ?req rsp = Some (header_length be + 5, r)"
      "built (header_length be) (header_ok t s) (take 5 pdu) (header_length be + 5) r"
      using echo_built [OF l assms(3-5), of pdu s q] assms(2) by auto
    ultimately show ?thesis using assms(2) by (simp add: answered_def)
  qed
  then show ?thesis
    unfolding code spec_write_registers_def Let_def by (rule range_cases [OF assms(3-6)])
qed

lemma write_and_read_answered:
  assumes "header_ok t s h" and "length pdu = 10 + unat (pdu ! 9)"
    and "length rsp = 260" and "0 \<le> t" "t < 65536" and "quiet net be" and "wf_mapping mm"
    and "start_registers mm \<le> be16 (pdu ! 5) (pdu ! 6)"
  shows "answered (header_length be) (header_ok t s) (settings ctx) (spec_write_and_read mm pdu)
     (mb_write_and_read_registers net be \<lparr>sft_slave = uint s, sft_function = uint (pdu ! 0), sft_t_id = t\<rparr>
        (pdu_address pdu) (h @ pdu @ q) rsp mm ctx w)"
proof -
  let ?a = "pdu_address pdu" and ?n = "pdu_number pdu" and ?start = "start_registers mm" and ?tab = "tab_registers mm"
  let ?b = "be16 (pdu ! 5) (pdu ! 6)" and ?k = "be16 (pdu ! 7) (pdu ! 8)" and ?L = "int (length (tab_registers mm))"
  have l: "length h = header_length be" using header [OF assms(1)] by simp
  have ct: "nb_registers mm = ?L" using assms(7) by (simp add: wf_mapping_def)
  let ?sft = "\<lparr>sft_slave = uint s, sft_function = uint (pdu ! 0), sft_t_id = t\<rparr>" and ?req = "h @ pdu @ q"
  let ?bad = "?k < 1 \<or> 121 < ?k \<or> ?n < 1 \<or> 125 < ?n \<or> uint (pdu ! 9) \<noteq> ?k * 2"
  let ?new = "overlay ?tab (nat (?b - ?start)) (regs_of_bytes (drop 10 pdu))"
  let ?res = "do { (n, rsp) \<leftarrow> be_build_response_basis be ?sft rsp;
             rsp \<leftarrow> wr8 rsp n (word_of_int (2 * ?n));
             tab \<leftarrow> store_registers ?tab (?b - ?start) ?k ?req (header_length be + 10);
             (n, rsp) \<leftarrow> put_registers tab (?a - ?start) ?n rsp (n + 1);
             Some (n, rsp, mm\<lparr>tab_registers := tab\<rparr>, ctx, w) }"
  have rd: "rd_be16 ?req (header_length be + 3) = Some ?n" "rd_be16 ?req (header_length be + 5) = Some ?b"
    "rd_be16 ?req (header_length be + 7) = Some ?k" "rd8 ?req (header_length be + 9) = Some (pdu ! 9)"
    using request_be16 [OF l, of 3 pdu q] request_be16 [OF l, of 5 pdu q] request_be16 [OF l, of 7 pdu q]
      request_rd8 [OF l, of 9 pdu q] assms(2) by (simp_all add: pdu_number_def)
  have code: "mb_write_and_read_registers net be ?sft ?a ?req rsp mm ctx w =
      (if ?bad then exception_reply net be ?sft 3 rsp True mm ctx w
       else if ?a - ?start < 0 \<or> ?L < ?a - ?start + ?n \<or> ?a - ?start < 0 \<or> ?L < ?b - ?start + ?k
         then exception_reply net be ?sft 2 rsp False mm ctx w
       else ?res)"
    unfolding mb_write_and_read_registers_def Let_def rd ct MAX_WR_WRITE_REGISTERS_def MAX_WR_READ_REGISTERS_def
    by simp
  define B1 B2 where
    "B1 = ?bad" "B2 = (in_range ?start ?L ?a ?n \<and> in_range ?start ?L ?b ?k)"
  have eq1: "(?k < 1 \<or> 121 < ?k \<or> ?n < 1 \<or> 125 < ?n \<or> uint (pdu ! 9) \<noteq> 2 * ?k) = B1"
    by (simp add: B1_B2_def mult.commute)
  have eq2: "(?a - ?start < 0 \<or> ?L < ?a - ?start + ?n \<or> ?a - ?start < 0 \<or> ?L < ?b - ?start + ?k) = (\<not> B2)"
    using assms(8) by (auto simp: in_range_def B1_B2_def)
  note code = code [unfolded eq2, folded B1_B2_def]
  let ?good = "(pdu ! 0 # word_of_int (2 * ?n) # reg_bytes (take (nat ?n) (drop (nat (?a - ?start)) ?new)),
         mm\<lparr>tab_registers := ?new\<rparr>)"
  have spec: "spec_write_and_read mm pdu =
      (if B1 then spec_exception mm pdu 3 else if \<not> B2 then spec_exception mm pdu 2 else ?good)"
    unfolding spec_write_and_read_def Let_def eq1 B1_B2_def(2) ..
  have "answered (header_length be) (header_ok t s) (settings ctx) ?good ?res" if "\<not> B1" "B2"
  proof -
    have good: "\<not> ?bad" "in_range ?start ?L ?a ?n" "in_range ?start ?L ?b ?k"
      using that by (simp_all add: B1_B2_def)
    have k: "nat (?b - ?start) + nat ?k \<le> length ?tab" "0 \<le> ?b - ?start" using in_range_nat [OF good(3)] good(1) by simp_all
    have "int (unat (pdu ! 9)) = int (2 * nat ?k)" using good(1) by simp
    then have "unat (pdu ! 9) = 2 * nat ?k" by (simp only: of_nat_eq_iff)
    then have len: "length pdu = 10 + 2 * nat ?k" using assms(2) by simp
    have st: "store_registers ?tab (?b - ?start) ?k ?req (header_length be + 10) = Some ?new"
      using store_registers_spec [OF k(2,1), of "header_length be + 10" ?req] l len good(1) by simp
    have lnew: "length ?new = length ?tab" using k(1) len by simp
    have r: "in_range ?start (int (length ?new)) ?a ?n" using good(2) lnew by simp
    have n: "1 \<le> ?n" "?n \<le> 125" using good(1) by auto
    show ?thesis
      by (rule registers_built [OF assms(3-5) r n, of s "pdu ! 0"]) (simp add: answered_def st numeral_2_eq_2)
  qed
  then show ?thesis
    using exception_answered [OF assms(3-6), of s ctx "pdu ! 0" 3 mm True w]
      exception_answered [OF assms(3-6), of s ctx "pdu ! 0" 2 mm False w]
    unfolding code spec by (cases B1; cases B2) (simp_all add: spec_exception_def)
qed

lemma report_slave_id_answered:
  assumes "length rsp = 260" and "0 \<le> t" "t < 65536" and "length version \<le> 246"
  shows "answered (header_length be) (header_ok t s) (settings ctx)
     ([f, word_of_nat (5 + length version), 180, 0xFF] @ map of_char (''LMB'' @ version), mm)
     (mb_report_slave_id version be \<lparr>sft_slave = uint s, sft_function = uint f, sft_t_id = t\<rparr> rsp mm ctx w)"
proof -
  let ?str = "map of_char (''LMB'' @ version) :: u8 list" and ?H = "header_length be"
  obtain r where b: "be_build_response_basis be \<lparr>sft_slave = uint s, sft_function = uint f, sft_t_id = t\<rparr> rsp =
      Some (?H + 1, r)" "built ?H (header_ok t s) [f] (?H + 1) r"
    using basis_built [OF assms(1-3), of s "uint f"] by auto
  obtain h q where r: "r = h @ [f] @ q" "header_ok t s h" "length h = ?H" "length r = 260"
    using b(2) by (auto simp: built_def)
  have lq: "6 + length version \<le> length q" using r(1,3,4) header_small assms(4) by simp
  then obtain a b c q' where q: "q = a # b # c # q'" by (cases q; cases "tl q"; cases "tl (tl q)") auto
  have lq': "length ?str \<le> length q'" "length q' = 256 - ?H" using lq q r(1,3,4) by simp_all
  let ?r = "h @ ([f, word_of_nat (5 + length version), 180, 0xFF] @ ?str) @ drop (length ?str) q'"
  have w1: "wr8 (h @ [f, a, b, c] @ q') (?H + 2) x = Some (h @ [f, a, x, c] @ q')" for a b c x
    using r(3) by (simp add: wr8_def list_update_append)
  have w2: "wr8 (h @ [f, a, b, c] @ q') (?H + 3) x = Some (h @ [f, a, b, x] @ q')" for a b c x
    using r(3) by (simp add: wr8_def list_update_append numeral_3_eq_3)
  have w3: "wr_block (h @ [f, a, b, c] @ q') (?H + 4) ?str = Some (h @ [f, a, b, c] @ ?str @ drop (length ?str) q')" for a b c
  proof -
    have e: "?H + 4 = length (h @ [f, a, b, c])" using r(3) by simp
    have "h @ [f, a, b, c] @ q' = (h @ [f, a, b, c]) @ q'" by simp
    then show ?thesis unfolding wr_block_def e by (simp only: overlay_append) (use lq'(1) in simp)
  qed
  have w4: "wr8 (h @ [f, a, b, c] @ t) (?H + 1) x = Some (h @ [f, x, b, c] @ t)" for a b c t x
    using r(3) by (simp add: wr8_def list_update_append)
  have "mb_report_slave_id version be \<lparr>sft_slave = uint s, sft_function = uint f, sft_t_id = t\<rparr> rsp mm ctx w =
      Some (?H + 4 + length ?str, ?r, mm, ctx, w)"
  proof -
    have p: "?H + 1 + 1 = ?H + 2" "?H + 1 + 2 = ?H + 3" "?H + 1 + 3 = ?H + 4" by simp_all
    have q4: "[f] @ q = [f, a, b, c] @ q'" by (simp add: q)
    have n: "(word_of_nat (?H + 4 + (3 + length version) - (?H + 1) - 1) :: u8) = word_of_nat (5 + length version)"
      "?H + 4 + (3 + length version) = ?H + 4 + length ?str" by simp_all
    show ?thesis
      unfolding mb_report_slave_id_def b(1) r(1) q4 bind.bind_lunit prod.case Let_def p w1 w2 w3 w4 n by simp
  qed
  moreover have "built ?H (header_ok t s) ([f, word_of_nat (5 + length version), 180, 0xFF] @ ?str)
      (?H + 4 + length ?str) ?r"
    using r(2,3) lq' header_small by (auto simp: built_def)
  ultimately show ?thesis by (simp add: answered_def)
qed

text \<open>All functions together.\<close>

lemma reply_function_answered:
  assumes "header_ok t s h" and "valid_request pdu" and "pdu ! 0 \<noteq> 0x07"
    and "length rsp = 260" and "0 \<le> t" "t < 65536" and "quiet net be" and "wf_mapping mm"
    and "length version \<le> 246" and "2 < length pdu \<Longrightarrow> address = pdu_address pdu"
    and "pdu ! 0 = 0x17 \<Longrightarrow> start_registers mm \<le> be16 (pdu ! 5) (pdu ! 6)"
  shows "answered (header_length be) (header_ok t s) (settings ctx) (server_spec version mm pdu)
     (reply_function net be version \<lparr>sft_slave = uint s, sft_function = uint (pdu ! 0), sft_t_id = t\<rparr> (pdu ! 0)
        address (h @ pdu @ q) (header_length be + length pdu) rsp mm ctx w)"
proof -
  have l: "length h = header_length be" using header [OF assms(1)] by simp
  have c: "complete_pdu MSG_INDICATION pdu" using assms(2) by (simp add: valid_request_def)
  note len = request_lengths [OF c]
  note E = assms(4-8)
  consider "pdu ! 0 = 0x01" | "pdu ! 0 = 0x02" | "pdu ! 0 = 0x03" | "pdu ! 0 = 0x04" | "pdu ! 0 = 0x05"
    | "pdu ! 0 = 0x06" | "pdu ! 0 = 0x0F" | "pdu ! 0 = 0x10" | "pdu ! 0 = 0x11" | "pdu ! 0 = 0x16" | "pdu ! 0 = 0x17"
    | "pdu ! 0 \<notin> {0x01, 0x02, 0x03, 0x04, 0x05, 0x06, 0x0F, 0x10, 0x11, 0x16, 0x17}" by auto
  then show ?thesis
  proof cases
    case 1
    then show ?thesis using read_bits_answered [OF l _ E, where pdu = pdu and s = s and is_input = False and ctx = ctx and q = q and w = w] len(1) assms(10)
      by (simp add: reply_function_def server_spec_def)
  next
    case 2
    then show ?thesis using read_bits_answered [OF l _ E, where pdu = pdu and s = s and is_input = True and ctx = ctx and q = q and w = w] len(1) assms(10)
      by (simp add: reply_function_def server_spec_def)
  next
    case 3
    then show ?thesis using read_registers_answered [OF l _ E, where pdu = pdu and s = s and is_input = False and ctx = ctx and q = q and w = w] len(1) assms(10)
      by (simp add: reply_function_def server_spec_def)
  next
    case 4
    then show ?thesis using read_registers_answered [OF l _ E, where pdu = pdu and s = s and is_input = True and ctx = ctx and q = q and w = w] len(1) assms(10)
      by (simp add: reply_function_def server_spec_def)
  next
    case 5
    then show ?thesis using write_bit_answered [OF assms(1) _ E, of pdu ctx q w] len(1) assms(10)
      by (simp add: reply_function_def server_spec_def)
  next
    case 6
    then show ?thesis using write_register_answered [OF assms(1) _ E, of pdu ctx q w] len(1) assms(10)
      by (simp add: reply_function_def server_spec_def)
  next
    case 7
    then show ?thesis using write_bits_answered [OF assms(1) _ E, of pdu ctx q w] len(2) assms(2,10)
      by (simp add: reply_function_def server_spec_def valid_request_def Let_def)
  next
    case 8
    then show ?thesis using write_registers_answered [OF assms(1) _ E, of pdu ctx q w] len(2) assms(2,10)
      by (simp add: reply_function_def server_spec_def valid_request_def Let_def)
  next
    case 9
    then show ?thesis using report_slave_id_answered [OF E(1-3) assms(9), of s ctx "pdu ! 0" mm w]
      by (simp add: reply_function_def server_spec_def)
  next
    case 10
    then show ?thesis using mask_write_answered [OF assms(1) _ E, of pdu ctx q w] len(3) assms(10)
      by (simp add: reply_function_def server_spec_def)
  next
    case 11
    then show ?thesis using write_and_read_answered [OF assms(1) _ E, of pdu ctx q w] len(4) assms(10,11)
      by (simp add: reply_function_def server_spec_def)
  next
    case 12
    then show ?thesis using exception_answered [OF E(1-4), of s ctx "pdu ! 0" 1 mm True w]
      by (simp add: reply_function_def server_spec_def spec_exception_def)
  qed
qed

lemma send_loop_once:
  assumes "keeps_settings be" and "\<not> link_recovery ctx"
  shows "send_loop net be bytes ctx w = Some (be_send be bytes ctx w)"
proof -
  obtain rc ctx' w' where s: "be_send be bytes ctx w = (rc, ctx', w')" by (metis prod_cases3)
  have "settings (fst (snd (be_send be bytes ctx w))) = settings ctx"
    using assms(1) unfolding keeps_settings_def by blast
  then have "\<not> link_recovery ctx'" using s assms(2) settings_eqD(1) [of ctx' ctx] by (simp add: link_recovery_def)
  then show ?thesis by (subst send_loop.simps) (simp add: s)
qed

lemma send_msg_built:
  assumes "built (header_length be) (header_ok t s) p n r" and "p \<noteq> []" and "length p \<le> 253"
    and "keeps_settings be" and "\<not> link_recovery ctx"
  obtains m where "send_msg net be r n ctx w =
    (case send_result (length (adu t s p)) (be_send be (adu t s p) ctx w) of (rc, ctx, w) \<Rightarrow> Some (rc, m, ctx, w))"
proof -
  obtain h q where r: "r = h @ p @ q" "header_ok t s h" "length h = header_length be"
      "n = header_length be + length p" "length r = 260"
    using assms(1) by (auto simp: built_def)
  have "checksum_length be \<le> length q" using r assms(3) adu_fits max_adu by simp
  then have pre: "be_send_msg_pre be r n = Some (length (adu t s p), adu t s p @ drop (checksum_length be) q)"
    unfolding r(1,4) by (rule send_pre [OF r(2) assms(2,3)])
  have rd: "rd_block (adu t s p @ drop (checksum_length be) q) 0 (length (adu t s p)) = Some (adu t s p)"
    by (simp add: rd_block_def)
  show thesis
    by (rule that [of "adu t s p @ drop (checksum_length be) q"])
      (auto simp: send_msg_def pre rd send_loop_once [OF assms(4,5)] send_result_def split: prod.split)
qed

text \<open>The part of \<open>modbus_reply\<close> that all functions share.\<close>

lemma modbus_reply_dispatch:
  assumes "pdu \<noteq> []" and "0 \<le> t" "t < 65536" and "length (adu t s pdu @ rest) = 260"
  obtains t' h q address where "adu t s pdu @ rest = h @ pdu @ q" "header_ok t' s h" "0 \<le> t'" "t' < 65536"
    "adu t' s = adu t s" "2 < length pdu \<Longrightarrow> address = pdu_address pdu"
    "modbus_reply net be version (adu t s pdu @ rest) (length (adu t s pdu)) rsp mm ctx w =
       (if pdu ! 0 = 0x07 then Some (-1, mm, ctx\<lparr>errno := ENOPROTOOPT\<rparr>, w)
        else do {
          (n, r, mm, ctx, w) \<leftarrow> reply_function net be version
            \<lparr>sft_slave = uint s, sft_function = uint (pdu ! 0), sft_t_id = t'\<rparr> (pdu ! 0) address (h @ pdu @ q)
            (header_length be + length pdu) rsp mm ctx w;
          if s = 0 then Some (0, mm, ctx, w)
          else do { (rc, _, ctx, w) \<leftarrow> send_msg net be r n ctx w; Some (rc, mm, ctx, w) } })"
proof -
  let ?H = "header_length be" and ?m = "adu t s pdu"
  obtain h chk where a: "?m = h @ pdu @ chk" "header_ok t s h" "length chk = checksum_length be"
    using adu_split [OF assms(2,3)] by blast
  have l: "length h = ?H" using header [OF a(2)] by simp
  have room: "?H + 2 < length (?m @ rest)" using header_small assms(4) by simp
  define address where "address = be16 ((?m @ rest) ! (?H + 1)) ((?m @ rest) ! (?H + 2))"
  have rd: "rd8 (?m @ rest) (?H - 1) = Some s" "rd8 (?m @ rest) ?H = Some (pdu ! 0)"
    "rd_be16 (?m @ rest) (?H + 1) = Some address"
  proof -
    show "rd8 (?m @ rest) (?H - 1) = Some s" using adu_slave [OF assms(2,3)] room by (simp add: rd8_def del: length_append)
    show "rd8 (?m @ rest) ?H = Some (pdu ! 0)"
      using adu_nth [OF assms(2,3), of 0 pdu s rest] assms(1) room by (simp add: rd8_def del: length_append)
    show "rd_be16 (?m @ rest) (?H + 1) = Some address"
      using room by (simp add: rd_be16_def rd8_def address_def del: length_append)
  qed
  have addr: "address = pdu_address pdu" if "2 < length pdu"
    using that adu_nth [OF assms(2,3), of 1 pdu s rest] adu_nth [OF assms(2,3), of 2 pdu s rest]
    by (simp add: address_def pdu_address_def)
  have lm: "length ?m = ?H + length pdu + checksum_length be" by (rule length_adu [OF assms(2,3)])
  obtain t' where t': "0 \<le> t'" "t' < 65536" "adu t' s = adu t s" "header_ok t' s = header_ok t s"
    and tid: "be_prepare_response_tid be (?m @ rest) (length ?m) = Some (t', ?H + length pdu)"
    using response_tid [OF assms(2,3), of "length ?m" s pdu rest] lm by auto
  have s0: "(uint s = 0) = (s = 0)" by (simp add: word_uint_eq_iff)
  show thesis
  proof (rule that [of h "chk @ rest" t' address])
    show "modbus_reply net be version (?m @ rest) (length ?m) rsp mm ctx w =
       (if pdu ! 0 = 0x07 then Some (-1, mm, ctx\<lparr>errno := ENOPROTOOPT\<rparr>, w)
        else do {
          (n, r, mm, ctx, w) \<leftarrow> reply_function net be version
            \<lparr>sft_slave = uint s, sft_function = uint (pdu ! 0), sft_t_id = t'\<rparr> (pdu ! 0) address (h @ pdu @ chk @ rest)
            (?H + length pdu) rsp mm ctx w;
          if s = 0 then Some (0, mm, ctx, w)
          else do { (rc, _, ctx, w) \<leftarrow> send_msg net be r n ctx w; Some (rc, mm, ctx, w) } })"
      unfolding modbus_reply_def Let_def rd tid by (simp add: a(1) s0 MODBUS_BROADCAST_ADDRESS_def)
  qed (use a t' addr in auto)
qed

lemma modbus_reply_refines:
  assumes "valid_request pdu" and "0 \<le> t" "t < 65536"
    and "length (adu t s pdu @ rest) = 260" and "length rsp = 260"
    and "quiet net be" and "keeps_settings be" and "\<not> link_recovery ctx" and "wf_mapping mm"
    and "length version \<le> 246"
    and "pdu ! 0 = 0x17 \<Longrightarrow> start_registers mm \<le> be16 (pdu ! 5) (pdu ! 6)"
  shows "\<exists>ctx1 w1. settings ctx1 = settings ctx \<and> modbus_reply net be version (adu t s pdu @ rest) (length (adu t s pdu)) rsp mm ctx w =
     (if pdu ! 0 = 0x07 then Some (-1, mm, ctx\<lparr>errno := ENOPROTOOPT\<rparr>, w)
      else if s = 0 then Some (0, snd (server_spec version mm pdu), ctx1, w1)
      else case send_result (length (adu t s (fst (server_spec version mm pdu))))
                  (be_send be (adu t s (fst (server_spec version mm pdu))) ctx1 w1) of
             (rc, ctx2, w2) \<Rightarrow> Some (rc, snd (server_spec version mm pdu), ctx2, w2))"
proof -
  let ?H = "header_length be" and ?mm = "snd (server_spec version mm pdu)" and ?rsp = "fst (server_spec version mm pdu)"
  have c: "complete_pdu MSG_INDICATION pdu" using assms(1) by (simp add: valid_request_def)
  note len = request_lengths [OF c]
  have "pdu \<noteq> []" using len(5) by auto
  then obtain t' h q address where d: "adu t s pdu @ rest = h @ pdu @ q" "header_ok t' s h" "0 \<le> t'" "t' < 65536"
    "adu t' s = adu t s" "2 < length pdu \<Longrightarrow> address = pdu_address pdu"
    and reply: "modbus_reply net be version (adu t s pdu @ rest) (length (adu t s pdu)) rsp mm ctx w =
       (if pdu ! 0 = 0x07 then Some (-1, mm, ctx\<lparr>errno := ENOPROTOOPT\<rparr>, w)
        else do {
          (n, r, mm, ctx, w) \<leftarrow> reply_function net be version
            \<lparr>sft_slave = uint s, sft_function = uint (pdu ! 0), sft_t_id = t'\<rparr> (pdu ! 0) address (h @ pdu @ q)
            (?H + length pdu) rsp mm ctx w;
          if s = 0 then Some (0, mm, ctx, w)
          else do { (rc, _, ctx, w) \<leftarrow> send_msg net be r n ctx w; Some (rc, mm, ctx, w) } })"
    by (rule modbus_reply_dispatch [OF _ assms(2-4), of net version rsp mm ctx w]) (rule that, assumption+)
  show ?thesis
  proof (cases "pdu ! 0 = 0x07")
    case True
    then show ?thesis unfolding reply by (intro exI [of _ ctx] exI [of _ w]) simp
  next
    case False
    let ?sft = "\<lparr>sft_slave = uint s, sft_function = uint (pdu ! 0), sft_t_id = t'\<rparr>"
    have "answered ?H (header_ok t' s) (settings ctx) (server_spec version mm pdu)
        (reply_function net be version ?sft (pdu ! 0) address (h @ pdu @ q) (?H + length pdu) rsp mm ctx w)"
      by (rule reply_function_answered) (use assms d False in auto)
    then obtain n r ctx1 w1 where rf: "reply_function net be version ?sft (pdu ! 0) address (h @ pdu @ q) (?H + length pdu)
        rsp mm ctx w = Some (n, r, ?mm, ctx1, w1)" "built ?H (header_ok t' s) ?rsp n r" "settings ctx1 = settings ctx"
      by (auto simp: answered_def)
    have er: "\<not> link_recovery ctx1" using settings_eqD(1) [OF rf(3)] assms(8) by (simp add: link_recovery_def)
    have p: "?rsp \<noteq> []" "length ?rsp \<le> 253"
      using server_spec_length [of pdu version mm] len(5,6) assms(10) by force+
    obtain m where send: "send_msg net be r n ctx1 w1 =
        (case send_result (length (adu t s ?rsp)) (be_send be (adu t s ?rsp) ctx1 w1) of (rc, ctx, w) \<Rightarrow> Some (rc, m, ctx, w))"
      by (rule send_msg_built [OF rf(2) p assms(7) er, of net w1]) (use d(5) in simp)
    show ?thesis
      unfolding reply using False rf(1,3) send
      by (intro exI [of _ ctx1] exI [of _ w1]) (simp split: prod.split)
  qed
qed

text \<open>
  What the code does when function 0x17 names a write address below the registers' start:
  the range check passes, and the first register is written before the table.
\<close>

lemma write_and_read_faults:
  assumes "header_ok t s h" and "length pdu = 12" and "pdu ! 9 = 2" and "be16 (pdu ! 7) (pdu ! 8) = 1"
    and "pdu_number pdu = 1" and "in_range (start_registers mm) (int (length (tab_registers mm))) (pdu_address pdu) 1"
    and "be16 (pdu ! 5) (pdu ! 6) < start_registers mm" and "wf_mapping mm" and "length rsp = 260" and "0 \<le> t" "t < 65536"
  shows "mb_write_and_read_registers net be \<lparr>sft_slave = uint s, sft_function = uint (pdu ! 0), sft_t_id = t\<rparr>
     (pdu_address pdu) (h @ pdu @ q) rsp mm ctx w = None"
proof -
  have l: "length h = header_length be" using header [OF assms(1)] by simp
  let ?req = "h @ pdu @ q"
  have rd: "rd_be16 ?req (header_length be + 3) = Some 1" "rd_be16 ?req (header_length be + 5) = Some (be16 (pdu ! 5) (pdu ! 6))"
    "rd_be16 ?req (header_length be + 7) = Some 1" "rd8 ?req (header_length be + 9) = Some 2"
    using request_be16 [OF l, of 3 pdu q] request_be16 [OF l, of 5 pdu q] request_be16 [OF l, of 7 pdu q]
      request_rd8 [OF l, of 9 pdu q] assms(2-5) by (simp_all add: pdu_number_def)
  have "store_registers (tab_registers mm) (be16 (pdu ! 5) (pdu ! 6) - start_registers mm) 1 ?req (header_length be + 10) = None"
    using assms(7) by (simp add: store_registers_def wr_at_def bind_eq_None_conv)
  moreover have "(pdu_address pdu - start_registers mm < 0 \<or> nb_registers mm < pdu_address pdu - start_registers mm + 1 \<or>
      pdu_address pdu - start_registers mm < 0 \<or> nb_registers mm < be16 (pdu ! 5) (pdu ! 6) - start_registers mm + 1) = False"
    using assms(6-8) by (auto simp: in_range_def wf_mapping_def)
  ultimately show ?thesis
    unfolding mb_write_and_read_registers_def Let_def rd by (simp add: bind_eq_None_conv MAX_WR_WRITE_REGISTERS_def
      MAX_WR_READ_REGISTERS_def)
qed

lemma modbus_reply_faults:
  assumes "length pdu = 12" and "pdu ! 0 = 0x17" and "pdu ! 9 = 2" and "be16 (pdu ! 7) (pdu ! 8) = 1"
    and "pdu_number pdu = 1" and "in_range (start_registers mm) (int (length (tab_registers mm))) (pdu_address pdu) 1"
    and "be16 (pdu ! 5) (pdu ! 6) < start_registers mm" and "wf_mapping mm" and "length rsp = 260" and "0 \<le> t" "t < 65536"
    and "length (adu t s pdu @ rest) = 260"
  shows "modbus_reply net be version (adu t s pdu @ rest) (length (adu t s pdu)) rsp mm ctx w = None"
proof (rule modbus_reply_dispatch [OF _ assms(10-12), of net version rsp mm ctx w])
  show "pdu \<noteq> []" using assms(1) by auto
  fix t' h q address
  assume d: "header_ok t' s h" "0 \<le> t'" "t' < 65536" "2 < length pdu \<Longrightarrow> address = pdu_address pdu"
    and reply: "modbus_reply net be version (adu t s pdu @ rest) (length (adu t s pdu)) rsp mm ctx w =
       (if pdu ! 0 = 0x07 then Some (-1, mm, ctx\<lparr>errno := ENOPROTOOPT\<rparr>, w)
        else do {
          (n, r, mm, ctx, w) \<leftarrow> reply_function net be version
            \<lparr>sft_slave = uint s, sft_function = uint (pdu ! 0), sft_t_id = t'\<rparr> (pdu ! 0) address (h @ pdu @ q)
            (header_length be + length pdu) rsp mm ctx w;
          if s = 0 then Some (0, mm, ctx, w)
          else do { (rc, _, ctx, w) \<leftarrow> send_msg net be r n ctx w; Some (rc, mm, ctx, w) } })"
  have "address = pdu_address pdu" using d(4) assms(1) by simp
  then have "reply_function net be version \<lparr>sft_slave = uint s, sft_function = uint (pdu ! 0), sft_t_id = t'\<rparr> (pdu ! 0)
      address (h @ pdu @ q) (header_length be + length pdu) rsp mm ctx w = None"
    using write_and_read_faults [OF d(1) assms(1,3-9) d(2,3), where q = q and ctx = ctx and w = w and net = net] assms(2) by (simp add: reply_function_def)
  then show ?thesis unfolding reply using assms(2) by simp
qed

end

end
