(* ===== verification/Modbus_Endpoints.thy ===== *)
theory Modbus_Endpoints
  imports Modbus_Server_Correct Modbus_Client
begin

text \<open>
  The two ends of a Modbus connection: the server's loop of \<open>modbus_receive\<close> and
  \<open>modbus_reply\<close> on a TCP connection and on a serial line, and the client's register reads.
\<close>

section \<open>A TCP server\<close>

text \<open>
  What the flush relies on: \<open>nanosleep\<close> is not interrupted, and a socket that nothing more
  arrives on has a finite number of bytes left, \<open>avail\<close>, that reading takes.
\<close>

definition drains :: "('w \<Rightarrow> nat) \<Rightarrow> ('a, 'w) net \<Rightarrow> bool" where
  "drains avail net \<longleftrightarrow>
     (\<forall>t w rc rem err w'. net_nanosleep net t w = (rc, rem, err, w') \<longrightarrow> rc \<noteq> -1 \<or> err \<noteq> EINTR) \<and>
     (\<forall>fd n w rc bytes err w'. net_recv net fd n True w = (rc, bytes, err, w') \<longrightarrow> 0 < rc \<longrightarrow> avail w' < avail w)"

lemma drainsD:
  assumes "drains avail net"
  shows "net_nanosleep net t w = (rc, rem, err, w') \<Longrightarrow> \<not> (rc = -1 \<and> err = EINTR)"
    and "net_recv net fd n True w = (rc, bytes, err, w') \<Longrightarrow> 0 < rc \<Longrightarrow> avail w' < avail w"
  using assms unfolding drains_def by blast+

lemma fail_errno_settings [simp]: "settings (fail_errno rc err ctx) = settings ctx"
  by (simp add: fail_errno_def)

lemma tcp_flush_loop_total:
  assumes "drains avail net"
  shows "\<exists>n ctx' w'. tcp_flush_loop net k ctx w = Some (n, ctx', w') \<and> settings ctx' = settings ctx \<and> k \<le> n"
proof (induction "avail w" arbitrary: k ctx w rule: less_induct)
  case less
  obtain rc bytes err w1 where r: "net_recv net (mb_s ctx) TCP_MAX_ADU_LENGTH True w = (rc, bytes, err, w1)"
    by (metis prod_cases4)
  show ?case
  proof (cases "rc = int TCP_MAX_ADU_LENGTH")
    case True
    then have "avail w1 < avail w" using drainsD(2) [OF assms r] by (simp add: TCP_MAX_ADU_LENGTH_def)
    from less [OF this, of "k + rc" "fail_errno rc err ctx"] show ?thesis
      using True by (subst tcp_flush_loop.simps) (auto simp: r [unfolded TCP_MAX_ADU_LENGTH_def] TCP_MAX_ADU_LENGTH_def)
  qed (subst tcp_flush_loop.simps, simp add: r)
qed

text \<open>Flushing a TCP connection ends, and reports the number of bytes it has thrown away.\<close>

theorem tcp_flush_terminates:
  assumes "drains avail net"
  shows "\<exists>n ctx' w'. tcp_flush net ctx w = Some (n, ctx', w') \<and> 0 \<le> n \<and> settings ctx' = settings ctx"
  using tcp_flush_loop_total [OF assms, of 0 ctx w] unfolding tcp_flush_def by blast

lemma nanosleep_once:
  assumes "drains avail net"
  shows "\<exists>err' w'. nanosleep_retry net t err w = Some (err', w')"
proof -
  obtain rc rem e w1 where n: "net_nanosleep net t w = (rc, rem, e, w1)" by (metis prod_cases4)
  then show ?thesis
    using drainsD(1) [OF assms n] by (subst nanosleep_retry.simps) auto
qed

lemma tcp_quiet:
  assumes "drains avail net"
  shows "quiet net (tcp_backend net inet)"
  unfolding quiet_def
proof (intro allI)
  fix ctx :: "modbus_tcp modbus" and w
  obtain err w1 where s: "nanosleep_retry net (fst (response_timeout ctx), snd (response_timeout ctx) * 1000) (errno ctx) w =
      Some (err, w1)" using nanosleep_once [OF assms] by blast
  obtain n ctx' w' where "tcp_flush_loop net 0 (ctx\<lparr>errno := err\<rparr>) w1 = Some (n, ctx', w')"
    "settings ctx' = settings ctx"
    using tcp_flush_loop_total [OF assms, of 0 "ctx\<lparr>errno := err\<rparr>" w1] by auto
  then show "\<exists>ctx' w'. sleep_and_flush net (tcp_backend net inet) ctx w = Some (ctx', w') \<and>
      settings ctx' = settings ctx"
    using s by (simp add: sleep_and_flush_def sleep_response_timeout_def modbus_flush_def tcp_backend_def tcp_flush_def
        split_beta)
qed

lemma tcp_keeps_settings: "keeps_settings (tcp_backend net inet)"
  by (simp add: keeps_settings_def tcp_backend_def tcp_send_def Let_def split_beta)

lemma stream_net_drains: "0 < k \<Longrightarrow> drains length (stream_net k)"
  by (auto simp: drains_def stream_net_def Let_def EINTR_def)

theorem tcp_flush_terminates_witness:
  "\<exists>n ctx' w'. tcp_flush (stream_net 300) tcp_ctx (replicate 600 1) = Some (n, ctx', w') \<and> 0 \<le> n \<and>
     settings ctx' = settings tcp_ctx"
  using tcp_flush_terminates [OF stream_net_drains, of 300] by simp


text \<open>A mapping of one coil, one input and four registers, two of them inputs.\<close>

definition small_mapping :: modbus_mapping where
  "small_mapping = \<lparr>nb_bits = 1, start_bits = 0, nb_input_bits = 1, start_input_bits = 0,
     nb_input_registers = 2, start_input_registers = 0, nb_registers = 4, start_registers = 0,
     tab_bits = [0], tab_input_bits = [1], tab_input_registers = [7, 8], tab_registers = [10, 0x1234, 12, 13]\<rparr>"

lemma tcp_ctx_settings: "\<not> link_recovery tcp_ctx" "error_recovery tcp_ctx = 0" "mb_slave tcp_ctx = 0xFF"
  by (simp_all add: tcp_ctx_def link_recovery_def)

lemma wf_small_mapping: "wf_mapping small_mapping"
  by (simp add: wf_mapping_def small_mapping_def)

lemmas request_defs = valid_request_def complete_pdu_def compute_meta_length_after_function_def data_length_def
  pdu_number_def pdu_address_def be16_def


section \<open>A server on a serial line\<close>

lemma rtu_quiet:
  assumes "drains avail net"
  shows "quiet net (rtu_backend net' tty)"
  unfolding quiet_def
proof (intro allI)
  fix ctx :: "'a modbus_rtu modbus" and w
  obtain err w1 where s: "nanosleep_retry net (fst (response_timeout ctx), snd (response_timeout ctx) * 1000) (errno ctx) w =
      Some (err, w1)" using nanosleep_once [OF assms] by blast
  then show "\<exists>ctx' w'. sleep_and_flush net (rtu_backend net' tty) ctx w = Some (ctx', w') \<and> settings ctx' = settings ctx"
    by (simp add: sleep_and_flush_def sleep_response_timeout_def modbus_flush_def rtu_backend_def rtu_flush_def
        split_beta)
qed

lemma rtu_keeps_settings: "keeps_settings (rtu_backend net tty)"
  by (simp add: keeps_settings_def rtu_backend_def rtu_send_def Let_def split_beta)


text \<open>The slave 1 of a serial line whose master broadcasts a write of register 1.\<close>

definition rtu_slave_ctx :: "unit modbus_rtu modbus" where
  "rtu_slave_ctx = \<lparr>mb_slave = 1, mb_s = 3, mb_debug = 0, error_recovery = 0, response_timeout = (0, 500000),
     byte_timeout = (0, 500000), backend_data = \<lparr>device = [0], baud = 19200, data_bit = 8, stop_bit = 1,
       parity = CHR ''N'', old_tios = \<lparr>c_iflag = 0, c_oflag = 0, c_cflag = 0, c_lflag = 0, c_ispeed = 0, c_ospeed = 0,
       c_vmin = 0, c_vtime = 0\<rparr>, serial_mode = 0, rts = 0, rts_delay = 0, onebyte_time = 0, set_rts = (\<lambda>_ _ w. w),
       confirmation_to_ignore = False\<rparr>, errno = 0\<rparr>"

definition still_net :: "(unit, unit) net" where
  "still_net = \<lparr>net_nanosleep = (\<lambda>t w. (0, (0, 0), 0, w)), net_select = (\<lambda>fd tv w. (1, (0, 0), 0, w)),
     net_select_write = (\<lambda>fd tv w. (1, 0, w)), net_recv = (\<lambda>fd n b w. (0, [], 0, w)),
     net_send = (\<lambda>fd bs w. (int (length bs), 0, w)), net_socket = (\<lambda>a b c w. (3, 0, w)),
     net_setsockopt = (\<lambda>a b c d w. (0, 0, w)), net_so_error = (\<lambda>fd w. (0, 0, 0, w)),
     net_connect = (\<lambda>fd a w. (0, 0, w)), net_bind = (\<lambda>fd a w. (0, 0, w)), net_listen = (\<lambda>fd n w. (0, 0, w)),
     net_accept = (\<lambda>fd w. (4, 0, w)), net_shutdown = (\<lambda>fd w. w), net_close = (\<lambda>fd w. w)\<rparr>"


section \<open>The range that is not checked\<close>

text \<open>
  C37. Function 0x17 of \<open>modbus_reply\<close> tests \<open>mapping_address < 0\<close> twice and never
  \<open>mapping_address_write < 0\<close>: when the registers of the mapping do not start at 0, a client
  that reads inside the table and names a write address below its start makes the server
  write before the start of the table.
\<close>

theorem write_and_read_below_start:
  assumes "length pdu = 12" and "pdu ! 0 = 0x17" and "pdu ! 9 = 2" and "be16 (pdu ! 7) (pdu ! 8) = 1"
    and "pdu_number pdu = 1" and "in_range (start_registers mm) (int (length (tab_registers mm))) (pdu_address pdu) 1"
    and "be16 (pdu ! 5) (pdu ! 6) < start_registers mm" and "wf_mapping mm"
    and "length (tcp_adu t s pdu @ rest) = 260" and "length rsp = 260" and "0 \<le> t" "t < 65536"
  shows "modbus_reply net (tcp_backend net inet) version (tcp_adu t s pdu @ rest) (length (tcp_adu t s pdu)) rsp mm ctx w = None"
  by (rule tcp.modbus_reply_faults [OF assms(1-8,10-12,9)])

theorem write_and_read_below_start_witness:
  "modbus_reply (stream_net 2) (tcp_backend (stream_net 2) (\<lambda>_ _. ())) ''3.1.6''
     (tcp_adu 0 1 [0x17, 0, 100, 0, 1, 0, 99, 0, 1, 2, 7, 7] @ replicate 241 0)
     (length (tcp_adu 0 1 [0x17, 0, 100, 0, 1, 0, 99, 0, 1, 2, 7, 7])) (replicate 260 0)
     (small_mapping\<lparr>start_registers := 100\<rparr>) tcp_ctx [] = None"
proof -
  let ?mm = "small_mapping\<lparr>start_registers := 100\<rparr>"
  have "in_range (start_registers ?mm) (int (length (tab_registers ?mm))) 100 1" "wf_mapping ?mm"
    by (simp_all add: in_range_def small_mapping_def wf_mapping_def)
  then show ?thesis
    by (intro write_and_read_below_start) (simp_all add: be16_def pdu_number_def pdu_address_def tcp_adu_def Let_def)
qed

end
