(* ===== verification/Modbus_Client_Correct.thy ===== *)
theory Modbus_Client_Correct
  imports Modbus_Endpoints
begin

text \<open>
  The client's register reads against a server: what \<open>modbus_read_registers\<close> returns is what
  the abstract server has in its tables, and its exceptions arrive as \<open>errno\<close>.
\<close>

section \<open>A request and its reply\<close>

text \<open>
  A peer behind the transport, with a state of its own: a request that is sent on a quiet
  line makes its reply pending and changes the peer's state, as \<open>serve\<close> says.
\<close>

definition serves ::
  "('d, 'w) modbus_backend \<Rightarrow> (int \<Rightarrow> u8 \<Rightarrow> u8 list \<Rightarrow> u8 list) \<Rightarrow> ('w \<Rightarrow> u8 list) \<Rightarrow> ('w \<Rightarrow> 'k) \<Rightarrow>
     ('k \<Rightarrow> u8 list \<Rightarrow> u8 list \<times> 'k) \<Rightarrow> u8 \<Rightarrow> 'd modbus \<Rightarrow> bool" where
  "serves be adu pending peer serve s ctx \<longleftrightarrow>
     (\<forall>t w pdu. 0 \<le> t \<longrightarrow> t < 65536 \<longrightarrow> pending w = [] \<longrightarrow>
        (\<exists>w1. be_send be (adu t s pdu) ctx w = (int (length (adu t s pdu)), ctx, w1) \<and>
           pending w1 = adu t s (fst (serve (peer w) pdu)) \<and> peer w1 = snd (serve (peer w) pdu)))"

text \<open>
  A client whose context is ready for this peer, and stays so whatever errors come and
  whatever the backend stores in its data when it builds a request: \<open>data\<close> are the values
  that these take. The response timeout may be changed as well.
\<close>

definition client_ready ::
  "('d, 'w) modbus_backend \<Rightarrow> (int \<Rightarrow> u8 \<Rightarrow> u8 list \<Rightarrow> u8 list) \<Rightarrow> ('d modbus \<Rightarrow> u8 \<Rightarrow> bool) \<Rightarrow> ('w \<Rightarrow> u8 list) \<Rightarrow>
     ('w \<Rightarrow> 'k) \<Rightarrow> ('k \<Rightarrow> u8 list \<Rightarrow> u8 list \<times> 'k) \<Rightarrow> 'd modbus \<Rightarrow> bool" where
  "client_ready be adu accepts pending peer serve ctx \<longleftrightarrow>
     mb_slave ctx \<noteq> -1 \<and> error_recovery ctx = 0 \<and>
     (\<exists>data. backend_data ctx \<in> data \<and>
        (\<forall>f addr nb req c n m c'. backend_data c \<in> data \<longrightarrow>
           be_build_request_basis be f addr nb req c = Some (n, m, c') \<longrightarrow> backend_data c' \<in> data) \<and>
        (\<forall>d \<in> data. \<forall>e t. accepts (ctx\<lparr>response_timeout := t, backend_data := d, errno := e\<rparr>) (word_of_int (mb_slave ctx)) \<and>
           delivers_only be pending peer (ctx\<lparr>response_timeout := t, backend_data := d, errno := e\<rparr>) \<and>
           serves be adu pending peer serve (word_of_int (mb_slave ctx)) (ctx\<lparr>response_timeout := t, backend_data := d, errno := e\<rparr>)))"

lemma client_readyD:
  assumes "client_ready be adu accepts pending peer serve ctx"
  shows "mb_slave ctx \<noteq> -1" "error_recovery ctx = 0" "accepts ctx (word_of_int (mb_slave ctx))"
    "delivers_only be pending peer ctx" "serves be adu pending peer serve (word_of_int (mb_slave ctx)) ctx"
proof -
  have "ctx\<lparr>response_timeout := response_timeout ctx, backend_data := backend_data ctx, errno := errno ctx\<rparr> = ctx" by simp
  then show "mb_slave ctx \<noteq> -1" "error_recovery ctx = 0" "accepts ctx (word_of_int (mb_slave ctx))"
    "delivers_only be pending peer ctx" "serves be adu pending peer serve (word_of_int (mb_slave ctx)) ctx"
    using assms unfolding client_ready_def by metis+
qed

lemma client_ready_again:
  assumes "client_ready be adu accepts pending peer serve ctx"
  shows "client_ready be adu accepts pending peer serve (ctx\<lparr>errno := e\<rparr>)"
    and "be_build_request_basis be f addr nb req ctx = Some (n, m, ctx\<lparr>backend_data := d\<rparr>) \<Longrightarrow>
      client_ready be adu accepts pending peer serve (ctx\<lparr>backend_data := d\<rparr>)"
    and "client_ready be adu accepts pending peer serve (snd (modbus_set_response_timeout sec usec ctx))"
proof -
  obtain data where d: "backend_data ctx \<in> data"
    "\<forall>f addr nb req c n m c'. backend_data c \<in> data \<longrightarrow>
       be_build_request_basis be f addr nb req c = Some (n, m, c') \<longrightarrow> backend_data c' \<in> data"
    "\<forall>d \<in> data. \<forall>e t. accepts (ctx\<lparr>response_timeout := t, backend_data := d, errno := e\<rparr>) (word_of_int (mb_slave ctx)) \<and>
       delivers_only be pending peer (ctx\<lparr>response_timeout := t, backend_data := d, errno := e\<rparr>) \<and>
       serves be adu pending peer serve (word_of_int (mb_slave ctx)) (ctx\<lparr>response_timeout := t, backend_data := d, errno := e\<rparr>)"
    using assms unfolding client_ready_def by (elim conjE exE) (rule that)
  have again: "client_ready be adu accepts pending peer serve c"
    if "mb_slave c = mb_slave ctx" "error_recovery c = error_recovery ctx" "backend_data c \<in> data"
      "\<And>d e t. c\<lparr>response_timeout := t, backend_data := d, errno := e\<rparr> = ctx\<lparr>response_timeout := t, backend_data := d, errno := e\<rparr>" for c
    unfolding client_ready_def that(1,2,4) using client_readyD(1,2) [OF assms] that(3) d(2,3)
    by (intro conjI exI [of _ data])
  show "client_ready be adu accepts pending peer serve (ctx\<lparr>errno := e\<rparr>)"
    by (rule again) (simp_all add: d(1))
  show "client_ready be adu accepts pending peer serve (snd (modbus_set_response_timeout sec usec ctx))"
    by (rule again) (simp_all add: d(1) modbus_set_response_timeout_def)
  show "client_ready be adu accepts pending peer serve (ctx\<lparr>backend_data := d\<rparr>)"
    if "be_build_request_basis be f addr nb req ctx = Some (n, m, ctx\<lparr>backend_data := d\<rparr>)"
  proof (rule again)
    show "backend_data (ctx\<lparr>backend_data := d\<rparr>) \<in> data" using d(2) d(1) that by (elim allE impE) 
  qed simp_all
qed

definition register_request :: "int \<Rightarrow> int \<Rightarrow> int \<Rightarrow> u8 list" where
  "register_request f addr nb =
     [word_of_int f, word_of_int (drop_bit 8 addr), word_of_int (addr AND 0xff),
      word_of_int (drop_bit 8 nb), word_of_int (nb AND 0xff)]"

lemma reg_bytes_nth:
  "i < length rs \<Longrightarrow> reg_bytes rs ! (2 * i) = hi8 (rs ! i) \<and> reg_bytes rs ! (2 * i + 1) = lo8 (rs ! i)"
proof (induction rs arbitrary: i)
  case (Cons r rs)
  have "reg_bytes (r # rs) = hi8 r # lo8 r # reg_bytes rs" by (simp add: reg_bytes_def)
  then show ?case using Cons by (cases i) auto
qed simp

context modbus_framing
begin

lemma adu_rd8:
  assumes "0 \<le> t" "t < 65536" and "i < length pdu"
  shows "rd8 (adu t s pdu @ rest) (header_length be + i) = Some (pdu ! i)"
  using adu_nth [OF assms, of s rest] length_adu [OF assms(1,2), of s pdu] assms(3) by (simp add: rd8_def)

lemma adu_be16:
  assumes "0 \<le> t" "t < 65536" and "i + 1 < length pdu"
  shows "rd_be16 (adu t s pdu @ rest) (header_length be + i) = Some (be16 (pdu ! i) (pdu ! (i + 1)))"
  using adu_rd8 [OF assms(1,2), of i pdu s rest] adu_rd8 [OF assms(1,2), of "i + 1" pdu s rest] assms(3)
  by (simp add: rd_be16_def)

lemma transact_serves:
  assumes "header_ok t s h" and "0 \<le> t" "t < 65536" and "pdu \<noteq> []" "length pdu \<le> 253"
    and "checksum_length be \<le> length q" and "length rsp = 260" and "error_recovery ctx = 0"
    and "serves be adu pending peer serve s ctx" and "delivers_only be pending peer ctx" and "accepts ctx s"
    and "complete_pdu MSG_CONFIRMATION r" and "pending w = []" and "serve (peer w) pdu = (r, p)"
  obtains q1 q2 w1 where "transact net be (h @ pdu @ q) (header_length be + length pdu) rsp ctx w =
     do { (rc, ctx, w) \<leftarrow> check_confirmation net be (adu t s pdu @ q1) (adu t s r @ q2)
            (int (length (adu t s r))) ctx w1;
          Some (rc \<noteq> -1, rc, adu t s r @ q2, ctx, w) }"
    and "pending w1 = []" and "peer w1 = p"
proof -
  let ?m = "adu t s pdu" and ?r = "adu t s r"
  let ?q1 = "drop (checksum_length be) q"
  obtain w1 where send: "be_send be ?m ctx w = (int (length ?m), ctx, w1)" "pending w1 = ?r @ []" "peer w1 = p"
    using assms(2,3,9,13,14) unfolding serves_def by fastforce
  have "\<not> link_recovery ctx" using assms(8) by (rule no_link_recovery)
  then have loop: "send_loop net be ?m ctx w = Some (int (length ?m), ctx, w1)"
    using send(1) by (subst send_loop.simps) simp
  have "0 < length ?m" using length_adu [OF assms(2,3), of s pdu] assms(4) by simp
  then have sm: "send_msg net be (h @ pdu @ q) (header_length be + length pdu) ctx w =
      Some (int (length ?m), ?m @ ?q1, ctx, w1)" "0 < int (length ?m)"
    using loop send_pre [OF assms(1,4-6)] by (simp_all add: send_msg_def rd_block_def)
  obtain w2 where rcv: "modbus_receive_msg net be rsp MSG_CONFIRMATION ctx w1 = Some (int (length ?r), overlay rsp 0 ?r, ctx, w2)"
    "pending w2 = []" "peer w2 = p"
    using receive_msg_keeping [OF assms(12,2,3,7,10,11) send(2), of net] send(3) by blast
  show thesis
    by (rule that [of ?q1 "drop (length ?r) rsp" w2])
      (use sm rcv in \<open>simp_all add: transact_def overlay_def\<close>)
qed

text \<open>A confirmation of registers passes the check, an exception becomes an error number.\<close>

lemma check_registers:
  fixes addr :: int and s :: u8 and q1 :: "u8 list"
  assumes "0 \<le> t" "t < 65536" and "f = 0x03 \<or> f = 0x04" and "1 \<le> nb" "nb \<le> 125"
    and "length bytes = 2 * nat nb" and "uint k = 2 * nb"
  defines "req \<equiv> adu t s (register_request f addr nb) @ q1" and "r \<equiv> word_of_int f # k # bytes"
  shows "check_confirmation net be req (adu t s r @ q2) (int (length (adu t s r))) ctx w = Some (nb, ctx, w)"
proof -
  let ?p = "register_request f addr nb" and ?f = "word_of_int f :: u8"
  have f: "?f = 0x03 \<or> ?f = 0x04" using assms(3) by auto
  have rd: "rd8 (adu t s r @ q2) (header_length be) = Some ?f" "rd8 (adu t s r @ q2) (header_length be + 1) = Some k"
    "rd8 req (header_length be) = Some ?f"
    using adu_rd8 [OF assms(1,2), of 0 r s q2] adu_rd8 [OF assms(1,2), of 1 r s q2]
      adu_rd8 [OF assms(1,2), of 0 ?p s q1] by (simp_all add: register_request_def req_def r_def)
  have nb: "rd_be16 req (header_length be + 3) = Some nb"
    using adu_be16 [OF assms(1,2), of 3 ?p s q1] assms(4,5) be16_split [of nb]
    by (simp add: register_request_def req_def)
  have pre: "be_pre_check_confirmation be req (adu t s r @ q2) len ctx = Some (0, ctx)" for len
    unfolding req_def by (rule pre_check [OF assms(1,2)])
  have cl: "compute_response_length_from_request be req = Some (int (length (adu t s r)))"
    using f rd(3) nb length_adu [OF assms(1,2), of s r] assms(4,6)
    by (auto simp: compute_response_length_from_request_def r_def)
  have cv: "confirmation_values (header_length be) ?f req (adu t s r @ q2) = Some (nb, nb)"
    using f nb rd(2) assms(7) by (auto simp: confirmation_values_def)
  have "\<not> 0x80 \<le> ?f" using f by auto
  then show ?thesis
    using assms(4) unfolding check_confirmation_def Let_def rd pre cl by (simp add: cv)
qed

lemma check_exception:
  fixes s :: u8 and q1 :: "u8 list"
  assumes "0 \<le> t" "t < 65536" and "5 \<le> length pdu" and "pdu ! 0 < 0x80" and "uint code < MODBUS_EXCEPTION_MAX"
  defines "r \<equiv> [pdu ! 0 + 0x80, code]"
  shows "check_confirmation net be (adu t s pdu @ q1) (adu t s r @ q2) (int (length (adu t s r))) ctx w =
    Some (-1, ctx\<lparr>errno := MODBUS_ENOBASE + uint code\<rparr>, w)"
proof -
  let ?f = "pdu ! 0" and ?req = "adu t s pdu @ q1"
  have "pdu \<noteq> []" using assms(3) by auto
  then have rd: "rd8 (adu t s r @ q2) (header_length be) = Some (?f + 0x80)"
    "rd8 (adu t s r @ q2) (header_length be + 1) = Some code" "rd8 ?req (header_length be) = Some ?f"
    using adu_rd8 [OF assms(1,2), of 0 r s q2] adu_rd8 [OF assms(1,2), of 1 r s q2]
      adu_rd8 [OF assms(1,2), of 0 pdu s q1] assms(3) by (simp_all add: r_def)
  obtain nb where nb: "rd_be16 ?req (header_length be + 3) = Some nb"
    using adu_be16 [OF assms(1,2), of 3 pdu s q1] assms(3) by simp
  have pre: "be_pre_check_confirmation be ?req (adu t s r @ q2) len ctx = Some (0, ctx)" for len
    by (rule pre_check [OF assms(1,2)])
  have "compute_response_length_from_request be ?req \<noteq> None"
    using rd(3) nb by (simp add: compute_response_length_from_request_def Let_def)
  then obtain cl where cl: "compute_response_length_from_request be ?req = Some cl" by blast
  have l: "int (length (adu t s r)) = int (header_length be + 2 + checksum_length be)"
    using length_adu [OF assms(1,2), of s r] by (simp add: r_def)
  have u: "uint (?f + 0x80) = uint ?f + 128"
    using assms(4) by (simp add: uint_plus_if' word_less_def)
  then have e: "0x80 \<le> ?f + 0x80" "uint ?f = uint (?f + 0x80) - 0x80" by (simp_all add: word_le_def)
  show ?thesis
    unfolding check_confirmation_def Let_def rd pre cl l using e assms(5) by simp
qed

lemma unpack_registers_adu:
  assumes "0 \<le> t" "t < 65536" and "1 \<le> nb" and "int (length regs) = nb" and "nb \<le> int (length dest)"
  shows "unpack_registers (adu t s (f # k # reg_bytes regs) @ q) (header_length be) nb dest = Some (overlay dest 0 regs)"
proof -
  let ?m = "adu t s (f # k # reg_bytes regs) @ q"
  let ?f = "\<lambda>i dest. do { hi \<leftarrow> rd8 ?m (header_length be + 2 + 2 * i); lo \<leftarrow> rd8 ?m (header_length be + 3 + 2 * i);
       wr_at dest (int i) (join16 hi lo) }"
  have "\<exists>d. for_each [0..<length regs] ?f dest = Some d \<and> d = overlay dest 0 (take (length regs) regs)"
  proof (rule for_each_upt [where P = "\<lambda>i d. d = overlay dest 0 (take i regs)"])
    fix i d assume i: "i < length regs" and d: "d = overlay dest 0 (take i regs)"
    have "(f # k # reg_bytes regs) ! (2 + 2 * i) = hi8 (regs ! i)" "(f # k # reg_bytes regs) ! (3 + 2 * i) = lo8 (regs ! i)"
      using reg_bytes_nth [OF i] by (simp_all add: numeral_3_eq_3)
    then have rd: "rd8 ?m (header_length be + 2 + 2 * i) = Some (hi8 (regs ! i))"
      "rd8 ?m (header_length be + 3 + 2 * i) = Some (lo8 (regs ! i))"
      using adu_rd8 [OF assms(1,2), of "2 + 2 * i" "f # k # reg_bytes regs" s q]
        adu_rd8 [OF assms(1,2), of "3 + 2 * i" "f # k # reg_bytes regs" s q] i by (simp_all add: add.assoc)
    have "(overlay dest 0 (take i regs))[i := x] = overlay dest 0 (take i regs @ [x])" for x
      using overlay_snoc [of 0 "take i regs" dest x] i assms(4,5) by simp
    moreover have "i < length dest" using i assms(4,5) by simp
    ultimately show "\<exists>d'. ?f i d = Some d' \<and> d' = overlay dest 0 (take (Suc i) regs)"
      using rd i assms(5) d by (simp add: wr_at_def take_snoc)
  qed simp_all
  moreover have "nat nb = length regs" using assms(4) by simp
  ultimately show ?thesis by (simp add: unpack_registers_def)
qed

text \<open>The start of a request, its exchange with the peer, and an exchange that ends in an exception.\<close>

lemma client_request:
  assumes "client_ready be adu accepts pending peer serve ctx" and "header_length be + 5 \<le> length req"
  obtains t h d where "0 \<le> t" "t < 65536" "header_ok t (word_of_int (mb_slave ctx)) h" "length h = header_length be"
    "be_build_request_basis be f addr nb req ctx =
      Some (header_length be + 5, h @ register_request f addr nb @ drop (header_length be + 5) req, ctx\<lparr>backend_data := d\<rparr>)"
    "client_ready be adu accepts pending peer serve (ctx\<lparr>backend_data := d\<rparr>)"
  using client_ready_again(2) [OF assms(1)] request_basis [of req ctx f addr nb] client_readyD(1) [OF assms(1)] assms(2) header
  unfolding register_request_def by fastforce

lemma client_exchange:
  assumes "client_ready be adu accepts pending peer serve ctx" and "s = word_of_int (mb_slave ctx)"
    and "header_ok t s h" and "0 \<le> t" "t < 65536" and "pdu \<noteq> []" "length pdu \<le> 253"
    and "checksum_length be \<le> length q" and "length rsp = 260"
    and "complete_pdu MSG_CONFIRMATION r" and "pending w = []" and "serve (peer w) pdu = (r, p)"
  obtains q1 q2 w1 where "transact net be (h @ pdu @ q) (header_length be + length pdu) rsp ctx w =
     do { (rc, ctx, w) \<leftarrow> check_confirmation net be (adu t s pdu @ q1) (adu t s r @ q2)
            (int (length (adu t s r))) ctx w1;
          Some (rc \<noteq> -1, rc, adu t s r @ q2, ctx, w) }"
    and "pending w1 = []" and "peer w1 = p"
  by (rule transact_serves [where pending = pending and peer = peer and serve = serve and ctx = ctx,
        OF assms(3-9) _ _ _ _ assms(10-12)])
    (use client_readyD [OF assms(1)] assms(2) in auto)

lemma complete_exception:
  assumes "f < 0x80"
  shows "complete_pdu MSG_CONFIRMATION [f + 0x80, code]"
proof -
  define v where "v = f + 0x80"
  have "128 \<le> uint v" using assms by (simp add: v_def uint_plus_if' word_less_def)
  then have "v \<noteq> 5" "v \<noteq> 6" "v \<noteq> 0xF" "v \<noteq> 0x10" "v \<noteq> 0x16" "v \<noteq> 0x11" "v \<noteq> 0x17" "\<not> v \<le> 4"
    by (auto simp: word_le_def)
  then show ?thesis
    unfolding v_def [symmetric] by (simp add: complete_pdu_def compute_meta_length_after_function_def data_length_def)
qed

lemma client_exception:
  assumes "client_ready be adu accepts pending peer serve ctx" and "s = word_of_int (mb_slave ctx)"
    and "header_ok t s h" and "0 \<le> t" "t < 65536" and "5 \<le> length pdu" "length pdu \<le> 253" and "pdu ! 0 < 0x80"
    and "checksum_length be \<le> length q" and "length rsp = 260" and "uint code < MODBUS_EXCEPTION_MAX"
    and "pending w = []" and "serve (peer w) pdu = ([pdu ! 0 + 0x80, code], p)"
  obtains m w1 where "transact net be (h @ pdu @ q) (header_length be + length pdu) rsp ctx w =
      Some (False, -1, m, ctx\<lparr>errno := MODBUS_ENOBASE + uint code\<rparr>, w1)"
    and "pending w1 = []" and "peer w1 = p"
proof -
  let ?r = "[pdu ! 0 + 0x80, code]"
  have c: "complete_pdu MSG_CONFIRMATION ?r" by (rule complete_exception [OF assms(8)])
  have "pdu \<noteq> []" using assms(6) by auto
  then obtain q1 q2 w1 where "transact net be (h @ pdu @ q) (header_length be + length pdu) rsp ctx w =
     do { (rc, ctx, w) \<leftarrow> check_confirmation net be (adu t s pdu @ q1) (adu t s ?r @ q2)
            (int (length (adu t s ?r))) ctx w1;
          Some (rc \<noteq> -1, rc, adu t s ?r @ q2, ctx, w) }" "pending w1 = []" "peer w1 = p"
    by (rule client_exchange [where net = net, OF assms(1-5) _ assms(7,9,10) c assms(12,13)])
  then show thesis
    using check_exception [OF assms(4,5,6,8,11), of net s q1 q2 ctx w1]
    by (intro that [of "adu t s ?r @ q2" w1]) simp_all
qed

text \<open>Both outcomes of a read of registers.\<close>

lemma client_reads:
  assumes "client_ready be adu accepts pending peer serve ctx"
    and "f = 0x03 \<or> f = 0x04" and "1 \<le> nb" "nb \<le> 125"
    and "header_length be + 5 + checksum_length be \<le> length req" and "length rsp = 260" and "pending w = []"
  shows "serve (peer w) (register_request f addr nb) = (word_of_int f # word_of_int (2 * nb) # reg_bytes regs, p) \<Longrightarrow>
      int (length regs) = nb \<Longrightarrow> nb \<le> int (length dest) \<Longrightarrow>
      \<exists>d w'. mb_client_read_registers net be f addr nb req rsp dest ctx w =
        Some (nb, overlay dest 0 regs, ctx\<lparr>backend_data := d\<rparr>, w') \<and> pending w' = [] \<and> peer w' = p \<and>
        client_ready be adu accepts pending peer serve (ctx\<lparr>backend_data := d\<rparr>)"
    and "serve (peer w) (register_request f addr nb) = ([word_of_int f + 0x80, code], p) \<Longrightarrow> uint code < MODBUS_EXCEPTION_MAX \<Longrightarrow>
      \<exists>d w'. mb_client_read_registers net be f addr nb req rsp dest ctx w =
        Some (-1, dest, ctx\<lparr>backend_data := d, errno := MODBUS_ENOBASE + uint code\<rparr>, w') \<and> pending w' = [] \<and> peer w' = p \<and>
        client_ready be adu accepts pending peer serve (ctx\<lparr>backend_data := d, errno := MODBUS_ENOBASE + uint code\<rparr>)"
proof -
  let ?p = "register_request f addr nb" and ?q = "drop (header_length be + 5) req" and ?s = "word_of_int (mb_slave ctx) :: u8"
  have room: "header_length be + 5 \<le> length req" using assms(5) by simp
  obtain t h d where t: "0 \<le> t" "t < 65536" and h: "header_ok t ?s h" and "length h = header_length be"
    and b: "be_build_request_basis be f addr nb req ctx = Some (header_length be + 5, h @ ?p @ ?q, ctx\<lparr>backend_data := d\<rparr>)"
    and ready: "client_ready be adu accepts pending peer serve (ctx\<lparr>backend_data := d\<rparr>)"
    by (rule client_request [OF assms(1) room, of f addr nb])
  have slave: "?s = word_of_int (mb_slave (ctx\<lparr>backend_data := d\<rparr>))" by simp
  have p: "?p \<noteq> []" "length ?p = 5" "?p ! 0 = word_of_int f" by (simp_all add: register_request_def)
  have q: "checksum_length be \<le> length ?q" using assms(5) by simp
  have f: "(word_of_int f :: u8) = 0x03 \<or> (word_of_int f :: u8) = 0x04" using assms(2) by auto
  have nb: "\<not> MAX_READ_REGISTERS < nb" using assms(4) by (simp add: MAX_READ_REGISTERS_def)
  show "\<exists>d w'. mb_client_read_registers net be f addr nb req rsp dest ctx w =
      Some (nb, overlay dest 0 regs, ctx\<lparr>backend_data := d\<rparr>, w') \<and> pending w' = [] \<and> peer w' = p \<and>
        client_ready be adu accepts pending peer serve (ctx\<lparr>backend_data := d\<rparr>)"
    if sv: "serve (peer w) ?p = (word_of_int f # word_of_int (2 * nb) # reg_bytes regs, p)" and that: "int (length regs) = nb" "nb \<le> int (length dest)"
  proof -
    define k where "k = (word_of_int (2 * nb) :: u8)"
    have k: "uint k = 2 * nb"
      unfolding k_def uint_word_of_int_eq by (rule take_bit_int_eq_self) (use assms(3,4) in simp_all)
    then have "int (unat k) = int (2 * length regs)" using that(1) by simp
    then have uk: "unat k = 2 * length regs" by (simp only: of_nat_eq_iff)
    let ?r = "word_of_int f # k # reg_bytes regs"
    have c: "complete_pdu MSG_CONFIRMATION ?r"
      using f that(1) assms(4) uk
      by (auto simp: complete_pdu_def compute_meta_length_after_function_def data_length_def)
    obtain q1 q2 w1 where "transact net be (h @ ?p @ ?q) (header_length be + length ?p) rsp (ctx\<lparr>backend_data := d\<rparr>) w =
       do { (rc, ctx, w) \<leftarrow> check_confirmation net be (adu t ?s ?p @ q1) (adu t ?s ?r @ q2)
              (int (length (adu t ?s ?r))) (ctx\<lparr>backend_data := d\<rparr>) w1;
            Some (rc \<noteq> -1, rc, adu t ?s ?r @ q2, ctx, w) }" "pending w1 = []" "peer w1 = p"
      by (rule client_exchange [where net = net and ctx = "ctx\<lparr>backend_data := d\<rparr>", OF ready slave h t p(1) _ q assms(6) c assms(7) sv [folded k_def]])
        (use p(2) in auto)
    moreover have l: "length (reg_bytes regs) = 2 * nat nb" using that(1) by simp
    ultimately show ?thesis
      using check_registers [OF t assms(2-4) l k, where s = ?s and net = net] that assms(3) b nb p(2) ready
        unpack_registers_adu [OF t assms(3) that, of ?s "word_of_int f" k q2]
      by (simp add: mb_client_read_registers_def) blast
  qed
  show "\<exists>d w'. mb_client_read_registers net be f addr nb req rsp dest ctx w =
      Some (-1, dest, ctx\<lparr>backend_data := d, errno := MODBUS_ENOBASE + uint code\<rparr>, w') \<and> pending w' = [] \<and> peer w' = p \<and>
        client_ready be adu accepts pending peer serve (ctx\<lparr>backend_data := d, errno := MODBUS_ENOBASE + uint code\<rparr>)"
    if sv: "serve (peer w) ?p = ([word_of_int f + 0x80, code], p)" and code: "uint code < MODBUS_EXCEPTION_MAX"
  proof -
    have f80: "?p ! 0 < 0x80" using f p(3) by auto
    obtain m w1 where "transact net be (h @ ?p @ ?q) (header_length be + length ?p) rsp (ctx\<lparr>backend_data := d\<rparr>) w =
        Some (False, -1, m, ctx\<lparr>backend_data := d, errno := MODBUS_ENOBASE + uint code\<rparr>, w1)" "pending w1 = []" "peer w1 = p"
      by (rule client_exception [where net = net and ctx = "ctx\<lparr>backend_data := d\<rparr>", OF ready slave h t _ _ f80 q assms(6) code assms(7) sv [folded p(3)]])
        (use p(2) in auto)
    then show ?thesis using b nb p(2) client_ready_again(1) [OF ready] by (simp add: mb_client_read_registers_def) blast
  qed
qed

end

section \<open>A TCP client and its server\<close>

lemma server_reads_registers:
  assumes "1 \<le> nb" "nb \<le> 125" and "0 \<le> addr" "addr < 65536"
  shows "server_spec version mm (register_request 0x03 addr nb) =
    (if in_range (start_registers mm) (int (length (tab_registers mm))) addr nb
     then 0x03 # word_of_int (2 * nb) #
       reg_bytes (take (nat nb) (drop (nat (addr - start_registers mm)) (tab_registers mm)))
     else [0x83, 2], mm)"
proof -
  let ?p = "register_request 0x03 addr nb"
  have a: "pdu_address ?p = addr" using be16_split [of addr] assms(3,4) by (simp add: pdu_address_def register_request_def)
  have n: "pdu_number ?p = nb" using be16_split [of nb] assms(1,2) by (simp add: pdu_number_def register_request_def)
  have f: "?p ! 0 = 0x03" by (simp add: register_request_def)
  show ?thesis
    using assms(1,2) by (simp add: server_spec_def Let_def f spec_read_registers_def a n spec_exception_def)
qed

lemma tcp_client_reads:
  assumes "1 \<le> nb" "nb \<le> 125" and "0 \<le> addr" "addr < 65536" and "nb \<le> int (length dest)"
    and "length req = 12" and "length rsp = 260" and "pending w = []"
    and "client_ready (tcp_backend net inet) tcp_adu (\<lambda>_ _. True) pending mapping (server_spec version) ctx"
  shows "\<exists>d w'. modbus_read_registers net (tcp_backend net inet) addr nb req rsp dest ctx w =
    (if in_range (start_registers (mapping w)) (int (length (tab_registers (mapping w)))) addr nb
     then Some (nb, overlay dest 0 (take (nat nb) (drop (nat (addr - start_registers (mapping w))) (tab_registers (mapping w)))),
       ctx\<lparr>backend_data := d\<rparr>, w')
     else Some (-1, dest, ctx\<lparr>backend_data := d, errno := MODBUS_ENOBASE + 2\<rparr>, w')) \<and>
    pending w' = [] \<and> mapping w' = mapping w"
proof -
  let ?mm = "mapping w"
  let ?regs = "take (nat nb) (drop (nat (addr - start_registers ?mm)) (tab_registers ?mm))"
  have read: "modbus_read_registers net (tcp_backend net inet) addr nb req rsp dest ctx w =
      mb_client_read_registers net (tcp_backend net inet) 0x03 addr nb req rsp dest ctx w"
    using assms(2) by (simp add: modbus_read_registers_def MAX_READ_REGISTERS_def)
  have room: "header_length (tcp_backend net inet) + 5 + checksum_length (tcp_backend net inet) \<le> length req"
    using assms(6) by (simp add: tcp_backend_def tcp_lengths)
  have f: "(0x03 :: int) = 0x03 \<or> (0x03 :: int) = 0x04" by simp
  note reads = tcp.client_reads [where net = net, OF assms(9) f assms(1,2) room assms(7,8)]
  show ?thesis
  proof (cases "in_range (start_registers ?mm) (int (length (tab_registers ?mm))) addr nb")
    case True
    then have "int (length ?regs) = nb" using assms(1) by (auto simp: in_range_def)
    moreover have "server_spec version ?mm (register_request 0x03 addr nb) =
        (word_of_int 3 # word_of_int (2 * nb) # reg_bytes ?regs, ?mm)"
      using server_reads_registers [OF assms(1-4), of version ?mm] True by simp
    ultimately show ?thesis using reads(1) [OF _ _ assms(5), of addr ?regs ?mm] True unfolding read by simp blast
  next
    case False
    then have "server_spec version ?mm (register_request 0x03 addr nb) = ([word_of_int 3 + 0x80, 2], ?mm)"
      using server_reads_registers [OF assms(1-4), of version ?mm] by simp
    then show ?thesis using reads(2) [of addr 2 ?mm dest] False unfolding read by (simp add: MODBUS_EXCEPTION_MAX_def) blast
  qed
qed

text \<open>
  C5. \<open>modbus_read_registers\<close> over TCP, however the network cuts the response, returns the
  registers that the server's mapping holds; when the range is not in the mapping it returns
  -1 with \<open>EMBXILADD\<close> and leaves \<open>dest\<close> alone. The response is consumed and the mapping is the
  same as before.
\<close>

theorem tcp_client_reads_server:
  assumes "1 \<le> nb" "nb \<le> 125" and "0 \<le> addr" "addr < 65536" and "nb \<le> int (length dest)"
    and "length req = 12" and "length rsp = 260" and "pending w = []"
    and "client_ready (tcp_backend net inet) tcp_adu (\<lambda>_ _. True) pending mapping (server_spec version) ctx"
  defines "tab \<equiv> tab_registers (mapping w)" and "start \<equiv> start_registers (mapping w)"
  shows "\<exists>d w'. modbus_read_registers net (tcp_backend net inet) addr nb req rsp dest ctx w =
    (if in_range start (int (length tab)) addr nb
     then Some (nb, overlay dest 0 (take (nat nb) (drop (nat (addr - start)) tab)), ctx\<lparr>backend_data := d\<rparr>, w')
     else Some (-1, dest, ctx\<lparr>backend_data := d, errno := MODBUS_ENOBASE + 2\<rparr>, w')) \<and>
    pending w' = [] \<and> mapping w' = mapping w"
  using tcp_client_reads [where net = net, OF assms(1-9)] unfolding tab_def start_def .

text \<open>A network behind which an abstract server answers, in pieces of at most \<open>k\<close> bytes.\<close>

definition served_net :: "string \<Rightarrow> nat \<Rightarrow> (unit, modbus_mapping \<times> u8 list) net" where
  "served_net version k = \<lparr>net_nanosleep = (\<lambda>t w. (0, (0, 0), 0, w)), net_select = (\<lambda>fd tv w. (1, (0, 0), 0, w)),
     net_select_write = (\<lambda>fd tv w. (1, 0, w)),
     net_recv = (\<lambda>fd n b (mm, q). let m = min n k in (int (length (take m q)), take m q, 0, (mm, drop m q))),
     net_send = (\<lambda>fd bs (mm, q). let a = server_spec version mm (drop 7 bs) in
       (int (length bs), 0, (snd a, q @ take 4 bs @ [word_of_int (drop_bit 8 (int (length (fst a)) + 1)),
          word_of_int ((int (length (fst a)) + 1) AND 0xff), bs ! 6] @ fst a))),
     net_socket = (\<lambda>a b c w. (3, 0, w)),
     net_setsockopt = (\<lambda>a b c d w. (0, 0, w)), net_so_error = (\<lambda>fd w. (0, 0, 0, w)),
     net_connect = (\<lambda>fd a w. (0, 0, w)), net_bind = (\<lambda>fd a w. (0, 0, w)), net_listen = (\<lambda>fd n w. (0, 0, w)),
     net_accept = (\<lambda>fd w. (4, 0, w)), net_shutdown = (\<lambda>fd w. w), net_close = (\<lambda>fd w. w)\<rparr>"

lemma served_net_ready:
  assumes "0 < k" and "mb_slave ctx \<noteq> -1" and "error_recovery ctx = 0"
  shows "client_ready (tcp_backend (served_net version k) inet) tcp_adu (\<lambda>_ _. True) snd fst (server_spec version) ctx"
proof -
  have "delivers_only (tcp_backend (served_net version k) inet) snd fst c" for c
    using assms(1) unfolding delivers_only_def
    by (auto simp: tcp_backend_def tcp_select.simps tcp_recv_def served_net_def fail_errno_def Let_def)
  moreover have "serves (tcp_backend (served_net version k) inet) tcp_adu snd fst (server_spec version) s c" for s c
    unfolding serves_def
    by (auto simp: tcp_backend_def tcp_send_def served_net_def fail_errno_def Let_def tcp_adu_def)
  ultimately show ?thesis using assms(2,3) by (auto simp: client_ready_def intro!: exI [of _ UNIV])
qed

theorem tcp_client_reads_server_witness:
  "\<exists>d w'. modbus_read_registers (served_net ''3.1.6'' 3) (tcp_backend (served_net ''3.1.6'' 3) (\<lambda>_ _. ())) 1 2
     (replicate 12 0) (replicate 260 0) [0, 0, 77] tcp_ctx (small_mapping, []) =
   Some (2, [0x1234, 12, 77], tcp_ctx\<lparr>backend_data := d\<rparr>, w') \<and> fst w' = small_mapping"
proof -
  have r: "in_range 0 4 1 2" by (simp add: in_range_def)
  have ready: "client_ready (tcp_backend (served_net ''3.1.6'' 3) (\<lambda>_ _. ())) tcp_adu (\<lambda>_ _. True) snd fst
      (server_spec ''3.1.6'') tcp_ctx"
    by (rule served_net_ready) (simp_all add: tcp_ctx_settings)
  show ?thesis
    using tcp_client_reads_server [OF _ _ _ _ _ _ _ _ ready, of 2 1 "[0, 0, 77]" "replicate 12 0" "replicate 260 0" "(small_mapping, [])"] r
    by (simp add: small_mapping_def overlay_def) blast
qed

end
