(* ===== verification/Modbus_Client_Writes.thy ===== *)
theory Modbus_Client_Writes
  imports Modbus_Client_Correct
begin

text \<open>
  The client's register writes against a server: a write that is confirmed has changed the
  server's tables as the client asked, and can be read back.
\<close>

section \<open>Requests that are answered with their first five bytes\<close>

lemma put_values_spec:
  assumes "n \<le> length src" and "off + 2 * n \<le> length req"
  shows "put_values src (int n) req off = Some (off + 2 * n, overlay req off (reg_bytes (take n src)))"
proof -
  let ?f = "\<lambda>i (req_length, req). do { v \<leftarrow> rd_at src (int i); req \<leftarrow> wr8 req req_length (hi8 v);
      req \<leftarrow> wr8 req (req_length + 1) (lo8 v); Some (req_length + 2, req) }"
  let ?P = "\<lambda>i (l, r). l = off + 2 * i \<and> r = overlay req off (reg_bytes (take i src))"
  have "\<exists>s. for_each [0..<n] ?f (off, req) = Some s \<and> ?P n s"
  proof (rule for_each_upt)
    fix i s assume i: "i < n" and "?P i s"
    then have s: "s = (off + 2 * i, overlay req off (reg_bytes (take i src)))" by (cases s) simp
    let ?b = "reg_bytes (take i src)" and ?v = "src ! i"
    have len: "length ?b = 2 * i" using i assms(1) by simp
    have "(overlay req off ?b)[off + 2 * i := hi8 ?v] = overlay req off (?b @ [hi8 ?v])"
      using overlay_snoc [of off ?b req "hi8 ?v"] i assms(2) len by simp
    moreover have "(overlay req off (?b @ [hi8 ?v]))[Suc (off + 2 * i) := lo8 ?v] = overlay req off (?b @ [hi8 ?v, lo8 ?v])"
      using overlay_snoc [of off "?b @ [hi8 ?v]" req "lo8 ?v"] i assms(2) len by simp
    moreover have "reg_bytes (take (Suc i) src) = ?b @ [hi8 ?v, lo8 ?v]"
      using i assms(1) by (simp add: take_Suc_conv_app_nth reg_bytes_append) (simp add: reg_bytes_def)
    moreover have "rd_at src (int i) = Some ?v" using i assms(1) by (simp add: rd_at_def)
    ultimately show "\<exists>s'. ?f i s = Some s' \<and> ?P (Suc i) s'"
      using i assms(2) len by (simp add: s no_fault)
  qed (simp_all add: reg_bytes_def)
  then show ?thesis by (auto simp: put_values_def)
qed

lemma complete_echo:
  assumes "5 \<le> length pdu" and "pdu ! 0 \<in> {0x05, 0x06, 0x0F, 0x10}"
  shows "complete_pdu MSG_CONFIRMATION (take 5 pdu)"
  using assms by (auto simp: complete_pdu_def compute_meta_length_after_function_def data_length_def)

context modbus_framing
begin

lemma check_echo:
  fixes s :: u8 and q1 :: "u8 list"
  assumes "0 \<le> t" "t < 65536" and "5 \<le> length pdu" and f: "pdu ! 0 \<in> {0x05, 0x06, 0x0F, 0x10}"
  defines "r \<equiv> take 5 pdu"
  shows "check_confirmation net be (adu t s pdu @ q1) (adu t s r @ q2) (int (length (adu t s r))) ctx w =
    Some (if pdu ! 0 = 0x05 \<or> pdu ! 0 = 0x06 then 1 else pdu_number pdu, ctx, w)"
proof -
  let ?req = "adu t s pdu @ q1" and ?rsp = "adu t s r @ q2"
  have r: "length r = 5" "r ! 0 = pdu ! 0" "r ! 3 = pdu ! 3" "r ! 4 = pdu ! 4" using assms(3) by (simp_all add: r_def)
  have ne: "pdu \<noteq> []" "r \<noteq> []" using assms(3) r(1) by auto
  have rd: "rd8 ?rsp (header_length be) = Some (pdu ! 0)" "rd8 ?req (header_length be) = Some (pdu ! 0)"
    using adu_rd8 [OF assms(1,2), of 0 r s q2] adu_rd8 [OF assms(1,2), of 0 pdu s q1] ne r by simp_all
  have nb: "rd_be16 ?req (header_length be + 3) = Some (pdu_number pdu)" "rd_be16 ?rsp (header_length be + 3) = Some (pdu_number pdu)"
    using adu_be16 [OF assms(1,2), of 3 pdu s q1] adu_be16 [OF assms(1,2), of 3 r s q2] assms(3) r
    by (simp_all add: pdu_number_def)
  have pre: "be_pre_check_confirmation be ?req ?rsp len ctx = Some (0, ctx)" for len by (rule pre_check [OF assms(1,2)])
  have cl: "compute_response_length_from_request be ?req = Some (int (length (adu t s r)))"
    using f rd(2) length_adu [OF assms(1,2), of s r] r(1) by (auto simp: compute_response_length_from_request_def)
  have "confirmation_values (header_length be) (pdu ! 0) ?req ?rsp =
      Some (if pdu ! 0 = 0x05 \<or> pdu ! 0 = 0x06 then (1, 1) else (pdu_number pdu, pdu_number pdu))"
    using f nb by (auto simp: confirmation_values_def)
  moreover have "\<not> 0x80 \<le> pdu ! 0" using f by auto
  ultimately show ?thesis
    unfolding check_confirmation_def Let_def rd pre cl by simp
qed

lemma client_echo:
  assumes "client_ready be adu accepts pending peer serve ctx" and "s = word_of_int (mb_slave ctx)"
    and "header_ok t s h" and "0 \<le> t" "t < 65536" and "5 \<le> length pdu" "length pdu \<le> 253"
    and "pdu ! 0 \<in> {0x05, 0x06, 0x0F, 0x10}" and "checksum_length be \<le> length q" and "length rsp = 260"
    and "pending w = []" and "serve (peer w) pdu = (take 5 pdu, p)"
  obtains m w1 where "transact net be (h @ pdu @ q) (header_length be + length pdu) rsp ctx w =
      Some (True, if pdu ! 0 = 0x05 \<or> pdu ! 0 = 0x06 then 1 else pdu_number pdu, m, ctx, w1)"
    and "pending w1 = []" and "peer w1 = p"
proof -
  have "pdu \<noteq> []" using assms(6) by auto
  then obtain q1 q2 w1 where "transact net be (h @ pdu @ q) (header_length be + length pdu) rsp ctx w =
     do { (rc, ctx, w) \<leftarrow> check_confirmation net be (adu t s pdu @ q1) (adu t s (take 5 pdu) @ q2)
            (int (length (adu t s (take 5 pdu)))) ctx w1;
          Some (rc \<noteq> -1, rc, adu t s (take 5 pdu) @ q2, ctx, w) }" "pending w1 = []" "peer w1 = p"
    by (rule client_exchange [where net = net, OF assms(1-5) _ assms(7,9,10) complete_echo [OF assms(6,8)] assms(11,12)])
  then show thesis
    using check_echo [OF assms(4-6,8), of net s q1 q2 ctx w1]
      be16_bounds(1) [of "pdu ! 3" "pdu ! 4"]
    by (intro that [of "adu t s (take 5 pdu) @ q2" w1]) (auto simp: pdu_number_def)
qed

text \<open>Both outcomes of a write of one coil or register.\<close>

lemma client_writes_single:
  assumes "client_ready be adu accepts pending peer serve ctx" and "f = 0x05 \<or> f = 0x06"
    and "header_length be + 5 + checksum_length be \<le> length req" and "length rsp = 260" and "pending w = []"
  shows "serve (peer w) (register_request f addr v) = (register_request f addr v, p) \<Longrightarrow>
      \<exists>d w'. write_single net be f addr v req rsp ctx w = Some (1, ctx\<lparr>backend_data := d\<rparr>, w') \<and> pending w' = [] \<and> peer w' = p \<and>
        client_ready be adu accepts pending peer serve (ctx\<lparr>backend_data := d\<rparr>)"
    and "serve (peer w) (register_request f addr v) = ([word_of_int f + 0x80, code], p) \<Longrightarrow> uint code < MODBUS_EXCEPTION_MAX \<Longrightarrow>
      \<exists>d w'. write_single net be f addr v req rsp ctx w =
        Some (-1, ctx\<lparr>backend_data := d, errno := MODBUS_ENOBASE + uint code\<rparr>, w') \<and> pending w' = [] \<and> peer w' = p \<and>
        client_ready be adu accepts pending peer serve (ctx\<lparr>backend_data := d, errno := MODBUS_ENOBASE + uint code\<rparr>)"
proof -
  let ?p = "register_request f addr v" and ?q = "drop (header_length be + 5) req" and ?s = "word_of_int (mb_slave ctx) :: u8"
  have room: "header_length be + 5 \<le> length req" using assms(3) by simp
  obtain t h d where t: "0 \<le> t" "t < 65536" and h: "header_ok t ?s h" and "length h = header_length be"
    and b: "be_build_request_basis be f addr v req ctx = Some (header_length be + 5, h @ ?p @ ?q, ctx\<lparr>backend_data := d\<rparr>)"
    and ready: "client_ready be adu accepts pending peer serve (ctx\<lparr>backend_data := d\<rparr>)"
    by (rule client_request [where f = f and addr = addr and nb = v, OF assms(1) room])
  have slave: "?s = word_of_int (mb_slave (ctx\<lparr>backend_data := d\<rparr>))" by simp
  have p: "length ?p = 5" "?p ! 0 = word_of_int f" "take 5 ?p = ?p" by (simp_all add: register_request_def)
  then have len: "5 \<le> length ?p" "length ?p \<le> 253" by simp_all
  have q: "checksum_length be \<le> length ?q" using assms(3) by simp
  have f: "?p ! 0 = 0x05 \<or> ?p ! 0 = 0x06" using assms(2) p(2) by auto
  then have f4: "?p ! 0 \<in> {0x05, 0x06, 0x0F, 0x10}" and f80: "?p ! 0 < 0x80" by auto
  show "\<exists>d w'. write_single net be f addr v req rsp ctx w = Some (1, ctx\<lparr>backend_data := d\<rparr>, w') \<and> pending w' = [] \<and> peer w' = p \<and>
        client_ready be adu accepts pending peer serve (ctx\<lparr>backend_data := d\<rparr>)"
    if "serve (peer w) ?p = (?p, p)"
  proof -
    have sv: "serve (peer w) ?p = (take 5 ?p, p)" using that p(3) by simp
    obtain m w1 where "transact net be (h @ ?p @ ?q) (header_length be + length ?p) rsp (ctx\<lparr>backend_data := d\<rparr>) w =
        Some (True, if ?p ! 0 = 0x05 \<or> ?p ! 0 = 0x06 then 1 else pdu_number ?p, m, ctx\<lparr>backend_data := d\<rparr>, w1)"
      "pending w1 = []" "peer w1 = p"
      by (rule client_echo [where net = net and ctx = "ctx\<lparr>backend_data := d\<rparr>", OF ready slave h t len f4 q assms(4,5) sv])
    then show ?thesis using b p(1) f ready by (simp add: write_single_def confirm_only_def) blast
  qed
  show "\<exists>d w'. write_single net be f addr v req rsp ctx w =
      Some (-1, ctx\<lparr>backend_data := d, errno := MODBUS_ENOBASE + uint code\<rparr>, w') \<and> pending w' = [] \<and> peer w' = p \<and>
        client_ready be adu accepts pending peer serve (ctx\<lparr>backend_data := d, errno := MODBUS_ENOBASE + uint code\<rparr>)"
    if sv: "serve (peer w) ?p = ([word_of_int f + 0x80, code], p)" and code: "uint code < MODBUS_EXCEPTION_MAX"
  proof -
    obtain m w1 where "transact net be (h @ ?p @ ?q) (header_length be + length ?p) rsp (ctx\<lparr>backend_data := d\<rparr>) w =
        Some (False, -1, m, ctx\<lparr>backend_data := d, errno := MODBUS_ENOBASE + uint code\<rparr>, w1)" "pending w1 = []" "peer w1 = p"
      by (rule client_exception [where net = net and ctx = "ctx\<lparr>backend_data := d\<rparr>", OF ready slave h t len f80 q assms(4) code assms(5) sv [folded p(2)]])
    then show ?thesis using b p(1) client_ready_again(1) [OF ready] by (simp add: write_single_def confirm_only_def) blast
  qed
qed

end

text \<open>The request for a write of several registers, and both outcomes of it.\<close>

definition write_registers_pdu :: "int \<Rightarrow> int \<Rightarrow> u16 list \<Rightarrow> u8 list" where
  "write_registers_pdu addr nb src =
     register_request 0x10 addr nb @ [word_of_int (2 * nb)] @ reg_bytes (take (nat nb) src)"

context modbus_framing
begin

lemma client_writes_registers:
  assumes "client_ready be adu accepts pending peer serve ctx" and "1 \<le> nb" "nb \<le> 123" "nb \<le> int (length src)"
    and "length req = 260" and "length rsp = 260" and "pending w = []"
  shows "serve (peer w) (write_registers_pdu addr nb src) = (take 5 (write_registers_pdu addr nb src), p) \<Longrightarrow>
      \<exists>d w'. modbus_write_registers net be addr nb src req rsp ctx w = Some (nb, ctx\<lparr>backend_data := d\<rparr>, w') \<and>
        pending w' = [] \<and> peer w' = p \<and> client_ready be adu accepts pending peer serve (ctx\<lparr>backend_data := d\<rparr>)"
    and "serve (peer w) (write_registers_pdu addr nb src) = ([0x90, code], p) \<Longrightarrow> uint code < MODBUS_EXCEPTION_MAX \<Longrightarrow>
      \<exists>d w'. modbus_write_registers net be addr nb src req rsp ctx w =
        Some (-1, ctx\<lparr>backend_data := d, errno := MODBUS_ENOBASE + uint code\<rparr>, w') \<and> pending w' = [] \<and> peer w' = p \<and>
        client_ready be adu accepts pending peer serve (ctx\<lparr>backend_data := d, errno := MODBUS_ENOBASE + uint code\<rparr>)"
proof -
  let ?b = "register_request 0x10 addr nb" and ?p = "write_registers_pdu addr nb src" and ?s = "word_of_int (mb_slave ctx) :: u8"
  define n where "n = nat nb"
  have nb: "nb = int n" "1 \<le> n" "n \<le> 123" "n \<le> length src" using assms(2-4) by (simp_all add: n_def)
  have fit: "header_length be + 253 + checksum_length be \<le> 260" using adu_fits max_adu by simp
  have room: "header_length be + 5 \<le> length req" using fit assms(5) by simp
  obtain t h d where t: "0 \<le> t" "t < 65536" and h: "header_ok t ?s h" "length h = header_length be"
    and b: "be_build_request_basis be 0x10 addr nb req ctx =
      Some (header_length be + 5, h @ ?b @ drop (header_length be + 5) req, ctx\<lparr>backend_data := d\<rparr>)"
    and ready: "client_ready be adu accepts pending peer serve (ctx\<lparr>backend_data := d\<rparr>)"
    by (rule client_request [where f = "0x10" and addr = addr and nb = nb, OF assms(1) room])
  let ?m = "h @ ?b @ drop (header_length be + 5) req" and ?q = "drop (header_length be + length ?p) req"
  have lb: "length ?b = 5" by (simp add: register_request_def)
  have slave: "?s = word_of_int (mb_slave (ctx\<lparr>backend_data := d\<rparr>))" by simp
  have p: "length ?p = 6 + 2 * n" "?p ! 0 = 0x10"
    using nb by (simp_all add: write_registers_pdu_def register_request_def)
  then have len: "5 \<le> length ?p" "length ?p \<le> 253" using nb by simp_all
  have num: "pdu_number ?p = nb"
    using be16_split [of nb] assms(2,3) by (simp add: pdu_number_def write_registers_pdu_def register_request_def)
  have q: "checksum_length be \<le> length ?q" using fit assms(5) len by simp
  have w: "wr8 ?m (header_length be + 5) (word_of_int (nb * 2)) =
      Some (h @ ?b @ [word_of_int (2 * nb)] @ drop (header_length be + 6) req)"
  proof -
    have "drop (header_length be + 5) req = req ! (header_length be + 5) # drop (header_length be + 6) req"
      using Cons_nth_drop_Suc [of "header_length be + 5" req, symmetric] fit assms(5) by (simp add: add.commute)
    then show ?thesis using fit assms(5) h(2) lb by (simp add: wr8_def list_update_append mult.commute)
  qed
  have v: "put_values src nb (h @ ?b @ [word_of_int (2 * nb)] @ drop (header_length be + 6) req) (header_length be + 6) =
      Some (header_length be + length ?p, h @ ?p @ ?q)"
  proof -
    have "put_values src (int n) (h @ ?b @ [word_of_int (2 * nb)] @ drop (header_length be + 6) req) (header_length be + 6) =
        Some (header_length be + 6 + 2 * n,
          overlay (h @ ?b @ [word_of_int (2 * nb)] @ drop (header_length be + 6) req) (header_length be + 6) (reg_bytes (take n src)))"
      by (rule put_values_spec) (use nb fit assms(5) h(2) lb in simp_all)
    moreover have "overlay (h @ ?b @ [word_of_int (2 * nb)] @ drop (header_length be + 6) req) (header_length be + 6) (reg_bytes (take n src)) =
        h @ ?p @ ?q"
      using h(2) lb p(1) nb by (simp add: overlay_def write_registers_pdu_def add.commute add.left_commute)
    ultimately show ?thesis using nb p(1) by simp
  qed
  have f: "?p ! 0 \<in> {0x05, 0x06, 0x0F, 0x10}" "?p ! 0 < 0x80" using p(2) by simp_all
  have run: "modbus_write_registers net be addr nb src req rsp ctx w =
      confirm_only net be (h @ ?p @ ?q) (header_length be + length ?p) rsp (ctx\<lparr>backend_data := d\<rparr>) w"
    using b w v assms(3) by (simp add: modbus_write_registers_def MAX_WRITE_REGISTERS_def add.commute [of 6 "header_length be"])
  show "\<exists>d w'. modbus_write_registers net be addr nb src req rsp ctx w = Some (nb, ctx\<lparr>backend_data := d\<rparr>, w') \<and>
        pending w' = [] \<and> peer w' = p \<and> client_ready be adu accepts pending peer serve (ctx\<lparr>backend_data := d\<rparr>)"
    if sv: "serve (peer w) ?p = (take 5 ?p, p)"
  proof -
    obtain m w1 where "transact net be (h @ ?p @ ?q) (header_length be + length ?p) rsp (ctx\<lparr>backend_data := d\<rparr>) w =
        Some (True, if ?p ! 0 = 0x05 \<or> ?p ! 0 = 0x06 then 1 else pdu_number ?p, m, ctx\<lparr>backend_data := d\<rparr>, w1)"
      "pending w1 = []" "peer w1 = p"
      by (rule client_echo [where net = net and ctx = "ctx\<lparr>backend_data := d\<rparr>", OF ready slave h(1) t len f(1) q assms(6,7) sv])
    then show ?thesis unfolding run using p(2) num ready by (simp add: confirm_only_def) blast
  qed
  show "\<exists>d w'. modbus_write_registers net be addr nb src req rsp ctx w =
        Some (-1, ctx\<lparr>backend_data := d, errno := MODBUS_ENOBASE + uint code\<rparr>, w') \<and> pending w' = [] \<and> peer w' = p \<and>
        client_ready be adu accepts pending peer serve (ctx\<lparr>backend_data := d, errno := MODBUS_ENOBASE + uint code\<rparr>)"
    if sv: "serve (peer w) ?p = ([0x90, code], p)" and code: "uint code < MODBUS_EXCEPTION_MAX"
  proof -
    have sv': "serve (peer w) ?p = ([?p ! 0 + 0x80, code], p)" using sv p(2) by simp
    obtain m w1 where "transact net be (h @ ?p @ ?q) (header_length be + length ?p) rsp (ctx\<lparr>backend_data := d\<rparr>) w =
        Some (False, -1, m, ctx\<lparr>backend_data := d, errno := MODBUS_ENOBASE + uint code\<rparr>, w1)" "pending w1 = []" "peer w1 = p"
      by (rule client_exception [where net = net and ctx = "ctx\<lparr>backend_data := d\<rparr>", OF ready slave h(1) t len f(2) q assms(6) code assms(7) sv'])
    then show ?thesis unfolding run using client_ready_again(1) [OF ready] by (simp add: confirm_only_def) blast
  qed
qed

end

section \<open>A TCP client and its server\<close>

lemma server_writes_registers:
  assumes "1 \<le> nb" "nb \<le> 123" "nb \<le> int (length src)" and "0 \<le> addr" "addr < 65536"
  shows "server_spec version mm (write_registers_pdu addr nb src) =
    (if in_range (start_registers mm) (int (length (tab_registers mm))) addr nb
     then (take 5 (write_registers_pdu addr nb src),
       mm\<lparr>tab_registers := overlay (tab_registers mm) (nat (addr - start_registers mm)) (take (nat nb) src)\<rparr>)
     else ([0x90, 2], mm))"
proof -
  let ?p = "write_registers_pdu addr nb src"
  have a: "pdu_address ?p = addr"
    using be16_split [of addr] assms(4,5) by (simp add: pdu_address_def write_registers_pdu_def register_request_def)
  have n: "pdu_number ?p = nb"
    using be16_split [of nb] assms(1,2) by (simp add: pdu_number_def write_registers_pdu_def register_request_def)
  have f: "?p ! 0 = 0x10" "drop 6 ?p = reg_bytes (take (nat nb) src)" by (simp_all add: write_registers_pdu_def register_request_def)
  show ?thesis
    using assms(1,2) by (simp add: server_spec_def Let_def f spec_write_registers_def a n spec_exception_def)
qed

lemma tcp_client_writes:
  assumes "1 \<le> nb" "nb \<le> 123" "nb \<le> int (length src)" and "0 \<le> addr" "addr < 65536"
    and "length req = 260" and "length rsp = 260" and "pending w = []"
    and "client_ready (tcp_backend net inet) tcp_adu (\<lambda>_ _. True) pending mapping (server_spec version) ctx"
  shows "\<exists>d w'. pending w' = [] \<and>
    (if in_range (start_registers (mapping w)) (int (length (tab_registers (mapping w)))) addr nb
     then modbus_write_registers net (tcp_backend net inet) addr nb src req rsp ctx w = Some (nb, ctx\<lparr>backend_data := d\<rparr>, w') \<and>
       mapping w' = (mapping w)\<lparr>tab_registers :=
         overlay (tab_registers (mapping w)) (nat (addr - start_registers (mapping w))) (take (nat nb) src)\<rparr> \<and>
       client_ready (tcp_backend net inet) tcp_adu (\<lambda>_ _. True) pending mapping (server_spec version) (ctx\<lparr>backend_data := d\<rparr>)
     else modbus_write_registers net (tcp_backend net inet) addr nb src req rsp ctx w =
         Some (-1, ctx\<lparr>backend_data := d, errno := MODBUS_ENOBASE + 2\<rparr>, w') \<and> mapping w' = mapping w)"
proof -
  note writes = tcp.client_writes_registers [where net = net, OF assms(9,1-3,6-8)]
  show ?thesis
  proof (cases "in_range (start_registers (mapping w)) (int (length (tab_registers (mapping w)))) addr nb")
    case True
    then show ?thesis using server_writes_registers [OF assms(1-5), of version "mapping w"] writes(1) [of addr] by auto
  next
    case False
    then show ?thesis using server_writes_registers [OF assms(1-5), of version "mapping w"] writes(2) [of addr 2 "mapping w"]
      by (auto simp: MODBUS_EXCEPTION_MAX_def)
  qed
qed

text \<open>
  C6. \<open>modbus_write_registers\<close> over TCP, however the network cuts the response, changes exactly
  the addressed registers of the server to the client's values and returns their number; when
  the range is not in the mapping it returns -1 with \<open>EMBXILADD\<close> and the server is unchanged.
\<close>

theorem tcp_client_writes_server:
  assumes "1 \<le> nb" "nb \<le> 123" "nb \<le> int (length src)" and "0 \<le> addr" "addr < 65536"
    and "length req = 260" and "length rsp = 260" and "pending w = []"
    and "client_ready (tcp_backend net inet) tcp_adu (\<lambda>_ _. True) pending mapping (server_spec version) ctx"
  shows "\<exists>d w'. pending w' = [] \<and>
    (if in_range (start_registers (mapping w)) (int (length (tab_registers (mapping w)))) addr nb
     then modbus_write_registers net (tcp_backend net inet) addr nb src req rsp ctx w = Some (nb, ctx\<lparr>backend_data := d\<rparr>, w') \<and>
       mapping w' = (mapping w)\<lparr>tab_registers :=
         overlay (tab_registers (mapping w)) (nat (addr - start_registers (mapping w))) (take (nat nb) src)\<rparr>
     else modbus_write_registers net (tcp_backend net inet) addr nb src req rsp ctx w =
         Some (-1, ctx\<lparr>backend_data := d, errno := MODBUS_ENOBASE + 2\<rparr>, w') \<and> mapping w' = mapping w)"
  using tcp_client_writes [OF assms] by (auto split: if_splits)

text \<open>
  C7. What a client has written with \<open>modbus_write_registers\<close> it reads back with
  \<open>modbus_read_registers\<close>.
\<close>

theorem tcp_write_read_back:
  assumes "1 \<le> nb" "nb \<le> 123" "nb \<le> int (length src)" "nb \<le> int (length dest)" and "0 \<le> addr" "addr < 65536"
    and "length req = 260" "length rsp = 260" and "length req' = 12" "length rsp' = 260" and "pending w = []"
    and "client_ready (tcp_backend net inet) tcp_adu (\<lambda>_ _. True) pending mapping (server_spec version) ctx"
    and "in_range (start_registers (mapping w)) (int (length (tab_registers (mapping w)))) addr nb"
  shows "\<exists>ctx1 w1 d w2. modbus_write_registers net (tcp_backend net inet) addr nb src req rsp ctx w = Some (nb, ctx1, w1) \<and>
    modbus_read_registers net (tcp_backend net inet) addr nb req' rsp' dest ctx1 w1 =
      Some (nb, overlay dest 0 (take (nat nb) src), ctx\<lparr>backend_data := d\<rparr>, w2)"
proof -
  let ?mm = "mapping w" and ?i = "nat (addr - start_registers (mapping w))"
  obtain d w1 where 1: "modbus_write_registers net (tcp_backend net inet) addr nb src req rsp ctx w = Some (nb, ctx\<lparr>backend_data := d\<rparr>, w1)"
    "client_ready (tcp_backend net inet) tcp_adu (\<lambda>_ _. True) pending mapping (server_spec version) (ctx\<lparr>backend_data := d\<rparr>)"
    "pending w1 = []" "mapping w1 = ?mm\<lparr>tab_registers := overlay (tab_registers ?mm) ?i (take (nat nb) src)\<rparr>"
    using tcp_client_writes [OF assms(1-3,5-8,11,12)] assms(13) by auto
  have fit: "?i + length (take (nat nb) src) \<le> length (tab_registers ?mm)" "length (take (nat nb) src) = nat nb"
    using assms(1,3,13) by (auto simp: in_range_def)
  from tcp_client_reads [where net = net, OF assms(1) _ assms(5,6,4,9,10) 1(3,2)] assms(2,13) fit
  obtain d2 w2 where "modbus_read_registers net (tcp_backend net inet) addr nb req' rsp' dest (ctx\<lparr>backend_data := d\<rparr>) w1 =
      Some (nb, overlay dest 0 (take (nat nb) (drop ?i (overlay (tab_registers ?mm) ?i (take (nat nb) src)))), ctx\<lparr>backend_data := d2\<rparr>, w2)"
    unfolding 1(4) by fastforce
  moreover have "take (nat nb) (drop ?i (overlay (tab_registers ?mm) ?i (take (nat nb) src))) = take (nat nb) src"
    using fit by (simp add: overlay_def)
  ultimately show ?thesis using 1(1) by auto
qed

theorem tcp_client_writes_server_witness:
  "\<exists>d w'. modbus_write_registers (served_net ''3.1.6'' 3) (tcp_backend (served_net ''3.1.6'' 3) (\<lambda>_ _. ())) 1 2 [7, 8]
     (replicate 260 0) (replicate 260 0) tcp_ctx (small_mapping, []) = Some (2, tcp_ctx\<lparr>backend_data := d\<rparr>, w') \<and>
   tab_registers (fst w') = overlay (tab_registers small_mapping) 1 [7, 8]"
proof -
  have r: "in_range 0 4 1 2" by (simp add: in_range_def)
  have ready: "client_ready (tcp_backend (served_net ''3.1.6'' 3) (\<lambda>_ _. ())) tcp_adu (\<lambda>_ _. True) snd fst
      (server_spec ''3.1.6'') tcp_ctx"
    by (rule served_net_ready) (simp_all add: tcp_ctx_settings)
  show ?thesis
    using tcp_client_writes_server [OF _ _ _ _ _ _ _ _ ready, of 2 "[7, 8]" 1 "replicate 260 0" "replicate 260 0" "(small_mapping, [])"] r
    by (auto simp: small_mapping_def)
qed

theorem tcp_write_read_back_witness:
  "\<exists>ctx1 w1 d w2. modbus_write_registers (served_net ''3.1.6'' 3) (tcp_backend (served_net ''3.1.6'' 3) (\<lambda>_ _. ())) 1 2 [7, 8]
     (replicate 260 0) (replicate 260 0) tcp_ctx (small_mapping, []) = Some (2, ctx1, w1) \<and>
   modbus_read_registers (served_net ''3.1.6'' 3) (tcp_backend (served_net ''3.1.6'' 3) (\<lambda>_ _. ())) 1 2
     (replicate 12 0) (replicate 260 0) [0, 0, 77] ctx1 w1 = Some (2, [7, 8, 77], tcp_ctx\<lparr>backend_data := d\<rparr>, w2)"
proof -
  have r: "in_range 0 4 1 2" by (simp add: in_range_def)
  have ready: "client_ready (tcp_backend (served_net ''3.1.6'' 3) (\<lambda>_ _. ())) tcp_adu (\<lambda>_ _. True) snd fst
      (server_spec ''3.1.6'') tcp_ctx"
    by (rule served_net_ready) (simp_all add: tcp_ctx_settings)
  show ?thesis
    using tcp_write_read_back [OF _ _ _ _ _ _ _ _ _ _ _ ready, of 2 "[7, 8]" "[0, 0, 77]" 1 "replicate 260 0" "replicate 260 0"
        "replicate 12 0" "replicate 260 0" "(small_mapping, [])"] r
    by (simp add: small_mapping_def overlay_def)
qed

end
