(* ===== verification/Board_Util.thy ===== *)
theory Board_Util
  imports Neuron_Prelude
begin

text \<open>
  \<open>armutil.c\<close> and \<open>armutil.h\<close>: the version registers of a board, the tables of
  known boards and upper boards, and the firmware file names derived from them. A C string
  is a \<open>string\<close> without its terminating zero; \<open>strcpy\<close> and \<open>sprintf\<close> into a block are
  \<open>str_into\<close>, which faults when the text and its terminator do not fit.
\<close>

section \<open>Version registers\<close>

text \<open>The macros of \<open>armutil.h\<close> work on C integers after promotion.\<close>

definition IS_CALIB :: "int \<Rightarrow> bool" where "IS_CALIB hw \<longleftrightarrow> hw AND 0x8 \<noteq> 0"
definition HW_BOARD :: "int \<Rightarrow> int" where "HW_BOARD hw = drop_bit 8 hw"
definition HW_MAJOR :: "int \<Rightarrow> int" where "HW_MAJOR hw = drop_bit 4 (hw AND 0xf0)"
definition HW_MINOR :: "int \<Rightarrow> int" where "HW_MINOR hw = hw AND 0x07"
definition SW_MAJOR :: "int \<Rightarrow> int" where "SW_MAJOR sw = drop_bit 8 sw"
definition SW_MINOR :: "int \<Rightarrow> int" where "SW_MINOR sw = sw AND 0xff"

record Tboard_version =
  sw_version :: u16
  hw_version :: u16
  base_hw_version :: u16
  di_count :: u8
  do_count :: u8
  ai_count :: u8
  ao_count :: u8
  uart_count :: u8
  uled_count :: u16
  int_mask_register :: u16

text \<open>
  \<open>parse_version(bv, r1000)\<close>. The caller passes five registers; the stores to the
  structure are made in the source's order, so later ones see the earlier ones.
\<close>

definition parse_version :: "Tboard_version \<Rightarrow> u16 list \<Rightarrow> Tboard_version" where
  "parse_version bv r1000 =
     (let bv = bv\<lparr>sw_version := r1000 ! 0, hw_version := r1000 ! 3, base_hw_version := r1000 ! 4,
            di_count := hi8 (r1000 ! 1), do_count := lo8 (r1000 ! 1),
            ai_count := hi8 (r1000 ! 2),
            ao_count := ucast (drop_bit 4 (r1000 ! 2 AND 0xff)),
            uart_count := ucast (r1000 ! 2 AND 0x0f),
            uled_count := 0, int_mask_register := 1007\<rparr>;
          sw = uint (sw_version bv);
          bv = (if SW_MAJOR sw < 4 then
                  bv\<lparr>hw_version := word_of_int (push_bit 4 (SW_MINOR sw AND 0xff) OR (SW_MINOR sw AND 0x0f)),
                     sw_version := sw_version bv AND 0xff00,
                     int_mask_register := 1003\<rparr>
                else
                  (let bv = (if sw_version bv < 0x0403 then bv\<lparr>int_mask_register := 1004\<rparr> else bv)
                   in if HW_BOARD (uint (hw_version bv)) = 0 \<and> sw_version bv \<noteq> 0x0400
                      then bv\<lparr>uled_count := 4\<rparr> else bv))
      in if HW_BOARD (uint (base_hw_version bv)) = 0x0b \<and> HW_MAJOR (uint (base_hw_version bv)) \<le> 1
         then bv\<lparr>int_mask_register := 0\<rparr> else bv)"

definition get_board_speed :: "Tboard_version \<Rightarrow> int" where
  "get_board_speed bv =
     (if HW_BOARD (uint (base_hw_version bv)) = 11 then 8000000 else 12000000)"

section \<open>Known boards\<close>

record Tboards_map =
  um_board :: u8
  um_subver :: u8
  um_name :: string

record Tcompatibility_map =
  cm_board :: u8
  cm_baseboard :: u8
  cm_upboard :: u8
  cm_name :: string

definition up_boards :: "Tboards_map list" where
  "up_boards = [
     \<lparr>um_board = 0, um_subver = 0, um_name = ''''\<rparr>,
     \<lparr>um_board = 1, um_subver = 16, um_name = ''P-11DiR485''\<rparr>,
     \<lparr>um_board = 2, um_subver = 16, um_name = ''U-14Ro''\<rparr>,
     \<lparr>um_board = 3, um_subver = 16, um_name = ''U-14Di''\<rparr>,
     \<lparr>um_board = 4, um_subver = 16, um_name = ''P-6Di5Ro''\<rparr>,
     \<lparr>um_board = 5, um_subver = 16, um_name = ''U-6Di5Ro''\<rparr>,
     \<lparr>um_board = 13, um_subver = 16, um_name = ''B-485''\<rparr>]"

definition compatibility_map :: "Tcompatibility_map list" where
  "compatibility_map = [
     \<lparr>cm_board = 0, cm_baseboard = 0, cm_upboard = 0, cm_name = ''B-1000''\<rparr>,
     \<lparr>cm_board = 1, cm_baseboard = 1, cm_upboard = 0, cm_name = ''E-8Di8Ro''\<rparr>,
     \<lparr>cm_board = 2, cm_baseboard = 2, cm_upboard = 0, cm_name = ''E-14Ro''\<rparr>,
     \<lparr>cm_board = 3, cm_baseboard = 3, cm_upboard = 0, cm_name = ''E-16Di''\<rparr>,
     \<lparr>cm_board = 4, cm_baseboard = 1, cm_upboard = 1, cm_name = ''E-8Di8Ro_P-11DiR485''\<rparr>,
     \<lparr>cm_board = 5, cm_baseboard = 2, cm_upboard = 1, cm_name = ''E-14Ro_P-11DiR485''\<rparr>,
     \<lparr>cm_board = 6, cm_baseboard = 3, cm_upboard = 1, cm_name = ''E-16Di_P-11DiR485''\<rparr>,
     \<lparr>cm_board = 7, cm_baseboard = 2, cm_upboard = 2, cm_name = ''E-14Ro_U-14Ro''\<rparr>,
     \<lparr>cm_board = 8, cm_baseboard = 3, cm_upboard = 2, cm_name = ''E-16Di_U-14Ro''\<rparr>,
     \<lparr>cm_board = 9, cm_baseboard = 2, cm_upboard = 3, cm_name = ''E-14Ro_U-14Di''\<rparr>,
     \<lparr>cm_board = 10, cm_baseboard = 3, cm_upboard = 3, cm_name = ''E-16Di_U-14Di''\<rparr>,
     \<lparr>cm_board = 11, cm_baseboard = 11, cm_upboard = 0, cm_name = ''E-4Ai4Ao''\<rparr>,
     \<lparr>cm_board = 12, cm_baseboard = 11, cm_upboard = 4, cm_name = ''E-4Ai4Ao_P-6Di5Ro''\<rparr>,
     \<lparr>cm_board = 13, cm_baseboard = 0, cm_upboard = 13, cm_name = ''B-485''\<rparr>,
     \<lparr>cm_board = 14, cm_baseboard = 14, cm_upboard = 0, cm_name = ''E-4Dali''\<rparr>,
     \<lparr>cm_board = 15, cm_baseboard = 11, cm_upboard = 5, cm_name = ''E-4Ai4Ao_U-6Di5Ro''\<rparr>]"

text \<open>The table searches return a pointer to the first match, or \<open>NULL\<close>.\<close>

definition get_umap :: "int \<Rightarrow> Tboards_map option" where
  "get_umap board = List.find (\<lambda>m. uint (um_board m) = board) up_boards"

definition get_map :: "int \<Rightarrow> Tcompatibility_map option" where
  "get_map board = List.find (\<lambda>m. uint (cm_board m) = board) compatibility_map"

definition arm_name :: "u16 \<Rightarrow> string" where
  "arm_name hw = (case get_map (HW_BOARD (uint hw)) of
     None \<Rightarrow> ''UNKNOWN BOARD'' | Some m \<Rightarrow> cm_name m)"

definition upboard_exists :: "int \<Rightarrow> bool" where
  "upboard_exists board \<longleftrightarrow> get_umap board \<noteq> None"

text \<open>
  \<open>check_compatibility(hw_base, upboard)\<close>: the loop over the table stops at the first
  match; the pointer returned by \<open>get_umap\<close> is dereferenced unchecked.
\<close>

fun check_compat_loop :: "Tcompatibility_map list \<Rightarrow> u8 \<Rightarrow> int \<Rightarrow> int \<Rightarrow> int option" where
  "check_compat_loop [] board hw_base upboard = Some 0"
| "check_compat_loop (m # ms) board hw_base upboard =
     (if cm_baseboard m = board \<and> uint (cm_upboard m) = upboard then
        do { umap \<leftarrow> get_umap upboard;
             Some (if um_subver umap = 0
                   then push_bit 8 (uint (cm_board m)) OR (hw_base AND 0xff)
                   else push_bit 8 (uint (cm_board m)) OR (uint (um_subver umap) AND 0xff)) }
      else check_compat_loop ms board hw_base upboard)"

definition check_compatibility :: "int \<Rightarrow> int \<Rightarrow> int option" where
  "check_compatibility hw_base upboard =
     check_compat_loop compatibility_map (word_of_int (drop_bit 8 hw_base)) hw_base upboard"

text \<open>\<open>print_upboards(filter)\<close>: the lines it prints, as the entries they show.\<close>

definition print_upboards :: "int \<Rightarrow> Tboards_map list" where
  "print_upboards flt =
     filter (\<lambda>u. flt = -1 \<or> check_compatibility flt (uint (um_board u)) \<noteq> Some 0) up_boards"

section \<open>Firmware file names\<close>

text \<open>Decimal notation as \<open>%d\<close> prints a number that is not negative.\<close>

fun dec_nat :: "nat \<Rightarrow> string" where
  "dec_nat n = (if n < 10 then [char_of (48 + n)]
                else dec_nat (n div 10) @ [char_of (48 + n mod 10)])"

declare dec_nat.simps [simp del]

definition str_into :: "nat \<Rightarrow> string \<Rightarrow> string option" where
  "str_into cap s = (if length s < cap then Some s else None)"

text \<open>\<open>if (strlen(fwname) && fwname[strlen(fwname)-1] != '/') strcat(fwname, "/")\<close>\<close>

definition dir_prefix :: "string \<Rightarrow> string" where
  "dir_prefix fwdir = (if fwdir \<noteq> [] \<and> last fwdir \<noteq> CHR ''/'' then fwdir @ ''/'' else fwdir)"

text \<open>
  \<open>firmware_name(hw_version, hw_base, fwdir, ext)\<close>. The inner \<open>None\<close> is the \<open>NULL\<close> the
  function returns; the outer \<open>None\<close> is a fault: a \<open>NULL\<close> dereference or a write past
  the allocated block. \<open>heap n\<close> tells whether \<open>malloc\<close> of \<open>n\<close> bytes succeeds; its result is
  given to \<open>strcpy\<close> unchecked, so a refused block is a fault.
\<close>

definition malloc_str :: "(nat \<Rightarrow> bool) \<Rightarrow> nat \<Rightarrow> string \<Rightarrow> string option" where
  "malloc_str heap cap s = (if heap cap then str_into cap s else None)"

definition firmware_name ::
  "(nat \<Rightarrow> bool) \<Rightarrow> int \<Rightarrow> int \<Rightarrow> string \<Rightarrow> string \<Rightarrow> string option option" where
  "firmware_name heap hw hw_base fwdir ext =
     (let calibrate = IS_CALIB hw;
          board_version = (word_of_int (HW_MAJOR hw) :: u8)
      in case get_map (HW_BOARD hw) of
        None \<Rightarrow> Some None
      | Some m \<Rightarrow>
          if cm_baseboard m = cm_board m then
            do { let armname = cm_name m;
                 let cap = length fwdir + length armname + length ext + 2 + 4;
                 fwname \<leftarrow> malloc_str heap cap (dir_prefix fwdir @ armname @ ''-'' @
                   dec_nat (unat board_version) @ (if calibrate then ''C'' else '''') @ ext);
                 Some (Some fwname) }
          else (case get_map (HW_BOARD hw_base) of
            None \<Rightarrow> Some None
          | Some basemap \<Rightarrow>
              let base_version = (word_of_int (HW_MAJOR hw_base) :: u8)
              in if cm_board basemap \<noteq> cm_baseboard m then Some None
              else do { let basename = cm_name basemap;
                        umap \<leftarrow> get_umap (uint (cm_upboard m));
                        let uname = um_name umap;
                        let cap = length fwdir + length basename + length uname + length ext
                                  + 2 + 4 + 1 + 4;
                        fwname \<leftarrow> malloc_str heap cap (dir_prefix fwdir @ basename @ ''-'' @
                          dec_nat (unat base_version) @ ''_'' @ uname @ ''-'' @
                          dec_nat (unat board_version) @ (if calibrate then ''C'' else '''') @ ext);
                        Some (Some fwname) }))"

section \<open>Properties\<close>

lemma length_dec_nat1: "n < 10 \<Longrightarrow> length (dec_nat n) = 1"
  by (subst dec_nat.simps) simp

lemma length_dec_nat: "n < 100 \<Longrightarrow> length (dec_nat n) \<le> 2"
  using length_dec_nat1 [of "n div 10"] by (subst dec_nat.simps) auto

lemma length_dir_prefix: "length (dir_prefix fwdir) \<le> length fwdir + 1"
  by (simp add: dir_prefix_def)

lemma uint_HW_MAJOR:
  "uint (word_of_int (HW_MAJOR hw) :: u8) = HW_MAJOR hw" "0 \<le> HW_MAJOR hw" "HW_MAJOR hw < 16"
proof -
  have "hw AND 0xf0 \<le> 0xf0" and "0 \<le> hw AND 0xf0"
    by (simp_all add: AND_upper2)
  then have "0 \<le> (hw AND 0xf0) div 16" and "(hw AND 0xf0) div 16 < 16"
    by arith+
  then show "0 \<le> HW_MAJOR hw" and "HW_MAJOR hw < 16"
    by (simp_all add: HW_MAJOR_def drop_bit_eq_div)
  then show "uint (word_of_int (HW_MAJOR hw) :: u8) = HW_MAJOR hw"
    by (simp add: unsigned_of_int take_bit_int_eq_self_iff)
qed

lemma unat_HW_MAJOR: "unat (word_of_int (HW_MAJOR hw) :: u8) < 100"
  using uint_HW_MAJOR [of hw] by (simp add: unat_eq_nat_uint)

text \<open>What the tables promise; each line is checked by evaluation over the whole table.\<close>

lemma compatibility_map_upboards:
  "list_all (\<lambda>m. get_umap (uint (cm_upboard m)) \<noteq> None) compatibility_map"
  by code_simp

lemma compatibility_map_boards:
  "list_all (\<lambda>m. get_map (uint (cm_board m)) = Some m) compatibility_map"
  by code_simp

lemma compatibility_map_baseboards:
  "list_all (\<lambda>m. case get_map (uint (cm_baseboard m)) of None \<Rightarrow> False
      | Some b \<Rightarrow> cm_board b = cm_baseboard m \<and> cm_baseboard b = cm_board b) compatibility_map"
  by code_simp

lemma find_SomeD: "List.find P xs = Some x \<Longrightarrow> x \<in> set xs \<and> P x"
  by (auto simp: find_Some_iff)

lemma get_mapD:
  assumes "get_map b = Some m"
  shows "m \<in> set compatibility_map" and "uint (cm_board m) = b"
  using find_SomeD [OF assms [unfolded get_map_def]] by auto

lemma get_umap_of_map: "m \<in> set compatibility_map \<Longrightarrow> \<exists>u. get_umap (uint (cm_upboard m)) = Some u"
  using compatibility_map_upboards by (auto simp: list_all_iff)

text \<open>The two outcomes: no name, or a name with the block it is written to.\<close>

lemma firmware_name_cases:
  obtains "\<And>heap. firmware_name heap hw hw_base fwdir ext = Some None"
  | n path where "length path < n"
      "\<And>heap. firmware_name heap hw hw_base fwdir ext = (if heap n then Some (Some path) else None)"
proof -
  have len: "length (dec_nat (unat (word_of_int (HW_MAJOR v) :: u8))) \<le> 2" for v
    by (rule length_dec_nat [OF unat_HW_MAJOR])
  note len = len [of hw] len [of hw_base] length_dir_prefix [of fwdir]
  show thesis
  proof (cases "get_map (HW_BOARD hw)")
    case None
    then show thesis by (intro that(1)) (simp add: firmware_name_def)
  next
    case (Some m)
    obtain u where u: "get_umap (uint (cm_upboard m)) = Some u"
      using get_umap_of_map [OF get_mapD(1) [OF Some]] by blast
    show thesis
    proof (cases "cm_baseboard m = cm_board m")
      case True
      let ?p = "dir_prefix fwdir @ cm_name m @ ''-'' @ dec_nat (unat (word_of_int (HW_MAJOR hw) :: u8)) @
          (if IS_CALIB hw then ''C'' else '''') @ ext"
      have "length ?p < length fwdir + length (cm_name m) + length ext + 2 + 4"
        using len by simp
      then show thesis
        by (rule that(2))
          (use Some True len in \<open>simp add: firmware_name_def malloc_str_def str_into_def Let_def\<close>)
    next
      case up: False
      show thesis
      proof (cases "\<exists>b. get_map (HW_BOARD hw_base) = Some b \<and> cm_board b = cm_baseboard m")
        case True
        then obtain b where b: "get_map (HW_BOARD hw_base) = Some b" "cm_board b = cm_baseboard m" by blast
        let ?p = "dir_prefix fwdir @ cm_name b @ ''-'' @ dec_nat (unat (word_of_int (HW_MAJOR hw_base) :: u8)) @
            ''_'' @ um_name u @ ''-'' @ dec_nat (unat (word_of_int (HW_MAJOR hw) :: u8)) @
            (if IS_CALIB hw then ''C'' else '''') @ ext"
        have "length ?p < length fwdir + length (cm_name b) + length (um_name u) + length ext + 2 + 4 + 1 + 4"
          using len by simp
        then show thesis
          by (rule that(2))
            (use Some up b u len in \<open>simp add: firmware_name_def malloc_str_def str_into_def Let_def\<close>)
      next
        case False
        with Some up show thesis
          by (intro that(1)) (auto simp: firmware_name_def Let_def split: option.split)
      qed
    qed
  qed
qed

text \<open>
  C40. The blocks that \<open>firmware_name\<close> allocates are large enough for every name, and the tables
  it looks up are complete: whatever the version words, the directory and the extension, it
  does not fault when its \<open>malloc\<close> succeeds. Where it returns \<open>NULL\<close>, it does so without
  allocating; where it has a name, it needs one block of more bytes than the name has, and a
  refusal of that block is a fault, because the result of \<open>malloc\<close> is not checked.
\<close>

theorem firmware_name_fits:
  "case firmware_name (\<lambda>_. True) hw hw_base fwdir ext of
     None \<Rightarrow> False
   | Some None \<Rightarrow> firmware_name heap hw hw_base fwdir ext = Some None
   | Some (Some path) \<Rightarrow>
       \<exists>n > length path. firmware_name heap hw hw_base fwdir ext = (if heap n then Some (Some path) else None)"
  by (rule firmware_name_cases [of hw hw_base fwdir ext]) auto

lemma check_compat_loop_SomeD:
  assumes "check_compat_loop ms board hw_base upboard = Some r" and "r \<noteq> 0"
  shows "\<exists>m v. m \<in> set ms \<and> cm_baseboard m = board \<and>
           r = push_bit 8 (uint (cm_board m)) OR (v AND 0xff)"
  using assms
  by (induction ms board hw_base upboard rule: check_compat_loop.induct)
    (auto split: if_splits Option.bind_splits)

lemma HW_BOARD_join:
  "HW_BOARD (push_bit 8 b OR (v AND 0xff)) = b"
proof -
  have "drop_bit 8 (v AND 0xff) = 0"
    by (simp add: drop_bit_and)
  moreover have "drop_bit 8 (push_bit 8 b) = b"
    by (simp add: drop_bit_push_bit)
  ultimately show ?thesis by (simp add: HW_BOARD_def drop_bit_or)
qed

lemma HW_BOARD_u16: "uint (word_of_int (HW_BOARD (uint (v :: u16))) :: u8) = HW_BOARD (uint v)"
proof -
  have "0 \<le> uint v div 256" and "uint v div 256 < 256"
    using uint16_bounds [of v] by arith+
  then show ?thesis
    by (simp add: HW_BOARD_def drop_bit_eq_div unsigned_of_int take_bit_int_eq_self_iff)
qed

text \<open>
  A combination of boards that \<open>check_compatibility\<close> accepts has a firmware file: the
  version word it returns, together with the base board's, is one \<open>firmware_name\<close> has a
  name for. The flashing tools rely on it: they pass the name on without a check.
\<close>

theorem check_compatibility_has_firmware:
  assumes "check_compatibility (uint (base :: u16)) upboard = Some r" and "r \<noteq> 0"
  shows "\<exists>fwname. firmware_name (\<lambda>_. True) r (uint base) fwdir ext = Some (Some fwname)"
proof -
  let ?board = "word_of_int (HW_BOARD (uint base)) :: u8"
  obtain m v where m: "m \<in> set compatibility_map" "cm_baseboard m = ?board"
    and r: "r = push_bit 8 (uint (cm_board m)) OR (v AND 0xff)"
    using check_compat_loop_SomeD [OF assms [unfolded check_compatibility_def]]
    unfolding HW_BOARD_def by metis
  have "get_map (HW_BOARD r) = Some m"
    using m(1) compatibility_map_boards by (simp add: r HW_BOARD_join list_all_iff)
  moreover have base: "uint (cm_baseboard m) = HW_BOARD (uint base)"
    unfolding m(2) by (rule HW_BOARD_u16)
  have "case get_map (HW_BOARD (uint base)) of None \<Rightarrow> False
      | Some b \<Rightarrow> cm_board b = cm_baseboard m \<and> cm_baseboard b = cm_board b"
    using bspec [OF compatibility_map_baseboards [unfolded list_all_iff] m(1)] unfolding base .
  then obtain b where "get_map (HW_BOARD (uint base)) = Some b" "cm_board b = cm_baseboard m"
    by (cases "get_map (HW_BOARD (uint base))") simp_all
  ultimately have "firmware_name (\<lambda>_. True) r (uint base) fwdir ext \<noteq> Some None"
    by (simp add: firmware_name_def Let_def bind_eq_Some_conv)
  then show ?thesis
    by (cases rule: firmware_name_cases [of r "uint base" fwdir ext]) auto
qed

theorem check_compatibility_has_firmware_witness:
  "\<exists>fwname. firmware_name (\<lambda>_. True) 0x0410 0x0110 ''/opt/fw'' ''.bin'' = Some (Some fwname)"
proof -
  have "check_compatibility (uint (0x0110 :: u16)) 1 = Some 0x0410" by code_simp
  then show ?thesis
    using check_compatibility_has_firmware [of "0x0110" 1 "0x0410" "''/opt/fw''" "''.bin''"] by simp
qed

text \<open>
  \<open>parse_version\<close> sets every field of the structure it is given: the result does
  not depend on what the structure held before (the flashing tools pass an uninitialised one).
\<close>

theorem parse_version_total: "parse_version bv r1000 = parse_version bv' r1000"
  by (cases bv, cases bv') (simp only: parse_version_def Tboard_version.update_convs)

end
