(* ===== verification/Os_Calls.thy ===== *)
theory Os_Calls
  imports Neuron_Prelude
begin

text \<open>
  The operating system as the program sees it: the system calls it makes, collected in a
  record of functions over an arbitrary state \<open>'w\<close> of the outside world. Nothing is
  assumed of them here; a theorem that needs documented behaviour of a call names it as a
  hypothesis.
\<close>

text \<open>
  \<open>os_spi_message fd out w\<close> is \<open>ioctl(fd, SPI_IOC_MESSAGE(n), tr)\<close>: \<open>out\<close> holds, for
  each of the \<open>n\<close> transfers, its \<open>delay_usecs\<close> and the bytes shifted out; the result is
  the return value and the bytes shifted in, in order. \<open>os_read fd n w\<close> returns the
  result of \<open>read\<close> and the bytes it stored; \<open>os_send\<close> and \<open>os_read\<close> also return
  \<open>errno\<close>.
\<close>

record 'w os =
  os_spi_message :: "int \<Rightarrow> (nat \<times> u8 list) list \<Rightarrow> 'w \<Rightarrow> int \<times> u8 list \<times> 'w"
  os_spi_speed :: "int \<Rightarrow> int \<Rightarrow> 'w \<Rightarrow> 'w"
  os_open :: "string \<Rightarrow> 'w \<Rightarrow> int \<times> 'w"
  os_close :: "int \<Rightarrow> 'w \<Rightarrow> 'w"
  os_read :: "int \<Rightarrow> nat \<Rightarrow> 'w \<Rightarrow> int \<times> u8 list \<times> int \<times> 'w"
  os_write :: "int \<Rightarrow> u8 list \<Rightarrow> 'w \<Rightarrow> int \<times> 'w"
  os_send :: "int \<Rightarrow> u8 list \<Rightarrow> 'w \<Rightarrow> int \<times> int \<times> 'w"
  os_cflag :: "int \<Rightarrow> 'w \<Rightarrow> u32 option \<times> 'w"
  os_file :: "string \<Rightarrow> 'w \<Rightarrow> u8 list option"

definition EAGAIN :: int where "EAGAIN = 11"

end
