(* ===== verification/Uart_Queue.thy ===== *)
theory Uart_Queue
  imports Neuron_Prelude
begin

text \<open>
  The local queue of characters received from a UART (\<open>uart_queue\<close> in \<open>armspi.h\<close>): its
  operations in \<open>armspi.c\<close> (\<open>queue_uart\<close>, the queue part of \<open>read_string\<close>,
  \<open>read_qstring\<close>) and the contract they implement, a bounded first-in first-out queue.
\<close>

section \<open>State and operations\<close>

definition MAX_LOCAL_QUEUE_LEN :: int where "MAX_LOCAL_QUEUE_LEN = 256"

record uart_queue =
  q_index :: int
  q_buffer :: mem
  q_remain :: int
  q_overflow :: int
  q_masterpty :: int

definition queue_uart :: "u8 \<Rightarrow> u8 \<Rightarrow> uart_queue \<Rightarrow> uart_queue option" where
  "queue_uart chr1 len q =
     (let q = q\<lparr>q_remain := (if len = 0 then 255 else uint len - 1)\<rparr>
      in if q_index q < MAX_LOCAL_QUEUE_LEN then
           do { b \<leftarrow> wr_blk (q_buffer q) (q_index q) [chr1];
                Some (q\<lparr>q_buffer := b, q_index := q_index q + 1\<rparr>) }
         else Some (q\<lparr>q_overflow := q_overflow q + 1\<rparr>))"

text \<open>
  The end of \<open>read_string\<close>, after a reply was accepted: \<open>rx2\<close> is the receive buffer,
  \<open>rcnt\<close> and \<open>rem\<close> are the \<open>len\<close> and \<open>remain\<close> fields of its header, and \<open>str\<close> is the
  caller's buffer from the offset \<open>off\<close> on. Characters of the local queue come first;
  \<open>join_rest\<close> is the part after the queue has been used up.
\<close>

definition join_rest ::
  "mem \<Rightarrow> int \<Rightarrow> int \<Rightarrow> int \<Rightarrow> mem \<Rightarrow> int \<Rightarrow> uart_queue \<Rightarrow> (int \<times> mem \<times> uart_queue) option" where
  "join_rest rx2 rcnt cnt n str off q =
     (let n2 = (if rcnt < cnt then rcnt else cnt)
      in do { bs \<leftarrow> rd_blk rx2 4 n2;
              str \<leftarrow> wr_blk str (off + n) bs;
              if rcnt > cnt then
                do { let i = (if rcnt - cnt > MAX_LOCAL_QUEUE_LEN then MAX_LOCAL_QUEUE_LEN
                              else rcnt - cnt);
                     bs \<leftarrow> rd_blk rx2 (4 + cnt) i;
                     b \<leftarrow> wr_blk (q_buffer q) 0 bs;
                     Some (n + n2, str, q\<lparr>q_index := i, q_buffer := b\<rparr>) }
              else Some (n + n2, str, q) })"

definition join_queue ::
  "mem \<Rightarrow> int \<Rightarrow> int \<Rightarrow> int \<Rightarrow> mem \<Rightarrow> int \<Rightarrow> uart_queue \<Rightarrow> (int \<times> mem \<times> uart_queue) option" where
  "join_queue rx2 rcnt rem cnt str off q =
     (let q = q\<lparr>q_remain := rem\<rparr>;
          n = (if q_index q < cnt then q_index q else cnt)
      in if n > 0 then
           do { bs \<leftarrow> rd_blk (q_buffer q) 0 n;
                str \<leftarrow> wr_blk str off bs;
                if n < q_index q then
                  do { bs \<leftarrow> rd_blk (q_buffer q) n (q_index q - n);
                       b \<leftarrow> wr_blk (q_buffer q) 0 bs;
                       let q = q\<lparr>q_buffer := b, q_index := q_index q - n\<rparr>;
                       let rcnt = (if q_index q + rcnt > MAX_LOCAL_QUEUE_LEN
                                   then MAX_LOCAL_QUEUE_LEN - q_index q else rcnt);
                       bs \<leftarrow> rd_blk rx2 4 rcnt;
                       b \<leftarrow> wr_blk (q_buffer q) (q_index q) bs;
                       Some (n, str, q\<lparr>q_buffer := b, q_index := q_index q + rcnt\<rparr>) }
                else join_rest rx2 rcnt (cnt - n) n str off (q\<lparr>q_index := 0\<rparr>) }
         else join_rest rx2 rcnt cnt n str off q)"

text \<open>The body of \<open>read_qstring\<close>, which takes characters from the local queue only.\<close>

definition take_queue ::
  "int \<Rightarrow> mem \<Rightarrow> int \<Rightarrow> uart_queue \<Rightarrow> (int \<times> mem \<times> uart_queue) option" where
  "take_queue cnt str off q =
     (let n = (if q_index q < cnt then q_index q else cnt)
      in if n > 0 then
           do { bs \<leftarrow> rd_blk (q_buffer q) 0 n;
                str \<leftarrow> wr_blk str off bs;
                if n < q_index q then
                  do { bs \<leftarrow> rd_blk (q_buffer q) n (q_index q - n);
                       b \<leftarrow> wr_blk (q_buffer q) 0 bs;
                       Some (n, str, q\<lparr>q_buffer := b, q_index := q_index q - n\<rparr>) }
                else Some (n, str, q\<lparr>q_index := 0\<rparr>) }
         else Some (0, str, q))"

section \<open>Invariant and contents\<close>

definition wf_queue :: "uart_queue \<Rightarrow> bool" where
  "wf_queue q \<longleftrightarrow> length (q_buffer q) = 256 \<and> 0 \<le> q_index q \<and> q_index q \<le> 256"

definition content :: "uart_queue \<Rightarrow> u8 list" where
  "content q = take (nat (q_index q)) (q_buffer q)"

lemma length_content: "wf_queue q \<Longrightarrow> length (content q) = nat (q_index q)"
  by (auto simp: wf_queue_def content_def nat_le_iff)

lemma wf_queue_index:
  assumes "wf_queue q"
  obtains k where "q_index q = int k" "k \<le> 256" "length (q_buffer q) = 256"
    "content q = take k (q_buffer q)" "length (content q) = k"
proof (rule that)
  show "q_index q = int (nat (q_index q))" and "nat (q_index q) \<le> 256"
    and "length (q_buffer q) = 256"
    using assms by (simp_all add: wf_queue_def nat_le_iff)
  show "length (content q) = nat (q_index q)" by (rule length_content [OF assms])
qed (rule content_def)

section \<open>The operations on the contents\<close>

lemma queue_uart_spec:
  assumes "wf_queue q"
  shows "\<exists>q'. queue_uart c len q = Some q' \<and> wf_queue q' \<and> q_masterpty q' = q_masterpty q \<and>
           content q' = take 256 (content q @ [c])"
  using assms
proof (rule wf_queue_index)
  fix k assume k: "q_index q = int k" "k \<le> 256" "length (q_buffer q) = 256"
    and c: "content q = take k (q_buffer q)" "length (content q) = k"
  have "k < 256 \<Longrightarrow> take (Suc k) (overlay (q_buffer q) k [c]) = content q @ [c]"
    using k c take_overlay [of k "[c]" "q_buffer q"] by simp
  then show ?thesis
    using k c by (cases "k = 256")
      (auto simp: queue_uart_def MAX_LOCAL_QUEUE_LEN_def wf_queue_def no_fault content_def
        nat_add_distrib)
qed

lemma take_queue_spec:
  assumes "wf_queue q" and "0 \<le> off" and "nat off + n \<le> length str"
  shows "\<exists>q'. take_queue (int n) str off q =
             Some (int (length (take n (content q))), overlay str (nat off) (take n (content q)), q') \<and>
           wf_queue q' \<and> q_masterpty q' = q_masterpty q \<and> q_remain q' = q_remain q \<and>
           content q' = drop n (content q)"
  using assms(1)
proof (rule wf_queue_index)
  fix k assume k: "q_index q = int k" "k \<le> 256" "length (q_buffer q) = 256"
    and c: "content q = take k (q_buffer q)" "length (content q) = k"
  consider "n = 0" | "k = 0" | "0 < n" "n < k" | "0 < k" "k \<le> n" by linarith
  then show ?thesis
  proof cases
    case 3
    have mv: "take (k - n) (drop n (q_buffer q)) = drop n (content q)"
      by (simp add: c(1) drop_take)
    have "take (k - n) (overlay (q_buffer q) 0 (drop n (content q))) = drop n (content q)"
      using take_overlay_0 [of "drop n (content q)" "q_buffer q"] c k 3 by simp
    moreover have "nat (int k - int n) = k - n" using 3 by simp
    ultimately show ?thesis
      using 3 k c mv assms(2,3)
      by (simp add: take_queue_def Let_def no_fault wf_queue_def content_def min_def)
  next
    case 1
    with k c show ?thesis by (simp add: take_queue_def wf_queue_def)
  next
    case 2
    with k c show ?thesis by (simp add: take_queue_def wf_queue_def)
  next
    case 4
    have "(if q_index q < int n then q_index q else int n) = int k" using 4 k by auto
    with 4 k c assms(2,3) show ?thesis
      by (simp add: take_queue_def Let_def no_fault wf_queue_def content_def)
  qed
qed

text \<open>The characters a reply brings, from the offset 4 of the receive buffer on.\<close>

definition received :: "mem \<Rightarrow> nat \<Rightarrow> u8 list" where
  "received rx2 r = take r (drop 4 rx2)"

lemma length_received: "4 + r \<le> length rx2 \<Longrightarrow> length (received rx2 r) = r"
  by (simp add: received_def)

lemma join_rest_spec:
  assumes "wf_queue q" and "q_index q = 0" and "r \<le> 255" and "260 \<le> length rx2"
    and "0 \<le> off" and "nat off + n + c \<le> length str"
  shows "\<exists>q'. join_rest rx2 (int r) (int c) (int n) str off q =
             Some (int (n + length (take c (received rx2 r))),
                   overlay str (nat off + n) (take c (received rx2 r)), q') \<and>
           wf_queue q' \<and> q_masterpty q' = q_masterpty q \<and> q_remain q' = q_remain q \<and>
           content q' = drop c (received rx2 r)"
proof -
  have nat_off: "nat (off + int n) = nat off + n" using assms(5) by simp
  show ?thesis
  proof (cases "r \<le> c")
    case True
    then have "take c (received rx2 r) = received rx2 r" "drop c (received rx2 r) = []"
      by (simp_all add: received_def)
    with True assms nat_off show ?thesis
      by (auto simp: join_rest_def Let_def no_fault received_def content_def)
  next
    case False
    then have d: "nat (int r - int c) = r - c" "nat (4 + int c) = 4 + c"
      "length (drop c (received rx2 r)) = r - c" "take c (received rx2 r) = take c (drop 4 rx2)"
      "take (r - c) (drop (4 + c) rx2) = drop c (received rx2 r)"
      using assms by (simp_all add: received_def drop_take ac_simps)
    moreover have "take (r - c) (overlay (q_buffer q) 0 (drop c (received rx2 r))) =
        drop c (received rx2 r)"
      using take_overlay_0 [of "drop c (received rx2 r)" "q_buffer q"] assms d
      by (simp add: wf_queue_def)
    ultimately show ?thesis
      using False assms nat_off
      by (simp add: join_rest_def Let_def no_fault wf_queue_def content_def MAX_LOCAL_QUEUE_LEN_def)
  qed
qed

text \<open>
  The end of \<open>read_string\<close> on the contents: the caller receives the first \<open>c\<close>
  characters of the local queue followed by the reply, and what is left stays in the queue,
  up to its 256 places.
\<close>

lemma join_queue_spec:
  assumes "wf_queue q" and "r \<le> 255" and "260 \<le> length rx2" and "0 < c"
    and "0 \<le> off" and "nat off + c \<le> length str"
  defines "chars \<equiv> content q @ received rx2 r"
  shows "\<exists>q'. join_queue rx2 (int r) rem (int c) str off q =
             Some (int (length (take c chars)), overlay str (nat off) (take c chars), q') \<and>
           wf_queue q' \<and> q_masterpty q' = q_masterpty q \<and> q_remain q' = rem \<and>
           content q' = take 256 (drop c chars)"
  using assms(1)
proof (rule wf_queue_index)
  fix k assume k: "q_index q = int k" "k \<le> 256" "length (q_buffer q) = 256"
    and c: "content q = take k (q_buffer q)" "length (content q) = k"
  have lr: "length (received rx2 r) = r" using assms(2,3) by (simp add: length_received)
  show ?thesis
  proof (cases "c < k")
    case True
    define m where "m = min r (256 - (k - c))"
    define D where "D = drop c (content q)"
    define b where "b = overlay (q_buffer q) 0 D"
    have m: "m \<le> r" "k - c + m \<le> 256"
      "256 < int k - int c + int r \<Longrightarrow> nat (256 - (int k - int c)) = m"
      "256 < int k - int c + int r \<Longrightarrow> int k - int c + int m = 256"
      "\<not> 256 < int k - int c + int r \<Longrightarrow> m = r"
      "nat (int k - int c) = k - c" "nat (int k - int c + int m) = k - c + m"
      using True k(2) by (auto simp: m_def)
    have D: "length D = k - c" "take (k - c) (drop c (q_buffer q)) = D"
      using c by (simp_all add: D_def drop_take)
    have b: "length b = 256" "take (k - c) b = D"
      using take_overlay_0 [of D "q_buffer q"] k D(1) by (simp_all add: b_def)
    have eq: "join_queue rx2 (int r) rem (int c) str off q =
        Some (int c, overlay str (nat off) (take c (q_buffer q)),
              q\<lparr>q_remain := rem, q_buffer := overlay b (k - c) (take m (drop 4 rx2)),
                q_index := int k - int c + int m\<rparr>)"
      using True k(2,3) m(1,2) b(1) assms(2-6)
      by (simp add: join_queue_def Let_def no_fault MAX_LOCAL_QUEUE_LEN_def k(1) m(3-6) D b_def [symmetric])
    have "take (k - c + m) (overlay b (k - c) (take m (drop 4 rx2))) = D @ take m (drop 4 rx2)"
      using take_overlay [of "k - c" "take m (drop 4 rx2)" b] b m assms(2,3) by simp
    also have "\<dots> = D @ take (256 - (k - c)) (received rx2 r)"
      by (simp add: m_def received_def min.commute)
    also have "\<dots> = take 256 (drop c chars)"
      using True k(2) c(2) D(1) by (simp add: chars_def D_def [symmetric])
    finally have cont: "take (k - c + m) (overlay b (k - c) (take m (drop 4 rx2))) =
        take 256 (drop c chars)" .
    have "take c chars = take c (q_buffer q)" and "length (take c chars) = c"
      using True c unfolding chars_def by simp_all
    moreover have "int k - int c + int m \<le> 256" using True m(2) by linarith
    ultimately show ?thesis
      using True m(1,2) b(1) assms(2,3) cont by (simp add: eq wf_queue_def content_def m(7))
  next
    case False
    let ?q = "q\<lparr>q_remain := rem, q_index := 0\<rparr>"
    have wf: "wf_queue ?q" using assms(1) by (simp add: wf_queue_def)
    obtain q' where q': "join_rest rx2 (int r) (int (c - k)) (int k) (overlay str (nat off) (content q)) off ?q =
         Some (int (k + length (take (c - k) (received rx2 r))),
               overlay (overlay str (nat off) (content q)) (nat off + k) (take (c - k) (received rx2 r)), q')"
      "wf_queue q'" "q_masterpty q' = q_masterpty q" "q_remain q' = rem"
      "content q' = drop (c - k) (received rx2 r)"
      using join_rest_spec [OF wf, of r rx2 off k "c - k" "overlay str (nat off) (content q)"]
        assms False c by auto
    have tc: "take c chars = content q @ take (c - k) (received rx2 r)"
      "drop c chars = drop (c - k) (received rx2 r)"
      using False c unfolding chars_def by simp_all
    have ov: "overlay (overlay str (nat off) (content q)) (nat off + k) (take (c - k) (received rx2 r)) =
        overlay str (nat off) (take c chars)"
      using overlay_overlay [of "nat off" "content q" "take (c - k) (received rx2 r)" str]
        assms False c lr tc by simp
    have "join_queue rx2 (int r) rem (int c) str off q =
        join_rest rx2 (int r) (int (c - k)) (int k) (overlay str (nat off) (content q)) off ?q"
    proof (cases "k = 0")
      case True
      with k c assms(4) show ?thesis by (cases q) (simp add: join_queue_def)
    next
      case nz: False
      have "(if q_index q < int c then q_index q else int c) = int k" using False k by auto
      with nz False k c assms show ?thesis
        by (simp add: join_queue_def Let_def no_fault)
    qed
    with q' tc ov c lr assms(2) show ?thesis by simp
  qed
qed

section \<open>The contract: a bounded first-in first-out queue\<close>

text \<open>
  A sequence of arrivals and reads. \<open>fifo_run\<close> drives an implementation and collects
  what is read; \<open>fifo_spec\<close> does the same on a list of at most \<open>cap\<close> elements, where
  an arrival at a full queue is dropped.
\<close>

datatype 'a fifo_op = Put 'a | Get nat

fun fifo_run ::
  "('a \<Rightarrow> 'q \<Rightarrow> 'q option) \<Rightarrow> (nat \<Rightarrow> 'q \<Rightarrow> ('b list \<times> 'q) option) \<Rightarrow>
     'a fifo_op list \<Rightarrow> 'q \<Rightarrow> ('b list \<times> 'q) option" where
  "fifo_run put get [] q = Some ([], q)"
| "fifo_run put get (Put x # ops) q = do { q \<leftarrow> put x q; fifo_run put get ops q }"
| "fifo_run put get (Get n # ops) q =
     do { (xs, q) \<leftarrow> get n q; (ys, q) \<leftarrow> fifo_run put get ops q; Some (xs @ ys, q) }"

fun fifo_spec :: "nat \<Rightarrow> ('a \<Rightarrow> 'b) \<Rightarrow> 'a fifo_op list \<Rightarrow> 'b list \<Rightarrow> 'b list \<times> 'b list" where
  "fifo_spec cap val [] xs = ([], xs)"
| "fifo_spec cap val (Put x # ops) xs = fifo_spec cap val ops (take cap (xs @ [val x]))"
| "fifo_spec cap val (Get n # ops) xs =
     (let (ys, zs) = fifo_spec cap val ops (drop n xs) in (take n xs @ ys, zs))"

fun arrivals :: "'a fifo_op list \<Rightarrow> 'a list" where
  "arrivals [] = []"
| "arrivals (Put x # ops) = x # arrivals ops"
| "arrivals (Get n # ops) = arrivals ops"

text \<open>
  \<open>fits cap k ops\<close>: starting with \<open>k\<close> elements in the queue, at no moment of \<open>ops\<close> are more
  than \<open>cap\<close> elements outstanding, that is, received and not yet read. It bounds the backlog
  and not the length of the run.
\<close>

fun fits :: "nat \<Rightarrow> nat \<Rightarrow> 'a fifo_op list \<Rightarrow> bool" where
  "fits cap k [] \<longleftrightarrow> k \<le> cap"
| "fits cap k (Put x # ops) \<longleftrightarrow> k + 1 \<le> cap \<and> fits cap (k + 1) ops"
| "fits cap k (Get n # ops) \<longleftrightarrow> fits cap (k - n) ops"

lemma fifo_spec_lossless:
  "fits cap (length xs) ops \<Longrightarrow>
     fst (fifo_spec cap val ops xs) @ snd (fifo_spec cap val ops xs) = xs @ map val (arrivals ops)"
  by (induction cap val ops xs rule: fifo_spec.induct) (auto split: prod.splits)

locale bounded_fifo =
  fixes put :: "'a \<Rightarrow> 'q \<Rightarrow> 'q option"
    and get :: "nat \<Rightarrow> 'q \<Rightarrow> ('b list \<times> 'q) option"
    and val :: "'a \<Rightarrow> 'b"
    and inv :: "'q \<Rightarrow> bool"
    and cont :: "'q \<Rightarrow> 'b list"
    and cap :: nat
  assumes put_law: "inv q \<Longrightarrow> \<exists>q'. put x q = Some q' \<and> inv q' \<and> cont q' = take cap (cont q @ [val x])"
    and get_law: "inv q \<Longrightarrow> \<exists>q'. get n q = Some (take n (cont q), q') \<and> inv q' \<and> cont q' = drop n (cont q)"
begin

lemma run_refines_spec:
  "inv q \<Longrightarrow> \<exists>q'. fifo_run put get ops q = Some (fst (fifo_spec cap val ops (cont q)), q') \<and>
     inv q' \<and> cont q' = snd (fifo_spec cap val ops (cont q))"
proof (induction ops arbitrary: q)
  case (Cons op ops)
  show ?case
  proof (cases op)
    case (Put x)
    from put_law [OF Cons.prems, of x] obtain q1 where
      "put x q = Some q1" "inv q1" "cont q1 = take cap (cont q @ [val x])" by blast
    with Cons.IH [of q1] Put show ?thesis by simp
  next
    case (Get n)
    from get_law [OF Cons.prems, of n] obtain q1 where
      "get n q = Some (take n (cont q), q1)" "inv q1" "cont q1 = drop n (cont q)" by blast
    with Cons.IH [of q1] Get show ?thesis by (auto split: prod.splits)
  qed
qed simp

lemma run_lossless:
  assumes "inv q" and "fits cap (length (cont q)) ops"
  shows "\<exists>out q'. fifo_run put get ops q = Some (out, q') \<and> inv q' \<and>
           out @ cont q' = cont q @ map val (arrivals ops)"
  using run_refines_spec [OF assms(1), of ops] fifo_spec_lossless [OF assms(2), of val] by auto

end

text \<open>
  The program's queue: an arrival is \<open>queue_uart\<close> with a character and the length of the
  remote queue, a read is the body of \<open>read_qstring\<close> into a buffer of the size read.
\<close>

definition queue_put :: "u8 \<times> u8 \<Rightarrow> uart_queue \<Rightarrow> uart_queue option" where
  "queue_put = (\<lambda>(c, len) q. queue_uart c len q)"

definition queue_get :: "nat \<Rightarrow> uart_queue \<Rightarrow> (u8 list \<times> uart_queue) option" where
  "queue_get n q = do { (r, str, q) \<leftarrow> take_queue (int n) (replicate n 0) 0 q; Some (take (nat r) str, q) }"

lemma queue_get_spec:
  assumes "wf_queue q"
  shows "\<exists>q'. queue_get n q = Some (take n (content q), q') \<and> wf_queue q' \<and>
           content q' = drop n (content q)"
  using take_queue_spec [OF assms, of 0 n "replicate n 0"]
    take_overlay_0 [of "take n (content q)" "replicate n 0"]
  by (auto simp: queue_get_def)

interpretation uart: bounded_fifo queue_put queue_get fst wf_queue content 256
proof unfold_locales
  fix q :: uart_queue and x :: "u8 \<times> u8"
  assume "wf_queue q"
  then show "\<exists>q'. queue_put x q = Some q' \<and> wf_queue q' \<and> content q' = take 256 (content q @ [fst x])"
    using queue_uart_spec [of q "fst x" "snd x"] by (auto simp: queue_put_def split_beta)
qed (rule queue_get_spec)

text \<open>
  C15. In any interleaving of received characters (\<open>queue_uart\<close>) and reads of the local queue
  (\<open>read_qstring\<close>), however long, in which at no moment more than 256 characters are received
  and not yet read, every character is delivered exactly once and in the order of arrival,
  and no operation leaves the queue's buffer.
\<close>

theorem uart_queue_lossless:
  assumes "wf_queue q" and "fits 256 (length (content q)) ops"
  shows "\<exists>out q'. fifo_run queue_put queue_get ops q = Some (out, q') \<and> wf_queue q' \<and>
           out @ content q' = content q @ map fst (arrivals ops)"
  using assms by (rule uart.run_lossless)

definition empty_queue :: uart_queue where
  "empty_queue = \<lparr>q_index = 0, q_buffer = replicate 256 0, q_remain = 0, q_overflow = 0, q_masterpty = -1\<rparr>"

lemma fits_rounds: "fits 256 0 (concat (replicate n [Put (65, 2), Put (66, 1), Get 2]))"
  by (induction n) simp_all

lemma arrivals_rounds:
  "arrivals (concat (replicate n [Put (65, 2), Put (66, 1), Get 2])) =
     concat (replicate n [(65, 2), (66, 1)])"
  by (induction n) simp_all

lemma empty_queue_facts: "wf_queue empty_queue" "content empty_queue = []"
  by (simp_all add: empty_queue_def wf_queue_def content_def)

theorem uart_queue_lossless_witness:
  "\<exists>out q'. fifo_run queue_put queue_get
       (concat (replicate 1000 [Put (65, 2), Put (66, 1), Get 2])) empty_queue = Some (out, q') \<and>
     wf_queue q' \<and> out @ content q' = map fst (concat (replicate 1000 [(65, 2 :: u8), (66, 1)]))"
  using uart_queue_lossless [of empty_queue "concat (replicate 1000 [Put (65, 2), Put (66, 1), Get 2])"]
  by (simp only: empty_queue_facts arrivals_rounds fits_rounds list.size(3) append_Nil simp_thms)

end
