(* ===== verification/Arm_Spi.thy ===== *)
theory Arm_Spi
  imports Spi_Crc Board_Util Os_Calls Uart_Queue
begin

text \<open>
  \<open>armspi.c\<close> and \<open>armspi.h\<close>: the SPI protocol with a Neuron board. The handle of a
  board, one-phase and two-phase operations with their chunked transfers and chained CRCs,
  and the register, bit and character operations built from them.

  The wire structures are packed and read through pointer casts, so a header is a byte
  array and its fields are bytes at fixed offsets: \<open>op\<close> at 0, \<open>len\<close> at 1, \<open>reg\<close> at
  2 (little-endian), \<open>crc\<close> at 4; the character header has \<open>op\<close>, \<open>int_status\<close>,
  \<open>len\<close>, \<open>ch1\<close>; the string header \<open>op\<close>, \<open>len\<close>, \<open>channel\<close>, \<open>remain\<close>.
  Diagnostics (\<open>pabort\<close>, \<open>printf\<close>) are left out.
\<close>

section \<open>Constants and the handle\<close>

definition ARM_OP_READ_BIT :: u8 where "ARM_OP_READ_BIT = 1"
definition ARM_OP_READ_REG :: u8 where "ARM_OP_READ_REG = 4"
definition ARM_OP_WRITE_BIT :: u8 where "ARM_OP_WRITE_BIT = 5"
definition ARM_OP_WRITE_REG :: u8 where "ARM_OP_WRITE_REG = 6"
definition ARM_OP_WRITE_BITS :: u8 where "ARM_OP_WRITE_BITS = 15"
definition ARM_OP_WRITE_CHAR :: u8 where "ARM_OP_WRITE_CHAR = 65"
definition ARM_OP_WRITE_STR :: u8 where "ARM_OP_WRITE_STR = 100"
definition ARM_OP_READ_STR :: u8 where "ARM_OP_READ_STR = 101"
definition ARM_OP_IDLE :: u8 where "ARM_OP_IDLE = 0xfa"

lemmas arm_ops = ARM_OP_READ_BIT_def ARM_OP_READ_REG_def ARM_OP_WRITE_BIT_def
  ARM_OP_WRITE_REG_def ARM_OP_WRITE_BITS_def ARM_OP_WRITE_CHAR_def ARM_OP_WRITE_STR_def
  ARM_OP_READ_STR_def ARM_OP_IDLE_def

definition IDLE_PATTERN :: u32 where "IDLE_PATTERN = 0x0e5500fa"
definition MAX_SPI_RX :: nat where "MAX_SPI_RX = 64"
definition SPI_STR_MAX :: u16 where "SPI_STR_MAX = 240"
definition SIZEOF_HEADER :: nat where "SIZEOF_HEADER = 4"
definition SNIPLEN1 :: nat where "SNIPLEN1 = 6"
definition SNIPLEN2 :: nat where "SNIPLEN2 = 256"
definition CRC_SIZE :: nat where "CRC_SIZE = 2"

lemmas spi_sizes = MAX_SPI_RX_def SIZEOF_HEADER_def SNIPLEN1_def SNIPLEN2_def CRC_SIZE_def

text \<open>
  \<open>struct spi_ioc_transfer\<close>; a buffer pointer is \<open>NULL\<close>, the first chunk's buffer
  (\<open>&arm->tx1\<close> or \<open>&arm->rx1\<close>), or an offset into the second one's.
\<close>

datatype spi_buf = NoBuf | Chunk1 | Chunk2 nat

record spi_ioc_transfer =
  tx_buf :: spi_buf
  rx_buf :: spi_buf
  tr_len :: nat
  delay_usecs :: nat

record arm_handle =
  fd :: int
  fdint :: int
  arm_index :: int
  tx1 :: mem
  rx1 :: mem
  tx2 :: mem
  rx2 :: mem
  tr :: "spi_ioc_transfer list"
  bv :: Tboard_version
  uart_q :: "uart_queue list"

section \<open>One SPI message\<close>

definition upd_tr ::
  "nat \<Rightarrow> (spi_ioc_transfer \<Rightarrow> spi_ioc_transfer) \<Rightarrow> arm_handle \<Rightarrow> arm_handle option" where
  "upd_tr i f a = (if i < length (tr a) then Some (a\<lparr>tr := (tr a)[i := f (tr a ! i)]\<rparr>) else None)"

text \<open>
  What \<open>ioctl(fd, SPI_IOC_MESSAGE(n), tr)\<close> does to the handle: the kernel shifts out
  the bytes of each transfer's send buffer (zeros for a \<open>NULL\<close> one) and stores the bytes
  shifted in, at most \<open>len\<close> of them, in its receive buffer. A transfer that would leave
  its buffer is a fault.
\<close>

definition buf_out :: "arm_handle \<Rightarrow> spi_buf \<Rightarrow> nat \<Rightarrow> u8 list option" where
  "buf_out a b n = (case b of
     NoBuf \<Rightarrow> Some (replicate n 0)
   | Chunk1 \<Rightarrow> rd_block (tx1 a) 0 n
   | Chunk2 off \<Rightarrow> rd_block (tx2 a) off n)"

fun spi_out :: "arm_handle \<Rightarrow> spi_ioc_transfer list \<Rightarrow> (nat \<times> u8 list) list option" where
  "spi_out a [] = Some []"
| "spi_out a (t # ts) =
     do { bs \<leftarrow> buf_out a (tx_buf t) (tr_len t);
          rest \<leftarrow> spi_out a ts;
          Some ((delay_usecs t, bs) # rest) }"

definition buf_in :: "spi_buf \<Rightarrow> nat \<Rightarrow> u8 list \<Rightarrow> arm_handle \<Rightarrow> arm_handle option" where
  "buf_in b n bs a = (case b of
     NoBuf \<Rightarrow> Some a
   | Chunk1 \<Rightarrow> if n \<le> length (rx1 a) then Some (a\<lparr>rx1 := overlay (rx1 a) 0 (take n bs)\<rparr>) else None
   | Chunk2 off \<Rightarrow> if off + n \<le> length (rx2 a)
                  then Some (a\<lparr>rx2 := overlay (rx2 a) off (take n bs)\<rparr>) else None)"

fun spi_in :: "spi_ioc_transfer list \<Rightarrow> u8 list \<Rightarrow> arm_handle \<Rightarrow> arm_handle option" where
  "spi_in [] inc a = Some a"
| "spi_in (t # ts) inc a =
     do { a \<leftarrow> buf_in (rx_buf t) (tr_len t) inc a; spi_in ts (drop (tr_len t) inc) a }"

definition spi_message ::
  "'w os \<Rightarrow> nat \<Rightarrow> arm_handle \<Rightarrow> 'w \<Rightarrow> (int \<times> arm_handle \<times> 'w) option" where
  "spi_message os n a w =
     (if n \<le> length (tr a) then
        do { out \<leftarrow> spi_out a (take n (tr a));
             let (ret, inc, w) = os_spi_message os (fd a) out w;
             a \<leftarrow> spi_in (take n (tr a)) inc a;
             Some (ret, a, w) }
      else None)"

section \<open>One-phase operations\<close>

text \<open>\<open>(*((uint32_t*)&arm->rx1) & 0xffff00ff) == IDLE_PATTERN\<close>\<close>

definition rd32 :: "mem \<Rightarrow> nat \<Rightarrow> u32 option" where
  "rd32 m i = do { lo \<leftarrow> rd16 m i; hi \<leftarrow> rd16 m (i + 2); Some (push_bit 16 (ucast hi) OR ucast lo) }"

definition is_idle :: "arm_handle \<Rightarrow> bool option" where
  "is_idle a = do { v \<leftarrow> rd32 (rx1 a) 0; Some ((v AND 0xffff00ff) = IDLE_PATTERN) }"

text \<open>
  \<open>queue_uart(arm->uart_q, ach_header(&arm->rx1)->ch1, ach_header(&arm->rx1)->len)\<close>:
  the array name is its first element.
\<close>

definition queue_rx_char :: "arm_handle \<Rightarrow> arm_handle option" where
  "queue_rx_char a =
     do { ch1 \<leftarrow> rd8 (rx1 a) 3;
          len \<leftarrow> rd8 (rx1 a) 2;
          if uart_q a = [] then None
          else do { q \<leftarrow> queue_uart ch1 len (uart_q a ! 0);
                    Some (a\<lparr>uart_q := (uart_q a)[0 := q]\<rparr>) } }"

definition one_phase_op ::
  "'w os \<Rightarrow> u8 \<Rightarrow> u16 \<Rightarrow> u8 \<Rightarrow> arm_handle \<Rightarrow> 'w \<Rightarrow> (int \<times> arm_handle \<times> 'w) option" where
  "one_phase_op os op reg value a w =
     do { t \<leftarrow> wr8 (tx1 a) 0 op;
          t \<leftarrow> wr8 t 1 value;
          t \<leftarrow> wr16 t 2 reg;
          crc \<leftarrow> crc_of t SIZEOF_HEADER 0;
          t \<leftarrow> wr16 t 4 crc;
          a \<leftarrow> upd_tr 1 (delay_usecs_update (\<lambda>_. 0)) (a\<lparr>tx1 := t\<rparr>);
          (ret, a, w) \<leftarrow> spi_message os 2 a w;
          if ret < 1 then Some (-1, a, w)
          else do {
            crc \<leftarrow> crc_of (rx1 a) SIZEOF_HEADER 0;
            rxcrc \<leftarrow> rd16 (rx1 a) 4;
            if crc \<noteq> rxcrc then Some (-1, a, w)
            else do {
              idle \<leftarrow> is_idle a;
              if idle then Some (0, a, w)
              else do {
                rop \<leftarrow> rd8 (rx1 a) 0;
                if rop = ARM_OP_WRITE_CHAR then do { a \<leftarrow> queue_rx_char a; Some (0, a, w) }
                else Some (-1, a, w) } } } }"

section \<open>Two-phase operations\<close>

text \<open>
  The second chunk is split into transfers of at most \<open>_MAX_SPI_RX\<close> bytes. The result is
  the number of transfers of the message.
\<close>

definition set_tr_len :: "nat \<Rightarrow> nat \<Rightarrow> arm_handle \<Rightarrow> arm_handle option" where
  "set_tr_len i n = upd_tr i (tr_len_update (\<lambda>_. n))"

definition set_chunks :: "nat \<Rightarrow> arm_handle \<Rightarrow> (nat \<times> arm_handle) option" where
  "set_chunks tot a =
     (if tot \<le> MAX_SPI_RX then
        do { a \<leftarrow> set_tr_len 2 tot a; Some (3, a) }
      else if tot \<le> 2 * MAX_SPI_RX then
        do { a \<leftarrow> set_tr_len 2 MAX_SPI_RX a;
             a \<leftarrow> set_tr_len 3 (tot - MAX_SPI_RX) a; Some (4, a) }
      else if tot \<le> 3 * MAX_SPI_RX then
        do { a \<leftarrow> set_tr_len 2 MAX_SPI_RX a; a \<leftarrow> set_tr_len 3 MAX_SPI_RX a;
             a \<leftarrow> set_tr_len 4 (tot - 2 * MAX_SPI_RX) a; Some (5, a) }
      else if tot \<le> 4 * MAX_SPI_RX then
        do { a \<leftarrow> set_tr_len 2 MAX_SPI_RX a; a \<leftarrow> set_tr_len 3 MAX_SPI_RX a;
             a \<leftarrow> set_tr_len 4 MAX_SPI_RX a;
             a \<leftarrow> set_tr_len 5 (tot - 3 * MAX_SPI_RX) a; Some (6, a) }
      else
        do { a \<leftarrow> set_tr_len 2 MAX_SPI_RX a; a \<leftarrow> set_tr_len 3 MAX_SPI_RX a;
             a \<leftarrow> set_tr_len 4 MAX_SPI_RX a; a \<leftarrow> set_tr_len 5 MAX_SPI_RX a;
             a \<leftarrow> set_tr_len 6 (tot - 4 * MAX_SPI_RX) a; Some (7, a) })"

text \<open>The operation and the register are repeated in the second chunk, unless it is a string.\<close>

definition prepare_header2 :: "u8 \<Rightarrow> u16 \<Rightarrow> u16 \<Rightarrow> arm_handle \<Rightarrow> arm_handle option" where
  "prepare_header2 op reg len2 a =
     (if op \<noteq> ARM_OP_WRITE_STR then
        do { t2 \<leftarrow> wr8 (tx2 a) 0 op;
             t2 \<leftarrow> wr16 t2 2 reg;
             if 60 < len2 then
               upd_tr 1 (delay_usecs_update (\<lambda>d. d + (unat len2 - 60) div 2)) (a\<lparr>tx2 := t2\<rparr>)
             else Some (a\<lparr>tx2 := t2\<rparr>) }
      else Some a)"

text \<open>Lines up to the \<open>ioctl\<close>: the two chunks with their chained CRCs are laid out.\<close>

definition prepare_two_phase ::
  "u8 \<Rightarrow> u16 \<Rightarrow> u16 \<Rightarrow> arm_handle \<Rightarrow> (u16 \<times> arm_handle) option" where
  "prepare_two_phase op reg len2 a =
     do { t1 \<leftarrow> wr8 (tx1 a) 0 op;
          t1 \<leftarrow> wr16 t1 2 reg;
          t1 \<leftarrow> wr8 t1 1 (ucast (len2 AND 0xff));
          a \<leftarrow> upd_tr 1 (delay_usecs_update (\<lambda>_. 25)) (a\<lparr>tx1 := t1\<rparr>);
          a \<leftarrow> prepare_header2 op reg len2 a;
          let tr_len2 = (if len2 AND 1 \<noteq> 0 then len2 + 1 else len2);
          crc \<leftarrow> crc_of (tx1 a) SIZEOF_HEADER 0;
          t1 \<leftarrow> wr16 (tx1 a) 4 crc;
          crc \<leftarrow> crc_of (tx2 a) (unat tr_len2) crc;
          t2 \<leftarrow> wr16 (tx2 a) (2 * (unat tr_len2 div 2)) crc;
          r2 \<leftarrow> wr8 (rx2 a) 0 op;
          Some (tr_len2, a\<lparr>tx1 := t1, tx2 := t2, rx2 := r2\<rparr>) }"

text \<open>Lines after the \<open>ioctl\<close>: the reply's CRCs and header are checked.\<close>

definition check_two_phase :: "u16 \<Rightarrow> arm_handle \<Rightarrow> 'w \<Rightarrow> (int \<times> arm_handle \<times> 'w) option" where
  "check_two_phase tr_len2 a w =
     do { crc \<leftarrow> crc_of (rx1 a) SIZEOF_HEADER 0;
          rxcrc \<leftarrow> rd16 (rx1 a) 4;
          if crc \<noteq> rxcrc then Some (-1, a, w)
          else do {
            crc \<leftarrow> crc_of (rx2 a) (unat tr_len2) crc;
            rop \<leftarrow> rd8 (rx1 a) 0;
            if rop = ARM_OP_WRITE_CHAR then
              do { a \<leftarrow> queue_rx_char a;
                   rxcrc \<leftarrow> rd16 (rx2 a) (2 * (unat tr_len2 div 2));
                   if rxcrc \<noteq> crc then Some (-1, a, w) else Some (0, a, w) }
            else
              do { rxcrc \<leftarrow> rd16 (rx2 a) (2 * (unat tr_len2 div 2));
                   if rxcrc \<noteq> crc then Some (-1, a, w)
                   else do { idle \<leftarrow> is_idle a;
                             if idle then Some (0, a, w) else Some (-1, a, w) } } } }"

definition two_phase_op ::
  "'w os \<Rightarrow> u8 \<Rightarrow> u16 \<Rightarrow> u16 \<Rightarrow> arm_handle \<Rightarrow> 'w \<Rightarrow> (int \<times> arm_handle \<times> 'w) option" where
  "two_phase_op os op reg len2 a w =
     do { (tr_len2, a) \<leftarrow> prepare_two_phase op reg len2 a;
          (n, a) \<leftarrow> set_chunks (unat tr_len2 + CRC_SIZE) a;
          (ret, a, w) \<leftarrow> spi_message os n a w;
          if ret < 1 then Some (ret, a, w) else check_two_phase tr_len2 a w }"

section \<open>Register and bit operations\<close>

text \<open>
  A pointer argument is the caller's memory and an offset into it; an operation that
  stores through it returns the changed memory.
\<close>

definition idle_op :: "'w os \<Rightarrow> arm_handle \<Rightarrow> 'w \<Rightarrow> (int \<times> arm_handle \<times> 'w) option" where
  "idle_op os a w = one_phase_op os ARM_OP_IDLE 0x0e55 0 a w"

definition read_regs ::
  "'w os \<Rightarrow> u16 \<Rightarrow> u8 \<Rightarrow> mem \<Rightarrow> nat \<Rightarrow> arm_handle \<Rightarrow> 'w \<Rightarrow>
     (int \<times> mem \<times> arm_handle \<times> 'w) option" where
  "read_regs os reg cnt result off a w =
     do { let len2 = word_of_nat (SIZEOF_HEADER + 2 * unat cnt);
          (ret, a, w) \<leftarrow> two_phase_op os ARM_OP_READ_REG reg len2 a w;
          if ret < 0 then Some (ret, result, a, w)
          else do {
            rop \<leftarrow> rd8 (rx2 a) 0;
            rlen \<leftarrow> rd8 (rx2 a) 1;
            rreg \<leftarrow> rd16 (rx2 a) 2;
            if rop \<noteq> ARM_OP_READ_REG \<or> cnt < rlen \<or> rreg \<noteq> reg then Some (-1, result, a, w)
            else do {
              bs \<leftarrow> rd_block (rx2 a) SIZEOF_HEADER (2 * unat rlen);
              result \<leftarrow> wr_block result off bs;
              Some (uint rlen, result, a, w) } } }"

definition write_regs ::
  "'w os \<Rightarrow> u16 \<Rightarrow> u8 \<Rightarrow> mem \<Rightarrow> nat \<Rightarrow> arm_handle \<Rightarrow> 'w \<Rightarrow> (int \<times> arm_handle \<times> 'w) option" where
  "write_regs os reg cnt values off a w =
     (if 126 < cnt then Some (-1, a, w)
      else do {
        let len2 = word_of_nat (SIZEOF_HEADER + 2 * unat cnt);
        t2 \<leftarrow> wr8 (tx2 a) 1 cnt;
        bs \<leftarrow> rd_block values off (2 * unat cnt);
        t2 \<leftarrow> wr_block t2 SIZEOF_HEADER bs;
        (ret, a, w) \<leftarrow> two_phase_op os ARM_OP_WRITE_REG reg len2 (a\<lparr>tx2 := t2\<rparr>) w;
        if ret < 0 then Some (ret, a, w)
        else do {
          rop \<leftarrow> rd8 (rx2 a) 0;
          if rop \<noteq> ARM_OP_WRITE_REG then Some (-1, a, w)
          else do { rlen \<leftarrow> rd8 (rx2 a) 1; Some (uint rlen, a, w) } } })"

text \<open>\<open>SIZEOF_HEADER + (((cnt+15) >> 4) << 1)\<close>\<close>

definition bits_len2 :: "u16 \<Rightarrow> u16" where
  "bits_len2 cnt = word_of_nat (SIZEOF_HEADER + 2 * ((unat cnt + 15) div 16))"

definition read_bits ::
  "'w os \<Rightarrow> u16 \<Rightarrow> u16 \<Rightarrow> mem \<Rightarrow> nat \<Rightarrow> arm_handle \<Rightarrow> 'w \<Rightarrow>
     (int \<times> mem \<times> arm_handle \<times> 'w) option" where
  "read_bits os reg cnt result off a w =
     (let len2 = bits_len2 cnt
      in if 256 < len2 then Some (-1, result, a, w)
      else do {
        (ret, a, w) \<leftarrow> two_phase_op os ARM_OP_READ_BIT reg len2 a w;
        if ret < 0 then Some (ret, result, a, w)
        else do {
          rop \<leftarrow> rd8 (rx2 a) 0;
          rreg \<leftarrow> rd16 (rx2 a) 2;
          if rop \<noteq> ARM_OP_READ_BIT \<or> rreg \<noteq> reg then Some (-1, result, a, w)
          else do {
            rlen \<leftarrow> rd8 (rx2 a) 1;
            bs \<leftarrow> rd_block (rx2 a) SIZEOF_HEADER ((unat rlen + 7) div 8);
            result \<leftarrow> wr_block result off bs;
            Some (uint rlen, result, a, w) } } })"

definition write_bit ::
  "'w os \<Rightarrow> u16 \<Rightarrow> u8 \<Rightarrow> arm_handle \<Rightarrow> 'w \<Rightarrow> (int \<times> arm_handle \<times> 'w) option" where
  "write_bit os reg value a w =
     do { (ret, a, w) \<leftarrow> one_phase_op os ARM_OP_WRITE_BIT reg (if value \<noteq> 0 then 1 else 0) a w;
          if ret < 0 then Some (ret, a, w) else Some (1, a, w) }"

definition write_bits ::
  "'w os \<Rightarrow> u16 \<Rightarrow> u16 \<Rightarrow> mem \<Rightarrow> nat \<Rightarrow> arm_handle \<Rightarrow> 'w \<Rightarrow> (int \<times> arm_handle \<times> 'w) option" where
  "write_bits os reg cnt values off a w =
     (let len2 = bits_len2 cnt
      in if 256 < len2 then Some (-1, a, w)
      else do {
        t2 \<leftarrow> wr8 (tx2 a) 1 (ucast cnt);
        bs \<leftarrow> rd_block values off ((unat cnt + 7) div 8);
        t2 \<leftarrow> wr_block t2 SIZEOF_HEADER bs;
        (ret, a, w) \<leftarrow> two_phase_op os ARM_OP_WRITE_BITS reg len2 (a\<lparr>tx2 := t2\<rparr>) w;
        if ret < 0 then Some (ret, a, w)
        else do {
          rop \<leftarrow> rd8 (rx2 a) 0;
          if rop \<noteq> ARM_OP_WRITE_BITS then Some (-1, a, w)
          else do { rlen \<leftarrow> rd8 (rx2 a) 1;
                    Some (if uint rlen < uint cnt then uint rlen else uint cnt, a, w) } } })"

section \<open>Character operations\<close>

definition write_char ::
  "'w os \<Rightarrow> u8 \<Rightarrow> u8 \<Rightarrow> arm_handle \<Rightarrow> 'w \<Rightarrow> (int \<times> arm_handle \<times> 'w) option" where
  "write_char os uart c a w =
     do { (ret, a, w) \<leftarrow> one_phase_op os ARM_OP_WRITE_CHAR (ucast uart) c a w;
          if ret < 0 then Some (ret, a, w) else Some (1, a, w) }"

definition write_string ::
  "'w os \<Rightarrow> u8 \<Rightarrow> mem \<Rightarrow> nat \<Rightarrow> int \<Rightarrow> arm_handle \<Rightarrow> 'w \<Rightarrow> (int \<times> arm_handle \<times> 'w) option" where
  "write_string os uart str off len a w =
     (if len > 256 \<or> len \<le> 0 then Some (-1, a, w)
      else do {
        let len2 = (word_of_int len :: u16);
        bs \<leftarrow> rd_block str off (unat len2);
        t2 \<leftarrow> wr_block (tx2 a) 0 bs;
        (ret, a, w) \<leftarrow> two_phase_op os ARM_OP_WRITE_STR (ucast uart) len2 (a\<lparr>tx2 := t2\<rparr>) w;
        rop \<leftarrow> rd8 (rx2 a) 0;
        if rop \<noteq> ARM_OP_WRITE_STR then Some (-1, a, w)
        else do { rlen \<leftarrow> rd8 (rx2 a) 1; Some (uint rlen, a, w) } })"

definition read_string_len2 :: "int \<Rightarrow> u16" where
  "read_string_len2 cnt =
     (let len2 = (word_of_int cnt :: u16);
          len2 = (if len2 mod 2 \<noteq> 0 then len2 + 1 else len2);
          len2 = (if SPI_STR_MAX < len2 then SPI_STR_MAX else len2)
      in len2 + word_of_nat SIZEOF_HEADER)"

definition read_string ::
  "'w os \<Rightarrow> u8 \<Rightarrow> mem \<Rightarrow> int \<Rightarrow> int \<Rightarrow> arm_handle \<Rightarrow> 'w \<Rightarrow>
     (int \<times> mem \<times> arm_handle \<times> 'w) option" where
  "read_string os uart str off cnt a w =
     (if 0 < uart then Some (-1, str, a, w)
      else do {
        (ret, a, w) \<leftarrow> two_phase_op os ARM_OP_READ_STR (ucast uart) (read_string_len2 cnt) a w;
        if ret < 0 then Some (ret, str, a, w)
        else do {
          rop \<leftarrow> rd8 (rx2 a) 0;
          if rop \<noteq> ARM_OP_READ_STR then Some (-1, str, a, w)
          else do {
            rcnt \<leftarrow> rd8 (rx2 a) 1;
            rem \<leftarrow> rd8 (rx2 a) 3;
            if unat uart < length (uart_q a) then
              do { (n, str, q) \<leftarrow> join_queue (rx2 a) (uint rcnt) (uint rem) cnt str off (uart_q a ! unat uart);
                   Some (n, str, a\<lparr>uart_q := (uart_q a)[unat uart := q]\<rparr>, w) }
            else None } } })"

definition read_qstring ::
  "u8 \<Rightarrow> mem \<Rightarrow> int \<Rightarrow> int \<Rightarrow> arm_handle \<Rightarrow> (int \<times> mem \<times> arm_handle) option" where
  "read_qstring uart str off cnt a =
     (if 0 < uart then Some (-1, str, a)
      else if unat uart < length (uart_q a) then
        do { (n, str, q) \<leftarrow> take_queue cnt str off (uart_q a ! unat uart);
             Some (n, str, a\<lparr>uart_q := (uart_q a)[unat uart := q]\<rparr>) }
      else None)"

section \<open>Opening a board\<close>

definition START_SPI_SPEED :: int where "START_SPI_SPEED = 5000000"

definition init_tr :: "nat \<Rightarrow> spi_ioc_transfer list" where
  "init_tr nss_pause =
     \<lparr>tx_buf = NoBuf, rx_buf = NoBuf, tr_len = 0, delay_usecs = nss_pause\<rparr> #
     \<lparr>tx_buf = Chunk1, rx_buf = Chunk1, tr_len = SNIPLEN1, delay_usecs = 0\<rparr> #
     map (\<lambda>i. \<lparr>tx_buf = Chunk2 (MAX_SPI_RX * i), rx_buf = Chunk2 (MAX_SPI_RX * i),
               tr_len = 0, delay_usecs = 0\<rparr>) [0, 1, 2, 3, 4]"

text \<open>The registers of a \<open>uint16_t\<close> array, as the words its bytes hold.\<close>

fun regs_of :: "mem \<Rightarrow> u16 list" where
  "regs_of (lo # hi # m) = join16 hi lo # regs_of m"
| "regs_of _ = []"

text \<open>
  The end of \<open>arm_init\<close>: the interrupt line is exported and opened. \<open>gpio\<close> is \<open>None\<close>
  for \<open>NULL\<close>; the paths are printed into an array of 256 characters.
\<close>

definition str_bytes :: "string \<Rightarrow> u8 list" where
  "str_bytes s = map (\<lambda>c. word_of_nat (of_char c)) s"

definition open_fdint ::
  "'w os \<Rightarrow> string option \<Rightarrow> arm_handle \<Rightarrow> 'w \<Rightarrow> (int \<times> arm_handle \<times> 'w) option" where
  "open_fdint os gpio a w =
     (let a = a\<lparr>fdint := -1\<rparr> in
      case gpio of
        None \<Rightarrow> Some (0, a, w)
      | Some g \<Rightarrow>
         if length g = 0 \<or> int_mask_register (bv a) \<le> 0 then Some (0, a, w)
         else
           let (fdx, w) = os_open os ''/sys/class/gpio/export'' w in
           if fdx < 0 then Some (0, a, w)
           else do {
             let (_, w) = os_write os fdx (str_bytes g) w;
             let w = os_close os fdx w;
             path \<leftarrow> str_into 256 (''/sys/class/gpio/gpio'' @ g @ ''/edge'');
             let (fdx, w) = os_open os path w;
             if fdx < 0 then Some (0, a, w)
             else do {
               let (_, w) = os_write os fdx (str_bytes ''rising'') w;
               let w = os_close os fdx w;
               path \<leftarrow> str_into 256 (''/sys/class/gpio/gpio'' @ g @ ''/value'');
               let (fdi, w) = os_open os path w;
               Some (0, a\<lparr>fdint := fdi\<rparr>, w) } })"

definition arm_init ::
  "'w os \<Rightarrow> nat \<Rightarrow> arm_handle \<Rightarrow> string \<Rightarrow> int \<Rightarrow> int \<Rightarrow> string option \<Rightarrow> 'w \<Rightarrow>
     (int \<times> arm_handle \<times> 'w) option" where
  "arm_init os nss_pause a device speed index gpio w =
     (let (f, w) = os_open os device w; a = a\<lparr>fd := f\<rparr> in
      if f < 0 then Some (-1, a, w)
      else do {
        let w = os_spi_speed os f (if speed = 0 then START_SPI_SPEED else speed) w;
        let a = a\<lparr>arm_index := index,
                  uart_q := map (\<lambda>q. q\<lparr>q_masterpty := -1, q_remain := 0, q_index := 0\<rparr>) (uart_q a),
                  tr := init_tr nss_pause\<rparr>;
        (n, configregs, a, w) \<leftarrow> read_regs os 1000 5 (replicate 10 0) 0 a w;
        let a = (if n = 5 then a\<lparr>bv := parse_version (bv a) (regs_of configregs)\<rparr> else a);
        (a, w) \<leftarrow>
          (if speed = 0 then
             do { let w = os_spi_speed os f (get_board_speed (bv a)) w;
                  (n, _, a, w) \<leftarrow> read_regs os 1000 5 configregs 0 a w;
                  Some (a, if n \<noteq> 5 then os_spi_speed os f START_SPI_SPEED w else w) }
           else Some (a, w));
        if sw_version (bv a) = 0 then Some (-1, a, os_close os (fd a) w)
        else open_fdint os gpio a w })"

end
