(* ===== verification/Arm_Spi_Correct.thy ===== *)
theory Arm_Spi_Correct
  imports Arm_Spi
begin

text \<open>
  Correctness of the SPI operations of \<open>Arm_Spi\<close>: the invariant of a board's handle, the
  tiling of a frame into transfers, what goes over the bus and which replies are accepted,
  and from these the memory safety and the results of the register, bit and character
  operations.
\<close>

declare SpiCrcString.simps [simp del]

section \<open>The invariant of a handle\<close>

text \<open>
  \<open>arm_init\<close> lays the transfers out once; only the lengths of the second chunk's transfers
  and the delays change afterwards.
\<close>

definition tr_shape :: "spi_ioc_transfer list \<Rightarrow> bool" where
  "tr_shape ts \<longleftrightarrow>
     map (\<lambda>t. (tx_buf t, rx_buf t)) ts =
       [(NoBuf, NoBuf), (Chunk1, Chunk1), (Chunk2 0, Chunk2 0), (Chunk2 64, Chunk2 64),
        (Chunk2 128, Chunk2 128), (Chunk2 192, Chunk2 192), (Chunk2 256, Chunk2 256)] \<and>
     tr_len (ts ! 0) = 0 \<and> tr_len (ts ! 1) = 6"

definition wf_arm :: "arm_handle \<Rightarrow> bool" where
  "wf_arm a \<longleftrightarrow> length (tx1 a) = 6 \<and> length (rx1 a) = 6 \<and> length (tx2 a) = 298 \<and>
     length (rx2 a) = 298 \<and> tr_shape (tr a) \<and> length (uart_q a) = 4 \<and>
     (\<forall>q \<in> set (uart_q a). wf_queue q)"

lemma wf_armD [simp]:
  assumes "wf_arm a"
  shows "length (tx1 a) = 6" "length (rx1 a) = 6" "length (tx2 a) = 298" "length (rx2 a) = 298"
    "tr_shape (tr a)" "length (uart_q a) = 4" "wf_queue (uart_q a ! 0)"
  using assms by (auto simp: wf_arm_def)

lemma tr_shapeE:
  assumes "tr_shape ts"
  obtains t0 t1 t2 t3 t4 t5 t6 where "ts = [t0, t1, t2, t3, t4, t5, t6]"
    "tx_buf t0 = NoBuf" "rx_buf t0 = NoBuf" "tr_len t0 = 0"
    "tx_buf t1 = Chunk1" "rx_buf t1 = Chunk1" "tr_len t1 = 6"
    "tx_buf t2 = Chunk2 0" "rx_buf t2 = Chunk2 0" "tx_buf t3 = Chunk2 64" "rx_buf t3 = Chunk2 64"
    "tx_buf t4 = Chunk2 128" "rx_buf t4 = Chunk2 128" "tx_buf t5 = Chunk2 192" "rx_buf t5 = Chunk2 192"
    "tx_buf t6 = Chunk2 256" "rx_buf t6 = Chunk2 256"
  using assms unfolding tr_shape_def
  by (auto simp: map_eq_Cons_conv)

lemma tr_shape_length: "tr_shape ts \<Longrightarrow> length ts = 7"
  by (auto elim: tr_shapeE)

section \<open>A frame as consecutive transfers\<close>

fun tiles :: "nat \<Rightarrow> nat \<Rightarrow> spi_ioc_transfer list \<Rightarrow> bool" where
  "tiles off e [] \<longleftrightarrow> off = e"
| "tiles off e (t # ts) \<longleftrightarrow> tx_buf t = Chunk2 off \<and> rx_buf t = Chunk2 off \<and>
     tr_len t \<le> MAX_SPI_RX \<and> tiles (off + tr_len t) e ts"

lemma tiles_le: "tiles off e ts \<Longrightarrow> off \<le> e"
  by (induction ts arbitrary: off) (auto, fastforce)

lemma spi_out_tiles:
  assumes "tiles off e ts" and "e \<le> length (tx2 a)"
  shows "\<exists>out. spi_out a ts = Some out \<and> concat (map snd out) = take (e - off) (drop off (tx2 a)) \<and>
           (\<forall>p \<in> set out. length (snd p) \<le> MAX_SPI_RX)"
  using assms
proof (induction ts arbitrary: off)
  case (Cons t ts)
  then obtain out where out: "spi_out a ts = Some out"
    "concat (map snd out) = take (e - (off + tr_len t)) (drop (off + tr_len t) (tx2 a))"
    "\<forall>p \<in> set out. length (snd p) \<le> MAX_SPI_RX" by auto
  have le: "off + tr_len t \<le> e" using Cons.prems by (auto dest: tiles_le)
  then have "take (tr_len t) (drop off (tx2 a)) @
      take (e - (off + tr_len t)) (drop (off + tr_len t) (tx2 a)) = take (e - off) (drop off (tx2 a))"
    using take_drop_join [of "tr_len t" "drop off (tx2 a)" "e - (off + tr_len t)"]
    by (simp add: ac_simps)
  with Cons.prems out le show ?case
    by (auto simp: buf_out_def rd_block_def)
qed simp

lemma spi_out_length: "spi_out a ts = Some out \<Longrightarrow> length out = length ts"
  by (induction ts arbitrary: out) (auto simp: bind_eq_Some_conv)

lemma spi_in_tiles:
  assumes "tiles off e ts" and "e \<le> length (rx2 a)" and "e - off \<le> length inc"
  shows "spi_in ts inc a = Some (a\<lparr>rx2 := overlay (rx2 a) off (take (e - off) inc)\<rparr>)"
  using assms
proof (induction ts arbitrary: off inc a)
  case (Cons t ts)
  have le: "off + tr_len t \<le> e" using Cons.prems by (auto dest: tiles_le)
  have tk: "take (tr_len t) inc @ take (e - (off + tr_len t)) (drop (tr_len t) inc) = take (e - off) inc"
    using le take_drop_join [of "tr_len t" inc "e - (off + tr_len t)"] by simp
  have l: "length (take (tr_len t) inc) = tr_len t" using le Cons.prems(3) by simp
  have "overlay (overlay (rx2 a) off (take (tr_len t) inc)) (off + tr_len t)
          (take (e - (off + tr_len t)) (drop (tr_len t) inc)) = overlay (rx2 a) off (take (e - off) inc)"
    using overlay_overlay [of off "take (tr_len t) inc" "take (e - (off + tr_len t)) (drop (tr_len t) inc)"
        "rx2 a"] le l Cons.prems(2,3) by (simp add: tk)
  with Cons.prems le show ?case
    using Cons.IH [of "off + tr_len t" "a\<lparr>rx2 := overlay (rx2 a) off (take (tr_len t) inc)\<rparr>" "drop (tr_len t) inc"]
    by (simp add: buf_in_def)
qed simp

lemma spi_in_tiles_any:
  assumes "tiles off e ts" and "e \<le> length (rx2 a)"
  shows "\<exists>r2. spi_in ts inc a = Some (a\<lparr>rx2 := r2\<rparr>) \<and> length r2 = length (rx2 a) \<and>
           (inc = [] \<longrightarrow> r2 = rx2 a)"
  using assms
proof (induction ts arbitrary: off inc a)
  case Nil
  show ?case by (intro exI [of _ "rx2 a"]) simp
next
  case (Cons t ts)
  have le: "off + tr_len t \<le> e" using Cons.prems by (auto dest: tiles_le)
  let ?r = "overlay (rx2 a) off (take (tr_len t) inc)"
  have l: "length ?r = length (rx2 a)" using le Cons.prems(2) by (intro length_overlay) simp
  obtain r2 where "spi_in ts (drop (tr_len t) inc) (a\<lparr>rx2 := ?r\<rparr>) = Some (a\<lparr>rx2 := r2\<rparr>)"
    "length r2 = length (rx2 a)" "drop (tr_len t) inc = [] \<longrightarrow> r2 = ?r"
    using Cons.IH [of "off + tr_len t" "a\<lparr>rx2 := ?r\<rparr>" "drop (tr_len t) inc"] Cons.prems l by auto
  with Cons.prems le show ?case by (auto simp: buf_in_def)
qed

text \<open>
  Whatever its size, the second chunk is laid out as transfers that cover it exactly, in
  order, none longer than the \<open>_MAX_SPI_RX\<close> bytes the hardware can take.
\<close>

lemma tr_update_eq: "a\<lparr>tr := x\<rparr> = a\<lparr>tr := y\<rparr> \<longleftrightarrow> x = y"
  by (cases a) simp

lemma set_chunks_tiles:
  assumes "tr_shape (tr a)" and "0 < n" and "n \<le> 298"
  shows "\<exists>k ts cs. set_chunks n a = Some (k, a\<lparr>tr := ts\<rparr>) \<and> tr_shape ts \<and> k \<le> length ts \<and>
           ts ! 0 = tr a ! 0 \<and> ts ! 1 = tr a ! 1 \<and> take k ts = ts ! 0 # ts ! 1 # cs \<and> tiles 0 n cs"
proof -
  from assms(1) obtain t0 t1 t2 t3 t4 t5 t6 where ts: "tr a = [t0, t1, t2, t3, t4, t5, t6]"
    "tx_buf t0 = NoBuf" "rx_buf t0 = NoBuf" "tr_len t0 = 0"
    "tx_buf t1 = Chunk1" "rx_buf t1 = Chunk1" "tr_len t1 = 6"
    "tx_buf t2 = Chunk2 0" "rx_buf t2 = Chunk2 0" "tx_buf t3 = Chunk2 64" "rx_buf t3 = Chunk2 64"
    "tx_buf t4 = Chunk2 128" "rx_buf t4 = Chunk2 128" "tx_buf t5 = Chunk2 192" "rx_buf t5 = Chunk2 192"
    "tx_buf t6 = Chunk2 256" "rx_buf t6 = Chunk2 256"
    by (rule tr_shapeE)
  note set_chunk = set_chunks_def set_tr_len_def upd_tr_def MAX_SPI_RX_def tr_shape_def
  consider "n \<le> 64" | "64 < n" "n \<le> 128" | "128 < n" "n \<le> 192" | "192 < n" "n \<le> 256" | "256 < n"
    by linarith
  then show ?thesis
    by cases (use ts assms(3) in \<open>simp_all add: set_chunk tr_update_eq\<close>)
qed

section \<open>The bus and one message\<close>

text \<open>
  The documentation of \<open>SPI_IOC_MESSAGE\<close>: the bus is full duplex, so a message that is
  carried out brings in as many bytes as it sends. Nothing is known of a failed one.
\<close>

definition full_duplex :: "'w os \<Rightarrow> bool" where
  "full_duplex os \<longleftrightarrow>
     (\<forall>fd out w ret inc w'. os_spi_message os fd out w = (ret, inc, w') \<and> 1 \<le> ret \<longrightarrow>
        length inc = length (concat (map snd out)))"

lemma full_duplexD:
  "full_duplex os \<Longrightarrow> os_spi_message os f out w = (ret, inc, w') \<Longrightarrow> 1 \<le> ret \<Longrightarrow>
     length inc = length (concat (map snd out))"
  unfolding full_duplex_def by blast

lemma spi_message_frame:
  assumes "wf_arm a" and "full_duplex os" and "k \<le> length (tr a)"
    and "take k (tr a) = tr a ! 0 # tr a ! 1 # cs" and "tiles 0 n cs" and "n \<le> 298"
  obtains out ret inc w' r1 r2 where "concat (map snd out) = take n (tx2 a)" "length out = length cs"
    "\<forall>p \<in> set out. length (snd p) \<le> MAX_SPI_RX"
    "os_spi_message os (fd a) ((delay_usecs (tr a ! 0), []) # (delay_usecs (tr a ! 1), tx1 a) # out) w
       = (ret, inc, w')"
    "spi_message os k a w = Some (ret, a\<lparr>rx1 := r1, rx2 := r2\<rparr>, w')"
    "length r1 = 6" "length r2 = 298" "inc = [] \<Longrightarrow> r1 = rx1 a" "inc = [] \<Longrightarrow> r2 = rx2 a"
    "1 \<le> ret \<Longrightarrow> length inc = 6 + n" "1 \<le> ret \<Longrightarrow> r1 = take 6 inc"
    "1 \<le> ret \<Longrightarrow> r2 = overlay (rx2 a) 0 (drop 6 inc)"
proof -
  from assms(1) have "tr_shape (tr a)" by simp
  then obtain t0 t1 where t: "tr a ! 0 = t0" "tr a ! 1 = t1"
    "tx_buf t0 = NoBuf" "rx_buf t0 = NoBuf" "tr_len t0 = 0"
    "tx_buf t1 = Chunk1" "rx_buf t1 = Chunk1" "tr_len t1 = 6"
    by (auto elim: tr_shapeE)
  obtain out where out: "spi_out a cs = Some out" "concat (map snd out) = take n (tx2 a)"
    "\<forall>p \<in> set out. length (snd p) \<le> MAX_SPI_RX"
    using spi_out_tiles [OF assms(5), of a] assms(1,6) by auto
  define all where "all = (delay_usecs t0, []) # (delay_usecs t1, tx1 a) # out"
  have all: "spi_out a (take k (tr a)) = Some all" "concat (map snd all) = tx1 a @ take n (tx2 a)"
    "\<forall>p \<in> set all. length (snd p) \<le> MAX_SPI_RX"
    using out t assms(1,4) by (simp_all add: buf_out_def rd_block_def all_def MAX_SPI_RX_def)
  obtain ret inc w' where m: "os_spi_message os (fd a) all w = (ret, inc, w')"
    by (cases "os_spi_message os (fd a) all w") auto
  have l: "length inc = 6 + n" if "1 \<le> ret"
    using full_duplexD [OF assms(2) m that] all(2) assms(1,6) by simp
  let ?r1 = "overlay (rx1 a) 0 (take 6 inc)"
  have r1: "length ?r1 = 6" using assms(1) by simp
  have spi_in: "spi_in (take k (tr a)) inc a = spi_in cs (drop 6 inc) (a\<lparr>rx1 := ?r1\<rparr>)"
    using t assms(1,4) by (simp add: buf_in_def)
  obtain r2 where r2: "spi_in cs (drop 6 inc) (a\<lparr>rx1 := ?r1\<rparr>) = Some (a\<lparr>rx1 := ?r1, rx2 := r2\<rparr>)"
    "length r2 = 298" "drop 6 inc = [] \<longrightarrow> r2 = rx2 a"
    using spi_in_tiles_any [OF assms(5), of "a\<lparr>rx1 := ?r1\<rparr>" "drop 6 inc"] assms(1,6) by auto
  have ok: "?r1 = take 6 inc" "r2 = overlay (rx2 a) 0 (drop 6 inc)" if "1 \<le> ret"
  proof -
    show "?r1 = take 6 inc" using l [OF that] assms(1) by (simp add: overlay_def)
    have "n - 0 \<le> length (drop 6 inc)" using l [OF that] by simp
    from spi_in_tiles [OF assms(5) _ this, of "a\<lparr>rx1 := ?r1\<rparr>"]
    have "spi_in cs (drop 6 inc) (a\<lparr>rx1 := ?r1\<rparr>) =
        Some (a\<lparr>rx1 := ?r1, rx2 := overlay (rx2 a) 0 (drop 6 inc)\<rparr>)"
      using assms(1,6) l [OF that] by simp
    with r2(1) have "rx2 (a\<lparr>rx1 := ?r1, rx2 := r2\<rparr>) = rx2 (a\<lparr>rx1 := ?r1, rx2 := overlay (rx2 a) 0 (drop 6 inc)\<rparr>)"
      by (simp only: option.inject)
    then show "r2 = overlay (rx2 a) 0 (drop 6 inc)" by simp
  qed
  have "spi_message os k a w = Some (ret, a\<lparr>rx1 := ?r1, rx2 := r2\<rparr>, w')"
    using all(1) m assms(3) r2(1) by (simp add: spi_message_def spi_in)
  with r1 r2 m l ok out(2,3) t show thesis
    by (intro that [of out ret inc w' r2 ?r1]) (simp_all add: all_def spi_out_length [OF out(1)])
qed

section \<open>The frame of a two-phase operation\<close>

text \<open>
  The specification of what is sent: a header with its own CRC, then the second chunk,
  padded to an even length, with a CRC chained over both.
\<close>

definition crc_bytes :: "u16 \<Rightarrow> u8 list" where
  "crc_bytes c = [lo8 c, hi8 c]"

definition frame1 :: "u8 \<Rightarrow> u8 \<Rightarrow> u16 \<Rightarrow> u8 list" where
  "frame1 op len reg =
     (let h = [op, len, lo8 reg, hi8 reg] in h @ crc_bytes (SpiCrcString h 0))"

definition even_len :: "u16 \<Rightarrow> nat" where
  "even_len len2 = unat len2 + unat len2 mod 2"

definition body2 :: "u8 \<Rightarrow> u16 \<Rightarrow> mem \<Rightarrow> mem" where
  "body2 op reg t2 = (if op = ARM_OP_WRITE_STR then t2 else t2[0 := op, 2 := lo8 reg, 3 := hi8 reg])"

definition frame2 :: "u8 \<Rightarrow> u16 \<Rightarrow> u16 \<Rightarrow> mem \<Rightarrow> u8 list" where
  "frame2 op reg len2 t2 =
     (let b = take (even_len len2) (body2 op reg t2);
          h = [op, ucast (len2 AND 0xff), lo8 reg, hi8 reg]
      in b @ crc_bytes (SpiCrcString (h @ b) 0))"

definition phase_delay :: "u8 \<Rightarrow> u16 \<Rightarrow> nat" where
  "phase_delay op len2 =
     25 + (if op \<noteq> ARM_OP_WRITE_STR \<and> 60 < len2 then (unat len2 - 60) div 2 else 0)"

lemma length_body2 [simp]: "length (body2 op reg t2) = length t2"
  by (simp add: body2_def)

lemma length_frame1 [simp]: "length (frame1 op len reg) = 6"
  by (simp add: frame1_def crc_bytes_def Let_def)

lemma even_even_len [simp]: "even (even_len len2)"
  by (simp add: even_len_def)

lemma even_len_le: "unat len2 \<le> 296 \<Longrightarrow> even_len len2 \<le> 296"
  unfolding even_len_def by presburger

lemma and_one_odd: "(w :: u16) AND 1 \<noteq> 0 \<longleftrightarrow> odd (unat w)"
proof -
  have "w AND 1 \<noteq> 0 \<longleftrightarrow> bit w 0" by (simp add: and_one_eq bit_0 odd_iff_mod_2_eq_one)
  also have "\<dots> \<longleftrightarrow> odd (unat w)" by (simp add: bit_simps flip: bit_0)
  finally show ?thesis .
qed

lemma tr_len2_eq:
  assumes "unat len2 \<le> 296"
  shows "unat (if len2 AND 1 \<noteq> 0 then len2 + 1 else len2) = even_len len2"
proof -
  have "unat (len2 + 1) = unat len2 + 1"
    using assms by (simp add: unat_word_ariths)
  then show ?thesis by (simp add: and_one_odd even_len_def odd_iff_mod_2_eq_one)
qed

lemma overlay_pair: "overlay m i [x, y] = m[i := x, Suc i := y]" if "Suc i < length m"
proof (rule nth_equalityI)
  fix j assume "j < length (overlay m i [x, y])"
  with that show "overlay m i [x, y] ! j = m[i := x, Suc i := y] ! j"
    by (auto simp: nth_overlay nth_list_update nth_Cons split: nat.split)
qed (use that in simp)

lemma length_6_cases:
  assumes "length xs = 6"
  obtains x0 x1 x2 x3 x4 x5 where "xs = [x0, x1, x2, x3, x4, x5]"
  using assms by (auto simp: eval_nat_numeral length_Suc_conv)

lemma prepare_header2_spec:
  assumes "wf_arm a" and "length (tr a) = 7"
  shows "prepare_header2 op reg len2 (a\<lparr>tx1 := t1, tr := (tr a)[1 := (tr a ! 1)\<lparr>delay_usecs := 25\<rparr>]\<rparr>) =
     Some (a\<lparr>tx1 := t1, tx2 := body2 op reg (tx2 a),
            tr := (tr a)[1 := (tr a ! 1)\<lparr>delay_usecs := phase_delay op len2\<rparr>]\<rparr>)"
  using assms by (simp add: prepare_header2_def no_fault body2_def upd_tr_def phase_delay_def comp_def)

lemma prepare_two_phase_spec:
  assumes "wf_arm a" and "unat len2 \<le> 296"
  defines "n \<equiv> even_len len2"
  obtains n2 a' where "prepare_two_phase op reg len2 a = Some (n2, a')" "unat n2 = n" "wf_arm a'"
    "a' = a\<lparr>tx1 := frame1 op (ucast (len2 AND 0xff)) reg,
            tx2 := overlay (body2 op reg (tx2 a)) n (drop n (frame2 op reg len2 (tx2 a))),
            tr := (tr a)[1 := (tr a ! 1)\<lparr>delay_usecs := phase_delay op len2\<rparr>],
            rx2 := (rx2 a)[0 := op]\<rparr>"
    "take (n + 2) (tx2 a') = frame2 op reg len2 (tx2 a)"
proof -
  let ?h = "[op, ucast (len2 AND 0xff), lo8 reg, hi8 reg]"
  let ?tl = "if len2 AND 1 \<noteq> 0 then len2 + 1 else len2"
  let ?c1 = "SpiCrcString ?h 0"
  let ?b = "take n (body2 op reg (tx2 a))"
  let ?c2 = "SpiCrcString (?h @ ?b) 0"
  let ?ts = "(tr a)[1 := (tr a ! 1)\<lparr>delay_usecs := phase_delay op len2\<rparr>]"
  let ?t2 = "overlay (body2 op reg (tx2 a)) n (crc_bytes ?c2)"
  have n: "n \<le> 296" "even n" using even_len_le [OF assms(2)] by (simp_all add: n_def)
  obtain x0 x1 x2 x3 x4 x5 where x: "tx1 a = [x0, x1, x2, x3, x4, x5]"
    by (rule length_6_cases [OF wf_armD(1) [OF assms(1)]])
  have sh: "tr_shape (tr a)" using assms(1) by simp
  then have sh': "tr_shape ?ts" and lt: "length (tr a) = 7"
    by (auto elim!: tr_shapeE simp: tr_shape_def)
  define tl where "tl = ?tl"
  have tl: "unat tl = n" unfolding n_def tl_def by (rule tr_len2_eq [OF assms(2)])
  have l2: "length (body2 op reg (tx2 a)) = 298" "length (rx2 a) = 298" using assms(1) by simp_all
  have t1: "crc_of [op, ucast (len2 AND 0xff), lo8 reg, hi8 reg, x, y] SIZEOF_HEADER 0 = Some ?c1"
    "wr16 [op, ucast (len2 AND 0xff), lo8 reg, hi8 reg, x, y] 4 ?c1 = Some (frame1 op (ucast (len2 AND 0xff)) reg)" for x y
    by (simp_all add: crc_of_def rd_block_def spi_sizes wr16_def wr8_def frame1_def crc_bytes_def Let_def)
  have up: "upd_tr 1 (delay_usecs_update (\<lambda>_. 25)) (a\<lparr>tx1 := t1\<rparr>) =
      Some (a\<lparr>tx1 := t1, tr := (tr a)[1 := (tr a ! 1)\<lparr>delay_usecs := 25\<rparr>]\<rparr>)" for t1
    using lt by (simp add: upd_tr_def)
  have crc2: "crc_of (body2 op reg (tx2 a)) n ?c1 = Some ?c2"
    using n l2 by (simp add: crc_of_def rd_block_def flip: SpiCrcString_append)
  have w2: "wr16 (body2 op reg (tx2 a)) n ?c2 = Some ?t2"
    using n l2 by (simp add: no_fault overlay_pair crc_bytes_def)
  have hd: "wr8 (tx1 a) 0 op = Some [op, x1, x2, x3, x4, x5]"
    "wr16 [op, x1, x2, x3, x4, x5] 2 reg = Some [op, x1, lo8 reg, hi8 reg, x4, x5]"
    "wr8 [op, x1, lo8 reg, hi8 reg, x4, x5] 1 l = Some [op, l, lo8 reg, hi8 reg, x4, x5]" for l
    by (simp_all add: wr8_def wr16_def x)
  have r2: "wr8 (rx2 a) 0 op = Some ((rx2 a)[0 := op])" using l2 by (simp add: no_fault)
  have eq: "prepare_two_phase op reg len2 a = Some (tl,
      a\<lparr>tx1 := frame1 op (ucast (len2 AND 0xff)) reg, tx2 := ?t2, tr := ?ts, rx2 := (rx2 a)[0 := op]\<rparr>)"
    unfolding prepare_two_phase_def Let_def tl_def [symmetric]
    using crc2 w2
    by (simp add: hd up prepare_header2_spec [OF assms(1) lt] t1 tl r2 even_two_times_div_two [OF n(2)]
          del: One_nat_def)
  have f2: "frame2 op reg len2 (tx2 a) = ?b @ crc_bytes ?c2"
    by (simp add: frame2_def n_def Let_def)
  have lb: "length ?b = n" "length (crc_bytes ?c2) = 2" using n l2 by (simp_all add: crc_bytes_def)
  have "take (n + 2) ?t2 = frame2 op reg len2 (tx2 a)"
    using take_overlay [of n "crc_bytes ?c2" "body2 op reg (tx2 a)"] n l2 lb by (simp add: f2)
  moreover have "drop n (frame2 op reg len2 (tx2 a)) = crc_bytes ?c2" using lb by (simp add: f2)
  moreover have "length ?t2 = 298" using n l2 lb by simp
  moreover have "wf_arm (a\<lparr>tx1 := frame1 op l reg, tx2 := ?t2, tr := ?ts, rx2 := (rx2 a)[0 := op]\<rparr>)" for l
    using sh' assms(1) \<open>length ?t2 = 298\<close> unfolding wf_arm_def by simp
  ultimately show thesis
    by (intro that [of tl]) (rule eq | rule tl | simp del: One_nat_def)+
qed

section \<open>The replies that are accepted\<close>

definition chunk1_ok :: "u8 list \<Rightarrow> bool" where
  "chunk1_ok r1 \<longleftrightarrow> SpiCrcString r1 0 = 0"

definition frame_ok :: "u8 list \<Rightarrow> u8 list \<Rightarrow> bool" where
  "frame_ok r1 r2 \<longleftrightarrow> chunk1_ok r1 \<and> SpiCrcString (take 4 r1 @ r2) 0 = 0"

definition idle_reply :: "u8 list \<Rightarrow> bool" where
  "idle_reply r1 \<longleftrightarrow> r1 ! 0 = 0xfa \<and> r1 ! 2 = 0x55 \<and> r1 ! 3 = 0x0e"

definition char_reply :: "u8 list \<Rightarrow> bool" where
  "char_reply r1 \<longleftrightarrow> r1 ! 0 = ARM_OP_WRITE_CHAR"

lemma mask_pattern:
  fixes b0 b1 b2 b3 :: u8
  shows "(push_bit 16 (ucast (join16 b3 b2)) OR ucast (join16 b1 b0) :: u32) AND 0xffff00ff =
     push_bit 16 (ucast (join16 b3 b2)) OR ucast b0"
proof -
  have m: "(0xffff00ff :: u32) = push_bit 16 (mask 16) OR mask 8" by code_simp
  show ?thesis unfolding m
    by (rule bit_word_eqI) (auto simp: join16_def bit_simps dest: bit_imp_le_length)
qed

lemma pattern_bytes:
  fixes b0 b2 b3 :: u8
  shows "(push_bit 16 (ucast (join16 b3 b2)) OR ucast b0 :: u32) = IDLE_PATTERN \<longleftrightarrow>
     b0 = 0xfa \<and> b2 = 0x55 \<and> b3 = 0x0e" (is "?v = _ \<longleftrightarrow> _")
proof
  have "(ucast ?v :: u8) = b0" "(ucast (drop_bit 16 ?v) :: u8) = b2" "(ucast (drop_bit 24 ?v) :: u8) = b3"
    by (rule bit_word_eqI, auto simp: join16_def bit_simps dest: bit_imp_le_length)+
  moreover assume "?v = IDLE_PATTERN"
  ultimately have "b0 = ucast IDLE_PATTERN" "b2 = ucast (drop_bit 16 IDLE_PATTERN)"
    "b3 = ucast (drop_bit 24 IDLE_PATTERN)" by simp_all
  moreover have "(ucast IDLE_PATTERN :: u8) = 0xfa" "(ucast (drop_bit 16 IDLE_PATTERN) :: u8) = 0x55"
    "(ucast (drop_bit 24 IDLE_PATTERN) :: u8) = 0x0e" by code_simp+
  ultimately show "b0 = 0xfa \<and> b2 = 0x55 \<and> b3 = 0x0e" by simp
next
  assume "b0 = 0xfa \<and> b2 = 0x55 \<and> b3 = 0x0e"
  then show "?v = IDLE_PATTERN" by (elim conjE) (simp only:, code_simp)
qed

lemma is_idle_spec: "length (rx1 a) = 6 \<Longrightarrow> is_idle a = Some (idle_reply (rx1 a))"
  by (simp add: is_idle_def rd32_def no_fault mask_pattern pattern_bytes idle_reply_def
      numeral_2_eq_2 numeral_3_eq_3)

text \<open>The character that a reply's first chunk carries is queued as \<open>queue_uart\<close> does it.\<close>

definition with_queue :: "arm_handle \<Rightarrow> uart_queue \<Rightarrow> arm_handle" where
  "with_queue a q = a\<lparr>uart_q := (uart_q a)[0 := q]\<rparr>"

lemma wf_with_queue:
  assumes "wf_arm a" and "wf_queue q"
  shows "wf_arm (with_queue a q)"
proof -
  have "set ((uart_q a)[0 := q]) \<subseteq> insert q (set (uart_q a))" by (rule set_update_subset_insert)
  with assms show ?thesis unfolding wf_arm_def with_queue_def by auto
qed

lemma queue_rx_char_spec:
  assumes "wf_arm a"
  shows "\<exists>q. queue_rx_char a = Some (with_queue a q) \<and> wf_queue q \<and>
           q_masterpty q = q_masterpty (uart_q a ! 0) \<and>
           content q = take 256 (content (uart_q a ! 0) @ [rx1 a ! 3])"
proof -
  obtain q where "queue_uart (rx1 a ! 3) (rx1 a ! 2) (uart_q a ! 0) = Some q" "wf_queue q"
    "q_masterpty q = q_masterpty (uart_q a ! 0)"
    "content q = take 256 (content (uart_q a ! 0) @ [rx1 a ! 3])"
    using queue_uart_spec [of "uart_q a ! 0"] assms by (metis wf_armD(7))
  moreover have "uart_q a \<noteq> []" using wf_armD(6) [OF assms] by auto
  ultimately show ?thesis
    using assms by (intro exI [of _ q]) (simp add: queue_rx_char_def no_fault with_queue_def)
qed

lemma take_pair: "Suc n < length xs \<Longrightarrow> take (n + 2) xs = take n xs @ [xs ! n, xs ! Suc n]"
  by (simp add: take_Suc_conv_app_nth)

lemma crc_at_end:
  assumes "n + 2 \<le> length m"
  shows "SpiCrcString (h @ take n m) 0 = join16 (m ! Suc n) (m ! n) \<longleftrightarrow>
     SpiCrcString (h @ take (n + 2) m) 0 = 0"
proof -
  have t: "take (n + 2) m = take n m @ [m ! n, m ! Suc n]" 
    by (rule take_pair) (use assms in simp)
  show ?thesis unfolding t crc_check_iff append_assoc ..
qed

definition reply_status :: "u8 list \<Rightarrow> u8 list \<Rightarrow> int" where
  "reply_status r1 r2 = (if frame_ok r1 r2 \<and> (char_reply r1 \<or> idle_reply r1) then 0 else -1)"

lemma check_two_phase_spec:
  assumes "wf_arm a" and "even (unat n2)" and "unat n2 \<le> 296"
  shows "\<exists>q. check_two_phase n2 a w =
             Some (reply_status (rx1 a) (take (unat n2 + 2) (rx2 a)),
                   if chunk1_ok (rx1 a) \<and> char_reply (rx1 a) then with_queue a q else a, w) \<and>
           wf_queue q \<and> content q = take 256 (content (uart_q a ! 0) @ [rx1 a ! 3])"
proof -
  obtain q where q: "queue_rx_char a = Some (with_queue a q)" "wf_queue q"
    "content q = take 256 (content (uart_q a ! 0) @ [rx1 a ! 3])"
    using queue_rx_char_spec [OF assms(1)] by blast
  let ?n = "unat n2"
  let ?c1 = "SpiCrcString (take 4 (rx1 a)) 0"
  let ?c2 = "SpiCrcString (take 4 (rx1 a) @ take ?n (rx2 a)) 0"
  have l: "length (rx1 a) = 6" "length (rx2 a) = 298" using assms(1) by simp_all
  have c1: "crc_of (rx1 a) SIZEOF_HEADER 0 = Some ?c1" "rd16 (rx1 a) 4 = Some (join16 (rx1 a ! 5) (rx1 a ! 4))"
    using l by (simp_all add: crc_of_def rd_block_def spi_sizes no_fault)
  have ok1: "?c1 = join16 (rx1 a ! 5) (rx1 a ! 4) \<longleftrightarrow> chunk1_ok (rx1 a)"
    using crc_at_end [of 4 "rx1 a" "[]"] l by (simp add: chunk1_ok_def)
  have c2: "crc_of (rx2 a) ?n ?c1 = Some ?c2"
    using l assms(3) by (simp add: crc_of_def rd_block_def flip: SpiCrcString_append)
  have r2: "rd16 (rx2 a) ?n = Some (join16 (rx2 a ! Suc ?n) (rx2 a ! ?n))"
    using l assms(3) by (simp add: no_fault)
  have ok2: "?c2 = join16 (rx2 a ! Suc ?n) (rx2 a ! ?n) \<longleftrightarrow>
      SpiCrcString (take 4 (rx1 a) @ take (?n + 2) (rx2 a)) 0 = 0"
    using crc_at_end [of ?n "rx2 a" "take 4 (rx1 a)"] l assms(3) by simp
  have q2: "rx2 (with_queue a q) = rx2 a" by (simp add: with_queue_def)
  have "check_two_phase n2 a w =
     Some (reply_status (rx1 a) (take (?n + 2) (rx2 a)),
           if chunk1_ok (rx1 a) \<and> char_reply (rx1 a) then with_queue a q else a, w)"
    using l assms(2)
    by (simp add: check_two_phase_def c1 ok1 c2 r2 ok2 q(1) q2 is_idle_spec reply_status_def
        frame_ok_def char_reply_def no_fault eq_commute [of "join16 _ _"] del: take_append)
  with q(2,3) show ?thesis by blast
qed

section \<open>The two-phase operation\<close>

text \<open>What an operation leaves alone, and the local queue after a reply.\<close>

definition same_board :: "arm_handle \<Rightarrow> arm_handle \<Rightarrow> bool" where
  "same_board a b \<longleftrightarrow> fd b = fd a \<and> fdint b = fdint a \<and> arm_index b = arm_index a \<and> bv b = bv a \<and>
     drop 1 (uart_q b) = drop 1 (uart_q a)"

definition local_chars :: "arm_handle \<Rightarrow> u8 list" where
  "local_chars a = content (uart_q a ! 0)"

definition queued :: "u8 list \<Rightarrow> u8 list \<Rightarrow> u8 list" where
  "queued r1 cs = (if chunk1_ok r1 \<and> char_reply r1 then take 256 (cs @ [r1 ! 3]) else cs)"

lemma same_board_refl [simp]: "same_board a a"
  by (simp add: same_board_def)

lemma same_board_trans: "same_board a b \<Longrightarrow> same_board b c \<Longrightarrow> same_board a c"
  by (simp add: same_board_def)

lemma same_board_buffers [simp]:
  "same_board a (b\<lparr>tx1 := x\<rparr>) = same_board a b" "same_board a (b\<lparr>rx1 := x\<rparr>) = same_board a b"
  "same_board a (b\<lparr>tx2 := x\<rparr>) = same_board a b" "same_board a (b\<lparr>rx2 := x\<rparr>) = same_board a b"
  "same_board a (b\<lparr>tr := ts\<rparr>) = same_board a b"
  by (simp_all add: same_board_def)

lemma local_chars_buffers [simp]:
  "local_chars (b\<lparr>tx1 := x\<rparr>) = local_chars b" "local_chars (b\<lparr>rx1 := x\<rparr>) = local_chars b"
  "local_chars (b\<lparr>tx2 := x\<rparr>) = local_chars b" "local_chars (b\<lparr>rx2 := x\<rparr>) = local_chars b"
  "local_chars (b\<lparr>tr := ts\<rparr>) = local_chars b"
  by (simp_all add: local_chars_def)

lemma with_queue_simps [simp]:
  "same_board a (with_queue b q) = same_board a b"
  "rx1 (with_queue b q) = rx1 b" "rx2 (with_queue b q) = rx2 b" "tx2 (with_queue b q) = tx2 b"
  by (simp_all add: same_board_def with_queue_def drop_update_cancel)

lemma local_chars_with_queue: "uart_q b \<noteq> [] \<Longrightarrow> local_chars (with_queue b q) = content q"
  by (simp add: local_chars_def with_queue_def)

text \<open>
  The two-phase operation as one exchange of a whole frame: the splitting into transfers,
  the reuse of the buffers and the incremental CRCs are not visible any more.
\<close>

lemma two_phase_op_spec:
  assumes "wf_arm a" and "full_duplex os" and "unat len2 \<le> 296"
  shows "\<exists>out ret inc a' w'.
           concat (map snd out) = frame2 op reg len2 (tx2 a) \<and>
           (\<forall>p \<in> set out. length (snd p) \<le> MAX_SPI_RX) \<and>
           os_spi_message os (fd a) ((delay_usecs (tr a ! 0), []) #
             (phase_delay op len2, frame1 op (ucast (len2 AND 0xff)) reg) # out) w = (ret, inc, w') \<and>
           two_phase_op os op reg len2 a w =
             Some (if ret < 1 then ret else reply_status (take 6 inc) (drop 6 inc), a', w') \<and>
           wf_arm a' \<and> same_board a a' \<and>
           (1 \<le> ret \<longrightarrow> length inc = 8 + even_len len2 \<and> rx1 a' = take 6 inc \<and>
              take (even_len len2 + 2) (rx2 a') = drop 6 inc \<and>
              rx2 a' = drop 6 inc @ drop (even_len len2 + 2) (rx2 a)) \<and>
           (ret < 1 \<and> inc = [] \<longrightarrow> rx2 a' = (rx2 a)[0 := op]) \<and>
           local_chars a' = (if ret < 1 then local_chars a else queued (take 6 inc) (local_chars a))"
proof -
  let ?n = "even_len len2"
  have sh: "tr_shape (tr a)" using assms(1) by simp
  obtain n2 a1 where p0: "prepare_two_phase op reg len2 a = Some (n2, a1)" "unat n2 = ?n" "wf_arm a1"
    and a1: "a1 = a\<lparr>tx1 := frame1 op (ucast (len2 AND 0xff)) reg,
                  tx2 := overlay (body2 op reg (tx2 a)) ?n (drop ?n (frame2 op reg len2 (tx2 a))),
                  tr := (tr a)[1 := (tr a ! 1)\<lparr>delay_usecs := phase_delay op len2\<rparr>],
                  rx2 := (rx2 a)[0 := op]\<rparr>"
    and t2: "take (?n + 2) (tx2 a1) = frame2 op reg len2 (tx2 a)"
    by (rule prepare_two_phase_spec [OF assms(1,3), of op reg])
  have "tx1 a1 = frame1 op (ucast (len2 AND 0xff)) reg" "same_board a a1" "local_chars a1 = local_chars a"
    "fd a1 = fd a" "tr a1 ! 0 = tr a ! 0" "delay_usecs (tr a1 ! 1) = phase_delay op len2"
    unfolding a1 using tr_shape_length [OF sh] by simp_all
  note p = p0 this(1) t2 this(2-)
  have n: "?n \<le> 296" by (rule even_len_le [OF assms(3)])
  obtain k ts cs where c: "set_chunks (?n + 2) a1 = Some (k, a1\<lparr>tr := ts\<rparr>)" "tr_shape ts" "k \<le> length ts"
    "ts ! 0 = tr a1 ! 0" "ts ! 1 = tr a1 ! 1" "take k ts = ts ! 0 # ts ! 1 # cs" "tiles 0 (?n + 2) cs"
    using set_chunks_tiles [of a1 "?n + 2"] p(3) n by auto
  let ?a2 = "a1\<lparr>tr := ts\<rparr>"
  have wf: "wf_arm ?a2" using p(3) c(2) unfolding wf_arm_def by simp
  obtain out ret inc w' r1 r2 where m: "concat (map snd out) = take (?n + 2) (tx2 ?a2)"
    "\<forall>p \<in> set out. length (snd p) \<le> MAX_SPI_RX"
    "os_spi_message os (fd ?a2) ((delay_usecs (tr ?a2 ! 0), []) # (delay_usecs (tr ?a2 ! 1), tx1 ?a2) # out) w
       = (ret, inc, w')"
    "spi_message os k ?a2 w = Some (ret, ?a2\<lparr>rx1 := r1, rx2 := r2\<rparr>, w')"
    "length r1 = 6" "length r2 = 298" "inc = [] \<Longrightarrow> r2 = rx2 ?a2" "1 \<le> ret \<Longrightarrow> length inc = 6 + (?n + 2)"
    "1 \<le> ret \<Longrightarrow> r1 = take 6 inc" "1 \<le> ret \<Longrightarrow> r2 = overlay (rx2 ?a2) 0 (drop 6 inc)"
    by (rule spi_message_frame [OF wf assms(2), of k cs "?n + 2" w]) (use c n in auto)
  let ?a3 = "?a2\<lparr>rx1 := r1, rx2 := r2\<rparr>"
  have ok: "length inc = 8 + ?n \<and> r1 = take 6 inc \<and> take (?n + 2) r2 = drop 6 inc" if "1 \<le> ret"
    using m(8-10) that p(3) n take_overlay_0 [of "drop 6 inc" "rx2 ?a2"] by simp
  have rest: "r2 = drop 6 inc @ drop (?n + 2) (rx2 a)" if "1 \<le> ret"
    using m(8,10) that by (simp add: overlay_def a1)
  have wf3: "wf_arm ?a3" using wf m(5,6) unfolding wf_arm_def by simp
  obtain q where q: "check_two_phase n2 ?a3 w' = Some (reply_status r1 (take (?n + 2) r2),
       if chunk1_ok r1 \<and> char_reply r1 then with_queue ?a3 q else ?a3, w')"
    "wf_queue q" "content q = take 256 (local_chars a @ [r1 ! 3])"
    using check_two_phase_spec [OF wf3, of n2 w'] p(2,7) n by (auto simp: local_chars_def)
  let ?a' = "if \<not> ret < 1 \<and> chunk1_ok r1 \<and> char_reply r1 then with_queue ?a3 q else ?a3"
  have "two_phase_op os op reg len2 a w =
      Some (if ret < 1 then ret else reply_status (take 6 inc) (drop 6 inc), ?a', w')"
  proof (cases "ret < 1")
    case True
    then show ?thesis using p(1,2) c(1) m(4) by (simp add: two_phase_op_def CRC_SIZE_def)
  next
    case False
    then have "r1 = take 6 inc" "take (?n + 2) r2 = drop 6 inc" using ok by simp_all
    with False show ?thesis
      using p(1,2) c(1) m(4) q(1) by (simp add: two_phase_op_def CRC_SIZE_def)
  qed
  moreover have "wf_arm ?a'" using wf3 wf_with_queue [OF wf3 q(2)] by simp
  moreover have "same_board a ?a'" using p(6) by simp
  moreover have "1 \<le> ret \<longrightarrow> length inc = 8 + ?n \<and> rx1 ?a' = take 6 inc \<and>
      take (?n + 2) (rx2 ?a') = drop 6 inc \<and> rx2 ?a' = drop 6 inc @ drop (?n + 2) (rx2 a)"
    using ok rest by simp
  moreover have "ret < 1 \<and> inc = [] \<longrightarrow> rx2 ?a' = (rx2 a)[0 := op]"
    using m(7) by (simp add: a1)
  moreover have "uart_q ?a3 \<noteq> []" using wf_armD(6) [OF wf3] by auto
  then have "local_chars ?a' = (if ret < 1 then local_chars a else queued (take 6 inc) (local_chars a))"
    using p(7) q(3) ok by (simp add: local_chars_with_queue queued_def)
  ultimately show ?thesis
    using m(1-3) p(4,5,8,9,10) c(4,5)
    by (intro exI [of _ out] exI [of _ ret] exI [of _ inc] exI [of _ ?a'] exI [of _ w']) simp
qed

text \<open>The facts an operation above \<open>two_phase_op\<close> needs, as an elimination rule.\<close>

lemma two_phase_opE:
  assumes "wf_arm a" and "full_duplex os" and "unat len2 \<le> 296"
  obtains out ret inc a' w' where "concat (map snd out) = frame2 op reg len2 (tx2 a)"
    "os_spi_message os (fd a) ((delay_usecs (tr a ! 0), []) #
       (phase_delay op len2, frame1 op (ucast (len2 AND 0xff)) reg) # out) w = (ret, inc, w')"
    "two_phase_op os op reg len2 a w =
       Some (if ret < 1 then ret else reply_status (take 6 inc) (drop 6 inc), a', w')"
    "wf_arm a'" "same_board a a'"
    "1 \<le> ret \<Longrightarrow> length inc = 8 + even_len len2" "1 \<le> ret \<Longrightarrow> take (even_len len2 + 2) (rx2 a') = drop 6 inc"
    "ret < 1 \<Longrightarrow> inc = [] \<Longrightarrow> rx2 a' = (rx2 a)[0 := op]"
    "local_chars a' = (if ret < 1 then local_chars a else queued (take 6 inc) (local_chars a))"
  using two_phase_op_spec [OF assms] by blast

section \<open>One-phase operations\<close>

lemma one_phase_op_spec:
  assumes "wf_arm a" and "full_duplex os"
  shows "\<exists>ret inc a' w'.
           os_spi_message os (fd a) [(delay_usecs (tr a ! 0), []), (0, frame1 op value reg)] w = (ret, inc, w') \<and>
           wf_arm a' \<and> same_board a a' \<and> (1 \<le> ret \<longrightarrow> length inc = 6) \<and>
           one_phase_op os op reg value a w =
             Some (if 1 \<le> ret \<and> chunk1_ok inc \<and> (idle_reply inc \<or> char_reply inc) then 0 else -1, a', w') \<and>
           local_chars a' =
             (if 1 \<le> ret \<and> \<not> idle_reply inc then queued inc (local_chars a) else local_chars a)"
proof -
  have sh: "tr_shape (tr a)" using assms(1) by simp
  obtain x0 x1 x2 x3 x4 x5 where x: "tx1 a = [x0, x1, x2, x3, x4, x5]"
    by (rule length_6_cases [OF wf_armD(1) [OF assms(1)]])
  let ?h = "[op, value, lo8 reg, hi8 reg]"
  let ?c1 = "SpiCrcString ?h 0"
  have hd: "wr8 (tx1 a) 0 op = Some [op, x1, x2, x3, x4, x5]"
    "wr8 [op, x1, x2, x3, x4, x5] 1 value = Some [op, value, x2, x3, x4, x5]"
    "wr16 [op, value, x2, x3, x4, x5] 2 reg = Some [op, value, lo8 reg, hi8 reg, x4, x5]"
    "crc_of [op, value, lo8 reg, hi8 reg, x4, x5] SIZEOF_HEADER 0 = Some ?c1"
    "wr16 [op, value, lo8 reg, hi8 reg, x4, x5] 4 ?c1 = Some (frame1 op value reg)"
    by (simp_all add: wr8_def wr16_def x crc_of_def rd_block_def spi_sizes frame1_def crc_bytes_def Let_def)
  let ?ts = "(tr a)[1 := (tr a ! 1)\<lparr>delay_usecs := 0\<rparr>]"
  let ?a1 = "a\<lparr>tx1 := frame1 op value reg, tr := ?ts\<rparr>"
  have sh': "tr_shape ?ts" and lt: "length (tr a) = 7"
    using sh by (auto elim!: tr_shapeE simp: tr_shape_def)
  have up: "upd_tr 1 (delay_usecs_update (\<lambda>_. 0)) (a\<lparr>tx1 := t1\<rparr>) = Some (a\<lparr>tx1 := t1, tr := ?ts\<rparr>)" for t1
    using lt by (simp add: upd_tr_def)
  have wf1: "wf_arm ?a1" using sh' assms(1) unfolding wf_arm_def by simp
  have "take 2 ?ts = ?ts ! 0 # ?ts ! 1 # []"
    using lt by (simp add: take_Suc_conv_app_nth numeral_2_eq_2 del: take_update_cancel)
  then obtain ret inc w' r1 r2 where m:
    "os_spi_message os (fd a) [(delay_usecs (tr a ! 0), []), (0, frame1 op value reg)] w = (ret, inc, w')"
    "spi_message os 2 ?a1 w = Some (ret, ?a1\<lparr>rx1 := r1, rx2 := r2\<rparr>, w')"
    "length r1 = 6" "length r2 = 298" "1 \<le> ret \<Longrightarrow> length inc = 6" "1 \<le> ret \<Longrightarrow> r1 = take 6 inc"
    by - (rule spi_message_frame [OF wf1 assms(2), of 2 "[]" 0 w], use lt in auto)
  let ?a2 = "?a1\<lparr>rx1 := r1, rx2 := r2\<rparr>"
  have wf2: "wf_arm ?a2" using wf1 m(3,4) unfolding wf_arm_def by simp
  obtain q where q: "queue_rx_char ?a2 = Some (with_queue ?a2 q)" "wf_queue q"
    "content q = take 256 (local_chars a @ [r1 ! 3])"
    using queue_rx_char_spec [OF wf2] by (auto simp: local_chars_def)
  have c1: "crc_of r1 SIZEOF_HEADER 0 = Some (SpiCrcString (take 4 r1) 0)"
    "rd16 r1 4 = Some (join16 (r1 ! 5) (r1 ! 4))"
    using m(3) by (simp_all add: crc_of_def rd_block_def spi_sizes no_fault)
  have ok1: "SpiCrcString (take 4 r1) 0 = join16 (r1 ! 5) (r1 ! 4) \<longleftrightarrow> chunk1_ok r1"
    using crc_at_end [of 4 r1 "[]"] m(3) by (simp add: chunk1_ok_def)
  let ?a' = "if 1 \<le> ret \<and> chunk1_ok r1 \<and> \<not> idle_reply r1 \<and> char_reply r1 then with_queue ?a2 q else ?a2"
  have "one_phase_op os op reg value a w =
      Some (if 1 \<le> ret \<and> chunk1_ok r1 \<and> (idle_reply r1 \<or> char_reply r1) then 0 else -1, ?a', w')"
    unfolding one_phase_op_def using m(2,3) q(1) c1 ok1
    by (simp add: hd up is_idle_spec char_reply_def rd8_def del: One_nat_def)
  moreover have "wf_arm ?a'" using wf2 wf_with_queue [OF wf2 q(2)] by simp
  moreover have "same_board a ?a'" by simp
  moreover have "uart_q ?a2 \<noteq> []" using wf_armD(6) [OF wf2] by auto
  then have "local_chars ?a' =
      (if 1 \<le> ret \<and> \<not> idle_reply r1 then queued r1 (local_chars a) else local_chars a)"
    using q(3) by (simp add: local_chars_with_queue queued_def)
  moreover have "1 \<le> ret \<longrightarrow> r1 = inc" using m(5,6) by simp
  ultimately show ?thesis
    using m(1,5) by (intro exI [of _ ret] exI [of _ inc] exI [of _ ?a'] exI [of _ w']) auto
qed

end
