(* ===== verification/Arm_Spi_Ops.thy ===== *)
theory Arm_Spi_Ops
  imports Arm_Spi_Correct
begin

text \<open>
  The register, bit and character operations of \<open>armspi.c\<close> on top of the exchange of
  one frame: their results on every reply, the memory they touch, and the contract the
  Modbus server relies on.
\<close>

section \<open>What an operation reads of a reply\<close>

lemma prefix_nth: "take m xs = ys \<Longrightarrow> i < m \<Longrightarrow> xs ! i = ys ! i"
  by auto

lemma prefix_slice: "take m xs = ys \<Longrightarrow> j + k \<le> m \<Longrightarrow> take k (drop j xs) = take k (drop j ys)"
  by (auto simp: take_drop min_def add.commute)

text \<open>
  The value of \<open>two_phase_op\<close> for the return value \<open>ret\<close> of the system call and the bytes
  \<open>inc\<close> that came in.
\<close>

definition exchange_status :: "int \<Rightarrow> u8 list \<Rightarrow> int" where
  "exchange_status ret inc = (if ret < 1 then ret else reply_status (take 6 inc) (drop 6 inc))"

definition chars_after :: "int \<Rightarrow> u8 list \<Rightarrow> u8 list \<Rightarrow> u8 list" where
  "chars_after ret inc cs = (if ret < 1 then cs else queued (take 6 inc) cs)"

lemma unat_regs_len2: "unat (word_of_nat (SIZEOF_HEADER + 2 * unat (cnt :: u8)) :: u16) = 4 + 2 * unat cnt"
  using unat8_bounds [of cnt] by (simp add: SIZEOF_HEADER_def unat_of_nat del: of_nat_add of_nat_mult)

lemma ucast_and_ff: "(ucast (w AND 0xff) :: u8) = ucast (w :: u16)"
proof -
  have m: "(0xff :: u16) = mask 8" by (simp add: mask_eq_exp_minus_1)
  show ?thesis unfolding m by (rule bit_word_eqI) (auto simp: bit_simps)
qed

lemma ucast_word_of_nat: "(ucast (word_of_nat n :: u16) :: u8) = word_of_nat n"
  by (rule bit_word_eqI) (auto simp: bit_simps)

lemma even_len_even: "even (unat len2) \<Longrightarrow> even_len len2 = unat len2"
  by (simp add: even_len_def)

section \<open>Registers\<close>

text \<open>The reply to a register read that \<open>read_regs\<close> accepts.\<close>

definition regs_reply_ok :: "u16 \<Rightarrow> u8 \<Rightarrow> u8 list \<Rightarrow> bool" where
  "regs_reply_ok reg cnt r2 \<longleftrightarrow> r2 ! 0 = ARM_OP_READ_REG \<and> r2 ! 1 \<le> cnt \<and> join16 (r2 ! 3) (r2 ! 2) = reg"

lemma read_regs_spec:
  assumes "wf_arm a" and "full_duplex os" and "unat cnt \<le> 146" and "off + 2 * unat cnt \<le> length dst"
  obtains out ret inc w' a' where
    "concat (map snd out) = frame2 ARM_OP_READ_REG reg (word_of_nat (4 + 2 * unat cnt)) (tx2 a)"
    "os_spi_message os (fd a) ((delay_usecs (tr a ! 0), []) #
       (phase_delay ARM_OP_READ_REG (word_of_nat (4 + 2 * unat cnt)),
        frame1 ARM_OP_READ_REG (word_of_nat (4 + 2 * unat cnt)) reg) # out) w = (ret, inc, w')"
    "1 \<le> ret \<Longrightarrow> length inc = 12 + 2 * unat cnt"
    "wf_arm a'" "same_board a a'" "local_chars a' = chars_after ret inc (local_chars a)"
    "ret \<noteq> 0 \<Longrightarrow> read_regs os reg cnt dst off a w =
       Some (let r2 = drop 6 inc; n = r2 ! 1 in
             if exchange_status ret inc < 0 then (exchange_status ret inc, dst, a', w')
             else if regs_reply_ok reg cnt r2
             then (uint n, overlay dst off (take (2 * unat n) (drop 4 r2)), a', w')
             else (-1, dst, a', w'))"
    "\<exists>n bs. read_regs os reg cnt dst off a w = Some (n, overlay dst off bs, a', w') \<and>
       n \<le> uint cnt \<and> length bs \<le> 2 * unat cnt \<and> (n < 0 \<longrightarrow> bs = []) \<and> (0 \<le> n \<longrightarrow> length bs = 2 * nat n)"
proof -
  let ?len2 = "word_of_nat (SIZEOF_HEADER + 2 * unat cnt) :: u16"
  have len2: "unat ?len2 = 4 + 2 * unat cnt" by (rule unat_regs_len2)
  then have e: "even_len ?len2 = 4 + 2 * unat cnt" by (simp add: even_len_even)
  obtain out ret inc a' w' where t: "concat (map snd out) = frame2 ARM_OP_READ_REG reg ?len2 (tx2 a)"
    "os_spi_message os (fd a) ((delay_usecs (tr a ! 0), []) #
       (phase_delay ARM_OP_READ_REG ?len2, frame1 ARM_OP_READ_REG (ucast (?len2 AND 0xff)) reg) # out) w = (ret, inc, w')"
    "two_phase_op os ARM_OP_READ_REG reg ?len2 a w =
       Some (if ret < 1 then ret else reply_status (take 6 inc) (drop 6 inc), a', w')"
    "wf_arm a'" "same_board a a'" "1 \<le> ret \<Longrightarrow> length inc = 8 + even_len ?len2"
    "1 \<le> ret \<Longrightarrow> take (even_len ?len2 + 2) (rx2 a') = drop 6 inc"
    "local_chars a' = (if ret < 1 then local_chars a else queued (take 6 inc) (local_chars a))"
    by (rule two_phase_opE [OF assms(1,2), of ?len2 ARM_OP_READ_REG reg w]) (use len2 assms(3) in auto)
  have len: "length (rx2 a') = 298" using t(4) by simp
  note t7 = t(7) [unfolded e]
  have r: "rx2 a' ! 0 = drop 6 inc ! 0" "rx2 a' ! 1 = drop 6 inc ! 1" "rx2 a' ! 2 = drop 6 inc ! 2"
    "rx2 a' ! 3 = drop 6 inc ! 3" if "1 \<le> ret"
    by (simp_all add: prefix_nth [OF t7 [OF that]] del: add_2_eq_Suc')
  let ?data = "\<lambda>n. take (2 * unat n) (drop 4 (rx2 a'))"
  have copy: "rd_block (rx2 a') SIZEOF_HEADER (2 * unat n) = Some (?data n)"
    "wr_block dst off (?data n) = Some (overlay dst off (?data n))"
    "length (?data n) = 2 * unat n" "uint n \<le> uint cnt" "unat n \<le> unat cnt" if "n \<le> cnt" for n
  proof -
    have le: "unat n \<le> unat cnt" "uint n \<le> uint cnt"
      using word_le_nat_alt [of n cnt] word_le_def [of n cnt] that by blast+
    with len assms(3,4) show "rd_block (rx2 a') SIZEOF_HEADER (2 * unat n) = Some (?data n)"
      "wr_block dst off (?data n) = Some (overlay dst off (?data n))"
      "length (?data n) = 2 * unat n" "uint n \<le> uint cnt" "unat n \<le> unat cnt"
      by (simp_all add: rd_block_def SIZEOF_HEADER_def no_fault)
  qed
  have data: "?data n = take (2 * unat n) (drop 4 (drop 6 inc))" if "n \<le> cnt" "1 \<le> ret" for n
    using that(1) by (intro prefix_slice [OF t7 [OF that(2)]]) (simp add: word_le_nat_alt)
  let ?st = "exchange_status ret inc"
  let ?n = "rx2 a' ! 1"
  have eq: "read_regs os reg cnt dst off a w =
     Some (if ?st < 0 then (?st, dst, a', w')
           else if regs_reply_ok reg cnt (rx2 a') then (uint ?n, overlay dst off (?data ?n), a', w')
           else (-1, dst, a', w'))"
    unfolding read_regs_def Let_def t(3) exchange_status_def regs_reply_ok_def
    using len copy(1,2) by (auto simp: rd8_def rd16_in)
  show thesis
  proof (rule that [of out ret inc w' a'])
    show "read_regs os reg cnt dst off a w = Some (let r2 = drop 6 inc; n = r2 ! 1 in
             if exchange_status ret inc < 0 then (exchange_status ret inc, dst, a', w')
             else if regs_reply_ok reg cnt r2
             then (uint n, overlay dst off (take (2 * unat n) (drop 4 r2)), a', w')
             else (-1, dst, a', w'))" if "ret \<noteq> 0"
    proof (cases "1 \<le> ret")
      case True
      show ?thesis unfolding eq using r [OF True] data [OF _ True]
        by (auto simp: regs_reply_ok_def Let_def simp del: drop_drop)
    next
      case False
      with that show ?thesis by (simp add: eq exchange_status_def)
    qed
    show "\<exists>n bs. read_regs os reg cnt dst off a w = Some (n, overlay dst off bs, a', w') \<and>
       n \<le> uint cnt \<and> length bs \<le> 2 * unat cnt \<and> (n < 0 \<longrightarrow> bs = []) \<and> (0 \<le> n \<longrightarrow> length bs = 2 * nat n)"
    proof -
      have pos: "0 \<le> uint cnt" by simp
      consider "?st < 0" | "\<not> ?st < 0" "\<not> regs_reply_ok reg cnt (rx2 a')"
        | "\<not> ?st < 0" "regs_reply_ok reg cnt (rx2 a')" by blast
      then show ?thesis
      proof cases
        case 1
        then have "?st \<le> uint cnt" using pos by linarith
        with 1 show ?thesis by (intro exI [of _ ?st] exI [of _ "[]"]) (simp add: eq)
      next
        case 2
        have "-1 \<le> uint cnt" using pos by linarith
        with 2 show ?thesis by (intro exI [of _ "-1"] exI [of _ "[]"]) (simp add: eq)
      next
        case 3
        then have le: "?n \<le> cnt" by (simp add: regs_reply_ok_def)
        from 3 copy(3-5) [OF le] show ?thesis
          by (intro exI [of _ "uint ?n"] exI [of _ "?data ?n"]) (simp add: eq)
      qed
    qed
  qed (use t e in \<open>simp_all add: chars_after_def ucast_and_ff ucast_word_of_nat SIZEOF_HEADER_def
         del: of_nat_add of_nat_mult\<close>)
qed

text \<open>The second chunk of an operation that sends \<open>bs\<close> after its header.\<close>

definition data_frame2 :: "u8 \<Rightarrow> u16 \<Rightarrow> u8 \<Rightarrow> u8 \<Rightarrow> u8 list \<Rightarrow> u8 list" where
  "data_frame2 op reg len cnt bs =
     (let b = [op, cnt, lo8 reg, hi8 reg] @ bs
      in b @ crc_bytes (SpiCrcString ([op, len, lo8 reg, hi8 reg] @ b) 0))"

lemma frame2_data:
  assumes "op \<noteq> ARM_OP_WRITE_STR" and "length t2 = 298" and "even_len len2 = 4 + length bs"
    and "4 + length bs \<le> 296"
  shows "frame2 op reg len2 (overlay (t2[1 := cnt]) 4 bs) = data_frame2 op reg (ucast len2) cnt bs"
proof -
  have "4 \<le> length t2" using assms(2) by simp
  then obtain x0 x1 x2 x3 r where t2: "t2 = x0 # x1 # x2 # x3 # r"
    by (cases t2; cases "tl t2"; cases "tl (tl t2)"; cases "tl (tl (tl t2))") auto
  have "take (4 + length bs) (body2 op reg (overlay (t2[1 := cnt]) 4 bs)) = [op, cnt, lo8 reg, hi8 reg] @ bs"
    using assms(1) by (simp add: body2_def t2 overlay_def eval_nat_numeral)
  then show ?thesis
    by (simp add: frame2_def data_frame2_def assms(3) ucast_and_ff Let_def)
qed

lemma write_regs_spec:
  assumes "wf_arm a" and "full_duplex os" and "cnt \<le> 126" and "off + 2 * unat cnt \<le> length vals"
  obtains out ret inc w' a' where
    "concat (map snd out) = data_frame2 ARM_OP_WRITE_REG reg (word_of_nat (4 + 2 * unat cnt)) cnt
       (take (2 * unat cnt) (drop off vals))"
    "os_spi_message os (fd a) ((delay_usecs (tr a ! 0), []) #
       (phase_delay ARM_OP_WRITE_REG (word_of_nat (4 + 2 * unat cnt)),
        frame1 ARM_OP_WRITE_REG (word_of_nat (4 + 2 * unat cnt)) reg) # out) w = (ret, inc, w')"
    "1 \<le> ret \<Longrightarrow> length inc = 12 + 2 * unat cnt"
    "wf_arm a'" "same_board a a'" "local_chars a' = chars_after ret inc (local_chars a)"
    "ret \<noteq> 0 \<Longrightarrow> write_regs os reg cnt vals off a w =
       Some (if exchange_status ret inc < 0 then exchange_status ret inc
             else if drop 6 inc ! 0 = ARM_OP_WRITE_REG then uint (drop 6 inc ! 1) else -1, a', w')"
    "\<exists>n. write_regs os reg cnt vals off a w = Some (n, a', w')"
proof -
  let ?len2 = "word_of_nat (SIZEOF_HEADER + 2 * unat cnt) :: u16"
  let ?bs = "take (2 * unat cnt) (drop off vals)"
  have cnt: "unat cnt \<le> 126" using assms(3) by (simp add: word_le_nat_alt)
  have lb: "length ?bs = 2 * unat cnt" using assms(4) by simp
  have len2: "unat ?len2 = 4 + 2 * unat cnt" by (rule unat_regs_len2)
  then have e: "even_len ?len2 = 4 + 2 * unat cnt" by (simp add: even_len_even)
  have l2: "length (tx2 a) = 298" using assms(1) by simp
  let ?t2 = "overlay ((tx2 a)[1 := cnt]) 4 ?bs"
  let ?a1 = "a\<lparr>tx2 := ?t2\<rparr>"
  have wf1: "wf_arm ?a1" using assms(1) cnt lb unfolding wf_arm_def by simp
  have f2: "frame2 ARM_OP_WRITE_REG reg ?len2 ?t2 = data_frame2 ARM_OP_WRITE_REG reg (ucast ?len2) cnt ?bs"
    by (rule frame2_data) (use e lb cnt l2 in \<open>simp_all add: arm_ops\<close>)
  obtain out ret inc a' w' where t: "concat (map snd out) = frame2 ARM_OP_WRITE_REG reg ?len2 (tx2 ?a1)"
    "os_spi_message os (fd ?a1) ((delay_usecs (tr ?a1 ! 0), []) #
       (phase_delay ARM_OP_WRITE_REG ?len2, frame1 ARM_OP_WRITE_REG (ucast (?len2 AND 0xff)) reg) # out) w = (ret, inc, w')"
    "two_phase_op os ARM_OP_WRITE_REG reg ?len2 ?a1 w =
       Some (if ret < 1 then ret else reply_status (take 6 inc) (drop 6 inc), a', w')"
    "wf_arm a'" "same_board ?a1 a'" "1 \<le> ret \<Longrightarrow> length inc = 8 + even_len ?len2"
    "1 \<le> ret \<Longrightarrow> take (even_len ?len2 + 2) (rx2 a') = drop 6 inc"
    "local_chars a' = (if ret < 1 then local_chars ?a1 else queued (take 6 inc) (local_chars ?a1))"
    by (rule two_phase_opE [OF wf1 assms(2), of ?len2 ARM_OP_WRITE_REG reg w]) (use len2 cnt in auto)
  note t7 = t(7) [unfolded e]
  have r: "rx2 a' ! 0 = drop 6 inc ! 0" "rx2 a' ! 1 = drop 6 inc ! 1" if "1 \<le> ret"
    by (simp_all add: prefix_nth [OF t7 [OF that]] del: add_2_eq_Suc')
  have len: "length (rx2 a') = 298" using t(4) by simp
  have pre: "wr8 (tx2 a) 1 cnt = Some ((tx2 a)[1 := cnt])" "rd_block vals off (2 * unat cnt) = Some ?bs"
    "wr_block ((tx2 a)[1 := cnt]) SIZEOF_HEADER ?bs = Some ?t2"
    using l2 lb cnt assms(4) by (simp_all add: no_fault SIZEOF_HEADER_def)
  have "\<not> 126 < cnt" using assms(3) by simp
  have eq: "write_regs os reg cnt vals off a w =
       Some (if exchange_status ret inc < 0 then exchange_status ret inc
             else if rx2 a' ! 0 = ARM_OP_WRITE_REG then uint (rx2 a' ! 1) else -1, a', w')"
    unfolding write_regs_def Let_def exchange_status_def
    using \<open>\<not> 126 < cnt\<close> len
    by (simp add: pre t(3) rd8_def del: One_nat_def of_nat_add of_nat_mult)
  show thesis
  proof (rule that [of out ret inc w' a'])
    show "write_regs os reg cnt vals off a w =
       Some (if exchange_status ret inc < 0 then exchange_status ret inc
             else if drop 6 inc ! 0 = ARM_OP_WRITE_REG then uint (drop 6 inc ! 1) else -1, a', w')"
      if "ret \<noteq> 0"
      unfolding eq using that r by (cases "1 \<le> ret") (auto simp: exchange_status_def)
  qed (use t e f2 eq in \<open>simp_all add: chars_after_def ucast_and_ff ucast_word_of_nat SIZEOF_HEADER_def
         same_board_def del: of_nat_add of_nat_mult\<close>)
qed

lemma write_regs_too_many: "126 < cnt \<Longrightarrow> write_regs os reg cnt vals off a w = Some (-1, a, w)"
  by (simp add: write_regs_def)

lemma write_regs_total:
  assumes "wf_arm a" and "full_duplex os" and "off + 2 * unat cnt \<le> length vals"
  shows "\<exists>n a' w'. write_regs os reg cnt vals off a w = Some (n, a', w') \<and> wf_arm a' \<and> same_board a a'"
proof (cases "126 < cnt")
  case True
  then show ?thesis using assms(1) by (simp add: write_regs_too_many)
next
  case False
  then have "cnt \<le> 126" by simp
  show ?thesis
    by (rule write_regs_spec [OF assms(1,2) \<open>cnt \<le> 126\<close> assms(3), of reg w]) blast
qed

section \<open>Bits\<close>

text \<open>A reply may bring one character along, which goes to the end of the local queue.\<close>

definition at_most_one_more :: "arm_handle \<Rightarrow> arm_handle \<Rightarrow> bool" where
  "at_most_one_more a b \<longleftrightarrow>
     (\<exists>extra. length extra \<le> 1 \<and> local_chars b = take 256 (local_chars a @ extra))"

lemma length_local_chars: "wf_arm a \<Longrightarrow> length (local_chars a) \<le> 256"
  using wf_armD(7) [of a] length_content [of "uart_q a ! 0"]
  by (auto simp: local_chars_def wf_queue_def nat_le_iff)

lemma queued_cases: "length cs \<le> 256 \<Longrightarrow> \<exists>extra. length extra \<le> 1 \<and> queued r1 cs = take 256 (cs @ extra)"
  by (cases "chunk1_ok r1 \<and> char_reply r1")
    (auto simp: queued_def intro: exI [of _ "[r1 ! 3]"] exI [of _ "[]"])

lemma two_phase_op_total:
  assumes "wf_arm a" and "full_duplex os" and "unat len2 \<le> 296"
  obtains st a' w' where "two_phase_op os op reg len2 a w = Some (st, a', w')" "wf_arm a'" "same_board a a'"
    "at_most_one_more a a'"
proof -
  obtain ret inc a' w' where t: "two_phase_op os op reg len2 a w =
       Some (if ret < 1 then ret else reply_status (take 6 inc) (drop 6 inc), a', w')"
    "wf_arm a'" "same_board a a'"
    "local_chars a' = (if ret < 1 then local_chars a else queued (take 6 inc) (local_chars a))"
    by (rule two_phase_opE [OF assms, of op reg w]) blast
  have le: "length (local_chars a) \<le> 256" by (rule length_local_chars [OF assms(1)])
  have "at_most_one_more a a'"
    unfolding at_most_one_more_def t(4) using queued_cases [OF le] le
    by (cases "ret < 1") (auto intro: exI [of _ "[]"])
  with t show thesis by (intro that)
qed

lemma unat_bits_len2: "unat (bits_len2 cnt) = 4 + 2 * ((unat cnt + 15) div 16)"
proof -
  have "4 + 2 * ((unat cnt + 15) div 16) < 65536" using unat16_bounds [of cnt] by linarith
  then show ?thesis
    unfolding bits_len2_def SIZEOF_HEADER_def by (simp add: unat_of_nat del: of_nat_add of_nat_mult)
qed

lemma bits_len2_too_long: "256 < bits_len2 cnt \<longleftrightarrow> 2016 < unat cnt"
proof -
  have "256 < bits_len2 cnt \<longleftrightarrow> 256 < unat (bits_len2 cnt)" by (simp add: word_less_nat_alt)
  also have "\<dots> \<longleftrightarrow> 126 < (unat cnt + 15) div 16" unfolding unat_bits_len2 by auto
  also have "\<dots> \<longleftrightarrow> 127 * 16 \<le> unat cnt + 15"
    by (simp add: less_eq_div_iff_mult_less_eq Suc_le_eq [symmetric] del: Suc_le_eq)
  also have "\<dots> \<longleftrightarrow> 2016 < unat cnt" by auto
  finally show ?thesis .
qed

text \<open>
  \<open>read_bits\<close> stores as many bytes as the \<open>len\<close> field of the reply calls for; unlike
  \<open>read_regs\<close> it does not compare that with what was asked, so the caller must provide
  room for 32 bytes.
\<close>

lemma read_bits_spec:
  assumes "wf_arm a" and "full_duplex os" and "off + 32 \<le> length dst"
  shows "\<exists>n bs a' w'. read_bits os reg cnt dst off a w = Some (n, overlay dst off bs, a', w') \<and>
           wf_arm a' \<and> same_board a a' \<and> n \<le> 255 \<and> (n < 0 \<longrightarrow> bs = []) \<and>
           (0 \<le> n \<longrightarrow> unat cnt \<le> 2016 \<and> bs = take ((nat n + 7) div 8) (drop 4 (rx2 a')) \<and>
              length bs = (nat n + 7) div 8)"
proof (cases "2016 < unat cnt")
  case True
  then show ?thesis using assms(1)
    by (intro exI [of _ "-1"] exI [of _ "[]"]) (simp add: read_bits_def bits_len2_too_long)
next
  case False
  then have "unat (bits_len2 cnt) \<le> 296" unfolding unat_bits_len2 by linarith
  from two_phase_op_total [OF assms(1,2) this, of ARM_OP_READ_BIT reg w]
  obtain st a' w' where t: "two_phase_op os ARM_OP_READ_BIT reg (bits_len2 cnt) a w = Some (st, a', w')"
    "wf_arm a'" "same_board a a'" "at_most_one_more a a'" .
  have len: "length (rx2 a') = 298" using t(2) by simp
  let ?n = "rx2 a' ! 1"
  let ?bs = "take ((unat ?n + 7) div 8) (drop 4 (rx2 a'))"
  have k: "(unat ?n + 7) div 8 \<le> 32" using unat8_bounds [of ?n] by linarith
  have eq: "read_bits os reg cnt dst off a w =
     Some (if st < 0 then (st, dst, a', w')
           else if rx2 a' ! 0 \<noteq> ARM_OP_READ_BIT \<or> join16 (rx2 a' ! 3) (rx2 a' ! 2) \<noteq> reg then (-1, dst, a', w')
           else (uint ?n, overlay dst off ?bs, a', w'))"
    unfolding read_bits_def Let_def t(1) using False k len assms(3)
    by (auto simp: bits_len2_too_long rd8_def rd16_in rd_block_def wr_block_def SIZEOF_HEADER_def)
  show ?thesis
  proof (cases "st < 0 \<or> rx2 a' ! 0 \<noteq> ARM_OP_READ_BIT \<or> join16 (rx2 a' ! 3) (rx2 a' ! 2) \<noteq> reg")
    case True
    define n where "n = (if st < 0 then st else -1)"
    have "read_bits os reg cnt dst off a w = Some (n, dst, a', w')" "n < 0"
      unfolding eq n_def using True by auto
    with t(2,3) show ?thesis by (intro exI [of _ n] exI [of _ "[]"] exI [of _ a'] exI [of _ w']) simp
  next
    case bad: False
    then have "read_bits os reg cnt dst off a w = Some (uint ?n, overlay dst off ?bs, a', w')"
      unfolding eq by auto
    moreover have "uint ?n \<le> 255" using uint8_bounds [of ?n] by simp
    moreover have "length ?bs = (unat ?n + 7) div 8" using k len by simp
    moreover have "unat cnt \<le> 2016" "unat ?n = nat (uint ?n)" using False by simp_all
    moreover have "0 \<le> uint ?n" by simp
    ultimately have "\<exists>n bs. read_bits os reg cnt dst off a w = Some (n, overlay dst off bs, a', w') \<and>
        n \<le> 255 \<and> 0 \<le> n \<and> unat cnt \<le> 2016 \<and> bs = take ((nat n + 7) div 8) (drop 4 (rx2 a')) \<and>
        length bs = (nat n + 7) div 8" by metis
    with t(2,3) show ?thesis by (metis not_le)
  qed
qed

lemma write_bits_spec:
  assumes "wf_arm a" and "full_duplex os" and "off + (unat cnt + 7) div 8 \<le> length vals"
  shows "\<exists>n a' w'. write_bits os reg cnt vals off a w = Some (n, a', w') \<and>
           wf_arm a' \<and> same_board a a' \<and> n \<le> uint cnt \<and> n \<le> 255 \<and> (0 \<le> n \<longrightarrow> unat cnt \<le> 2016)"
proof (cases "2016 < unat cnt")
  case True
  have "-1 \<le> uint cnt" using uint16_bounds [of cnt] by linarith
  with True show ?thesis using assms(1) by (simp add: write_bits_def bits_len2_too_long)
next
  case False
  then have l2: "unat (bits_len2 cnt) \<le> 296" unfolding unat_bits_len2 by linarith
  let ?bs = "take ((unat cnt + 7) div 8) (drop off vals)"
  let ?t2 = "overlay ((tx2 a)[1 := ucast cnt]) 4 ?bs"
  have lb: "length ?bs = (unat cnt + 7) div 8" "(unat cnt + 7) div 8 \<le> 252"
    using assms(3) False by simp_all
  have lt: "length (tx2 a) = 298" using assms(1) by simp
  have wf1: "wf_arm (a\<lparr>tx2 := ?t2\<rparr>)" using assms(1) lb unfolding wf_arm_def by simp
  from two_phase_op_total [OF wf1 assms(2) l2, of ARM_OP_WRITE_BITS reg w]
  obtain st a' w' where
    t: "two_phase_op os ARM_OP_WRITE_BITS reg (bits_len2 cnt) (a\<lparr>tx2 := ?t2\<rparr>) w = Some (st, a', w')"
    "wf_arm a'" "same_board (a\<lparr>tx2 := ?t2\<rparr>) a'" "at_most_one_more (a\<lparr>tx2 := ?t2\<rparr>) a'" .
  have sb: "same_board a a'" using t(3) by (simp add: same_board_def)
  have len: "length (rx2 a') = 298" using t(2) by simp
  let ?n = "if uint (rx2 a' ! 1) < uint cnt then uint (rx2 a' ! 1) else uint cnt"
  have pre: "wr8 (tx2 a) 1 (ucast cnt) = Some ((tx2 a)[1 := ucast cnt])"
    "rd_block vals off ((unat cnt + 7) div 8) = Some ?bs"
    "wr_block ((tx2 a)[1 := ucast cnt]) SIZEOF_HEADER ?bs = Some ?t2"
    using lt lb assms(3) by (simp_all add: no_fault SIZEOF_HEADER_def)
  have "write_bits os reg cnt vals off a w =
     Some (if st < 0 then st else if rx2 a' ! 0 \<noteq> ARM_OP_WRITE_BITS then -1 else ?n, a', w')"
    unfolding write_bits_def Let_def using False len
    by (simp add: bits_len2_too_long pre t(1) rd8_def del: One_nat_def)
  moreover have "?n \<le> uint cnt" "?n \<le> 255" "-1 \<le> uint cnt" "st < 0 \<longrightarrow> st \<le> uint cnt"
    using uint8_bounds(3) [of "rx2 a' ! 1"] order_trans [OF _ uint16_bounds(1) [of cnt]] by auto
  ultimately show ?thesis
    using t(2) sb False
    by (intro exI [of _ "if st < 0 then st else if rx2 a' ! 0 \<noteq> ARM_OP_WRITE_BITS then -1 else ?n"]
        exI [of _ a'] exI [of _ w']) simp
qed

section \<open>Single bits, characters and strings\<close>

lemma one_phase_op_total:
  assumes "wf_arm a" and "full_duplex os"
  shows "\<exists>st a' w'. one_phase_op os op reg v a w = Some (st, a', w') \<and> (st = 0 \<or> st = -1) \<and>
           wf_arm a' \<and> same_board a a'"
  using one_phase_op_spec [OF assms, of op v reg w] by (elim exE conjE) auto

lemma write_bit_spec:
  assumes "wf_arm a" and "full_duplex os"
  shows "\<exists>n a' w'. write_bit os reg v a w = Some (n, a', w') \<and> (n = 1 \<or> n = -1) \<and>
           wf_arm a' \<and> same_board a a'"
proof -
  obtain st a' w' where
    "one_phase_op os ARM_OP_WRITE_BIT reg (if v \<noteq> 0 then 1 else 0) a w = Some (st, a', w')"
    "st = 0 \<or> st = -1" "wf_arm a'" "same_board a a'"
    using one_phase_op_total [OF assms] by metis
  then show ?thesis by (auto simp: write_bit_def simp del: if_split)
qed

lemma write_char_spec:
  assumes "wf_arm a" and "full_duplex os"
  shows "\<exists>n a' w'. write_char os uart c a w = Some (n, a', w') \<and> (n = 1 \<or> n = -1) \<and>
           wf_arm a' \<and> same_board a a'"
proof -
  obtain st a' w' where "one_phase_op os ARM_OP_WRITE_CHAR (ucast uart) c a w = Some (st, a', w')"
    "st = 0 \<or> st = -1" "wf_arm a'" "same_board a a'"
    using one_phase_op_total [OF assms] by metis
  then show ?thesis by (auto simp: write_char_def)
qed

lemma wf_arm_tx2: "wf_arm a \<Longrightarrow> length t = 298 \<Longrightarrow> wf_arm (a\<lparr>tx2 := t\<rparr>)"
  unfolding wf_arm_def by simp

lemma write_string_len2:
  assumes "0 < len" and "len \<le> 256"
  shows "unat (word_of_int len :: u16) = nat len"
proof -
  have "uint (word_of_int len :: u16) = len"
    using assms by (simp add: uint_word_of_int_eq take_bit_int_eq_self)
  then show ?thesis by (metis nat_uint_eq)
qed

lemma write_string_spec:
  assumes "wf_arm a" and "full_duplex os" and "off + nat len \<le> length str"
  shows "\<exists>n a' w'. write_string os uart str off len a w = Some (n, a', w') \<and>
           -1 \<le> n \<and> n \<le> 255 \<and> wf_arm a' \<and> same_board a a'"
proof (cases "len > 256 \<or> len \<le> 0")
  case True
  then show ?thesis using assms(1) by (auto simp: write_string_def)
next
  case False
  let ?len2 = "word_of_int len :: u16"
  have len2: "unat ?len2 = nat len" using False by (intro write_string_len2) auto
  let ?bs = "take (unat ?len2) (drop off str)"
  have lt: "length (tx2 a) = 298" using assms(1) by simp
  have l256: "nat len \<le> 256" using False by linarith
  then have lb: "length ?bs \<le> 256" using len2 by (simp add: min_le_iff_disj)
  have wf1: "wf_arm (a\<lparr>tx2 := overlay (tx2 a) 0 ?bs\<rparr>)"
    by (rule wf_arm_tx2 [OF assms(1)]) (use lt lb in simp)
  have "unat ?len2 \<le> 296" using len2 l256 by simp
  from two_phase_op_total [OF wf1 assms(2) this, of ARM_OP_WRITE_STR "ucast uart" w]
  obtain st a' w' where t: "two_phase_op os ARM_OP_WRITE_STR (ucast uart) ?len2
      (a\<lparr>tx2 := overlay (tx2 a) 0 ?bs\<rparr>) w = Some (st, a', w')"
    "wf_arm a'" "same_board (a\<lparr>tx2 := overlay (tx2 a) 0 ?bs\<rparr>) a'"
    "at_most_one_more (a\<lparr>tx2 := overlay (tx2 a) 0 ?bs\<rparr>) a'" .
  have sb: "same_board a a'" using t(3) by (simp add: same_board_def)
  have pre: "rd_block str off (unat ?len2) = Some ?bs" "wr_block (tx2 a) 0 ?bs = Some (overlay (tx2 a) 0 ?bs)"
    using lt lb assms(3) len2 by (simp_all add: no_fault)
  have len: "length (rx2 a') = 298" using t(2) by simp
  then have ne: "rx2 a' \<noteq> []" by auto
  let ?n = "if rx2 a' ! 0 \<noteq> ARM_OP_WRITE_STR then -1 else uint (rx2 a' ! 1)"
  have "write_string os uart str off len a w = Some (?n, a', w')"
    unfolding write_string_def Let_def using False len ne by (simp add: pre t(1) rd8_def)
  moreover have "-1 \<le> ?n" "?n \<le> 255"
    using uint8_bounds(3) [of "rx2 a' ! 1"] order_trans [OF _ uint8_bounds(1) [of "rx2 a' ! 1"]] by auto
  ultimately show ?thesis using t(2) sb by blast
qed

lemma read_string_len2_le: "unat (read_string_len2 cnt) \<le> 244"
proof -
  let ?l = "\<lambda>x :: u16. if SPI_STR_MAX < x then SPI_STR_MAX else x"
  have "?l x \<le> 240" for x by (simp add: SPI_STR_MAX_def not_less)
  moreover have u240: "unat (240 :: u16) = 240" by simp
  ultimately have l: "unat (?l x) \<le> 240" for x by (metis word_le_nat_alt u240)
  have "unat (?l x + 4) \<le> 244" for x
    using l [of x] by (simp add: unat_word_ariths)
  then show ?thesis by (simp add: read_string_len2_def Let_def SIZEOF_HEADER_def)
qed

text \<open>
  What \<open>read_string\<close> does after the transfer: the handle \<open>a1\<close> holds the reply.
\<close>

lemma read_string_after:
  assumes "two_phase_op os ARM_OP_READ_STR (ucast (0 :: u8)) (read_string_len2 (int c)) a w = Some (st, a1, w')"
    and "wf_arm a1" and "0 \<le> off" and "nat off + c \<le> length str" and "0 < c"
  defines "chars \<equiv> local_chars a1 @ received (rx2 a1) (unat (rx2 a1 ! 1))"
  shows "if st < 0 \<or> rx2 a1 ! 0 \<noteq> ARM_OP_READ_STR
         then read_string os 0 str off (int c) a w = Some (if st < 0 then st else -1, str, a1, w')
         else \<exists>a'. read_string os 0 str off (int c) a w =
                Some (int (length (take c chars)), overlay str (nat off) (take c chars), a', w') \<and>
              wf_arm a' \<and> same_board a1 a' \<and> local_chars a' = take 256 (drop c chars)"
proof -
  have ne: "rx2 a1 \<noteq> []" using wf_armD(4) [OF assms(2)] by auto
  have len: "length (rx2 a1) = 298" "length (uart_q a1) = 4" "wf_queue (uart_q a1 ! 0)"
    using assms(2) by simp_all
  show ?thesis
  proof (cases "st < 0 \<or> rx2 a1 ! 0 \<noteq> ARM_OP_READ_STR")
    case True
    then show ?thesis
      unfolding read_string_def using assms(1) len ne by (auto simp: rd8_def)
  next
    case False
    obtain q where q: "join_queue (rx2 a1) (int (unat (rx2 a1 ! 1))) (uint (rx2 a1 ! 3)) (int c) str off (uart_q a1 ! 0) =
        Some (int (length (take c chars)), overlay str (nat off) (take c chars), q)"
      "wf_queue q" "content q = take 256 (drop c chars)"
      using join_queue_spec [OF len(3) unat8_bounds(2) [of "rx2 a1 ! 1"], of "rx2 a1" c off str] len(1) assms(3-5)
      unfolding chars_def local_chars_def by auto
    have eq: "read_string os 0 str off (int c) a w =
        Some (int (length (take c chars)), overlay str (nat off) (take c chars), with_queue a1 q, w')"
      unfolding read_string_def with_queue_def using False assms(1) len ne q(1) by (simp add: rd8_def)
    have "uart_q a1 \<noteq> []" using len(2) by auto
    then have "local_chars (with_queue a1 q) = take 256 (drop c chars)"
      using local_chars_with_queue [of a1 q] q(3) by metis
    moreover have "same_board a1 (with_queue a1 q)" by simp
    ultimately show ?thesis
      using eq wf_with_queue [OF assms(2) q(2)] False by (simp only: if_False) blast
  qed
qed

text \<open>
  \<open>read_string\<close> hands out the characters queued locally (a character that came with the
  reply's first chunk among them) followed by the characters of the reply; what does not fit
  is kept for the next call.
\<close>

lemma read_string_spec:
  assumes "wf_arm a" and "full_duplex os" and "0 \<le> off" and "nat off + c \<le> length str" and "0 < c"
  shows "\<exists>n cs a' w'. wf_arm a' \<and> same_board a a' \<and>
           read_string os 0 str off (int c) a w = Some (n, overlay str (nat off) cs, a', w') \<and>
           (n < 0 \<and> cs = [] \<or> n = int (length cs) \<and> length cs \<le> c)"
proof -
  have "unat (read_string_len2 (int c)) \<le> 296" using read_string_len2_le [of "int c"] by simp
  from two_phase_op_total [OF assms(1,2) this, of ARM_OP_READ_STR "ucast (0 :: u8)" w]
  obtain st a1 w' where t: "two_phase_op os ARM_OP_READ_STR (ucast (0 :: u8)) (read_string_len2 (int c)) a w =
      Some (st, a1, w')" "wf_arm a1" "same_board a a1" by metis
  note after = read_string_after [OF t(1,2) assms(3-5)]
  show ?thesis
  proof (cases "st < 0 \<or> rx2 a1 ! 0 \<noteq> ARM_OP_READ_STR")
    case True
    with after t(2,3) show ?thesis
      by (intro exI [of _ "if st < 0 then st else -1"] exI [of _ "[]"] exI [of _ a1] exI [of _ w']) simp
  next
    case False
    with after obtain a' cs where
      "read_string os 0 str off (int c) a w = Some (int (length (take c cs)), overlay str (nat off) (take c cs), a', w')"
      "wf_arm a'" "same_board a1 a'"
      by (simp only: if_False) blast
    then show ?thesis using same_board_trans [OF t(3)]
      by (intro exI [of _ "int (length (take c cs))"] exI [of _ "take c cs"] exI [of _ a'] exI [of _ w']) simp
  qed
qed

text \<open>
  The same against the bus. \<open>inc\<close> is what the system call brought: the header chunk and the
  frame, whose second byte is the number of characters of the board. When a board gives a
  number that exceeds its frame, the code goes on with what \<open>rx2\<close> held before.
\<close>

definition string_reply :: "arm_handle \<Rightarrow> u8 list \<Rightarrow> u8 list" where
  "string_reply a inc = received (drop 6 inc @ drop (length inc - 6) (rx2 a)) (unat (drop 6 inc ! 1))"

lemma read_string_bus:
  assumes "wf_arm a" and "full_duplex os" and "0 \<le> off" and "nat off + c \<le> length str" and "0 < c"
  defines "len2 \<equiv> read_string_len2 (int c)"
  shows "\<exists>out ret inc w' a' n cs.
           concat (map snd out) = frame1 ARM_OP_READ_STR (ucast (len2 AND 0xff)) 0 @
             frame2 ARM_OP_READ_STR 0 len2 (tx2 a) \<and>
           os_spi_message os (fd a) out w = (ret, inc, w') \<and> wf_arm a' \<and> same_board a a' \<and>
           read_string os 0 str off (int c) a w = Some (n, overlay str (nat off) cs, a', w') \<and>
           (ret \<noteq> 0 \<longrightarrow>
             (let queue = chars_after ret inc (local_chars a); chars = queue @ string_reply a inc in
              if exchange_status ret inc < 0 \<or> drop 6 inc ! 0 \<noteq> ARM_OP_READ_STR
              then n < 0 \<and> cs = [] \<and> local_chars a' = queue
              else n = int (length cs) \<and> cs = take c chars \<and> local_chars a' = take 256 (drop c chars)))"
proof -
  have "unat len2 \<le> 296" using read_string_len2_le [of "int c"] by (simp add: len2_def)
  from two_phase_op_spec [OF assms(1,2) this, of ARM_OP_READ_STR "ucast (0 :: u8)" w]
  obtain out ret inc a1 w' where t: "concat (map snd out) = frame2 ARM_OP_READ_STR (ucast (0 :: u8)) len2 (tx2 a)"
    "os_spi_message os (fd a) ((delay_usecs (tr a ! 0), []) # (phase_delay ARM_OP_READ_STR len2,
        frame1 ARM_OP_READ_STR (ucast (len2 AND 0xff)) (ucast (0 :: u8))) # out) w = (ret, inc, w')"
    "two_phase_op os ARM_OP_READ_STR (ucast (0 :: u8)) len2 a w = Some (exchange_status ret inc, a1, w')"
    "wf_arm a1" "same_board a a1"
    "1 \<le> ret \<longrightarrow> length inc = 8 + even_len len2 \<and> rx2 a1 = drop 6 inc @ drop (even_len len2 + 2) (rx2 a)"
    "local_chars a1 = chars_after ret inc (local_chars a)"
    unfolding exchange_status_def chars_after_def by blast
  let ?st = "exchange_status ret inc"
  let ?out = "(delay_usecs (tr a ! 0), []) # (phase_delay ARM_OP_READ_STR len2,
        frame1 ARM_OP_READ_STR (ucast (len2 AND 0xff)) (ucast (0 :: u8))) # out"
  note after = read_string_after [OF t(3) [unfolded len2_def] t(4) assms(3-5)]
  have u0: "ucast (0 :: u8) = (0 :: u16)" by simp
  note out = t(1,2) [unfolded u0]
  have neg: "?st < 0" if "ret < 1" "ret \<noteq> 0" using that by (simp add: exchange_status_def)
  have bus: "rx2 a1 ! 0 = drop 6 inc ! 0" "rx2 a1 ! 1 = drop 6 inc ! 1"
    "received (rx2 a1) (unat (rx2 a1 ! 1)) = string_reply a inc" if "\<not> ?st < 0" "ret \<noteq> 0"
  proof -
    have "1 \<le> ret" using that neg by linarith
    then have l: "length inc = 8 + even_len len2" and r: "rx2 a1 = drop 6 inc @ drop (even_len len2 + 2) (rx2 a)"
      using t(6) by simp_all
    have "even_len len2 + 2 = length inc - 6" using l by simp
    then show "received (rx2 a1) (unat (rx2 a1 ! 1)) = string_reply a inc"
      unfolding string_reply_def r using l by (simp add: nth_append)
    show "rx2 a1 ! 0 = drop 6 inc ! 0" "rx2 a1 ! 1 = drop 6 inc ! 1"
      unfolding r using l by (simp_all add: nth_append)
  qed
  show ?thesis
  proof (cases "?st < 0 \<or> rx2 a1 ! 0 \<noteq> ARM_OP_READ_STR")
    case True
    then have r: "read_string os 0 str off (int c) a w = Some (if ?st < 0 then ?st else -1, overlay str (nat off) [], a1, w')"
      using after by simp
    have "ret \<noteq> 0 \<Longrightarrow> ?st < 0 \<or> drop 6 inc ! 0 \<noteq> ARM_OP_READ_STR" using True bus(1) by metis
    with r out t(4,5,7) show ?thesis
      by (intro exI [of _ ?out] exI [of _ ret] exI [of _ inc] exI [of _ w'] exI [of _ a1]
          exI [of _ "if ?st < 0 then ?st else -1"] exI [of _ "[]"]) (auto simp: Let_def)
  next
    case False
    let ?chars = "local_chars a1 @ received (rx2 a1) (unat (rx2 a1 ! 1))"
    from after False obtain a' where r:
      "read_string os 0 str off (int c) a w =
         Some (int (length (take c ?chars)), overlay str (nat off) (take c ?chars), a', w')"
      "wf_arm a'" "same_board a1 a'" "local_chars a' = take 256 (drop c ?chars)"
      by (simp only: if_False) blast
    have "ret \<noteq> 0 \<Longrightarrow> \<not> (?st < 0 \<or> drop 6 inc ! 0 \<noteq> ARM_OP_READ_STR)" using False bus(1) by metis
    moreover have "ret \<noteq> 0 \<Longrightarrow> ?chars = chars_after ret inc (local_chars a) @ string_reply a inc"
      using False bus(3) t(7) by simp
    ultimately show ?thesis
      using out r same_board_trans [OF t(5) r(3)]
      by (intro exI [of _ ?out] exI [of _ ret] exI [of _ inc] exI [of _ w'] exI [of _ a']
          exI [of _ "int (length (take c ?chars))"] exI [of _ "take c ?chars"]) (simp only: Let_def, auto)
  qed
qed

end
