(* ===== verification/Arm_Spi_Safe.thy ===== *)
theory Arm_Spi_Safe
  imports Arm_Spi_Ops
begin

text \<open>
  The properties of the SPI protocol as a whole: what goes over the bus, which replies
  reach the caller, which memory is touched, and that opening a board establishes the
  invariant all of it rests on.
\<close>

section \<open>Replies\<close>

text \<open>A board's reply to a register read: the idle header, then the registers in \<open>data\<close>.\<close>

definition idle_chunk :: "u8 list" where
  "idle_chunk = frame1 ARM_OP_IDLE 0 0x0e55"

definition regs_reply :: "u16 \<Rightarrow> u8 \<Rightarrow> u8 list \<Rightarrow> u8 list" where
  "regs_reply reg n bs =
     (let b = [ARM_OP_READ_REG, n, lo8 reg, hi8 reg] @ bs
      in b @ crc_bytes (SpiCrcString (take 4 idle_chunk @ b) 0))"

text \<open>The bus answers every message of \<open>n\<close> bytes on \<open>f\<close> with the bytes \<open>inc\<close>.\<close>

definition answers :: "'w os \<Rightarrow> int \<Rightarrow> nat \<Rightarrow> u8 list \<Rightarrow> bool" where
  "answers os f n inc \<longleftrightarrow>
     (\<forall>out w. length (concat (map snd out)) = n \<longrightarrow>
        (\<exists>ret w'. os_spi_message os f out w = (ret, inc, w') \<and> 1 \<le> ret))"

lemma answersD:
  "answers os f n inc \<Longrightarrow> length (concat (map snd out)) = n \<Longrightarrow>
     os_spi_message os f out w = (ret, inc', w') \<Longrightarrow> inc' = inc \<and> 1 \<le> ret"
  unfolding answers_def by (drule spec [of _ out], drule spec [of _ w]) auto

lemma length_frame2: "even_len len2 \<le> length t2 \<Longrightarrow> length (frame2 op reg len2 t2) = even_len len2 + 2"
  by (simp add: frame2_def crc_bytes_def Let_def)

lemma idle_chunk_ok:
  "length idle_chunk = 6" "idle_reply idle_chunk" "chunk1_ok idle_chunk" "\<not> char_reply idle_chunk"
proof -
  show "length idle_chunk = 6" by (simp add: idle_chunk_def)
  show "idle_reply idle_chunk" "chunk1_ok idle_chunk" "\<not> char_reply idle_chunk"
    by (code_simp)+
qed

lemma frame_ok_idle: "frame_ok idle_chunk (b @ crc_bytes (SpiCrcString (take 4 idle_chunk @ b) 0))"
  using SpiCrcString_self
  by (simp add: frame_ok_def idle_chunk_ok crc_bytes_def SpiCrcString_append flip: append_assoc)

lemma frame_ok_detects:
  assumes "frame_ok r1 (xs @ [x, y] @ ys)" and "frame_ok r1 (xs @ [x', y'] @ ys)"
  shows "x' = x \<and> y' = y"
proof -
  have "SpiCrcString ((take 4 r1 @ xs) @ [x', y'] @ ys) 0 = SpiCrcString ((take 4 r1 @ xs) @ [x, y] @ ys) 0"
    using assms by (simp add: frame_ok_def)
  then show ?thesis unfolding SpiCrcString_foldl spi.detects_pair .
qed

section \<open>Reading registers\<close>

text \<open>
  C10. \<open>two_phase_op\<close> exchanges one frame: the transfers it submits carry the header with its
  CRC and then exactly the second chunk, padded to an even length, with the CRC chained over
  both, no transfer longer than \<open>_MAX_SPI_RX\<close>; the reply is accepted iff both of its CRCs are
  right and its header is the idle pattern or a received character, and the board's state
  stays well formed. The splitting into two to seven transfers is not visible.
\<close>

theorem two_phase_op_exchange:
  assumes "wf_arm a" and "full_duplex os" and "unat len2 \<le> 296"
  shows "\<exists>out ret inc a' w'.
           concat (map snd out) = frame1 op (ucast (len2 AND 0xff)) reg @ frame2 op reg len2 (tx2 a) \<and>
           (\<forall>p \<in> set out. length (snd p) \<le> MAX_SPI_RX) \<and>
           os_spi_message os (fd a) out w = (ret, inc, w') \<and>
           two_phase_op os op reg len2 a w =
             Some (if ret < 1 then ret
                   else if frame_ok (take 6 inc) (drop 6 inc) \<and>
                     (char_reply (take 6 inc) \<or> idle_reply (take 6 inc)) then 0 else -1, a', w') \<and>
           wf_arm a' \<and> same_board a a' \<and> (1 \<le> ret \<longrightarrow> take (even_len len2 + 2) (rx2 a') = drop 6 inc)"
proof -
  obtain out ret inc a' w' where "concat (map snd out) = frame2 op reg len2 (tx2 a)"
    "\<forall>p \<in> set out. length (snd p) \<le> MAX_SPI_RX"
    "os_spi_message os (fd a) ((delay_usecs (tr a ! 0), []) #
       (phase_delay op len2, frame1 op (ucast (len2 AND 0xff)) reg) # out) w = (ret, inc, w')"
    "two_phase_op os op reg len2 a w =
       Some (if ret < 1 then ret else reply_status (take 6 inc) (drop 6 inc), a', w')"
    "wf_arm a'" "same_board a a'" "1 \<le> ret \<longrightarrow> take (even_len len2 + 2) (rx2 a') = drop 6 inc"
    using two_phase_op_spec [OF assms, of op reg w] by blast
  then show ?thesis
    by (intro exI [of _ "(delay_usecs (tr a ! 0), []) #
          (phase_delay op len2, frame1 op (ucast (len2 AND 0xff)) reg) # out"]
        exI [of _ ret] exI [of _ inc] exI [of _ a'] exI [of _ w'])
      (simp add: reply_status_def MAX_SPI_RX_def)
qed

lemma read_regs_total:
  assumes "wf_arm a" and "full_duplex os" and "unat cnt \<le> 146" and "off + 2 * unat cnt \<le> length dst"
  shows "\<exists>n bs a' w'. read_regs os reg cnt dst off a w = Some (n, overlay dst off bs, a', w') \<and>
           wf_arm a' \<and> same_board a a' \<and> n \<le> uint cnt \<and>
           (if n < 0 then bs = [] else length bs = 2 * nat n)"
proof (rule read_regs_spec [OF assms, of reg w], elim exE conjE)
  fix a' w' n bs
  assume "wf_arm a'" "same_board a a'"
    "read_regs os reg cnt dst off a w = Some (n, overlay dst off bs, a', w')" "n \<le> uint cnt"
    "n < 0 \<longrightarrow> bs = []" "0 \<le> n \<longrightarrow> length bs = 2 * nat n"
  then show ?thesis
    by (intro exI [of _ n] exI [of _ bs] exI [of _ a'] exI [of _ w']) simp
qed

text \<open>
  C13. \<open>read_regs\<close> of up to 146 registers never leaves a buffer, whatever the board replies:
  of the caller's memory only the first \<open>2 n\<close> bytes at \<open>result\<close> change, where \<open>n\<close> is the
  value it returns and is at most \<open>cnt\<close>; on an error nothing changes.
\<close>

theorem read_regs_safe:
  assumes "wf_arm a" and "full_duplex os" and "unat cnt \<le> 146" and "off + 2 * unat cnt \<le> length dst"
  shows "\<exists>n bs a' w'. read_regs os reg cnt dst off a w = Some (n, overlay dst off bs, a', w') \<and>
           wf_arm a' \<and> same_board a a' \<and> n \<le> uint cnt \<and>
           (if n < 0 then bs = [] else length bs = 2 * nat n)"
  using assms by (rule read_regs_total)

lemma read_regs_frame_length:
  assumes "wf_arm a" and "unat (cnt :: u8) \<le> 146"
  shows "length (frame2 op reg (word_of_nat (4 + 2 * unat cnt)) (tx2 a)) = 6 + 2 * unat cnt"
proof -
  have "unat (word_of_nat (4 + 2 * unat cnt) :: u16) = 4 + 2 * unat cnt"
    using unat_regs_len2 [of cnt] by (simp add: SIZEOF_HEADER_def del: of_nat_add of_nat_mult)
  then have "even_len (word_of_nat (4 + 2 * unat cnt)) = 4 + 2 * unat cnt"
    by (simp add: even_len_even del: of_nat_add of_nat_mult)
  then show ?thesis using assms by (simp add: length_frame2 del: of_nat_add of_nat_mult)
qed

text \<open>The result of \<open>read_regs\<close> for a given reply.\<close>

lemma read_regs_answer:
  assumes "wf_arm a" and "full_duplex os" and "unat cnt \<le> 146" and "off + 2 * unat cnt \<le> length dst"
    and "answers os (fd a) (12 + 2 * unat cnt) inc"
  obtains w' a' where "wf_arm a'" "same_board a a'"
    "read_regs os reg cnt dst off a w =
       Some (let r2 = drop 6 inc; n = r2 ! 1; st = reply_status (take 6 inc) r2 in
             if st < 0 then (st, dst, a', w')
             else if regs_reply_ok reg cnt r2
             then (uint n, overlay dst off (take (2 * unat n) (drop 4 r2)), a', w')
             else (-1, dst, a', w'))"
proof (rule read_regs_spec [OF assms(1-4), of reg w])
  let ?len2 = "word_of_nat (4 + 2 * unat cnt) :: u16"
  fix out ret inc' w' a'
  let ?out = "(delay_usecs (tr a ! 0), []) # (phase_delay ARM_OP_READ_REG ?len2,
        frame1 ARM_OP_READ_REG (word_of_nat (4 + 2 * unat cnt)) reg) # out"
  assume h: "concat (map snd out) = frame2 ARM_OP_READ_REG reg ?len2 (tx2 a)"
    "os_spi_message os (fd a) ?out w = (ret, inc', w')" "wf_arm a'" "same_board a a'"
    and eq: "ret \<noteq> 0 \<Longrightarrow> read_regs os reg cnt dst off a w =
       Some (let r2 = drop 6 inc'; n = r2 ! 1 in
             if exchange_status ret inc' < 0 then (exchange_status ret inc', dst, a', w')
             else if regs_reply_ok reg cnt r2
             then (uint n, overlay dst off (take (2 * unat n) (drop 4 r2)), a', w')
             else (-1, dst, a', w'))"
  have "length (concat (map snd ?out)) = 12 + 2 * unat cnt"
    using h(1) read_regs_frame_length [OF assms(1,3)] by simp
  from answersD [OF assms(5) this h(2)] have i: "inc' = inc" "1 \<le> ret" by simp_all
  then have "exchange_status ret inc' = reply_status (take 6 inc) (drop 6 inc)" "ret \<noteq> 0"
    by (simp_all add: exchange_status_def)
  with eq h(3,4) i(1) show thesis by (intro that) (simp_all add: Let_def)
qed

lemma read_regs_correct:
  assumes "wf_arm a" and "full_duplex os" and "unat cnt \<le> 146" and "off + 2 * unat cnt \<le> length dst"
    and "length bs = 2 * unat cnt"
    and "answers os (fd a) (12 + 2 * unat cnt) (idle_chunk @ regs_reply reg cnt bs)"
  shows "\<exists>a' w'. read_regs os reg cnt dst off a w = Some (uint cnt, overlay dst off bs, a', w') \<and>
           wf_arm a' \<and> same_board a a'"
proof (rule read_regs_answer [OF assms(1-4,6), of reg w])
  fix w' a'
  let ?inc = "idle_chunk @ regs_reply reg cnt bs"
  assume h: "wf_arm a'" "same_board a a'"
    "read_regs os reg cnt dst off a w =
       Some (let r2 = drop 6 ?inc; n = r2 ! 1; st = reply_status (take 6 ?inc) r2 in
             if st < 0 then (st, dst, a', w')
             else if regs_reply_ok reg cnt r2
             then (uint n, overlay dst off (take (2 * unat n) (drop 4 r2)), a', w')
             else (-1, dst, a', w'))"
  have r: "take 6 ?inc = idle_chunk" "drop 6 ?inc = regs_reply reg cnt bs"
    by (simp_all add: idle_chunk_ok(1))
  have "frame_ok idle_chunk (regs_reply reg cnt bs)"
    unfolding regs_reply_def Let_def by (rule frame_ok_idle)
  then have "reply_status idle_chunk (regs_reply reg cnt bs) = 0"
    by (simp add: reply_status_def idle_chunk_ok)
  moreover have "regs_reply_ok reg cnt (regs_reply reg cnt bs)" "regs_reply reg cnt bs ! 1 = cnt"
    "take (2 * unat cnt) (drop 4 (regs_reply reg cnt bs)) = bs"
    using assms(5) by (simp_all add: regs_reply_ok_def regs_reply_def Let_def)
  ultimately show ?thesis using h unfolding r by (simp add: Let_def)
qed

text \<open>
  C11. When the board answers a request for \<open>cnt\<close> registers with a correct reply, the caller
  gets exactly the register bytes of that reply, and the count.
\<close>

theorem read_regs_delivers:
  assumes "wf_arm a" and "full_duplex os" and "unat cnt \<le> 146" and "off + 2 * unat cnt \<le> length dst"
    and "length bs = 2 * unat cnt"
    and "answers os (fd a) (12 + 2 * unat cnt) (idle_chunk @ regs_reply reg cnt bs)"
  shows "\<exists>a' w'. read_regs os reg cnt dst off a w = Some (uint cnt, overlay dst off bs, a', w') \<and>
           wf_arm a' \<and> same_board a a'"
  using assms by (rule read_regs_correct)

text \<open>
  C12. If a correct second chunk is damaged on the bus in one byte or in two adjacent bytes,
  anywhere in it, \<open>read_regs\<close> fails with \<open>-1\<close> and stores nothing.
\<close>

theorem read_regs_rejects_damage:
  assumes "wf_arm a" and "full_duplex os" and "unat cnt \<le> 146" and "off + 2 * unat cnt \<le> length dst"
    and "length r1 = 6" and "frame_ok r1 (xs @ [x, y] @ ys)" and "(x', y') \<noteq> (x, y)"
    and "answers os (fd a) (12 + 2 * unat cnt) (r1 @ xs @ [x', y'] @ ys)"
  shows "\<exists>a' w'. read_regs os reg cnt dst off a w = Some (-1, dst, a', w') \<and> wf_arm a' \<and> same_board a a'"
proof (rule read_regs_answer [OF assms(1-4,8), of reg w])
  fix w' a'
  let ?inc = "r1 @ xs @ [x', y'] @ ys"
  assume h: "wf_arm a'" "same_board a a'"
    "read_regs os reg cnt dst off a w =
       Some (let r2 = drop 6 ?inc; n = r2 ! 1; st = reply_status (take 6 ?inc) r2 in
             if st < 0 then (st, dst, a', w')
             else if regs_reply_ok reg cnt r2
             then (uint n, overlay dst off (take (2 * unat n) (drop 4 r2)), a', w')
             else (-1, dst, a', w'))"
  have "\<not> frame_ok r1 (xs @ [x', y'] @ ys)"
    using frame_ok_detects [OF assms(6)] assms(7) by blast
  then have "reply_status (take 6 ?inc) (drop 6 ?inc) = -1"
    using assms(5) by (simp add: reply_status_def)
  with h show ?thesis by (simp only: Let_def) simp
qed

text \<open>
  C14. \<open>write_regs\<close> of at most 126 registers puts exactly the header, the count, and the
  caller's registers with the chained CRC on the bus, and returns what the board
  acknowledges; more registers are refused before anything is sent.
\<close>

theorem write_regs_sends:
  assumes "wf_arm a" and "full_duplex os" and "off + 2 * unat cnt \<le> length vals"
  shows "if 126 < cnt then write_regs os reg cnt vals off a w = Some (-1, a, w)
         else \<exists>out ret inc w' a'.
           concat (map snd out) = frame1 ARM_OP_WRITE_REG (word_of_nat (4 + 2 * unat cnt)) reg @
             data_frame2 ARM_OP_WRITE_REG reg (word_of_nat (4 + 2 * unat cnt)) cnt
               (take (2 * unat cnt) (drop off vals)) \<and>
           os_spi_message os (fd a) out w = (ret, inc, w') \<and> wf_arm a' \<and> same_board a a' \<and>
           (ret \<noteq> 0 \<longrightarrow> write_regs os reg cnt vals off a w =
             Some (if exchange_status ret inc < 0 then exchange_status ret inc
                   else if drop 6 inc ! 0 = ARM_OP_WRITE_REG then uint (drop 6 inc ! 1) else -1, a', w'))"
proof (cases "126 < cnt")
  case True
  then show ?thesis by (simp add: write_regs_too_many)
next
  case False
  then have "cnt \<le> 126" by simp
  let ?len2 = "word_of_nat (4 + 2 * unat cnt) :: u16"
  obtain out ret inc w' a' where
    "concat (map snd out) = data_frame2 ARM_OP_WRITE_REG reg (word_of_nat (4 + 2 * unat cnt)) cnt
       (take (2 * unat cnt) (drop off vals))"
    "os_spi_message os (fd a) ((delay_usecs (tr a ! 0), []) # (phase_delay ARM_OP_WRITE_REG ?len2,
        frame1 ARM_OP_WRITE_REG (word_of_nat (4 + 2 * unat cnt)) reg) # out) w = (ret, inc, w')"
    "wf_arm a'" "same_board a a'"
    "ret \<noteq> 0 \<Longrightarrow> write_regs os reg cnt vals off a w =
       Some (if exchange_status ret inc < 0 then exchange_status ret inc
             else if drop 6 inc ! 0 = ARM_OP_WRITE_REG then uint (drop 6 inc ! 1) else -1, a', w')"
    by (rule write_regs_spec [OF assms(1,2) \<open>cnt \<le> 126\<close> assms(3), of reg w]) blast
  with False show ?thesis
    by (simp only: if_False)
      (intro exI [of _ "(delay_usecs (tr a ! 0), []) # (phase_delay ARM_OP_WRITE_REG ?len2,
         frame1 ARM_OP_WRITE_REG (word_of_nat (4 + 2 * unat cnt)) reg) # out"]
        exI [of _ ret] exI [of _ inc] exI [of _ w'] exI [of _ a'], simp)
qed

text \<open>
  C16. \<open>read_string\<close> on the UART 0 asks the board with the frames of \<open>ARM_OP_READ_STR\<close> and,
  when the reply \<open>inc\<close> is accepted, hands out the first \<open>c\<close> characters of this sequence:
  those queued locally, at most one that came in the header chunk of this reply, then as many
  characters behind the four header bytes of the reply frame as its second byte says (beyond
  the end of the frame, what \<open>rx2\<close> held before); the characters that do not fit stay in the
  local queue, up to its 256 places. When the transfer fails or the reply is refused, the
  result is negative and nothing is handed out or lost. No byte outside the first \<open>c\<close> of the
  caller's buffer changes. (The result of a system call that reports 0 bytes is not described:
  \<open>two_phase_op\<close> passes it on as a success.)
\<close>

theorem read_string_in_order:
  assumes "wf_arm a" and "full_duplex os" and "0 \<le> off" and "nat off + c \<le> length str" and "0 < c"
  defines "len2 \<equiv> read_string_len2 (int c)"
  shows "\<exists>out ret inc w' a' n cs.
           concat (map snd out) = frame1 ARM_OP_READ_STR (ucast (len2 AND 0xff)) 0 @
             frame2 ARM_OP_READ_STR 0 len2 (tx2 a) \<and>
           os_spi_message os (fd a) out w = (ret, inc, w') \<and> wf_arm a' \<and> same_board a a' \<and>
           read_string os 0 str off (int c) a w = Some (n, overlay str (nat off) cs, a', w') \<and>
           (ret \<noteq> 0 \<longrightarrow>
             (let queue = chars_after ret inc (local_chars a); chars = queue @ string_reply a inc in
              if exchange_status ret inc < 0 \<or> drop 6 inc ! 0 \<noteq> ARM_OP_READ_STR
              then n < 0 \<and> cs = [] \<and> local_chars a' = queue
              else n = int (length cs) \<and> cs = take c chars \<and> local_chars a' = take 256 (drop c chars)))"
  unfolding len2_def using assms(1-5) by (rule read_string_bus)

section \<open>Failures and opening a board\<close>

text \<open>
  C38. \<open>write_string\<close> does not look at the result of the transfer, and the byte that was to
  "destroy" the receive buffer is the very operation code it checks: when the system call
  fails, it still reports success with the length left over from an earlier reply.
\<close>

theorem write_string_hides_failure:
  assumes "wf_arm a" and "full_duplex os" and "0 < len" and "len \<le> 256" and "off + nat len \<le> length str"
    and "\<And>out w. os_spi_message os (fd a) out w = (-1, [], w)"
  shows "\<exists>a'. write_string os uart str off len a w = Some (uint (rx2 a ! 1), a', w)"
proof -
  let ?len2 = "word_of_int len :: u16"
  have len2: "unat ?len2 = nat len" using assms(3,4) by (rule write_string_len2)
  let ?bs = "take (unat ?len2) (drop off str)"
  let ?a1 = "a\<lparr>tx2 := overlay (tx2 a) 0 ?bs\<rparr>"
  have lt: "length (tx2 a) = 298" "length (rx2 a) = 298" using assms(1) by simp_all
  have "nat len \<le> 256" using assms(4) by simp
  then have lb: "length ?bs \<le> 256" using len2 by (simp add: min_le_iff_disj)
  have wf1: "wf_arm ?a1" by (rule wf_arm_tx2 [OF assms(1)]) (use lt lb in simp)
  have le: "unat ?len2 \<le> 296" using len2 \<open>nat len \<le> 256\<close> by simp
  show ?thesis
  proof (rule two_phase_opE [OF wf1 assms(2) le, of ARM_OP_WRITE_STR "ucast uart" w])
    fix out ret inc a' w'
    assume h: "os_spi_message os (fd ?a1) ((delay_usecs (tr ?a1 ! 0), []) #
       (phase_delay ARM_OP_WRITE_STR ?len2, frame1 ARM_OP_WRITE_STR (ucast (?len2 AND 0xff)) (ucast uart)) # out) w
         = (ret, inc, w')"
      "two_phase_op os ARM_OP_WRITE_STR (ucast uart) ?len2 ?a1 w =
       Some (if ret < 1 then ret else reply_status (take 6 inc) (drop 6 inc), a', w')"
      "ret < 1 \<Longrightarrow> inc = [] \<Longrightarrow> rx2 a' = (rx2 ?a1)[0 := ARM_OP_WRITE_STR]"
    from h(1) have "ret = -1" "inc = []" "w' = w" by (simp_all add: assms(6))
    with h(2,3) lt lb len2 assms(3-5) show ?thesis
      by (simp add: write_string_def Let_def no_fault not_less)
  qed
qed

definition raw_arm :: "arm_handle \<Rightarrow> bool" where
  "raw_arm a \<longleftrightarrow> length (tx1 a) = 6 \<and> length (rx1 a) = 6 \<and> length (tx2 a) = 298 \<and>
     length (rx2 a) = 298 \<and> length (uart_q a) = 4 \<and> (\<forall>q \<in> set (uart_q a). length (q_buffer q) = 256)"

lemma tr_shape_init: "tr_shape (init_tr p)"
  by (simp add: tr_shape_def init_tr_def spi_sizes)

lemma open_fdint_spec:
  "case open_fdint os gpio a w of
     None \<Rightarrow> (\<exists>g. gpio = Some g \<and> 229 < length g)
   | Some (r, a', w') \<Rightarrow> r = 0 \<and> (\<exists>f. a' = a\<lparr>fdint := f\<rparr>)"
  by (auto simp: open_fdint_def str_into_def Let_def split: option.splits prod.splits)

lemma wf_arm_other [simp]:
  "wf_arm (a\<lparr>fd := x\<rparr>) = wf_arm a" "wf_arm (a\<lparr>fdint := x\<rparr>) = wf_arm a"
  "wf_arm (a\<lparr>arm_index := x\<rparr>) = wf_arm a" "wf_arm (a\<lparr>bv := v\<rparr>) = wf_arm a"
  unfolding wf_arm_def by simp_all

lemma wf_arm_started:
  assumes "raw_arm a"
  shows "wf_arm (a\<lparr>fd := f, arm_index := i,
           uart_q := map (\<lambda>q. q\<lparr>q_masterpty := -1, q_remain := 0, q_index := 0\<rparr>) (uart_q a),
           tr := init_tr p\<rparr>)"
  using assms unfolding wf_arm_def raw_arm_def by (auto simp: tr_shape_init wf_queue_def)

lemma read_regs_config:
  assumes "wf_arm a" and "full_duplex os" and "length c = 10"
  obtains n c' a' w' where "read_regs os 1000 5 c 0 a w = Some (n, c', a', w')" "wf_arm a'" "length c' = 10"
proof (rule read_regs_spec [OF assms(1,2), of 5 0 c 1000 w])
  fix a' w'
  assume h: "wf_arm a'" "\<exists>n bs. read_regs os 1000 5 c 0 a w = Some (n, overlay c 0 bs, a', w') \<and>
       n \<le> uint (5 :: u8) \<and> length bs \<le> 2 * unat (5 :: u8) \<and> (n < 0 \<longrightarrow> bs = []) \<and> (0 \<le> n \<longrightarrow> length bs = 2 * nat n)"
  then obtain n bs where "read_regs os 1000 5 c 0 a w = Some (n, overlay c 0 bs, a', w')" "length bs \<le> 10"
    by auto
  with h(1) assms(3) show thesis by (intro that [of n "overlay c 0 bs" a' w']) auto
qed (use assms(3) in simp_all)

lemma arm_init_spec:
  assumes "raw_arm a" and "full_duplex os"
  shows "case arm_init os pause a device speed index gpio w of
           None \<Rightarrow> (\<exists>g. gpio = Some g \<and> 229 < length g)
         | Some (r, a', w') \<Rightarrow> (r = 0 \<or> r = -1) \<and> (r = 0 \<longrightarrow> wf_arm a' \<and> sw_version (bv a') \<noteq> 0)"
proof -
  obtain f w1 where o: "os_open os device w = (f, w1)" by fastforce
  show ?thesis
  proof (cases "f < 0")
    case True
    with o show ?thesis by (simp add: arm_init_def)
  next
    case False
    let ?a1 = "a\<lparr>fd := f, arm_index := index,
       uart_q := map (\<lambda>q. q\<lparr>q_masterpty := -1, q_remain := 0, q_index := 0\<rparr>) (uart_q a), tr := init_tr pause\<rparr>"
    define w2 where "w2 = os_spi_speed os f (if speed = 0 then START_SPI_SPEED else speed) w1"
    obtain n c a2 w3 where r1: "read_regs os 1000 5 (replicate 10 0) 0 ?a1 w2 = Some (n, c, a2, w3)"
      "wf_arm a2" "length c = 10"
      by (rule read_regs_config [OF wf_arm_started [OF assms(1)] assms(2), of "replicate 10 0"]) simp_all
    let ?a3 = "if n = 5 then a2\<lparr>bv := parse_version (bv a2) (regs_of c)\<rparr> else a2"
    have wf3: "wf_arm ?a3" using r1(2) by simp
    obtain a4 w4 where r2: "wf_arm a4" "(if speed = 0 then
             do { let w = os_spi_speed os f (get_board_speed (bv ?a3)) w3;
                  (n, _, a, w) \<leftarrow> read_regs os 1000 5 c 0 ?a3 w;
                  Some (a, if n \<noteq> 5 then os_spi_speed os f START_SPI_SPEED w else w) }
           else Some (?a3, w3)) = Some (a4, w4)"
    proof (cases "speed = 0")
      case True
      obtain n2 c2 a4 w4 where "read_regs os 1000 5 c 0 ?a3 (os_spi_speed os f (get_board_speed (bv ?a3)) w3)
          = Some (n2, c2, a4, w4)" "wf_arm a4"
        by (rule read_regs_config [OF wf3 assms(2) r1(3)])
      with True show thesis by (intro that) (auto simp: Let_def simp del: if_split)
    qed (use wf3 that in auto)
    have eq: "arm_init os pause a device speed index gpio w =
        (if sw_version (bv a4) = 0 then Some (-1, a4, os_close os (fd a4) w4) else open_fdint os gpio a4 w4)"
      unfolding arm_init_def o w2_def [symmetric] using False r1(1) r2(2)
      by (simp add: Let_def w2_def [symmetric] del: if_split)
    show ?thesis
      unfolding eq using r2(1) open_fdint_spec [where os = os and gpio = gpio and a = a4 and w = w4]
      by (auto split: option.splits)
  qed
qed

lemma arm_init_total:
  assumes "raw_arm a" and "full_duplex os" and "\<And>g. gpio = Some g \<Longrightarrow> length g \<le> 229"
  shows "\<exists>r a' w'. arm_init os pause a device speed index gpio w = Some (r, a', w') \<and>
           (r = 0 \<or> r = -1) \<and> (r = 0 \<longrightarrow> wf_arm a' \<and> sw_version (bv a') \<noteq> 0)"
  using arm_init_spec [OF assms(1,2), where gpio = gpio, of pause device speed index w] assms(3)
  by (auto split: option.splits dest: leD)

text \<open>
  C29. From a handle as \<open>calloc\<close> returns it, \<open>arm_init\<close> returns \<open>0\<close> or \<open>-1\<close>, and when it
  returns \<open>0\<close> the handle satisfies the invariant all other operations need and the board's
  firmware version is known. The only fault it can run into is the overflow of \<open>gpiobuf\<close> by
  a GPIO name of more than 229 characters, which a caller has to exclude.
\<close>

theorem arm_init_establishes:
  assumes "raw_arm a" and "full_duplex os"
  shows "case arm_init os pause a device speed index gpio w of
           None \<Rightarrow> (\<exists>g. gpio = Some g \<and> 229 < length g)
         | Some (r, a', w') \<Rightarrow> (r = 0 \<or> r = -1) \<and> (r = 0 \<longrightarrow> wf_arm a' \<and> sw_version (bv a') \<noteq> 0)"
  using assms by (rule arm_init_spec)

section \<open>A concrete board and bus\<close>

definition blank_arm :: arm_handle where
  "blank_arm = \<lparr>fd = 3, fdint = -1, arm_index = 0, tx1 = replicate 6 0, rx1 = replicate 6 0,
     tx2 = replicate 298 0, rx2 = replicate 298 0, tr = init_tr 10,
     bv = \<lparr>sw_version = 0x0500, hw_version = 0, base_hw_version = 0, di_count = 0, do_count = 0,
       ai_count = 0, ao_count = 0, uart_count = 0, uled_count = 0, int_mask_register = 0\<rparr>,
     uart_q = replicate 4 empty_queue\<rparr>"

text \<open>A bus that answers \<open>inc\<close> to messages of \<open>n\<close> bytes, and zeros to others.\<close>

definition fixed_bus :: "nat \<Rightarrow> u8 list \<Rightarrow> unit os" where
  "fixed_bus n inc =
     \<lparr>os_spi_message = (\<lambda>fd out w. let l = length (concat (map snd out)) in
        (int l + 1, if l = n then inc else replicate l 0, w)),
      os_spi_speed = (\<lambda>_ _ w. w), os_open = (\<lambda>_ w. (3, w)), os_close = (\<lambda>_ w. w),
      os_read = (\<lambda>_ _ w. (-1, [], EAGAIN, w)), os_write = (\<lambda>_ _ w. (-1, w)),
      os_send = (\<lambda>_ _ w. (-1, EAGAIN, w)), os_cflag = (\<lambda>_ w. (None, w)), os_file = (\<lambda>_ _. None)\<rparr>"

text \<open>A bus whose every message fails.\<close>

definition dead_bus :: "unit os" where
  "dead_bus = (fixed_bus 0 [])\<lparr>os_spi_message := (\<lambda>fd out w. (-1, [], w))\<rparr>"

lemma fixed_bus_answers: "answers (fixed_bus n inc) f n inc"
  by (simp add: answers_def fixed_bus_def Let_def)

lemma fixed_bus_full_duplex: "length inc = n \<Longrightarrow> full_duplex (fixed_bus n inc)"
  by (auto simp: full_duplex_def fixed_bus_def Let_def split: if_splits)

lemma dead_bus_full_duplex: "full_duplex dead_bus"
  by (simp add: full_duplex_def dead_bus_def)

lemma wf_empty_queue: "wf_queue empty_queue"
  by (simp add: wf_queue_def empty_queue_def)

lemma wf_blank_arm: "wf_arm blank_arm"
  unfolding wf_arm_def blank_arm_def by (simp add: tr_shape_init wf_empty_queue)

lemma raw_blank_arm: "raw_arm blank_arm"
  by (simp add: raw_arm_def blank_arm_def empty_queue_def)

lemma length_regs_reply: "length (regs_reply reg n bs) = 6 + length bs"
  by (simp add: regs_reply_def crc_bytes_def Let_def)

theorem two_phase_op_exchange_witness:
  "\<exists>a' w'. two_phase_op (fixed_bus 14 (idle_chunk @ regs_reply 7 1 [0x34, 0x12])) 4 7 6 blank_arm ()
     = Some (0, a', w') \<and> wf_arm a'"
proof -
  let ?bus = "fixed_bus 14 (idle_chunk @ regs_reply 7 1 [0x34, 0x12])"
  have fd: "full_duplex ?bus"
    by (rule fixed_bus_full_duplex) (simp add: idle_chunk_ok(1) length_regs_reply)
  obtain out ret inc a' w' where h: "concat (map snd out) = frame1 4 (ucast ((6 :: u16) AND 0xff)) 7 @ frame2 4 7 6 (tx2 blank_arm)"
    "os_spi_message ?bus (fd blank_arm) out () = (ret, inc, w')"
    "two_phase_op ?bus 4 7 6 blank_arm () = Some (if ret < 1 then ret
        else if frame_ok (take 6 inc) (drop 6 inc) \<and> (char_reply (take 6 inc) \<or> idle_reply (take 6 inc))
        then 0 else -1, a', w')" "wf_arm a'"
    using two_phase_op_exchange [OF wf_blank_arm fd, of 6 4 7 "()"] by auto
  have e: "even_len 6 = 6" by (simp add: even_len_def)
  have "length (concat (map snd out)) = 14"
    unfolding h(1) by (simp add: length_frame2 e blank_arm_def)
  from answersD [OF fixed_bus_answers this h(2)]
  have "inc = idle_chunk @ regs_reply 7 1 [0x34, 0x12]" "1 \<le> ret" by simp_all
  moreover have "frame_ok idle_chunk (regs_reply 7 1 [0x34, 0x12])"
    unfolding regs_reply_def Let_def by (rule frame_ok_idle)
  ultimately show ?thesis using h(3,4) by (simp add: idle_chunk_ok)
qed

theorem read_regs_safe_witness:
  "\<exists>n bs a' w'. read_regs dead_bus 1000 5 (replicate 10 0) 0 blank_arm () =
     Some (n, overlay (replicate 10 0) 0 bs, a', w') \<and> wf_arm a' \<and> n \<le> 5"
  using read_regs_safe [OF wf_blank_arm dead_bus_full_duplex, of 5 0 "replicate 10 0" 1000 "()"]
  by auto

theorem read_regs_delivers_witness:
  "\<exists>a' w'. read_regs (fixed_bus 14 (idle_chunk @ regs_reply 7 1 [0x34, 0x12])) 7 1 (replicate 4 0) 1
     blank_arm () = Some (1, [0, 0x34, 0x12, 0], a', w') \<and> wf_arm a'"
proof -
  let ?bus = "fixed_bus 14 (idle_chunk @ regs_reply 7 1 [0x34, 0x12])"
  have fd: "full_duplex ?bus"
    by (rule fixed_bus_full_duplex) (simp add: idle_chunk_ok(1) length_regs_reply)
  have an: "answers ?bus (fd blank_arm) (12 + 2 * unat (1 :: u8)) (idle_chunk @ regs_reply 7 1 [0x34, 0x12])"
    using fixed_bus_answers by simp
  show ?thesis
    using read_regs_delivers [OF wf_blank_arm fd _ _ _ an, of 1 "replicate 4 0" "()"]
    by (auto simp: overlay_def eval_nat_numeral)
qed

theorem read_regs_rejects_damage_witness:
  "\<exists>a' w'. read_regs (fixed_bus 14 (idle_chunk @ [4, 1, 7, 0] @ [0x35, 0x12] @
       crc_bytes (SpiCrcString (take 4 idle_chunk @ [4, 1, 7, 0, 0x34, 0x12]) 0))) 7 1 (replicate 4 0) 1
     blank_arm () = Some (-1, replicate 4 0, a', w') \<and> wf_arm a'"
proof -
  let ?ys = "crc_bytes (SpiCrcString (take 4 idle_chunk @ [4, 1, 7, 0, 0x34, 0x12]) 0)"
  let ?inc = "idle_chunk @ [4, 1, 7, 0] @ [0x35, 0x12] @ ?ys"
  let ?bus = "fixed_bus 14 ?inc"
  have fd: "full_duplex ?bus"
    by (rule fixed_bus_full_duplex) (simp add: idle_chunk_ok(1) crc_bytes_def)
  have an: "answers ?bus (fd blank_arm) (12 + 2 * unat (1 :: u8)) ?inc"
    using fixed_bus_answers by simp
  have ok: "frame_ok idle_chunk ([4, 1, 7, 0] @ [0x34, 0x12] @ ?ys)"
    using frame_ok_idle [of "[4, 1, 7, 0, 0x34, 0x12]"] by simp
  show ?thesis
    using read_regs_rejects_damage [OF wf_blank_arm fd _ _ idle_chunk_ok(1) ok _ an, of 1 "replicate 4 0" 7 "()"]
    by auto
qed

theorem write_regs_sends_witness:
  "\<exists>out ret inc w'. os_spi_message dead_bus 3 out () = (ret, inc, w') \<and>
     concat (map snd out) = frame1 6 6 7 @ data_frame2 6 7 6 1 [0x34, 0x12]"
  using write_regs_sends [OF wf_blank_arm dead_bus_full_duplex, of 0 1 "[0x34, 0x12]" 7 "()"]
  by (auto simp: blank_arm_def ARM_OP_WRITE_REG_def)

definition string_frame :: "u8 list" where
  "string_frame = (let b = [ARM_OP_READ_STR, 2, 0, 0, 65, 66]
                   in b @ crc_bytes (SpiCrcString (take 4 idle_chunk @ b) 0))"

lemma string_frame:
  "length string_frame = 8" "reply_status idle_chunk string_frame = 0"
  "string_frame ! 0 = ARM_OP_READ_STR" "string_frame ! 1 = 2" "take 2 (drop 4 string_frame) = [65, 66]"
  using frame_ok_idle [of "[ARM_OP_READ_STR, 2, 0, 0, 65, 66]"]
  by (simp_all add: string_frame_def crc_bytes_def Let_def reply_status_def idle_chunk_ok)

theorem read_string_in_order_witness:
  "\<exists>a' w'. read_string (fixed_bus 14 (idle_chunk @ string_frame)) 0 (replicate 4 0) 1 1 blank_arm () =
     Some (1, [0, 65, 0, 0], a', w') \<and> wf_arm a' \<and> local_chars a' = [66]"
proof -
  let ?inc = "idle_chunk @ string_frame" and ?bus = "fixed_bus 14 (idle_chunk @ string_frame)"
  have fd: "full_duplex ?bus"
    by (rule fixed_bus_full_duplex) (simp add: idle_chunk_ok(1) string_frame)
  have len2: "read_string_len2 (int 1) = 6"
    by (simp add: read_string_len2_def Let_def SPI_STR_MAX_def SIZEOF_HEADER_def)
  have e: "even_len 6 = 6" by (simp add: even_len_def)
  have empty: "local_chars blank_arm = []"
    by (simp add: local_chars_def blank_arm_def empty_queue_facts)
  have pre: "0 \<le> (1 :: int)" "nat (1 :: int) + 1 \<le> length (replicate 4 (0 :: u8))" "0 < (1 :: nat)" by simp_all
  obtain out ret inc w' a' n cs where
    out: "concat (map snd out) = frame1 ARM_OP_READ_STR (ucast ((6 :: u16) AND 0xff)) 0 @
            frame2 ARM_OP_READ_STR 0 6 (tx2 blank_arm)"
    and call: "os_spi_message ?bus (fd blank_arm) out () = (ret, inc, w')" and wf: "wf_arm a'"
    and r: "read_string ?bus 0 (replicate 4 0) 1 (int 1) blank_arm () =
              Some (n, overlay (replicate 4 0) (nat 1) cs, a', w')"
    and spec: "ret \<noteq> 0 \<longrightarrow>
             (let queue = chars_after ret inc []; chars = queue @ string_reply blank_arm inc in
              if exchange_status ret inc < 0 \<or> drop 6 inc ! 0 \<noteq> ARM_OP_READ_STR
              then n < 0 \<and> cs = [] \<and> local_chars a' = queue
              else n = int (length cs) \<and> cs = take 1 chars \<and> local_chars a' = take 256 (drop 1 chars))"
    using read_string_in_order [OF wf_blank_arm fd pre, of "()", unfolded len2 empty]
    by (elim exE conjE) (rule that)
  have "length (concat (map snd out)) = 14"
    unfolding out by (simp add: length_frame2 e blank_arm_def)
  from answersD [OF fixed_bus_answers this call]
  have inc: "inc = ?inc" "1 \<le> ret" by simp_all
  have d: "take 6 inc = idle_chunk" "drop 6 inc = string_frame"
    unfolding inc by (simp_all add: idle_chunk_ok(1))
  have u2: "unat (2 :: u8) = 2" by simp
  have "exchange_status ret inc = 0" "chars_after ret inc [] = []" "string_reply blank_arm inc = [65, 66]"
    unfolding exchange_status_def chars_after_def queued_def string_reply_def received_def d string_frame u2
    using inc(2) idle_chunk_ok(4) string_frame(1,5) by simp_all
  with spec inc(2) d(2) string_frame(3) have "cs = [65]" "n = 1" "local_chars a' = [66]"
    by (auto simp: Let_def)
  with r wf show ?thesis by (auto simp: overlay_def eval_nat_numeral)
qed

theorem write_string_hides_failure_witness:
  "\<exists>a'. write_string dead_bus 0 [65, 66] 0 2 blank_arm () = Some (0, a', ())"
  using write_string_hides_failure [OF wf_blank_arm dead_bus_full_duplex, of 2 0 "[65, 66]" 0 "()"]
  by (simp add: dead_bus_def blank_arm_def)

theorem arm_init_establishes_witness:
  "case arm_init dead_bus 10 blank_arm ''/dev/spidev0.1'' 0 1 (Some ''27'') () of
     None \<Rightarrow> False | Some (r, a', w') \<Rightarrow> (r = 0 \<or> r = -1) \<and> (r = 0 \<longrightarrow> wf_arm a')"
  using arm_init_establishes [OF raw_blank_arm dead_bus_full_duplex, where gpio = "Some ''27''", of 10 "''/dev/spidev0.1''" 0 1 "()"]
  by (auto split: option.splits)

end
