(* ===== verification/Nb_Modbus.thy ===== *)
theory Nb_Modbus
  imports Arm_Spi_Safe
begin

text \<open>
  \<open>nb_modbus.c\<close> and \<open>nb_modbus.h\<close>: the Modbus/TCP server side. A request frame is turned
  into its reply in place, in the 260 bytes of the buffer it was received in; the register
  and bit operations go to one of up to three boards. The operations of a board are a
  record, so that the handler is proved against their contract (locale \<open>register_bus\<close>),
  which \<open>Arm_Spi\<close>'s operations are then shown to meet.
\<close>

section \<open>Constants and state\<close>

definition MAX_ARMS :: int where "MAX_ARMS = 3"
definition MODBUS_TCP_HEADER_LENGTH :: nat where "MODBUS_TCP_HEADER_LENGTH = 7"
definition MODBUS_TCP_PRESET_RSP_LENGTH :: nat where "MODBUS_TCP_PRESET_RSP_LENGTH = 8"
definition REPORT_MB_SLAVE_ID :: u8 where "REPORT_MB_SLAVE_ID = 181"
definition MODBUS_MAX_READ_BITS :: int where "MODBUS_MAX_READ_BITS = 2000"
definition MODBUS_MAX_WRITE_BITS :: int where "MODBUS_MAX_WRITE_BITS = 1968"
definition MODBUS_MAX_READ_REGISTERS :: int where "MODBUS_MAX_READ_REGISTERS = 125"
definition MODBUS_MAX_WRITE_REGISTERS :: int where "MODBUS_MAX_WRITE_REGISTERS = 123"

definition MODBUS_FC_READ_COILS :: u8 where "MODBUS_FC_READ_COILS = 0x01"
definition MODBUS_FC_READ_DISCRETE_INPUTS :: u8 where "MODBUS_FC_READ_DISCRETE_INPUTS = 0x02"
definition MODBUS_FC_READ_HOLDING_REGISTERS :: u8 where "MODBUS_FC_READ_HOLDING_REGISTERS = 0x03"
definition MODBUS_FC_READ_INPUT_REGISTERS :: u8 where "MODBUS_FC_READ_INPUT_REGISTERS = 0x04"
definition MODBUS_FC_WRITE_SINGLE_COIL :: u8 where "MODBUS_FC_WRITE_SINGLE_COIL = 0x05"
definition MODBUS_FC_WRITE_SINGLE_REGISTER :: u8 where "MODBUS_FC_WRITE_SINGLE_REGISTER = 0x06"
definition MODBUS_FC_READ_EXCEPTION_STATUS :: u8 where "MODBUS_FC_READ_EXCEPTION_STATUS = 0x07"
definition MODBUS_FC_WRITE_MULTIPLE_COILS :: u8 where "MODBUS_FC_WRITE_MULTIPLE_COILS = 0x0F"
definition MODBUS_FC_WRITE_MULTIPLE_REGISTERS :: u8 where "MODBUS_FC_WRITE_MULTIPLE_REGISTERS = 0x10"
definition MODBUS_FC_REPORT_SLAVE_ID :: u8 where "MODBUS_FC_REPORT_SLAVE_ID = 0x11"
definition MODBUS_FC_MASK_WRITE_REGISTER :: u8 where "MODBUS_FC_MASK_WRITE_REGISTER = 0x16"
definition MODBUS_FC_WRITE_AND_READ_REGISTERS :: u8 where "MODBUS_FC_WRITE_AND_READ_REGISTERS = 0x17"

lemmas modbus_fc = MODBUS_FC_READ_COILS_def MODBUS_FC_READ_DISCRETE_INPUTS_def
  MODBUS_FC_READ_HOLDING_REGISTERS_def MODBUS_FC_READ_INPUT_REGISTERS_def
  MODBUS_FC_WRITE_SINGLE_COIL_def MODBUS_FC_WRITE_SINGLE_REGISTER_def
  MODBUS_FC_READ_EXCEPTION_STATUS_def
  MODBUS_FC_WRITE_MULTIPLE_COILS_def MODBUS_FC_WRITE_MULTIPLE_REGISTERS_def
  MODBUS_FC_REPORT_SLAVE_ID_def MODBUS_FC_MASK_WRITE_REGISTER_def
  MODBUS_FC_WRITE_AND_READ_REGISTERS_def

lemmas modbus_sizes = MODBUS_TCP_HEADER_LENGTH_def MODBUS_TCP_PRESET_RSP_LENGTH_def
  MODBUS_MAX_READ_BITS_def MODBUS_MAX_WRITE_BITS_def MODBUS_MAX_READ_REGISTERS_def
  MODBUS_MAX_WRITE_REGISTERS_def

text \<open>The exception codes, \<open>MODBUS_EXCEPTION_...\<close>.\<close>

definition ILLEGAL_FUNCTION :: u8 where "ILLEGAL_FUNCTION = 1"
definition ILLEGAL_DATA_ADDRESS :: u8 where "ILLEGAL_DATA_ADDRESS = 2"
definition ILLEGAL_DATA_VALUE :: u8 where "ILLEGAL_DATA_VALUE = 3"
definition SLAVE_OR_SERVER_FAILURE :: u8 where "SLAVE_OR_SERVER_FAILURE = 4"
definition GATEWAY_TARGET :: u8 where "GATEWAY_TARGET = 11"

text \<open>The operations of \<open>armspi.h\<close> the handler calls, on a board \<open>'a\<close> and a world \<open>'w\<close>.\<close>

record ('a, 'w) board_ops =
  bo_read_bits :: "u16 \<Rightarrow> u16 \<Rightarrow> mem \<Rightarrow> nat \<Rightarrow> 'a \<Rightarrow> 'w \<Rightarrow> (int \<times> mem \<times> 'a \<times> 'w) option"
  bo_read_regs :: "u16 \<Rightarrow> u8 \<Rightarrow> mem \<Rightarrow> nat \<Rightarrow> 'a \<Rightarrow> 'w \<Rightarrow> (int \<times> mem \<times> 'a \<times> 'w) option"
  bo_write_bit :: "u16 \<Rightarrow> u8 \<Rightarrow> 'a \<Rightarrow> 'w \<Rightarrow> (int \<times> 'a \<times> 'w) option"
  bo_write_regs :: "u16 \<Rightarrow> u8 \<Rightarrow> mem \<Rightarrow> nat \<Rightarrow> 'a \<Rightarrow> 'w \<Rightarrow> (int \<times> 'a \<times> 'w) option"
  bo_write_bits :: "u16 \<Rightarrow> u16 \<Rightarrow> mem \<Rightarrow> nat \<Rightarrow> 'a \<Rightarrow> 'w \<Rightarrow> (int \<times> 'a \<times> 'w) option"

definition arm_board :: "'w os \<Rightarrow> (arm_handle, 'w) board_ops" where
  "arm_board os = \<lparr>bo_read_bits = read_bits os, bo_read_regs = read_regs os,
     bo_write_bit = write_bit os, bo_write_regs = write_regs os, bo_write_bits = write_bits os\<rparr>"

text \<open>
  \<open>nb_modbus_t\<close> with the globals \<open>deferred_op\<close> and \<open>deferred_arm\<close>. A board is referred to
  by its index in \<open>arm[MAX_ARMS]\<close>; \<open>None\<close> there is \<open>NULL\<close>.
\<close>

definition DFR_NONE :: int where "DFR_NONE = 0"
definition DFR_OP_FIRMWARE :: int where "DFR_OP_FIRMWARE = 1"

record 'a nb_modbus =
  nb_arm :: "'a option list"
  nb_fwdir :: string
  deferred_op :: int
  deferred_arm :: "nat option"

section \<open>Frames and exceptions\<close>

text \<open>The size is passed as a \<open>uint8_t\<close>.\<close>

definition nb_modbus_reqlen :: "mem \<Rightarrow> u8 \<Rightarrow> int option" where
  "nb_modbus_reqlen m sz =
     (if sz < 6 then Some 0
      else do { hi \<leftarrow> rd8 m 4; lo \<leftarrow> rd8 m 5;
                let len = be16 hi lo + 6;
                Some (if uint sz < len then 0 else len) })"

text \<open>\<open>rsp[4] = mbap_length >> 8; rsp[5] = mbap_length & 0x00FF\<close>\<close>

definition set_mbap :: "nat \<Rightarrow> mem \<Rightarrow> mem option" where
  "set_mbap rsp_length rsp =
     (let mbap_length = int rsp_length - 6 in
      do { rsp \<leftarrow> wr8 rsp 4 (word_of_int (drop_bit 8 mbap_length));
           wr8 rsp 5 (word_of_int (mbap_length AND 0xff)) })"

definition nb_response_exception :: "u8 \<Rightarrow> mem \<Rightarrow> (nat \<times> mem) option" where
  "nb_response_exception exception_code rsp =
     do { f \<leftarrow> rd8 rsp MODBUS_TCP_HEADER_LENGTH;
          rsp \<leftarrow> wr8 rsp MODBUS_TCP_HEADER_LENGTH (f + 0x80);
          rsp \<leftarrow> wr8 rsp MODBUS_TCP_PRESET_RSP_LENGTH exception_code;
          let rsp_length = MODBUS_TCP_PRESET_RSP_LENGTH + 1;
          rsp \<leftarrow> set_mbap rsp_length rsp;
          Some (rsp_length, rsp) }"

text \<open>The unit 0 addresses all boards: blocks of 100 addresses are mapped to boards.\<close>

definition map_slave :: "u8 \<Rightarrow> u16 \<Rightarrow> int \<times> u16" where
  "map_slave unit address =
     (let a = uint address in
      if unit = 0 then
        if a < 1000 then (a div 100 + 1, word_of_int (a mod 100))
        else if a < 2000 then ((a - 1000) div 100 + 1, word_of_int ((a - 1000) mod 100 + 1000))
        else if a < 3000 then ((a - 2000) div 100 + 1, word_of_int ((a - 2000) mod 100 + 2000))
        else (1, address)
      else (uint unit, address))"

text \<open>The number of bytes of \<open>nb\<close> bits, \<open>(nb / 8) + ((nb % 8) ? 1 : 0)\<close>.\<close>

definition bits_bytes :: "int \<Rightarrow> nat" where
  "bits_bytes nb = nat (nb div 8 + (if nb mod 8 \<noteq> 0 then 1 else 0))"

text \<open>The loops that exchange the bytes of \<open>nb\<close> registers.\<close>

fun swap_regs :: "nat \<Rightarrow> nat \<Rightarrow> mem \<Rightarrow> mem option" where
  "swap_regs 0 j m = Some m"
| "swap_regs (Suc n) j m =
     do { c \<leftarrow> rd8 m j; d \<leftarrow> rd8 m (j + 1);
          m \<leftarrow> wr8 m j d; m \<leftarrow> wr8 m (j + 1) c; swap_regs n (j + 2) m }"

section \<open>The cases of \<open>nb_modbus_reply\<close>\<close>

text \<open>A case returns the length of the reply, the buffer, the board and the world.\<close>

definition with_exception ::
  "u8 \<Rightarrow> mem \<Rightarrow> 'a \<Rightarrow> 'w \<Rightarrow> (nat \<times> mem \<times> 'a \<times> 'w) option" where
  "with_exception code rsp a w =
     do { (len, rsp) \<leftarrow> nb_response_exception code rsp; Some (len, rsp, a, w) }"

definition req_value :: "mem \<Rightarrow> int option" where
  "req_value req = do { hi \<leftarrow> rd8 req 10; lo \<leftarrow> rd8 req 11; Some (be16 hi lo) }"

definition reply_read_bits ::
  "('a, 'w) board_ops \<Rightarrow> u16 \<Rightarrow> mem \<Rightarrow> 'a \<Rightarrow> 'w \<Rightarrow> (nat \<times> mem \<times> 'a \<times> 'w) option" where
  "reply_read_bits ops address rsp a w =
     do { nb \<leftarrow> req_value rsp;
          if nb < 1 \<or> MODBUS_MAX_READ_BITS < nb then with_exception ILLEGAL_DATA_VALUE rsp a w
          else do {
            rsp \<leftarrow> wr8 rsp 8 (word_of_nat (bits_bytes nb));
            (n, rsp, a, w) \<leftarrow> bo_read_bits ops address (word_of_int nb) rsp 9 a w;
            if nb \<le> n then Some (9 + bits_bytes nb, rsp, a, w)
            else with_exception ILLEGAL_DATA_ADDRESS rsp a w } }"

definition reply_read_regs ::
  "('a, 'w) board_ops \<Rightarrow> u16 \<Rightarrow> mem \<Rightarrow> 'a \<Rightarrow> 'w \<Rightarrow> (nat \<times> mem \<times> 'a \<times> 'w) option" where
  "reply_read_regs ops address rsp a w =
     do { nb \<leftarrow> req_value rsp;
          if nb < 1 \<or> MODBUS_MAX_READ_REGISTERS < nb then with_exception ILLEGAL_DATA_VALUE rsp a w
          else do {
            rsp \<leftarrow> wr8 rsp 8 (word_of_int (2 * nb));
            (n, rsp, a, w) \<leftarrow> bo_read_regs ops address (word_of_int nb) rsp 9 a w;
            if n = nb then do { rsp \<leftarrow> swap_regs (nat nb) 9 rsp; Some (9 + 2 * nat nb, rsp, a, w) }
            else with_exception ILLEGAL_DATA_ADDRESS rsp a w } }"

text \<open>The first component says that a firmware update was requested.\<close>

definition reply_write_coil ::
  "('a, 'w) board_ops \<Rightarrow> u16 \<Rightarrow> mem \<Rightarrow> 'a \<Rightarrow> 'w \<Rightarrow> (bool \<times> nat \<times> mem \<times> 'a \<times> 'w) option" where
  "reply_write_coil ops address rsp a w =
     do { v \<leftarrow> req_value rsp;
          if v \<noteq> 0xFF00 \<and> v \<noteq> 0 then
            do { r \<leftarrow> with_exception ILLEGAL_DATA_VALUE rsp a w; Some (False, r) }
          else if address = 1004 then Some (True, 12, rsp, a, w)
          else do {
            (n, a, w) \<leftarrow> bo_write_bit ops address (if v \<noteq> 0 then 1 else 0) a w;
            if n = 1 then Some (False, 12, rsp, a, w)
            else do { r \<leftarrow> with_exception SLAVE_OR_SERVER_FAILURE rsp a w; Some (False, r) } } }"

definition reply_write_reg ::
  "('a, 'w) board_ops \<Rightarrow> u16 \<Rightarrow> mem \<Rightarrow> 'a \<Rightarrow> 'w \<Rightarrow> (nat \<times> mem \<times> 'a \<times> 'w) option" where
  "reply_write_reg ops address rsp a w =
     do { v \<leftarrow> req_value rsp;
          let d = (word_of_int v :: u16);
          (n, a, w) \<leftarrow> bo_write_regs ops address 1 [lo8 d, hi8 d] 0 a w;
          if n = 1 then Some (12, rsp, a, w)
          else with_exception ILLEGAL_DATA_ADDRESS rsp a w }"

definition reply_write_coils ::
  "('a, 'w) board_ops \<Rightarrow> u16 \<Rightarrow> mem \<Rightarrow> 'a \<Rightarrow> 'w \<Rightarrow> (nat \<times> mem \<times> 'a \<times> 'w) option" where
  "reply_write_coils ops address rsp a w =
     do { nb \<leftarrow> req_value rsp;
          if nb < 1 \<or> MODBUS_MAX_WRITE_BITS < nb then with_exception ILLEGAL_DATA_VALUE rsp a w
          else if uint address < 0 then Some (8, rsp, a, w)
          else do {
            (n, a, w) \<leftarrow> bo_write_bits ops address (word_of_int nb) rsp 13 a w;
            if n = nb then Some (12, rsp, a, w)
            else with_exception ILLEGAL_DATA_ADDRESS rsp a w } }"

definition reply_write_regs ::
  "('a, 'w) board_ops \<Rightarrow> u16 \<Rightarrow> mem \<Rightarrow> 'a \<Rightarrow> 'w \<Rightarrow> (nat \<times> mem \<times> 'a \<times> 'w) option" where
  "reply_write_regs ops address rsp a w =
     do { nb \<leftarrow> req_value rsp;
          if nb < 1 \<or> MODBUS_MAX_WRITE_REGISTERS < nb then with_exception ILLEGAL_DATA_VALUE rsp a w
          else do {
            rsp \<leftarrow> swap_regs (nat nb) 13 rsp;
            (n, a, w) \<leftarrow> bo_write_regs ops address (word_of_int nb) rsp 13 a w;
            if n = nb then Some (12, rsp, a, w)
            else with_exception ILLEGAL_DATA_ADDRESS rsp a w } }"

text \<open>\<open>LIBMODBUS_VERSION_STRING\<close> comes from a generated header; it is a parameter.\<close>

definition reply_slave_id :: "string \<Rightarrow> mem \<Rightarrow> 'a \<Rightarrow> 'w \<Rightarrow> (nat \<times> mem \<times> 'a \<times> 'w) option" where
  "reply_slave_id version rsp a w =
     do { rsp \<leftarrow> wr8 rsp 9 REPORT_MB_SLAVE_ID;
          rsp \<leftarrow> wr8 rsp 10 0xFF;
          let str_len = 3 + length version;
          rsp \<leftarrow> wr_block rsp 11 (str_bytes (''SPI'' @ version));
          let rsp_length = 11 + str_len;
          rsp \<leftarrow> wr8 rsp 8 (word_of_nat (rsp_length - 8 - 1));
          Some (rsp_length, rsp, a, w) }"

definition reply_case ::
  "('a, 'w) board_ops \<Rightarrow> string \<Rightarrow> u8 \<Rightarrow> u16 \<Rightarrow> mem \<Rightarrow> 'a \<Rightarrow> 'w \<Rightarrow>
     (bool \<times> nat \<times> mem \<times> 'a \<times> 'w) option" where
  "reply_case ops version f address rsp a w =
     (let plain = map_option (\<lambda>r. (False, r)) in
      if f = MODBUS_FC_READ_COILS \<or> f = MODBUS_FC_READ_DISCRETE_INPUTS then
        plain (reply_read_bits ops address rsp a w)
      else if f = MODBUS_FC_READ_HOLDING_REGISTERS \<or> f = MODBUS_FC_READ_INPUT_REGISTERS then
        plain (reply_read_regs ops address rsp a w)
      else if f = MODBUS_FC_WRITE_SINGLE_COIL then reply_write_coil ops address rsp a w
      else if f = MODBUS_FC_WRITE_SINGLE_REGISTER then plain (reply_write_reg ops address rsp a w)
      else if f = MODBUS_FC_WRITE_MULTIPLE_COILS then plain (reply_write_coils ops address rsp a w)
      else if f = MODBUS_FC_WRITE_MULTIPLE_REGISTERS then plain (reply_write_regs ops address rsp a w)
      else if f = MODBUS_FC_REPORT_SLAVE_ID then plain (reply_slave_id version rsp a w)
      else plain (with_exception ILLEGAL_FUNCTION rsp a w))"

text \<open>
  \<open>nb_modbus_reply\<close> for a server object that exists; the request's length \<open>req_length\<close> is
  an argument of the C function that its body does not use.
\<close>

definition nb_modbus_reply ::
  "('a, 'w) board_ops \<Rightarrow> string \<Rightarrow> 'a nb_modbus \<Rightarrow> mem \<Rightarrow> int \<Rightarrow> 'w \<Rightarrow>
     (int \<times> mem \<times> 'a nb_modbus \<times> 'w) option" where
  "nb_modbus_reply ops version nb req req_length w =
     do { unit \<leftarrow> rd8 req 6;
          f \<leftarrow> rd8 req 7;
          hi \<leftarrow> rd8 req 8;
          lo \<leftarrow> rd8 req 9;
          let (slave, address) = map_slave unit (join16 hi lo);
          let i = nat (slave - 1);
          if MAX_ARMS < slave then
            do { (len, rsp) \<leftarrow> nb_response_exception GATEWAY_TARGET req; Some (int len, rsp, nb, w) }
          else if length (nb_arm nb) \<le> i then None
          else case nb_arm nb ! i of
            None \<Rightarrow> do { (len, rsp) \<leftarrow> nb_response_exception GATEWAY_TARGET req; Some (int len, rsp, nb, w) }
          | Some a \<Rightarrow>
              do { (deferred, len, rsp, a, w) \<leftarrow> reply_case ops version f address req a w;
                   rsp \<leftarrow> set_mbap len rsp;
                   let nb = nb\<lparr>nb_arm := (nb_arm nb)[i := Some a]\<rparr>;
                   Some (int len, rsp,
                     if deferred then nb\<lparr>deferred_op := DFR_OP_FIRMWARE, deferred_arm := Some i\<rparr> else nb, w) } }"

end
