(* ===== verification/Nb_Modbus_Correct.thy ===== *)
theory Nb_Modbus_Correct
  imports Nb_Modbus
begin

text \<open>
  Correctness of the Modbus/TCP server side: the contract of a board as a locale, the replies
  the handler builds from it, and the interpretation on the SPI operations.
\<close>

section \<open>Exchanging the bytes of registers\<close>

fun swap_bytes :: "u8 list \<Rightarrow> u8 list" where
  "swap_bytes (a # b # m) = b # a # swap_bytes m"
| "swap_bytes m = m"

lemma length_swap_bytes [simp]: "length (swap_bytes m) = length m"
  by (induction m rule: swap_bytes.induct) simp_all

lemma swap_bytes_twice [simp]: "swap_bytes (swap_bytes m) = m"
  by (induction m rule: swap_bytes.induct) simp_all

lemma take_overlay_before: "n \<le> i \<Longrightarrow> i \<le> length m \<Longrightarrow> take n (overlay m i bs) = take n m"
  by (simp add: overlay_def min_def)

lemma nth_overlay_before: "j < i \<Longrightarrow> i \<le> length m \<Longrightarrow> overlay m i bs ! j = m ! j"
  by (simp add: overlay_def nth_append)

lemma nth_overlay_after:
  "i + length bs \<le> j \<Longrightarrow> j < length m \<Longrightarrow> overlay m i bs ! j = m ! j"
  by (simp add: nth_overlay)

lemma drop_overlay: "i \<le> length m \<Longrightarrow> drop i (overlay m i bs) = bs @ drop (i + length bs) m"
  by (simp add: overlay_def)

lemma overlay_same: "i + length bs \<le> length m \<Longrightarrow> length cs = length bs \<Longrightarrow>
    overlay (overlay m i bs) i cs = overlay m i cs"
  by (simp add: overlay_def)

lemma swap_regs_spec:
  "j + 2 * n \<le> length m \<Longrightarrow>
     swap_regs n j m = Some (overlay m j (swap_bytes (take (2 * n) (drop j m))))"
proof (induction n arbitrary: j m)
  case (Suc n)
  let ?m = "m[j := m ! Suc j, Suc j := m ! j]"
  have d: "drop j m = m ! j # m ! Suc j # drop (j + 2) m"
    using Suc.prems by (simp add: Cons_nth_drop_Suc)
  have "swap_regs (Suc n) j m = swap_regs n (j + 2) ?m"
    using Suc.prems by (simp add: no_fault)
  also have "\<dots> = Some (overlay ?m (j + 2) (swap_bytes (take (2 * n) (drop (j + 2) m))))"
    using Suc.IH [of "j + 2" ?m] Suc.prems by simp
  also have "?m = overlay m j [m ! Suc j, m ! j]"
    using Suc.prems by (simp add: overlay_pair)
  also have "overlay (overlay m j [m ! Suc j, m ! j]) (j + 2) (swap_bytes (take (2 * n) (drop (j + 2) m))) =
      overlay m j (swap_bytes (take (2 * Suc n) (drop j m)))"
    using overlay_overlay [of j "[m ! Suc j, m ! j]" "swap_bytes (take (2 * n) (drop (j + 2) m))" m]
      Suc.prems unfolding d by simp
  finally show ?case .
qed simp

section \<open>Replies\<close>

text \<open>
  What every reply has in common: transaction and protocol identifiers and the unit are those
  of the request, the length fits the buffer, and the function is the request's, with the
  top bit changed for an exception, which has nine bytes.
\<close>

definition replied :: "mem \<Rightarrow> nat \<Rightarrow> mem \<Rightarrow> bool" where
  "replied req len rsp \<longleftrightarrow> length rsp = 260 \<and> 9 \<le> len \<and> len \<le> 260 \<and> take 4 rsp = take 4 req \<and>
     rsp ! 6 = req ! 6 \<and> (rsp ! 7 = req ! 7 \<or> len = 9 \<and> rsp ! 7 = req ! 7 + 0x80)"

lemma set_mbap_spec:
  assumes "length rsp = 260" and "len \<le> 260" and "6 \<le> len"
  shows "\<exists>hi lo. set_mbap len rsp = Some (rsp[4 := hi, 5 := lo]) \<and> be16 hi lo = int len - 6"
proof -
  define n where "n = int len - 6"
  have n: "0 \<le> n" "n < 256" using assms by (simp_all add: n_def)
  then have "drop_bit 8 n = 0" by (simp add: drop_bit_eq_div)
  moreover have "(0xff :: int) = mask 8" by (simp add: mask_eq_exp_minus_1)
  then have "n AND 0xff = n"
    using n by (simp only: take_bit_eq_mask [symmetric]) (simp add: take_bit_int_eq_self)
  ultimately have "set_mbap len rsp = Some (rsp[4 := 0, 5 := word_of_int n])"
    using assms(1) by (simp add: set_mbap_def Let_def no_fault n_def [symmetric])
  moreover have "be16 0 (word_of_int n) = n"
    using n by (simp add: be16_def uint_word_of_int_eq take_bit_int_eq_self)
  ultimately show ?thesis unfolding n_def by blast
qed

lemma exception_spec:
  assumes "replied req 9 req"
  shows "\<exists>len rsp. nb_response_exception code req = Some (len, rsp) \<and> len = 9 \<and> length rsp = 260 \<and>
           take 4 rsp = take 4 req \<and> rsp ! 6 = req ! 6 \<and> rsp ! 7 = req ! 7 + 0x80 \<and> rsp ! 8 = code \<and>
           be16 (rsp ! 4) (rsp ! 5) = 3"
proof -
  have l: "length req = 260" using assms by (simp add: replied_def)
  let ?r = "req[7 := req ! 7 + 0x80, 8 := code]"
  obtain hi lo where m: "set_mbap 9 ?r = Some (?r[4 := hi, 5 := lo])" "be16 hi lo = 3"
    using set_mbap_spec [of ?r 9] l by auto
  show ?thesis using l m by (simp add: nb_response_exception_def modbus_sizes no_fault)
qed

lemma req_value_260: "length req = 260 \<Longrightarrow> req_value req = Some (be16 (req ! 10) (req ! 11))"
  by (simp add: req_value_def no_fault)

lemma replied_buffer:
  assumes "length rsp = 260" and "9 \<le> len" and "len \<le> 260"
  shows "replied rsp len rsp"
    and "replied rsp len (rsp[8 := b])"
    and "9 + length bs \<le> 260 \<Longrightarrow> replied rsp len (overlay (rsp[8 := b]) 9 bs)"
    and "13 + length bs \<le> 260 \<Longrightarrow> replied rsp len (overlay rsp 13 bs)"
  using assms by (simp_all add: replied_def take_overlay_before nth_overlay_before)

lemma function_kept:
  assumes "length rsp = 260"
  shows "overlay (rsp[8 := b]) 9 bs ! 7 = rsp ! 7" and "overlay rsp 13 bs ! 7 = rsp ! 7"
  using assms by (simp_all add: nth_overlay_before)

lemma bits_bytes_eq: "bits_bytes nb = nat ((nb + 7) div 8)"
  by (simp only: bits_bytes_def ceil_div_8)

definition wf_nb :: "('a \<Rightarrow> bool) \<Rightarrow> 'a nb_modbus \<Rightarrow> bool" where
  "wf_nb good nb \<longleftrightarrow> length (nb_arm nb) = 3 \<and> (\<forall>a. Some a \<in> set (nb_arm nb) \<longrightarrow> good a)"

lemma wf_nb_update:
  assumes "wf_nb good nb" and "good a"
  shows "wf_nb good (nb\<lparr>nb_arm := (nb_arm nb)[i := Some a]\<rparr>)"
  using assms set_update_subset_insert [of "nb_arm nb" i "Some a"] by (auto simp: wf_nb_def)

lemma map_slave_pos: "1 \<le> fst (map_slave unit address)"
proof -
  have a: "0 \<le> uint address" by simp
  have "unit \<noteq> 0 \<Longrightarrow> 1 \<le> uint unit"
    by (metis int_one_le_iff_zero_less uint_ge_0 uint_0_iff order_le_less)
  with a show ?thesis by (auto simp: map_slave_def Let_def pos_imp_zdiv_nonneg_iff)
qed

lemma replied_set_mbap: "replied req len rsp \<Longrightarrow> replied req len (rsp[4 := hi, 5 := lo])"
  by (simp add: replied_def)

section \<open>The contract of a board\<close>

text \<open>
  What \<open>nb_modbus_reply\<close> needs of the operations of a board: from a state in the invariant
  they return, stay inside the caller's memory as far as their arguments promise, change at
  most the bytes they report, and keep the invariant.
\<close>

locale register_bus =
  fixes ops :: "('a, 'w) board_ops" and good :: "'a \<Rightarrow> bool"
  assumes read_bits_law: "good a \<Longrightarrow> off + 32 \<le> length m \<Longrightarrow>
      \<exists>n bs a' w'. bo_read_bits ops reg bits m off a w = Some (n, overlay m off bs, a', w') \<and> good a' \<and>
        n \<le> 255 \<and> (if n < 0 then bs = [] else length bs = (nat n + 7) div 8)"
    and read_regs_law: "good a \<Longrightarrow> unat cnt \<le> 125 \<Longrightarrow> off + 2 * unat cnt \<le> length m \<Longrightarrow>
      \<exists>n bs a' w'. bo_read_regs ops reg cnt m off a w = Some (n, overlay m off bs, a', w') \<and> good a' \<and>
        n \<le> uint cnt \<and> (if n < 0 then bs = [] else length bs = 2 * nat n)"
    and write_bit_law: "good a \<Longrightarrow> \<exists>n a' w'. bo_write_bit ops reg v a w = Some (n, a', w') \<and> good a'"
    and write_regs_law: "good a \<Longrightarrow> off + 2 * unat cnt \<le> length m \<Longrightarrow>
      \<exists>n a' w'. bo_write_regs ops reg cnt m off a w = Some (n, a', w') \<and> good a'"
    and write_bits_law: "good a \<Longrightarrow> off + (unat bits + 7) div 8 \<le> length m \<Longrightarrow>
      \<exists>n a' w'. bo_write_bits ops reg bits m off a w = Some (n, a', w') \<and> good a' \<and> n \<le> 255"
begin

lemma with_exception_ok:
  assumes "replied req 9 rsp" and "rsp ! 7 = req ! 7" and "good a"
  shows "\<exists>len rsp' a' w'. with_exception code rsp a w = Some (len, rsp', a', w') \<and>
           replied req len rsp' \<and> good a'"
proof -
  have "replied rsp 9 rsp" using assms(1) by (simp add: replied_def)
  from exception_spec [OF this, of code] assms show ?thesis
    by (auto simp: with_exception_def replied_def)
qed

lemma reply_read_bits_ok:
  assumes "good a" and "length rsp = 260"
  shows "\<exists>len rsp' a' w'. reply_read_bits ops address rsp a w = Some (len, rsp', a', w') \<and>
           replied rsp len rsp' \<and> good a'"
proof -
  define nb where "nb = be16 (rsp ! 10) (rsp ! 11)"
  have v: "req_value rsp = Some nb" unfolding nb_def by (rule req_value_260 [OF assms(2)])
  show ?thesis
  proof (cases "nb < 1 \<or> MODBUS_MAX_READ_BITS < nb")
    case True
    with v with_exception_ok [OF replied_buffer(1) refl assms(1)] assms(2) show ?thesis
      by (simp add: reply_read_bits_def)
  next
    case False
    let ?r = "rsp[8 := word_of_nat (bits_bytes nb)]"
    obtain n bs a' w' where b: "bo_read_bits ops address (word_of_int nb) ?r 9 a w =
        Some (n, overlay ?r 9 bs, a', w')" "good a'" "n \<le> 255"
      "if n < 0 then bs = [] else length bs = (nat n + 7) div 8"
      using read_bits_law [OF assms(1), of 9 ?r address "word_of_int nb" w] assms(2) by auto
    have "(nat n + 7) div 8 \<le> 32" using b(3) by linarith
    then have bs: "length bs \<le> 32" using b(4) by (cases "n < 0") auto
    have w8: "wr8 rsp 8 (word_of_nat (bits_bytes nb)) = Some ?r" using assms(2) by (simp add: no_fault)
    show ?thesis
    proof (cases "nb \<le> n")
      case True
      have "bits_bytes nb \<le> 32"
        using True b(3) False by (simp add: bits_bytes_eq)
      then have "replied rsp (9 + bits_bytes nb) (overlay ?r 9 bs)"
        using bs assms(2) by (intro replied_buffer(3)) auto
      with True False v w8 b(1,2) show ?thesis by (simp add: reply_read_bits_def)
    next
      case short: False
      have "replied rsp 9 (overlay ?r 9 bs)" "overlay ?r 9 bs ! 7 = rsp ! 7"
        using bs assms(2) by (simp_all add: replied_buffer(3) function_kept(1))
      from with_exception_ok [OF this b(2)] short False v w8 b(1) show ?thesis
        by (simp add: reply_read_bits_def)
    qed
  qed
qed

lemma reply_read_regs_ok:
  assumes "good a" and "length rsp = 260"
  shows "\<exists>len rsp' a' w'. reply_read_regs ops address rsp a w = Some (len, rsp', a', w') \<and>
           replied rsp len rsp' \<and> good a'"
proof -
  define nb where "nb = be16 (rsp ! 10) (rsp ! 11)"
  have v: "req_value rsp = Some nb" unfolding nb_def by (rule req_value_260 [OF assms(2)])
  show ?thesis
  proof (cases "nb < 1 \<or> MODBUS_MAX_READ_REGISTERS < nb")
    case True
    with v with_exception_ok [OF replied_buffer(1) refl assms(1)] assms(2) show ?thesis
      by (simp add: reply_read_regs_def)
  next
    case False
    then have nb: "1 \<le> nb" "nb \<le> 125" by (simp_all add: modbus_sizes)
    let ?c = "word_of_int nb :: u8"
    have c: "unat ?c = nat nb" "uint ?c = nb" "nat nb \<le> 125"
      using nb by (simp_all add: uint_word_of_int_eq take_bit_int_eq_self flip: nat_uint_eq)
    let ?r = "rsp[8 := word_of_int (2 * nb)]"
    obtain n bs a' w' where b: "bo_read_regs ops address ?c ?r 9 a w =
        Some (n, overlay ?r 9 bs, a', w')" "good a'" "n \<le> nb"
      "if n < 0 then bs = [] else length bs = 2 * nat n"
      using read_regs_law [OF assms(1), of ?c 9 ?r address w] assms(2) nb c by auto
    have bs: "length bs \<le> 250" using b(3,4) nb by (cases "n < 0") auto
    have w8: "wr8 rsp 8 (word_of_int (2 * nb)) = Some ?r" using assms(2) by (simp add: no_fault)
    show ?thesis
    proof (cases "n = nb")
      case True
      with b(4) nb have lb: "length bs = 2 * nat nb" by simp
      let ?m = "overlay ?r 9 bs"
      have lm: "length ?m = 260" using bs assms(2) by simp
      have "take (2 * nat nb) (drop 9 ?m) = bs" using lb assms(2) by (simp add: drop_overlay)
      then have "swap_regs (nat nb) 9 ?m = Some (overlay ?m 9 (swap_bytes bs))"
        using swap_regs_spec [of 9 "nat nb" ?m] lm lb bs by simp
      also have "overlay ?m 9 (swap_bytes bs) = overlay ?r 9 (swap_bytes bs)"
        using bs assms(2) by (intro overlay_same) simp_all
      finally have sw: "swap_regs (nat nb) 9 ?m = Some (overlay ?r 9 (swap_bytes bs))" .
      have "replied rsp (9 + 2 * nat nb) (overlay ?r 9 (swap_bytes bs))"
        using bs assms(2) nb by (intro replied_buffer(3)) auto
      with True False v w8 b(1,2) sw show ?thesis by (simp add: reply_read_regs_def)
    next
      case short: False
      have "replied rsp 9 (overlay ?r 9 bs)" "overlay ?r 9 bs ! 7 = rsp ! 7"
        using bs assms(2) by (simp_all add: replied_buffer(3) function_kept(1))
      from with_exception_ok [OF this b(2)] short False v w8 b(1) show ?thesis
        by (simp add: reply_read_regs_def)
    qed
  qed
qed

lemma reply_write_coil_ok:
  assumes "good a" and "length rsp = 260"
  shows "\<exists>d len rsp' a' w'. reply_write_coil ops address rsp a w = Some (d, len, rsp', a', w') \<and>
           replied rsp len rsp' \<and> good a'"
proof -
  have v: "req_value rsp = Some (be16 (rsp ! 10) (rsp ! 11))" by (rule req_value_260 [OF assms(2)])
  let ?v = "be16 (rsp ! 10) (rsp ! 11)"
  have r: "replied rsp 9 rsp" "replied rsp 12 rsp" using assms(2) by (simp_all add: replied_buffer(1))
  obtain n a' w' where b: "bo_write_bit ops address (if ?v \<noteq> 0 then 1 else 0) a w = Some (n, a', w')" "good a'"
    using write_bit_law [OF assms(1)] by blast
  show ?thesis
    using v b r assms with_exception_ok [OF r(1) refl assms(1), of ILLEGAL_DATA_VALUE w]
      with_exception_ok [OF r(1) refl b(2), of SLAVE_OR_SERVER_FAILURE w']
    by (auto simp: reply_write_coil_def simp del: if_split split: if_split_asm)
qed

lemma reply_write_reg_ok:
  assumes "good a" and "length rsp = 260"
  shows "\<exists>len rsp' a' w'. reply_write_reg ops address rsp a w = Some (len, rsp', a', w') \<and>
           replied rsp len rsp' \<and> good a'"
proof -
  define d :: u16 where "d = word_of_int (be16 (rsp ! 10) (rsp ! 11))"
  have v: "req_value rsp = Some (be16 (rsp ! 10) (rsp ! 11))" by (rule req_value_260 [OF assms(2)])
  have r: "replied rsp 9 rsp" "replied rsp 12 rsp" using assms(2) by (simp_all add: replied_buffer(1))
  obtain n a' w' where b: "bo_write_regs ops address 1 [lo8 d, hi8 d] 0 a w = Some (n, a', w')" "good a'"
    using write_regs_law [OF assms(1), of 0 1 "[lo8 d, hi8 d]" address w] by auto
  show ?thesis
    using v b r with_exception_ok [OF r(1) refl b(2), of ILLEGAL_DATA_ADDRESS w']
    by (cases "n = 1") (simp_all add: reply_write_reg_def Let_def flip: d_def)
qed

lemma reply_write_coils_ok:
  assumes "good a" and "length rsp = 260"
  shows "\<exists>len rsp' a' w'. reply_write_coils ops address rsp a w = Some (len, rsp', a', w') \<and>
           replied rsp len rsp' \<and> good a'"
proof -
  define nb where "nb = be16 (rsp ! 10) (rsp ! 11)"
  have v: "req_value rsp = Some nb" unfolding nb_def by (rule req_value_260 [OF assms(2)])
  have r: "replied rsp 9 rsp" "replied rsp 12 rsp" using assms(2) by (simp_all add: replied_buffer(1))
  show ?thesis
  proof (cases "nb < 1 \<or> MODBUS_MAX_WRITE_BITS < nb")
    case True
    with v with_exception_ok [OF r(1) refl assms(1)] show ?thesis by (simp add: reply_write_coils_def)
  next
    case False
    then have nb: "1 \<le> nb" "nb \<le> 1968" by (simp_all add: modbus_sizes)
    have "unat (word_of_int nb :: u16) = nat nb"
      using nb by (simp add: uint_word_of_int_eq take_bit_int_eq_self flip: nat_uint_eq)
    moreover have "(nat nb + 7) div 8 \<le> 246" using nb by linarith
    ultimately obtain n a' w' where b: "bo_write_bits ops address (word_of_int nb) rsp 13 a w = Some (n, a', w')"
      "good a'"
      using write_bits_law [OF assms(1), of 13 "word_of_int nb" rsp address w] assms(2) by auto
    have "\<not> uint address < 0" by simp
    with False v b r with_exception_ok [OF r(1) refl b(2), of ILLEGAL_DATA_ADDRESS w'] show ?thesis
      by (cases "n = nb") (simp_all add: reply_write_coils_def)
  qed
qed

lemma reply_write_regs_ok:
  assumes "good a" and "length rsp = 260"
  shows "\<exists>len rsp' a' w'. reply_write_regs ops address rsp a w = Some (len, rsp', a', w') \<and>
           replied rsp len rsp' \<and> good a'"
proof -
  define nb where "nb = be16 (rsp ! 10) (rsp ! 11)"
  have v: "req_value rsp = Some nb" unfolding nb_def by (rule req_value_260 [OF assms(2)])
  show ?thesis
  proof (cases "nb < 1 \<or> MODBUS_MAX_WRITE_REGISTERS < nb")
    case True
    with v with_exception_ok [OF replied_buffer(1) refl assms(1)] assms(2) show ?thesis
      by (simp add: reply_write_regs_def)
  next
    case False
    then have nb: "1 \<le> nb" "nb \<le> 123" by (simp_all add: modbus_sizes)
    then have nb': "nat nb \<le> 123" by linarith
    let ?bs = "swap_bytes (take (2 * nat nb) (drop 13 rsp))"
    let ?m = "overlay rsp 13 ?bs"
    have lb: "13 + length ?bs \<le> 260" using nb' assms(2) by simp
    have sw: "swap_regs (nat nb) 13 rsp = Some ?m"
      using nb' assms(2) by (intro swap_regs_spec) simp
    have r: "replied rsp 9 ?m" "replied rsp 12 ?m" "?m ! 7 = rsp ! 7"
      using assms(2) lb by (simp_all add: replied_buffer(4) function_kept)
    have "unat (word_of_int nb :: u8) = nat nb"
      using nb by (simp add: uint_word_of_int_eq take_bit_int_eq_self flip: nat_uint_eq)
    then obtain n a' w' where b: "bo_write_regs ops address (word_of_int nb) ?m 13 a w = Some (n, a', w')" "good a'"
      using write_regs_law [OF assms(1), of 13 "word_of_int nb" ?m address w] assms(2) lb nb' by auto
    with False v sw r with_exception_ok [OF r(1,3) b(2), of ILLEGAL_DATA_ADDRESS w'] show ?thesis
      by (cases "n = nb") (simp_all add: reply_write_regs_def)
  qed
qed

lemma reply_slave_id_ok:
  assumes "good a" and "length rsp = 260" and "length version \<le> 246"
  shows "\<exists>len rsp' a' w'. reply_slave_id version rsp a w = Some (len, rsp', a', w') \<and>
           replied rsp len rsp' \<and> good a'"
proof -
  have "length (str_bytes (''SPI'' @ version)) = 3 + length version" by (simp add: str_bytes_def)
  with assms show ?thesis
    by (simp add: reply_slave_id_def Let_def no_fault replied_def take_overlay_before nth_overlay_before)
qed

lemma reply_case_ok:
  assumes "good a" and "length rsp = 260" and "length version \<le> 246"
  shows "\<exists>d len rsp' a' w'. reply_case ops version f address rsp a w = Some (d, len, rsp', a', w') \<and>
           replied rsp len rsp' \<and> good a'"
proof -
  have r: "replied rsp 9 rsp" using assms(2) by (simp add: replied_buffer(1))
  note cases = reply_read_bits_ok [OF assms(1,2)] reply_read_regs_ok [OF assms(1,2)]
    reply_write_coil_ok [OF assms(1,2)] reply_write_reg_ok [OF assms(1,2)]
    reply_write_coils_ok [OF assms(1,2)] reply_write_regs_ok [OF assms(1,2)]
    reply_slave_id_ok [OF assms] with_exception_ok [OF r refl assms(1)]
  define ok where "ok x \<longleftrightarrow> (\<exists>d len rsp' a' w'. x = Some (d, len, rsp', a', w') \<and>
      replied rsp len rsp' \<and> good a')" for x :: "(bool \<times> nat \<times> mem \<times> 'a \<times> 'w) option"
  have plain: "ok (map_option (Pair False) x)"
    if "\<exists>len rsp' a' w'. x = Some (len, rsp', a', w') \<and> replied rsp len rsp' \<and> good a'" for x
    using that by (auto simp: ok_def)
  have "ok (reply_case ops version f address rsp a w)"
    unfolding reply_case_def Let_def
    by (intro if_split [of ok, THEN iffD2] conjI impI plain cases)
      (use cases(3) in \<open>simp add: ok_def\<close>)
  then show ?thesis by (simp add: ok_def)
qed

lemma nb_modbus_reply_ok:
  assumes "wf_nb good nb" and "length req = 260" and "length version \<le> 246"
  shows "\<exists>len rsp nb' w'. nb_modbus_reply ops version nb req req_length w = Some (int len, rsp, nb', w') \<and>
           replied req len rsp \<and> be16 (rsp ! 4) (rsp ! 5) = int len - 6 \<and> wf_nb good nb'"
proof -
  obtain slave address where m: "map_slave (req ! 6) (join16 (req ! 8) (req ! 9)) = (slave, address)"
    by fastforce
  have pos: "1 \<le> slave" using map_slave_pos [of "req ! 6" "join16 (req ! 8) (req ! 9)"] m by simp
  let ?i = "nat (slave - 1)"
  have r: "replied req 9 req" using assms(2) by (simp add: replied_buffer(1))
  obtain rsp where e: "nb_response_exception GATEWAY_TARGET req = Some (9, rsp)" "replied req 9 rsp"
    "be16 (rsp ! 4) (rsp ! 5) = 3"
    using exception_spec [OF r, of GATEWAY_TARGET] by (auto simp: replied_def)
  consider "3 < slave" | "slave \<le> 3" "nb_arm nb ! ?i = None"
    | a where "slave \<le> 3" "nb_arm nb ! ?i = Some a" by force
  then show ?thesis
  proof cases
    case 1
    with e assms m show ?thesis by (simp add: nb_modbus_reply_def no_fault MAX_ARMS_def)
  next
    case 2
    then have "?i < 3" using pos by simp
    with 2 e assms m show ?thesis
      by (simp add: nb_modbus_reply_def no_fault MAX_ARMS_def wf_nb_def)
  next
    case 3
    have i: "?i < length (nb_arm nb)" using 3(1) pos assms(1) by (simp add: wf_nb_def)
    then have "good a" using 3(2) assms(1) nth_mem [OF i] by (auto simp: wf_nb_def)
    from reply_case_ok [OF this assms(2,3)] obtain d len rsp' a' w' where
      c: "reply_case ops version (req ! 7) address req a w = Some (d, len, rsp', a', w')"
        "replied req len rsp'" "good a'" by blast
    obtain hi lo where b: "set_mbap len rsp' = Some (rsp'[4 := hi, 5 := lo])" "be16 hi lo = int len - 6"
      using set_mbap_spec [of rsp' len] c(2) by (auto simp: replied_def)
    let ?nb = "nb\<lparr>nb_arm := (nb_arm nb)[?i := Some a']\<rparr>"
    have "nb_modbus_reply ops version nb req req_length w = Some (int len, rsp'[4 := hi, 5 := lo],
        if d then ?nb\<lparr>deferred_op := DFR_OP_FIRMWARE, deferred_arm := Some ?i\<rparr> else ?nb, w')"
      using m 3 i c(1) b(1) assms(2) by (simp add: nb_modbus_reply_def Let_def no_fault MAX_ARMS_def)
    moreover have "wf_nb good (if d then ?nb\<lparr>deferred_op := DFR_OP_FIRMWARE, deferred_arm := Some ?i\<rparr> else ?nb)"
      using wf_nb_update [OF assms(1) c(3), of ?i] by (simp add: wf_nb_def)
    moreover have "length rsp' = 260" using c(2) by (simp add: replied_def)
    ultimately show ?thesis
      using replied_set_mbap [OF c(2), of hi lo] b(2)
      by (intro exI [of _ len] exI [of _ "rsp'[4 := hi, 5 := lo]"]) simp
  qed
qed

end

section \<open>The SPI operations meet the contract\<close>

interpretation arm: register_bus "arm_board os" "\<lambda>a. full_duplex os \<and> wf_arm a" for os :: "'w os"
proof unfold_locales
  fix a :: arm_handle and off :: nat and m :: mem and reg bits :: u16 and cnt :: u8 and v :: u8 and w :: 'w
  assume g: "full_duplex os \<and> wf_arm a"
  then have g': "wf_arm a" "full_duplex os" by simp_all
  show "\<exists>n bs a' w'. bo_read_bits (arm_board os) reg bits m off a w = Some (n, overlay m off bs, a', w') \<and>
      (full_duplex os \<and> wf_arm a') \<and> n \<le> 255 \<and> (if n < 0 then bs = [] else length bs = (nat n + 7) div 8)"
    if o: "off + 32 \<le> length m"
  proof -
    obtain n bs a' w' where "read_bits os reg bits m off a w = Some (n, overlay m off bs, a', w')"
      "wf_arm a'" "n \<le> 255" "n < 0 \<longrightarrow> bs = []" "0 \<le> n \<longrightarrow> length bs = (nat n + 7) div 8"
      using read_bits_spec [OF g' o, of reg bits w] by blast
    then show ?thesis using g
      by (intro exI [of _ n] exI [of _ bs] exI [of _ a'] exI [of _ w']) (simp add: arm_board_def)
  qed
  show "\<exists>n bs a' w'. bo_read_regs (arm_board os) reg cnt m off a w = Some (n, overlay m off bs, a', w') \<and>
      (full_duplex os \<and> wf_arm a') \<and> n \<le> uint cnt \<and> (if n < 0 then bs = [] else length bs = 2 * nat n)"
    if c: "unat cnt \<le> 125" and o: "off + 2 * unat cnt \<le> length m"
  proof -
    have "unat cnt \<le> 146" using c by simp
    then obtain n bs a' w' where "read_regs os reg cnt m off a w = Some (n, overlay m off bs, a', w')"
      "wf_arm a'" "n \<le> uint cnt" "if n < 0 then bs = [] else length bs = 2 * nat n"
      using read_regs_total [OF g' _ o, of reg w] by blast
    then show ?thesis using g
      by (intro exI [of _ n] exI [of _ bs] exI [of _ a'] exI [of _ w']) (simp add: arm_board_def)
  qed
  show "\<exists>n a' w'. bo_write_bit (arm_board os) reg v a w = Some (n, a', w') \<and> (full_duplex os \<and> wf_arm a')"
    using write_bit_spec [OF g', of reg v w] g by (auto simp: arm_board_def)
  show "\<exists>n a' w'. bo_write_regs (arm_board os) reg cnt m off a w = Some (n, a', w') \<and>
      (full_duplex os \<and> wf_arm a')" if "off + 2 * unat cnt \<le> length m"
    using write_regs_total [OF g' that, of reg w] g by (auto simp: arm_board_def)
  show "\<exists>n a' w'. bo_write_bits (arm_board os) reg bits m off a w = Some (n, a', w') \<and>
      (full_duplex os \<and> wf_arm a') \<and> n \<le> 255" if "off + (unat bits + 7) div 8 \<le> length m"
    using write_bits_spec [OF g' that, of reg w] g by (auto simp: arm_board_def)
qed

end
