(* ===== verification/Nb_Modbus_Replies.thy ===== *)
theory Nb_Modbus_Replies
  imports Nb_Modbus_Correct
begin

text \<open>
  The properties of the Modbus/TCP server side: no frame can make it leave its buffers, every
  reply is a well-formed frame for its request, and the registers of a board reach the client,
  and the client's registers the board, unchanged. Also what the code gets wrong: frames of
  256 bytes and more are never recognised.
\<close>

section \<open>Every reply\<close>

text \<open>
  C1. Whatever bytes a client sends, \<open>nb_modbus_reply\<close> on the 260-byte buffer never leaves a
  buffer of the server or of a board, and produces a reply: between 9 and 260 bytes, with the
  transaction and protocol identifiers and the unit of the request, a length field that is the
  reply's own, and the request's function code or the exception form of it. All boards stay
  well formed.
\<close>

theorem nb_modbus_reply_safe:
  assumes "wf_nb wf_arm nb" and "full_duplex os" and "length req = 260" and "length version \<le> 246"
  shows "\<exists>len rsp nb' w'. nb_modbus_reply (arm_board os) version nb req req_length w =
             Some (int len, rsp, nb', w') \<and> 9 \<le> len \<and> len \<le> 260 \<and> length rsp = 260 \<and>
           take 4 rsp = take 4 req \<and> be16 (rsp ! 4) (rsp ! 5) = int len - 6 \<and> rsp ! 6 = req ! 6 \<and>
           (rsp ! 7 = req ! 7 \<or> len = 9 \<and> rsp ! 7 = req ! 7 + 0x80) \<and> wf_nb wf_arm nb'"
proof -
  have "wf_nb (\<lambda>a. full_duplex os \<and> wf_arm a) nb" using assms(1,2) by (simp add: wf_nb_def)
  from arm.nb_modbus_reply_ok [OF this assms(3,4), of req_length w] show ?thesis
    by (auto simp: replied_def wf_nb_def)
qed

definition one_board :: "arm_handle nb_modbus" where
  "one_board = \<lparr>nb_arm = [Some blank_arm, None, None], nb_fwdir = ''/opt/fw'',
     deferred_op = DFR_NONE, deferred_arm = None\<rparr>"

lemma wf_one_board: "wf_nb wf_arm one_board"
  using wf_blank_arm by (auto simp: wf_nb_def one_board_def)

theorem nb_modbus_reply_safe_witness:
  "\<exists>len rsp nb' w'. nb_modbus_reply (arm_board dead_bus) ''3.1.4'' one_board (replicate 260 0xff) 260 () =
     Some (int len, rsp, nb', w') \<and> 9 \<le> len \<and> length rsp = 260"
  using nb_modbus_reply_safe [OF wf_one_board dead_bus_full_duplex, of "replicate 260 0xff" "''3.1.4''" 260 "()"]
  by auto

section \<open>Registers from end to end\<close>

lemma set_mbap_eq:
  assumes "length rsp = 260" and "len \<le> 260" and "6 \<le> len"
  shows "set_mbap len rsp = Some (rsp[4 := 0, 5 := word_of_nat (len - 6)])"
proof -
  obtain hi lo where s: "set_mbap len rsp = Some (rsp[4 := hi, 5 := lo])" "be16 hi lo = int len - 6"
    using set_mbap_spec [OF assms] by blast
  have "be16 hi lo < 256" using s(2) assms(2) by simp
  moreover have "0 \<le> uint hi" "0 \<le> uint lo" by simp_all
  ultimately have "uint hi = 0" unfolding be16_def by linarith
  then have "hi = 0" by (simp add: uint_0_iff)
  moreover from s(2) this assms(3) have "uint lo = int (len - 6)" by (simp add: be16_def)
  then have "lo = word_of_nat (len - 6)" by (metis of_int_of_nat_eq word_of_int_uint)
  ultimately show ?thesis using s(1) by simp
qed

text \<open>The dispatch of \<open>nb_modbus_reply\<close> to the board that a request addresses.\<close>

lemma nb_modbus_reply_dispatch:
  assumes "length req = 260" and "map_slave (req ! 6) (join16 (req ! 8) (req ! 9)) = (int i + 1, address)"
    and "i < 3" and "length (nb_arm nb) = 3" and "nb_arm nb ! i = Some a"
    and "reply_case ops version (req ! 7) address req a w = Some (False, len, rsp, a', w')"
    and "length rsp = 260" and "len \<le> 260" and "6 \<le> len"
  shows "nb_modbus_reply ops version nb req req_length w =
     Some (int len, rsp[4 := 0, 5 := word_of_nat (len - 6)], nb\<lparr>nb_arm := (nb_arm nb)[i := Some a']\<rparr>, w')"
  using assms by (simp add: nb_modbus_reply_def Let_def no_fault MAX_ARMS_def set_mbap_eq)

lemma frame_split:
  assumes "length req = 260"
  obtains r0 r1 r2 r3 r4 r5 r6 r7 r8 r9 r10 r11 r12 rest where
    "req = [r0, r1, r2, r3, r4, r5, r6, r7, r8, r9, r10, r11, r12] @ rest" "length rest = 247"
proof -
  obtain t where t: "t = take 13 req" "length t = 13" using assms by simp
  then obtain r0 r1 r2 r3 r4 r5 r6 r7 r8 r9 r10 r11 r12 where
    "t = [r0, r1, r2, r3, r4, r5, r6, r7, r8, r9, r10, r11, r12]"
    by (auto simp: numeral_eq_Suc length_Suc_conv simp del: length_take)
  with t(1) append_take_drop_id [of 13 req] assms show thesis
    by (intro that [of r0 r1 r2 r3 r4 r5 r6 r7 r8 r9 r10 r11 r12 "drop 13 req"]) simp_all
qed

text \<open>
  C2. A client that reads \<open>n\<close> registers of a board gets, when the board replies correctly, the
  frame of the Modbus/TCP specification: the header with the length \<open>3 + 2 n\<close>, the byte count
  \<open>2 n\<close>, and the board's registers, most significant byte first.
\<close>

theorem read_registers_end_to_end:
  assumes "length req = 260" and "map_slave (req ! 6) (join16 (req ! 8) (req ! 9)) = (int i + 1, address)"
    and "req ! 7 = 3 \<or> req ! 7 = 4" and "be16 (req ! 10) (req ! 11) = int n" and "1 \<le> n" and "n \<le> 125"
    and "i < 3" and "length (nb_arm nb) = 3" and "nb_arm nb ! i = Some a" and "wf_arm a" and "full_duplex os"
    and "length bs = 2 * n"
    and "answers os (fd a) (12 + 2 * n) (idle_chunk @ regs_reply address (word_of_nat n) bs)"
  shows "\<exists>rsp nb' w'. nb_modbus_reply (arm_board os) version nb req req_length w =
             Some (9 + 2 * int n, rsp, nb', w') \<and>
           take (9 + 2 * n) rsp =
             take 4 req @ [0, word_of_nat (3 + 2 * n), req ! 6, req ! 7, word_of_nat (2 * n)] @ swap_bytes bs"
proof -
  let ?c = "word_of_int (int n) :: u8"
  have c: "unat ?c = n" "uint ?c = int n"
    using assms(6) by (simp_all add: unsigned_of_nat take_bit_nat_eq_self)
  obtain r0 r1 r2 r3 r4 r5 r6 r7 r8 r9 r10 r11 r12 rest where
    req: "req = [r0, r1, r2, r3, r4, r5, r6, r7, r8, r9, r10, r11, r12] @ rest" "length rest = 247"
    by (rule frame_split [OF assms(1)])
  let ?r = "req[8 := word_of_int (2 * int n)]"
  have room: "9 + 2 * unat ?c \<le> length ?r" "unat ?c \<le> 146" using c assms(1,6) by simp_all
  have an: "answers os (fd a) (12 + 2 * unat ?c) (idle_chunk @ regs_reply address ?c bs)"
    using assms(13) c(1) by simp
  obtain a' w' where rr: "read_regs os address ?c ?r 9 a w = Some (uint ?c, overlay ?r 9 bs, a', w')"
    using read_regs_correct [OF assms(10,11) room(2,1) _ an, of w] assms(12) c by auto
  let ?m = "overlay ?r 9 (swap_bytes bs)"
  have lm: "length ?m = 260" using assms(1,6,12) by simp
  have "swap_regs n 9 (overlay ?r 9 bs) = Some (overlay (overlay ?r 9 bs) 9 (swap_bytes bs))"
    using swap_regs_spec [of 9 n "overlay ?r 9 bs"] assms(1,6,12) by (simp add: drop_overlay)
  also have "overlay (overlay ?r 9 bs) 9 (swap_bytes bs) = ?m"
    using assms(1,6,12) by (intro overlay_same) simp_all
  finally have sw: "swap_regs n 9 (overlay ?r 9 bs) = Some ?m" .
  have "reply_read_regs (arm_board os) address req a w = Some (9 + 2 * n, ?m, a', w')"
    using assms(1,4,5,6) rr sw c by (simp add: reply_read_regs_def req_value_260 no_fault modbus_sizes arm_board_def)
  then have "reply_case (arm_board os) version (req ! 7) address req a w = Some (False, 9 + 2 * n, ?m, a', w')"
    using assms(3) by (auto simp: reply_case_def modbus_fc)
  from nb_modbus_reply_dispatch [OF assms(1,2,7,8,9) this lm]
  have eq: "nb_modbus_reply (arm_board os) version nb req req_length w =
      Some (9 + 2 * int n, ?m[4 := 0, 5 := word_of_nat (3 + 2 * n)], nb\<lparr>nb_arm := (nb_arm nb)[i := Some a']\<rparr>, w')"
    using assms(6) by (simp add: add.commute)
  have "take (9 + 2 * n) (?m[4 := 0, 5 := word_of_nat (3 + 2 * n)]) =
      [r0, r1, r2, r3, 0, word_of_nat (3 + 2 * n), r6, r7, word_of_nat (2 * n)] @ swap_bytes bs"
    using assms(6,12) unfolding req(1) by (simp add: overlay_def numeral_eq_Suc)
  also have "\<dots> = take 4 req @ [0, word_of_nat (3 + 2 * n), req ! 6, req ! 7, word_of_nat (2 * n)] @ swap_bytes bs"
    unfolding req(1) by simp
  finally show ?thesis using eq by blast
qed

definition read_request :: mem where
  "read_request = [0, 1, 0, 0, 0, 6, 1, 3, 0, 7, 0, 1] @ replicate 248 0"

theorem read_registers_end_to_end_witness:
  "\<exists>rsp nb' w'. nb_modbus_reply (arm_board (fixed_bus 14 (idle_chunk @ regs_reply 7 1 [0x34, 0x12])))
       ''3.1.4'' one_board read_request 12 () = Some (11, rsp, nb', w') \<and>
     take 11 rsp = [0, 1, 0, 0, 0, 5, 1, 3, 2, 0x12, 0x34]"
proof -
  let ?bus = "fixed_bus 14 (idle_chunk @ regs_reply 7 1 [0x34, 0x12])"
  have fd: "full_duplex ?bus"
    by (rule fixed_bus_full_duplex) (simp add: idle_chunk_ok(1) length_regs_reply)
  have an: "answers ?bus (fd blank_arm) (12 + 2 * 1) (idle_chunk @ regs_reply 7 (word_of_nat 1) [0x34, 0x12])"
    using fixed_bus_answers by simp
  have m: "map_slave (read_request ! 6) (join16 (read_request ! 8) (read_request ! 9)) = (int 0 + 1, 7)"
    by code_simp
  have b: "be16 (read_request ! 10) (read_request ! 11) = int 1"
    by (simp add: read_request_def be16_def)
  show ?thesis
    using read_registers_end_to_end [OF _ m _ b _ _ _ _ _ wf_blank_arm fd _ an, of one_board "''3.1.4''" 12 "()"]
    by (simp add: read_request_def one_board_def)
qed

lemma frame_lengths: "length (frame1 op len reg) = 6" "length (data_frame2 op reg len cnt bs) = 6 + length bs"
  by (simp_all add: frame1_def data_frame2_def crc_bytes_def Let_def)

text \<open>
  C3. A client that writes \<open>n\<close> registers (up to 123) has exactly its register values put on
  the bus of the board it addresses, with the register address and count of the request; when
  the board acknowledges, the client gets the twelve-byte echo the specification asks for.
\<close>

theorem write_registers_end_to_end:
  assumes "length req = 260" and "map_slave (req ! 6) (join16 (req ! 8) (req ! 9)) = (int i + 1, address)"
    and "req ! 7 = 16" and "be16 (req ! 10) (req ! 11) = int n" and "1 \<le> n" and "n \<le> 123"
    and "i < 3" and "length (nb_arm nb) = 3" and "nb_arm nb ! i = Some a" and "wf_arm a" and "full_duplex os"
    and "frame_ok idle_chunk r2" and "r2 ! 0 = ARM_OP_WRITE_REG" and "r2 ! 1 = word_of_nat n"
    and "answers os (fd a) (12 + 2 * n) (idle_chunk @ r2)"
  shows "\<exists>out ret rsp nb' w'.
           concat (map snd out) = frame1 ARM_OP_WRITE_REG (word_of_nat (4 + 2 * n)) address @
             data_frame2 ARM_OP_WRITE_REG address (word_of_nat (4 + 2 * n)) (word_of_nat n)
               (swap_bytes (take (2 * n) (drop 13 req))) \<and>
           os_spi_message os (fd a) out w = (ret, idle_chunk @ r2, w') \<and>
           nb_modbus_reply (arm_board os) version nb req req_length w = Some (12, rsp, nb', w') \<and>
           take 12 rsp = take 4 req @ [0, 6] @ take 6 (drop 6 req)"
proof -
  let ?c = "word_of_int (int n) :: u8"
  have c: "unat ?c = n" "uint ?c = int n" "?c \<le> 126"
    using assms(6) by (simp_all add: unsigned_of_nat take_bit_nat_eq_self word_le_nat_alt)
  obtain b0 b1 b2 b3 b4 b5 b6 b7 b8 b9 b10 b11 b12 rest where
    req: "req = [b0, b1, b2, b3, b4, b5, b6, b7, b8, b9, b10, b11, b12] @ rest" "length rest = 247"
    by (rule frame_split [OF assms(1)])
  let ?bs = "swap_bytes (take (2 * n) (drop 13 req))"
  let ?m = "overlay req 13 ?bs"
  have lb: "length ?bs = 2 * n" using assms(1,6) by simp
  have lm: "length ?m = 260" using assms(1,6) lb by simp
  have sw: "swap_regs n 13 req = Some ?m"
    using assms(1,6) by (intro swap_regs_spec) simp
  have data: "take (2 * unat ?c) (drop 13 ?m) = ?bs" using assms(1,6) lb c(1) by (simp add: drop_overlay)
  have room: "13 + 2 * unat ?c \<le> length ?m" using lm c(1) assms(6) by simp
  obtain out ret inc w' a' where o: "concat (map snd out) = data_frame2 ARM_OP_WRITE_REG address
      (word_of_nat (4 + 2 * unat ?c)) ?c (take (2 * unat ?c) (drop 13 ?m))"
    "os_spi_message os (fd a) ((delay_usecs (tr a ! 0), []) #
       (phase_delay ARM_OP_WRITE_REG (word_of_nat (4 + 2 * unat ?c)),
        frame1 ARM_OP_WRITE_REG (word_of_nat (4 + 2 * unat ?c)) address) # out) w = (ret, inc, w')"
    "ret \<noteq> 0 \<Longrightarrow> write_regs os address ?c ?m 13 a w =
       Some (if exchange_status ret inc < 0 then exchange_status ret inc
             else if drop 6 inc ! 0 = ARM_OP_WRITE_REG then uint (drop 6 inc ! 1) else -1, a', w')"
    by (rule write_regs_spec [OF assms(10,11) c(3) room, of address w]) blast
  let ?out = "(delay_usecs (tr a ! 0), []) # (phase_delay ARM_OP_WRITE_REG (word_of_nat (4 + 2 * n)),
        frame1 ARM_OP_WRITE_REG (word_of_nat (4 + 2 * n)) address) # out"
  note o = o [unfolded c(1) data [unfolded c(1)]]
  have len: "length (concat (map snd ?out)) = 12 + 2 * n"
    unfolding list.map concat.simps o(1) by (simp add: lb frame_lengths del: length_swap_bytes length_take)
  from answersD [OF assms(15) len o(2)] have inc: "inc = idle_chunk @ r2" "1 \<le> ret" by simp_all
  have "drop 6 inc = r2" "take 6 inc = idle_chunk" using inc(1) idle_chunk_ok(1) by simp_all
  moreover from this have "exchange_status ret inc = 0"
    using inc(2) assms(12) by (simp add: exchange_status_def reply_status_def idle_chunk_ok)
  ultimately have wr: "write_regs os address ?c ?m 13 a w = Some (int n, a', w')"
    using o(3) inc(2) assms(13,14) c by simp
  have "reply_write_regs (arm_board os) address req a w = Some (12, ?m, a', w')"
    using assms(1,4,5,6) sw wr by (simp add: reply_write_regs_def req_value_260 modbus_sizes arm_board_def)
  then have "reply_case (arm_board os) version (req ! 7) address req a w = Some (False, 12, ?m, a', w')"
    using assms(3) by (simp add: reply_case_def modbus_fc)
  from nb_modbus_reply_dispatch [OF assms(1,2,7,8,9) this lm]
  have eq: "nb_modbus_reply (arm_board os) version nb req req_length w =
      Some (12, ?m[4 := 0, 5 := 6], nb\<lparr>nb_arm := (nb_arm nb)[i := Some a']\<rparr>, w')"
    by simp
  have "take 12 (?m[4 := 0, 5 := 6]) = take 4 req @ [0, 6] @ take 6 (drop 6 req)"
    unfolding req(1) by (simp add: overlay_def numeral_eq_Suc)
  with eq o(1,2) show ?thesis
    by (intro exI [of _ ?out]) (simp add: inc(1))
qed

definition write_request :: mem where
  "write_request = [0, 1, 0, 0, 0, 9, 1, 16, 0, 7, 0, 1, 2, 0x12, 0x34] @ replicate 245 0"

definition write_ack :: "u8 list" where
  "write_ack = (let b = [ARM_OP_WRITE_REG, 1, 7, 0, 0, 0] in b @ crc_bytes (SpiCrcString (take 4 idle_chunk @ b) 0))"

theorem write_registers_end_to_end_witness:
  "\<exists>rsp nb' w'. nb_modbus_reply (arm_board (fixed_bus 14 (idle_chunk @ write_ack)))
       ''3.1.4'' one_board write_request 15 () = Some (12, rsp, nb', w') \<and>
     take 12 rsp = [0, 1, 0, 0, 0, 6, 1, 16, 0, 7, 0, 1]"
proof -
  let ?bus = "fixed_bus 14 (idle_chunk @ write_ack)"
  have l: "length write_ack = 8" by (simp add: write_ack_def crc_bytes_def Let_def)
  have fd: "full_duplex ?bus" by (rule fixed_bus_full_duplex) (simp add: idle_chunk_ok(1) l)
  have an: "answers ?bus (fd blank_arm) (12 + 2 * 1) (idle_chunk @ write_ack)"
    using fixed_bus_answers by simp
  have m: "map_slave (write_request ! 6) (join16 (write_request ! 8) (write_request ! 9)) = (int 0 + 1, 7)"
    by code_simp
  have b: "be16 (write_request ! 10) (write_request ! 11) = int 1"
    by (simp add: write_request_def be16_def)
  have ok: "frame_ok idle_chunk write_ack" unfolding write_ack_def Let_def by (rule frame_ok_idle)
  have h: "write_ack ! 0 = ARM_OP_WRITE_REG" "write_ack ! 1 = word_of_nat 1"
    by (simp_all add: write_ack_def Let_def)
  show ?thesis
    using write_registers_end_to_end [OF _ m _ b _ _ _ _ _ wf_blank_arm fd ok h an, of one_board "()" "''3.1.4''" 15]
    by (simp add: write_request_def one_board_def) blast
qed

section \<open>Recognising frames and addresses\<close>

lemma reqlen_no_fault: "6 \<le> length m \<Longrightarrow> nb_modbus_reqlen m sz =
    Some (if sz < 6 \<or> uint sz < be16 (m ! 4) (m ! 5) + 6 then 0 else be16 (m ! 4) (m ! 5) + 6)"
  by (simp add: nb_modbus_reqlen_def no_fault Let_def)

text \<open>
  C28. Of \<open>sz\<close> bytes received, \<open>nb_modbus_reqlen\<close> recognises the first frame exactly when
  the frame is complete, for all sizes up to 255; of 256 to 260 bytes received (the size is
  passed as a \<open>uint8_t\<close>) it recognises none, however complete the frame is.
\<close>

theorem nb_modbus_reqlen_complete:
  assumes "6 \<le> length m" and "sz \<le> 260"
  shows "nb_modbus_reqlen m (word_of_nat sz) =
    Some (if 6 \<le> sz \<and> sz < 256 \<and> be16 (m ! 4) (m ! 5) + 6 \<le> int sz then be16 (m ! 4) (m ! 5) + 6 else 0)"
proof (cases "sz < 256")
  case True
  then have "unat (word_of_nat sz :: u8) = sz" "uint (word_of_nat sz :: u8) = int sz"
    by (simp_all add: unsigned_of_nat take_bit_nat_eq_self)
  with assms(1) True show ?thesis by (auto simp: reqlen_no_fault word_less_nat_alt)
next
  case False
  then obtain k where k: "sz = 256 + k" "k < 5" using assms(2) by (auto simp: not_less le_iff_add)
  have "unat (word_of_nat sz :: u8) = sz mod 256" by (simp add: unat_of_nat)
  with k have "unat (word_of_nat sz :: u8) = k" by simp
  with assms(1) k show ?thesis
    by (simp add: reqlen_no_fault word_less_nat_alt del: of_nat_add of_nat_mult)
qed

theorem nb_modbus_reqlen_complete_witness:
  "nb_modbus_reqlen (replicate 4 0 @ [0, 250, 1, 16] @ replicate 252 0) (word_of_nat 256) = Some 0"
  using nb_modbus_reqlen_complete [of "replicate 4 0 @ [0, 250, 1, 16] @ replicate 252 0" 256] by simp

lemma map_slave_0:
  assumes "uint address = 1000 * g + c" and "0 \<le> g" "g < 3" and "0 \<le> c" "c < 1000"
  shows "map_slave 0 address = (c div 100 + 1, word_of_int (c mod 100 + 1000 * g))"
proof -
  consider "g = 0" | "g = 1" | "g = 2" using assms(2,3) by linarith
  then show ?thesis using assms(1,4,5) by cases (simp_all add: map_slave_def Let_def)
qed

text \<open>
  Unit 0 addresses the boards by hundreds: in each of the three address ranges of a
  thousand, address \<open>1000 g + 100 b + r\<close> is register \<open>1000 g + r\<close> of board \<open>b + 1\<close>.
\<close>

theorem map_slave_blocks:
  assumes "g < 3" and "b < 10" and "r < 100"
  shows "map_slave 0 (word_of_nat (1000 * g + 100 * b + r)) = (int b + 1, word_of_nat (1000 * g + r))"
proof -
  let ?a = "1000 * g + 100 * b + r"
  have "?a < 65536" using assms by simp
  then have u: "uint (word_of_nat ?a :: u16) = int ?a"
    by (simp add: unsigned_of_nat take_bit_nat_eq_self del: of_nat_add of_nat_mult)
  have "map_slave 0 (word_of_nat ?a) = ((100 * int b + int r) div 100 + 1,
      word_of_int ((100 * int b + int r) mod 100 + 1000 * int g))"
    by (rule map_slave_0) (use u assms in simp_all)
  also have "(100 * int b + int r) div 100 = int b" using assms(3) by simp
  also have "(100 * int b + int r) mod 100 + 1000 * int g = int (1000 * g + r)" using assms(3) by simp
  finally show ?thesis by (simp only: of_int_of_nat_eq)
qed

theorem map_slave_blocks_witness: "map_slave 0 (word_of_nat 1205) = (3, 1005)"
  using map_slave_blocks [of 1 2 5] by simp

text \<open>
  Writing coil 1004 of a board (with a valid value) only records that the board is to be
  updated: the board is not accessed, and the client gets its request back.
\<close>

theorem write_coil_1004_defers:
  assumes "length req = 260" and "map_slave (req ! 6) (join16 (req ! 8) (req ! 9)) = (int i + 1, 1004)"
    and "req ! 7 = 5" and "be16 (req ! 10) (req ! 11) = 0xFF00 \<or> be16 (req ! 10) (req ! 11) = 0"
    and "i < 3" and "length (nb_arm nb) = 3" and "nb_arm nb ! i = Some a"
  shows "nb_modbus_reply ops version nb req req_length w =
     Some (12, req[4 := 0, 5 := 6], nb\<lparr>deferred_op := DFR_OP_FIRMWARE, deferred_arm := Some i\<rparr>, w)"
proof -
  have "reply_case ops version (req ! 7) 1004 req a w = Some (True, 12, req, a, w)"
    using assms(1,3,4) by (auto simp: reply_case_def modbus_fc reply_write_coil_def req_value_260)
  moreover have "(nb_arm nb)[i := Some a] = nb_arm nb" using assms(7) by (metis list_update_id)
  ultimately show ?thesis using assms
    by (simp add: nb_modbus_reply_def Let_def no_fault MAX_ARMS_def set_mbap_eq)
qed

theorem write_coil_1004_defers_witness:
  "nb_modbus_reply (arm_board dead_bus) ''3.1.4'' one_board
      ([0, 1, 0, 0, 0, 6, 1, 5, 0x03, 0xEC, 0xFF, 0] @ replicate 248 0) 12 () =
   Some (12, [0, 1, 0, 0, 0, 6, 1, 5, 0x03, 0xEC, 0xFF, 0] @ replicate 248 0,
     one_board\<lparr>deferred_op := DFR_OP_FIRMWARE, deferred_arm := Some 0\<rparr>, ())"
proof -
  have m: "map_slave 1 (join16 0x03 0xEC) = (int 0 + 1, 1004)" by code_simp
  show ?thesis
    using write_coil_1004_defers [of "[0, 1, 0, 0, 0, 6, 1, 5, 0x03, 0xEC, 0xFF, 0] @ replicate 248 0" 0 one_board blank_arm
        "arm_board dead_bus" "''3.1.4''" 12 "()"] m
    by (simp add: one_board_def be16_def)
qed

end
