(* ===== verification/Loops.thy ===== *)
theory Loops
  imports Neuron_Prelude
begin

text \<open>
  Loops whose end depends on the outside world. The body of a loop, from one test of its
  condition to the next, is a function of the loop's variables: \<open>None\<close> is a fault, \<open>Inl\<close> the
  variables of the next iteration, \<open>Inr\<close> the result when the loop is left. \<open>loop\<close> runs a body;
  since \<open>None\<close> is also the value of a loop that never ends, \<open>endless\<close> tells the two apart.
\<close>

partial_function (option) loop :: "('s \<Rightarrow> ('s + 'r) option) \<Rightarrow> 's \<Rightarrow> 'r option" where
  "loop f s = do { x \<leftarrow> f s; case x of Inl s' \<Rightarrow> loop f s' | Inr r \<Rightarrow> Some r }"

text \<open>The variables after \<open>n\<close> iterations, if the loop is still running then.\<close>

fun after :: "nat \<Rightarrow> ('s \<Rightarrow> ('s + 'r) option) \<Rightarrow> 's \<Rightarrow> 's option" where
  "after 0 f s = Some s"
| "after (Suc n) f s = (case f s of Some (Inl s') \<Rightarrow> after n f s' | _ \<Rightarrow> None)"

definition endless :: "('s \<Rightarrow> ('s + 'r) option) \<Rightarrow> 's \<Rightarrow> bool" where
  "endless f s \<longleftrightarrow> (\<forall>n. after n f s \<noteq> None)"

lemma loop_Inr: "f s = Some (Inr r) \<Longrightarrow> loop f s = Some r"
  by (subst loop.simps) simp

lemma loop_Inl: "f s = Some (Inl s') \<Longrightarrow> loop f s = loop f s'"
  by (subst loop.simps) simp

lemma loop_fault: "f s = None \<Longrightarrow> loop f s = None"
  by (subst loop.simps) simp

lemma loop_after: "after n f s = Some s' \<Longrightarrow> loop f s = loop f s'"
  by (induction n f s rule: after.induct) (auto simp: loop_Inl split: option.splits sum.splits)

text \<open>Every loop that returns does so after some number of iterations.\<close>

lemma loop_SomeD:
  assumes "loop f s = Some r"
  shows "\<exists>n s'. after n f s = Some s' \<and> f s' = Some (Inr r)"
proof (rule loop.raw_induct [OF _ assms, where P = "\<lambda>f s r. \<exists>n s'. after n f s = Some s' \<and> f s' = Some (Inr r)"])
  fix L and f :: "'s \<Rightarrow> ('s + 'r) option" and s r
  assume L: "\<And>f s r. L f s = Some r \<Longrightarrow> \<exists>n s'. after n f s = Some s' \<and> f s' = Some (Inr r)"
    and "(f s \<bind> (\<lambda>x. case x of Inl s' \<Rightarrow> L f s' | Inr r \<Rightarrow> Some r)) = Some r"
  then obtain x where x: "f s = Some x" "(case x of Inl s' \<Rightarrow> L f s' | Inr r \<Rightarrow> Some r) = Some r"
    by (auto elim: bind_SomeE)
  show "\<exists>n s'. after n f s = Some s' \<and> f s' = Some (Inr r)"
  proof (cases x)
    case (Inl s1)
    with x L [of f s1 r] obtain n s' where "after n f s1 = Some s'" "f s' = Some (Inr r)" by auto
    then show ?thesis using Inl x(1) by (intro exI [of _ "Suc n"]) auto
  next
    case (Inr r1)
    then show ?thesis using x by (intro exI [of _ 0]) auto
  qed
qed

lemma after_add: "after (m + n) f s = Option.bind (after m f s) (after n f)"
proof (induction m arbitrary: s)
  case (Suc m)
  show ?case
  proof (cases "f s")
    case (Some x)
    then show ?thesis using Suc.IH by (cases x) simp_all
  qed simp
qed simp

lemma endless_loop:
  assumes "endless f s"
  shows "loop f s = None"
proof (rule ccontr)
  assume "loop f s \<noteq> None"
  then obtain r where r: "loop f s = Some r" by auto
  obtain n s' where "after n f s = Some s'" "f s' = Some (Inr r)" using loop_SomeD [OF r] by blast
  then have "after (n + Suc 0) f s = None" unfolding after_add by simp
  moreover have "after (n + Suc 0) f s \<noteq> None" using assms unfolding endless_def by (rule spec)
  ultimately show False by contradiction
qed

text \<open>A set of states in which the body always goes on.\<close>

lemma endlessI:
  assumes "P s" and step: "\<And>s. P s \<Longrightarrow> \<exists>s'. f s = Some (Inl s') \<and> P s'"
  shows "endless f s"
proof -
  have "P s \<Longrightarrow> after n f s \<noteq> None" for n s
  proof (induction n arbitrary: s)
    case (Suc n)
    from step [OF Suc.prems] obtain s' where "f s = Some (Inl s')" "P s'" by blast
    then show ?case using Suc.IH by auto
  qed simp
  then show ?thesis using assms(1) by (simp add: endless_def)
qed

text \<open>The rule for total correctness: an invariant and a measure.\<close>

lemma loop_total:
  fixes m :: "'s \<Rightarrow> nat"
  assumes "P s"
    and step: "\<And>s. P s \<Longrightarrow>
      (\<exists>s'. f s = Some (Inl s') \<and> P s' \<and> m s' < m s) \<or> (\<exists>r. f s = Some (Inr r) \<and> Q r)"
  shows "\<exists>r. loop f s = Some r \<and> Q r"
  using assms(1)
proof (induction "m s" arbitrary: s rule: less_induct)
  case less
  from step [OF less.prems] show ?case using less.hyps by (auto simp: loop_Inr loop_Inl)
qed

text \<open>Partial correctness: what every iteration keeps holds when the loop is left.\<close>

lemma loop_invariant:
  assumes "loop f s = Some r" and "P s"
    and "\<And>s s'. P s \<Longrightarrow> f s = Some (Inl s') \<Longrightarrow> P s'" and "\<And>s r. P s \<Longrightarrow> f s = Some (Inr r) \<Longrightarrow> Q r"
  shows "Q r"
proof -
  have "after n f s = Some s' \<Longrightarrow> P s \<Longrightarrow> P s'" for n s s'
    using assms(3) by (induction n f s rule: after.induct) (auto split: option.splits sum.splits)
  moreover obtain n s' where "after n f s = Some s'" "f s' = Some (Inr r)" using loop_SomeD [OF assms(1)] by blast
  ultimately show ?thesis using assms(2,4) by blast
qed

text \<open>What every body of a \<open>for_each\<close> loop keeps still holds when the loop has run to its end.\<close>

lemma for_each_invariant:
  assumes "for_each xs f v = Some v'" and "P v"
    and "\<And>x v v'. x \<in> set xs \<Longrightarrow> f x v = Some v' \<Longrightarrow> P v \<Longrightarrow> P v'"
  shows "P v'"
  using assms
proof (induction xs arbitrary: v)
  case (Cons x xs)
  then obtain v1 where "f x v = Some v1" "for_each xs f v1 = Some v'" by (auto elim!: bind_SomeE)
  then show ?case using Cons by (metis list.set_intros)
qed simp


text \<open>A body that does the same wherever another one does not fault.\<close>

lemma loop_mono:
  assumes "loop f s = Some r" and "\<And>s x. f s = Some x \<Longrightarrow> g s = Some x"
  shows "loop g s = Some r"
proof -
  obtain n s' where n: "after n f s = Some s'" "f s' = Some (Inr r)" using loop_SomeD [OF assms(1)] by blast
  have "after n g s = Some s'" using n(1)
  proof (induction n arbitrary: s)
    case (Suc n)
    then obtain s1 where "f s = Some (Inl s1)" "after n f s1 = Some s'" by (auto split: option.splits sum.splits)
    then show ?case using Suc.IH assms(2) by simp
  qed simp
  then show ?thesis using loop_after [of n g s s'] loop_Inr [of g s' r] assms(2) [OF n(2)] by simp
qed

end
