(* ===== verification/Buffer_Pool.thy ===== *)
theory Buffer_Pool
  imports Nb_Modbus_Replies Loops
begin

text \<open>
  The message buffers of \<open>neuron_tcp_server.c\<close>: \<open>mb_buffer_t\<close>, the stack \<open>b_stack\<close> of free
  buffers and its operations, on an explicit store, since buffers are linked and shared.
  A pointer to a buffer is its place in the store, and \<open>None\<close> is \<open>NULL\<close>. The locale
  \<open>block_pool\<close> states what the connections rely on.
\<close>

section \<open>Buffers\<close>

text \<open>The fields \<open>index\<close> and \<open>sendindex\<close> are 16 bits wide; what is stored there is truncated.\<close>

record mb_buffer =
  b_next :: "nat option"
  b_index :: nat
  b_sendindex :: nat
  b_id :: int
  b_data :: mem

record pool =
  bufs :: "mb_buffer list"
  b_stack :: "nat option"

definition MAX_MB_BUFFER_LEN :: nat where "MAX_MB_BUFFER_LEN = 260"
definition MB_BUFFER_COUNT :: nat where "MB_BUFFER_COUNT = 128"

definition buf :: "pool \<Rightarrow> nat \<Rightarrow> mb_buffer option" where
  "buf p i = (if i < length (bufs p) then Some (bufs p ! i) else None)"

definition upd_buf :: "nat \<Rightarrow> (mb_buffer \<Rightarrow> mb_buffer) \<Rightarrow> pool \<Rightarrow> pool option" where
  "upd_buf i f p =
     (if i < length (bufs p) then Some (p\<lparr>bufs := (bufs p)[i := f (bufs p ! i)]\<rparr>) else None)"

text \<open>One \<open>calloc\<close> of \<open>pool_allocate\<close>, on top of the stack.\<close>

definition push_new :: "pool \<Rightarrow> pool" where
  "push_new p =
     (let id = (case b_stack p of None \<Rightarrow> 1 | Some prev \<Rightarrow> b_id (bufs p ! prev) + 1) in
      p\<lparr>bufs := bufs p @ [\<lparr>b_next = b_stack p, b_index = 0, b_sendindex = 0, b_id = id,
          b_data = replicate MAX_MB_BUFFER_LEN 0\<rparr>], b_stack := Some (length (bufs p))\<rparr>)"

definition pool_allocate :: pool where
  "pool_allocate = (push_new ^^ MB_BUFFER_COUNT) (push_new \<lparr>bufs = [], b_stack = None\<rparr>)"

text \<open>The walk to the end of a list of buffers; in a cyclic list it does not end.\<close>

partial_function (option) last_buf :: "pool \<Rightarrow> nat \<Rightarrow> nat option" where
  "last_buf p i =
     do { b \<leftarrow> buf p i;
          case b_next b of None \<Rightarrow> Some i | Some j \<Rightarrow> last_buf p j }"

definition repool_buffer :: "nat \<Rightarrow> pool \<Rightarrow> pool option" where
  "repool_buffer i p =
     (let prev = b_stack p; p = p\<lparr>b_stack := Some i\<rparr> in
      do { l \<leftarrow> last_buf p i; upd_buf l (\<lambda>b. b\<lparr>b_next := prev\<rparr>) p })"

definition get_from_pool :: "pool \<Rightarrow> (nat option \<times> pool) option" where
  "get_from_pool p =
     (case b_stack p of
        None \<Rightarrow> Some (None, p)
      | Some i \<Rightarrow>
          do { b \<leftarrow> buf p i;
               let p = p\<lparr>b_stack := b_next b\<rparr>;
               p \<leftarrow> upd_buf i (\<lambda>b. b\<lparr>b_index := 0, b_sendindex := 0, b_next := None\<rparr>) p;
               Some (Some i, p) })"

section \<open>Ownership\<close>

text \<open>
  \<open>linked h i is\<close>: following \<open>next\<close> from \<open>i\<close> leads through exactly the buffers \<open>is\<close>. Every
  buffer is either in the stack or in the hands of a connection (the set \<open>held\<close>), where it
  is the only one of its list.
\<close>

fun linked :: "mb_buffer list \<Rightarrow> nat option \<Rightarrow> nat list \<Rightarrow> bool" where
  "linked h None is \<longleftrightarrow> is = []"
| "linked h (Some i) [] \<longleftrightarrow> False"
| "linked h (Some i) (j # is) \<longleftrightarrow> i = j \<and> i < length h \<and> linked h (b_next (h ! i)) is"

definition owned :: "pool \<Rightarrow> nat list \<Rightarrow> nat set \<Rightarrow> bool" where
  "owned p free held \<longleftrightarrow>
     linked (bufs p) (b_stack p) free \<and> distinct free \<and> set free \<inter> held = {} \<and>
     set free \<union> held = {..<length (bufs p)} \<and> (\<forall>i \<in> held. b_next (bufs p ! i) = None) \<and>
     (\<forall>b \<in> set (bufs p). length (b_data b) = MAX_MB_BUFFER_LEN)"

locale block_pool =
  fixes get :: "'p \<Rightarrow> (nat option \<times> 'p) option" and put :: "nat \<Rightarrow> 'p \<Rightarrow> 'p option"
    and own :: "'p \<Rightarrow> nat list \<Rightarrow> nat set \<Rightarrow> bool" and val :: "'p \<Rightarrow> nat \<Rightarrow> 'b"
  assumes own_disjoint: "own p free held \<Longrightarrow> set free \<inter> held = {}"
    and get_empty: "own p [] held \<Longrightarrow> get p = Some (None, p)"
    and get_free: "own p (i # free) held \<Longrightarrow>
       \<exists>p'. get p = Some (Some i, p') \<and> own p' free (insert i held) \<and> (\<forall>j \<in> held. val p' j = val p j)"
    and put_held: "own p free held \<Longrightarrow> i \<in> held \<Longrightarrow>
       \<exists>p'. put i p = Some p' \<and> own p' (i # free) (held - {i}) \<and> (\<forall>j \<in> held - {i}. val p' j = val p j)"
begin

text \<open>What is taken and given back is again the first to be taken, and nothing else changed.\<close>

lemma put_get:
  assumes "own p free held" and "i \<in> held"
  shows "\<exists>p1 p2. put i p = Some p1 \<and> get p1 = Some (Some i, p2) \<and> own p2 free held \<and>
    (\<forall>j \<in> held - {i}. val p2 j = val p j)"
proof -
  obtain p1 where 1: "put i p = Some p1" "own p1 (i # free) (held - {i})" "\<forall>j \<in> held - {i}. val p1 j = val p j"
    using put_held [OF assms] by blast
  obtain p2 where "get p1 = Some (Some i, p2)" "own p2 free (insert i (held - {i}))"
    "\<forall>j \<in> held - {i}. val p2 j = val p1 j" using get_free [OF 1(2)] by blast
  then show ?thesis using 1 insert_Diff [OF assms(2)] by auto
qed

end

lemma linked_update [simp]: "i \<notin> set is \<Longrightarrow> linked (h[i := b]) s is = linked h s is"
  by (induction h s "is" rule: linked.induct) auto

lemma ownedD:
  assumes "owned p free held"
  shows "i \<in> held \<Longrightarrow> i < length (bufs p)" and "i \<in> held \<Longrightarrow> b_next (bufs p ! i) = None"
    and "i < length (bufs p) \<Longrightarrow> length (b_data (bufs p ! i)) = MAX_MB_BUFFER_LEN"
    and "i \<in> held \<Longrightarrow> i \<notin> set free" and "i \<in> set free \<Longrightarrow> i < length (bufs p)"
  using assms by (auto simp: owned_def)

text \<open>A held buffer may be changed in every field but \<open>next\<close>.\<close>

lemma upd_buf_held:
  assumes "owned p free held" and "i \<in> held" and "b_next (f (bufs p ! i)) = None"
    and "length (b_data (f (bufs p ! i))) = MAX_MB_BUFFER_LEN"
  shows "\<exists>p'. upd_buf i f p = Some p' \<and> owned p' free held \<and> bufs p' ! i = f (bufs p ! i) \<and>
    (\<forall>j. j \<noteq> i \<longrightarrow> bufs p' ! j = bufs p ! j)"
proof -
  have i: "i < length (bufs p)" "i \<notin> set free" using ownedD [OF assms(1)] assms(2) by blast+
  have "owned (p\<lparr>bufs := (bufs p)[i := f (bufs p ! i)]\<rparr>) free held"
    using assms i by (auto simp: owned_def nth_list_update dest!: set_update_subset_insert [THEN subsetD])
  then show ?thesis using i by (simp add: upd_buf_def)
qed

lemma get_from_pool_free:
  assumes "owned p (i # free) held"
  shows "\<exists>p'. get_from_pool p = Some (Some i, p') \<and> owned p' free (insert i held) \<and>
    (\<forall>j \<in> held. bufs p' ! j = bufs p ! j) \<and> b_index (bufs p' ! i) = 0 \<and> b_sendindex (bufs p' ! i) = 0"
proof -
  have i: "b_stack p = Some i" "i < length (bufs p)" "i \<notin> held" "i \<notin> set free" "linked (bufs p) (b_next (bufs p ! i)) free"
    using assms by (auto simp: owned_def elim: linked.elims)
  let ?p = "p\<lparr>b_stack := b_next (bufs p ! i),
     bufs := (bufs p)[i := (bufs p ! i)\<lparr>b_index := 0, b_sendindex := 0, b_next := None\<rparr>]\<rparr>"
  have "get_from_pool p = Some (Some i, ?p)" using i by (simp add: get_from_pool_def buf_def upd_buf_def)
  moreover have "owned ?p free (insert i held)"
    using assms i by (auto simp: owned_def nth_list_update dest!: set_update_subset_insert [THEN subsetD])
  moreover have "\<forall>j \<in> held. bufs ?p ! j = bufs p ! j"
  proof
    fix j assume "j \<in> held"
    then have "i \<noteq> j" using i(3) by blast
    then show "bufs ?p ! j = bufs p ! j" by simp
  qed
  ultimately show ?thesis using i(2) by auto
qed

lemma get_from_pool_empty: "owned p [] held \<Longrightarrow> get_from_pool p = Some (None, p)"
  by (cases "b_stack p") (auto simp: owned_def get_from_pool_def)

lemma repool_buffer_held:
  assumes "owned p free held" and "i \<in> held"
  shows "\<exists>p'. repool_buffer i p = Some p' \<and> owned p' (i # free) (held - {i}) \<and>
    (\<forall>j \<in> held - {i}. bufs p' ! j = bufs p ! j)"
proof -
  have i: "i < length (bufs p)" "b_next (bufs p ! i) = None" "i \<notin> set free" using ownedD [OF assms(1)] assms(2) by blast+
  let ?p = "p\<lparr>b_stack := Some i, bufs := (bufs p)[i := (bufs p ! i)\<lparr>b_next := b_stack p\<rparr>]\<rparr>"
  have "last_buf (p\<lparr>b_stack := Some i\<rparr>) i = Some i"
    using i by (subst last_buf.simps) (simp add: buf_def)
  then have "repool_buffer i p = Some ?p" using i by (simp add: repool_buffer_def Let_def upd_buf_def)
  moreover have "owned ?p (i # free) (held - {i})"
    using assms i by (auto simp: owned_def nth_list_update dest!: set_update_subset_insert [THEN subsetD])
  ultimately show ?thesis by auto
qed

interpretation server_pool: block_pool get_from_pool repool_buffer owned "\<lambda>p i. bufs p ! i"
proof unfold_locales
  show "\<exists>p'. get_from_pool p = Some (Some i, p') \<and> owned p' free (insert i held) \<and>
      (\<forall>j \<in> held. bufs p' ! j = bufs p ! j)" if "owned p (i # free) held" for p i free held
    using get_from_pool_free [OF that] by blast
qed (use repool_buffer_held in \<open>auto simp: owned_def intro: get_from_pool_empty [unfolded owned_def]\<close>)

section \<open>The pool at the start\<close>

lemma push_new_owned:
  assumes "owned p free {}"
  shows "owned (push_new p) (length (bufs p) # free) {}" and "length (bufs (push_new p)) = Suc (length (bufs p))"
proof -
  have l: "linked (h @ [b]) s is" if "linked h s is" for h b s "is"
    using that by (induction h s "is" rule: linked.induct) (auto simp: nth_append)
  show "owned (push_new p) (length (bufs p) # free) {}"
    using assms l [of "bufs p" "b_stack p" free] by (auto simp: owned_def push_new_def Let_def)
  show "length (bufs (push_new p)) = Suc (length (bufs p))" by (simp add: push_new_def Let_def)
qed

lemma pool_allocate_owned: "owned pool_allocate (rev [0..<129]) {}" "length (bufs pool_allocate) = 129"
proof -
  have "owned ((push_new ^^ n) (push_new \<lparr>bufs = [], b_stack = None\<rparr>)) (rev [0..<Suc n]) {} \<and>
      length (bufs ((push_new ^^ n) (push_new \<lparr>bufs = [], b_stack = None\<rparr>))) = Suc n" for n
  proof (induction n)
    case 0
    have "owned \<lparr>bufs = [], b_stack = None\<rparr> [] {}" by (simp add: owned_def)
    from push_new_owned [OF this] show ?case by simp
  next
    case (Suc n)
    let ?p = "(push_new ^^ n) (push_new \<lparr>bufs = [], b_stack = None\<rparr>)"
    have "owned ?p (rev [0..<Suc n]) {}" "length (bufs ?p) = Suc n" using Suc by auto
    from push_new_owned [OF this(1)] this(2) show ?case by simp
  qed
  from this [of 128] show "owned pool_allocate (rev [0..<129]) {}" "length (bufs pool_allocate) = 129"
    unfolding pool_allocate_def MB_BUFFER_COUNT_def by simp_all
qed

end
