(* ===== verification/Arm_Pty.thy ===== *)
theory Arm_Pty
  imports Nb_Modbus_Replies Loops
begin

text \<open>
  \<open>armpty.c\<close>: the bridge between the UART of a board and a pseudo terminal. Characters that
  arrive from the UART are written to the master side of the terminal; what a program writes
  to the slave side is sent to the UART, and so are its changes of the line speed.
\<close>

section \<open>System calls\<close>

text \<open>The flag words of \<open>struct termios\<close>, and the flags that the code touches.\<close>

record pty_termios =
  c_iflag :: u32
  c_oflag :: u32
  c_cflag :: u32
  c_lflag :: u32

text \<open>
  \<open>pty_openpty\<close> returns its result, the master's descriptor and the name of the slave.
  \<open>pty_mkdir\<close> also returns \<open>errno\<close>; \<open>pty_getattr\<close> and \<open>pty_setattr\<close> are \<open>tcgetattr\<close> and
  \<open>tcsetattr\<close>, \<open>pty_tiocpkt\<close> the \<open>ioctl\<close> that sets packet mode.
\<close>

record 'w pty_calls =
  pty_openpty :: "'w \<Rightarrow> int \<times> int \<times> string \<times> 'w"
  pty_mkdir :: "string \<Rightarrow> 'w \<Rightarrow> int \<times> int \<times> 'w"
  pty_system :: "string \<Rightarrow> 'w \<Rightarrow> 'w"
  pty_unlink :: "string \<Rightarrow> 'w \<Rightarrow> 'w"
  pty_symlink :: "string \<Rightarrow> string \<Rightarrow> 'w \<Rightarrow> int \<times> 'w"
  pty_tiocpkt :: "int \<Rightarrow> int \<Rightarrow> 'w \<Rightarrow> int \<times> 'w"
  pty_getattr :: "int \<Rightarrow> 'w \<Rightarrow> int \<times> pty_termios \<times> 'w"
  pty_setattr :: "int \<Rightarrow> pty_termios \<Rightarrow> 'w \<Rightarrow> int \<times> 'w"
  pty_getfl :: "int \<Rightarrow> 'w \<Rightarrow> int \<times> 'w"
  pty_setfl :: "int \<Rightarrow> int \<Rightarrow> 'w \<Rightarrow> int \<times> 'w"

definition EEXIST :: int where "EEXIST = 17"
definition O_NONBLOCK :: int where "O_NONBLOCK = 2048"
definition IEXTPROC :: u32 where "IEXTPROC = 0x10000"
definition CBAUD :: u32 where "CBAUD = 0x100F"

text \<open>\<open>cfmakeraw\<close> of the C library.\<close>

definition cfmakeraw :: "pty_termios \<Rightarrow> pty_termios" where
  "cfmakeraw tc =
     tc\<lparr>c_iflag := c_iflag tc AND NOT 0x5EB, c_oflag := c_oflag tc AND NOT 1,
        c_lflag := c_lflag tc AND NOT 0x804B, c_cflag := (c_cflag tc AND NOT 0x130) OR 0x30\<rparr>"

section \<open>Opening a terminal\<close>

definition set_master :: "u8 \<Rightarrow> int \<Rightarrow> arm_handle \<Rightarrow> arm_handle option" where
  "set_master uart m a =
     (if unat uart < length (uart_q a) then
        Some (a\<lparr>uart_q := (uart_q a)[unat uart := (uart_q a ! unat uart)\<lparr>q_masterpty := m\<rparr>]\<rparr>)
      else None)"

text \<open>\<open>(mkdir(path, 0750) < 0) && (errno != EEXIST)\<close>\<close>

definition mkdir_failed :: "'w pty_calls \<Rightarrow> string \<Rightarrow> 'w \<Rightarrow> bool \<times> 'w" where
  "mkdir_failed pt path w = (let (rc, err, w) = pty_mkdir pt path w in (rc < 0 \<and> err \<noteq> EEXIST, w))"

text \<open>
  The directories and links under \<open>/dev/extcomm\<close>; \<open>counter\<close> is the static
  \<open>extcomm_counter\<close>. The paths are printed into an array of 265 characters. The first part
  of the result tells whether all went well.
\<close>

definition extcomm_links ::
  "'w pty_calls \<Rightarrow> u8 \<Rightarrow> u8 \<Rightarrow> string \<Rightarrow> nat \<Rightarrow> 'w \<Rightarrow> (bool \<times> nat \<times> 'w) option" where
  "extcomm_links pt circuit uart slavename counter w =
     (case mkdir_failed pt ''/dev/extcomm'' w of (failed, w) \<Rightarrow>
      if failed then Some (False, counter, w)
      else do {
        (failed, w) \<leftarrow>
          (if counter = 0 then
             do { let w = pty_system pt ''rm -rf /dev/extcomm/0'' w;
                  path \<leftarrow> str_into 265 (''/dev/extcomm'' @ ''/0'');
                  Some (mkdir_failed pt path w) }
           else Some (False, w));
        if failed then Some (False, counter, w)
        else do {
          path \<leftarrow> str_into 265 (''/dev/extcomm'' @ ''/0/'' @ dec_nat counter);
          let (n, w) = pty_symlink pt slavename path w;
          if n < 0 then Some (False, counter, w)
          else do {
            let counter = counter + 1;
            path \<leftarrow> str_into 265 (''/dev/extcomm'' @ ''/'' @ dec_nat (unat circuit + 1));
            let (failed, w) = mkdir_failed pt path w;
            if failed then Some (False, counter, w)
            else do {
              path \<leftarrow> str_into 265
                (''/dev/extcomm'' @ ''/'' @ dec_nat (unat circuit + 1) @ ''/'' @ dec_nat (unat uart));
              let w = pty_unlink pt path w;
              let (n, w) = pty_symlink pt slavename path w;
              Some (0 \<le> n, counter, w) } } } })"

text \<open>Packet mode, raw mode and non-blocking access of the master; the result tells whether all went well.\<close>

definition setup_master :: "'w pty_calls \<Rightarrow> int \<Rightarrow> 'w \<Rightarrow> bool \<times> 'w" where
  "setup_master pt masterfd w =
     (case pty_tiocpkt pt masterfd 1 w of (n, w) \<Rightarrow> if n < 0 then (False, w) else
      case pty_getattr pt masterfd w of (n, tc, w) \<Rightarrow> if n < 0 then (False, w) else
      let tc = cfmakeraw tc; tc = tc\<lparr>c_lflag := c_lflag tc OR IEXTPROC\<rparr> in
      case pty_setattr pt masterfd tc w of (n, w) \<Rightarrow> if n < 0 then (False, w) else
      case pty_getfl pt masterfd w of (flags, w) \<Rightarrow> if flags = -1 then (False, w) else
      case pty_setfl pt masterfd (flags OR O_NONBLOCK) w of (n, w) \<Rightarrow> (n \<noteq> -1, w))"

definition armpty_open ::
  "'w os \<Rightarrow> 'w pty_calls \<Rightarrow> u8 \<Rightarrow> nat \<Rightarrow> arm_handle \<Rightarrow> 'w \<Rightarrow> (int \<times> nat \<times> arm_handle \<times> 'w) option" where
  "armpty_open os pt uart counter a w =
     do { let circuit = (word_of_int (arm_index a) :: u8);
          a \<leftarrow> set_master uart (-1) a;
          let (n, masterfd, slavename, w) = pty_openpty pt w;
          if n < 0 then Some (n, counter, a, w)
          else do {
            (ok, counter, w) \<leftarrow> extcomm_links pt circuit uart slavename counter w;
            if \<not> ok then Some (-1, counter, a, os_close os masterfd w)
            else do {
              let (ok, w) = setup_master pt masterfd w;
              if \<not> ok then Some (-1, counter, a, os_close os masterfd w)
              else do {
                a \<leftarrow> set_master uart masterfd a;
                if sw_version (bv a) \<noteq> 0 \<and> 0 < int_mask_register (bv a) then
                  do { (_, a, w) \<leftarrow> write_regs os (int_mask_register (bv a)) 1 [5, 0] 0 a w;
                       Some (masterfd, counter, a, w) }
                else Some (masterfd, counter, a, w) } } } }"

section \<open>From the terminal to the board\<close>

text \<open>
  Both functions run off their end without a \<open>return\<close>; their value is never used. \<open>conf\<close> is
  an array of two registers.
\<close>

definition armpty_setuart ::
  "'w os \<Rightarrow> 'w pty_calls \<Rightarrow> int \<Rightarrow> u8 \<Rightarrow> arm_handle \<Rightarrow> 'w \<Rightarrow> (arm_handle \<times> 'w) option" where
  "armpty_setuart os pt masterfd uart a w =
     (case pty_getattr pt masterfd w of (n, tc, w) \<Rightarrow>
      if n < 0 then Some (a, w)
      else do {
        let conf0 = (ucast (c_cflag tc AND CBAUD) :: u16);
        (a, w) \<leftarrow>
          (if conf0 \<noteq> 0 then
             do { (_, a, w) \<leftarrow> write_regs os (100 + 2 * ucast uart) 1 [lo8 conf0, hi8 conf0, 0, 0] 0 a w;
                  Some (a, w) }
           else Some (a, w));
        let (rd, bytes, err, w) = os_read os masterfd 16 w;
        Some (a, w) })"

definition armpty_readpty ::
  "'w os \<Rightarrow> int \<Rightarrow> u8 \<Rightarrow> mem \<Rightarrow> arm_handle \<Rightarrow> 'w \<Rightarrow> (arm_handle \<times> 'w) option" where
  "armpty_readpty os masterfd uart buffer a w =
     (case os_read os masterfd 257 w of (rd, bytes, err, w) \<Rightarrow>
      do { buffer \<leftarrow> wr_block buffer 0 bytes;
           if 2 < rd then do { (_, a, w) \<leftarrow> write_string os uart buffer 1 (rd - 1) a w; Some (a, w) }
           else if 1 < rd then
             do { c \<leftarrow> rd8 buffer 1; (_, a, w) \<leftarrow> write_char os uart c a w; Some (a, w) }
           else Some (a, w) })"

section \<open>From the board to the terminal\<close>

definition first_q :: "arm_handle \<Rightarrow> uart_queue option" where
  "first_q a = (if uart_q a = [] then None else Some (uart_q a ! 0))"

text \<open>\<open>write(arm->uart_q[uart].masterpty, buffer, nr)\<close>; the number written is only reported.\<close>

definition write_pty :: "'w os \<Rightarrow> mem \<Rightarrow> int \<Rightarrow> arm_handle \<Rightarrow> 'w \<Rightarrow> 'w option" where
  "write_pty os buffer nr a w =
     do { q \<leftarrow> first_q a; bytes \<leftarrow> rd_blk buffer 0 nr; Some (snd (os_write os (q_masterpty q) bytes w)) }"

definition write_if_open :: "'w os \<Rightarrow> mem \<Rightarrow> int \<Rightarrow> arm_handle \<Rightarrow> 'w \<Rightarrow> 'w option" where
  "write_if_open os buffer nr a w =
     do { q \<leftarrow> first_q a; if q_masterpty q \<noteq> -1 then write_pty os buffer nr a w else Some w }"

text \<open>
  The loop's variables: the buffer, the room left in it and the characters in it, and the
  attempts left.
\<close>

record uart_copy =
  cp_buffer :: mem
  cp_wanted :: int
  cp_nr :: int
  cp_tries :: int

type_synonym 'w copying = "uart_copy \<times> arm_handle \<times> 'w"

definition readuart_step :: "'w os \<Rightarrow> 'w copying \<Rightarrow> ('w copying + 'w copying) option" where
  "readuart_step os v =
     (case v of (c, a, w) \<Rightarrow>
      do { q \<leftarrow> first_q a;
           let n = q_remain q;
           if n \<le> 0 then Some (Inr (c, a, w))
           else do {
             let n = (if cp_wanted c < n then cp_wanted c else n);
             (n, buffer, a, w) \<leftarrow> read_string os 0 (cp_buffer c) (cp_nr c) n a w;
             let c = c\<lparr>cp_buffer := buffer\<rparr>;
             if n < 0 then
               let c = c\<lparr>cp_tries := cp_tries c - 1\<rparr> in
               Some (if cp_tries c \<noteq> 0 then Inl (c, a, w) else Inr (c, a, w))
             else do {
               let c = c\<lparr>cp_tries := 3, cp_wanted := cp_wanted c - n, cp_nr := cp_nr c + n\<rparr>;
               if cp_wanted c = 0 then
                 do { w \<leftarrow> write_if_open os (cp_buffer c) (cp_nr c) a w;
                      Some (Inl (c\<lparr>cp_nr := 0, cp_wanted := int (length (cp_buffer c))\<rparr>, a, w)) }
               else Some (Inl (c, a, w)) } } })"

definition copy_start :: "mem \<Rightarrow> uart_copy" where
  "copy_start buffer = \<lparr>cp_buffer = buffer, cp_wanted = int (length buffer), cp_nr = 0, cp_tries = 3\<rparr>"

text \<open>After the loop: what is in the buffer is written together with the local queue.\<close>

definition readuart_rest :: "'w os \<Rightarrow> uart_copy \<Rightarrow> arm_handle \<Rightarrow> 'w \<Rightarrow> (arm_handle \<times> 'w) option" where
  "readuart_rest os c a w =
     do { (n, buffer, a) \<leftarrow> read_qstring 0 (cp_buffer c) (cp_nr c) (cp_wanted c) a;
          let nr = cp_nr c + n;
          w \<leftarrow> (if 0 < nr then write_if_open os buffer nr a w else Some w);
          let nr = (if 0 < nr then 0 else nr);
          if n = cp_wanted c then
            do { (n, buffer, a) \<leftarrow> read_qstring 0 buffer 0 (int (length buffer)) a;
                 if 0 < n then do { w \<leftarrow> write_pty os buffer nr a w; Some (a, w) } else Some (a, w) }
          else Some (a, w) }"

definition armpty_readuart ::
  "'w os \<Rightarrow> mem \<Rightarrow> bool \<Rightarrow> arm_handle \<Rightarrow> 'w \<Rightarrow> (arm_handle \<times> 'w) option" where
  "armpty_readuart os buffer do_idle a w =
     do { (a, w) \<leftarrow> (if do_idle then do { (_, a, w) \<leftarrow> idle_op os a w; Some (a, w) } else Some (a, w));
          (c, a, w) \<leftarrow> loop (readuart_step os) (copy_start buffer, a, w);
          readuart_rest os c a w }"

section \<open>The copying loop\<close>

definition copy_inv :: "uart_copy \<Rightarrow> bool" where
  "copy_inv c \<longleftrightarrow> length (cp_buffer c) = 256 \<and> 0 \<le> cp_nr c \<and> 0 < cp_wanted c \<and> cp_nr c + cp_wanted c = 256"

lemma first_q_wf: "wf_arm a \<Longrightarrow> first_q a = Some (uart_q a ! 0)"
  by (auto simp: first_q_def dest!: wf_armD(6))

lemma write_if_open_total:
  assumes "wf_arm a" and "0 \<le> nr" and "nat nr \<le> length buffer"
  shows "\<exists>w'. write_if_open os buffer nr a w = Some w'"
  using assms by (simp add: write_if_open_def write_pty_def first_q_wf no_fault)

definition copying_ok :: "'w copying \<Rightarrow> bool" where
  "copying_ok v \<longleftrightarrow> copy_inv (fst v) \<and> wf_arm (fst (snd v))"

lemma readuart_step_total:
  assumes "full_duplex os" and "copying_ok v"
  shows "\<exists>v'. (readuart_step os v = Some (Inl v') \<or> readuart_step os v = Some (Inr v')) \<and> copying_ok v'"
proof -
  obtain c a w where v: "v = (c, a, w)" by (cases v) auto
  have c: "wf_arm a" "copy_inv c" using assms(2) by (simp_all add: copying_ok_def v)
  let ?q = "uart_q a ! 0"
  show ?thesis
  proof (cases "q_remain ?q \<le> 0")
    case True
    then show ?thesis using assms(2) c by (simp add: readuart_step_def first_q_wf v)
  next
    case False
    define n where "n = nat (if cp_wanted c < q_remain ?q then cp_wanted c else q_remain ?q)"
    have n: "(if cp_wanted c < q_remain ?q then cp_wanted c else q_remain ?q) = int n" "0 < n" "int n \<le> cp_wanted c"
      using False c(2) by (auto simp: n_def copy_inv_def)
    obtain m cs a' w' where r: "wf_arm a'"
      "read_string os 0 (cp_buffer c) (cp_nr c) (int n) a w = Some (m, overlay (cp_buffer c) (nat (cp_nr c)) cs, a', w')"
      "m < 0 \<and> cs = [] \<or> m = int (length cs) \<and> length cs \<le> n"
      using read_string_spec [OF c(1) assms(1), of "cp_nr c" n "cp_buffer c" w] n c(2)
      unfolding copy_inv_def by fastforce
    let ?b = "overlay (cp_buffer c) (nat (cp_nr c)) cs"
    have b: "length ?b = 256" using r(3) n(3) c(2) by (auto simp: copy_inv_def)
    show ?thesis
    proof (cases "m < 0")
      case True
      then show ?thesis using False r(1,2) b c
        by (simp add: readuart_step_def first_q_wf n(1) copy_inv_def copying_ok_def v Let_def)
    next
      case ok: False
      have nr: "0 \<le> cp_nr c + m" "nat (cp_nr c + m) \<le> length ?b"
        using ok r(3) n(3) c(2) b by (auto simp: copy_inv_def)
      obtain w2 where "write_if_open os ?b (cp_nr c + m) a' w' = Some w2"
        using write_if_open_total [OF r(1) nr, where os = os and w = w'] by blast
      then show ?thesis using False ok r b n c
        by (auto simp: readuart_step_def first_q_wf copy_inv_def copying_ok_def v Let_def)
    qed
  qed
qed

lemma read_qstring_spec:
  assumes "wf_arm a" and "0 \<le> off" and "nat off + n \<le> length str"
  shows "\<exists>q. read_qstring 0 str off (int n) a =
      Some (int (length (take n (local_chars a))), overlay str (nat off) (take n (local_chars a)), with_queue a q) \<and>
    wf_arm (with_queue a q) \<and> local_chars (with_queue a q) = drop n (local_chars a) \<and> q_masterpty q = q_masterpty (uart_q a ! 0)"
proof -
  have l: "length (uart_q a) = 4" "uart_q a \<noteq> []" using wf_armD(6) [OF assms(1)] by auto
  obtain q where q: "take_queue (int n) str off (uart_q a ! 0) =
      Some (int (length (take n (local_chars a))), overlay str (nat off) (take n (local_chars a)), q)"
    "wf_queue q" "q_masterpty q = q_masterpty (uart_q a ! 0)" "content q = drop n (local_chars a)"
    using take_queue_spec [OF wf_armD(7) [OF assms(1)] assms(2,3)] unfolding local_chars_def by blast
  then show ?thesis using l wf_with_queue [OF assms(1) q(2)] local_chars_with_queue [OF l(2), of q]
    by (intro exI [of _ q]) (simp add: read_qstring_def with_queue_def)
qed

text \<open>
  The end of \<open>armpty_readuart\<close>: the last of the three writes has a length of zero, so the
  characters that the second \<open>read_qstring\<close> takes from the queue are not written.
\<close>

lemma readuart_rest_spec:
  assumes "wf_arm a" and "copy_inv c"
  defines "k \<equiv> nat (cp_wanted c)"
  shows "\<exists>a' w'. readuart_rest os c a w = Some (a', w') \<and> wf_arm a' \<and>
    local_chars a' = (if length (local_chars a) < k then drop k (local_chars a) else drop 256 (drop k (local_chars a))) \<and>
    (q_masterpty (uart_q a ! 0) \<noteq> -1 \<longrightarrow> k < length (local_chars a) \<longrightarrow>
       w' = snd (os_write os (q_masterpty (uart_q a ! 0)) []
         (snd (os_write os (q_masterpty (uart_q a ! 0)) (take (nat (cp_nr c)) (cp_buffer c) @ take k (local_chars a)) w))))"
proof -
  have k: "cp_wanted c = int k" "0 < k" "0 \<le> cp_nr c" "nat (cp_nr c) + k = 256" "length (cp_buffer c) = 256"
    using assms(2) by (auto simp: copy_inv_def k_def)
  obtain q where q: "read_qstring 0 (cp_buffer c) (cp_nr c) (cp_wanted c) a =
      Some (int (length (take k (local_chars a))), overlay (cp_buffer c) (nat (cp_nr c)) (take k (local_chars a)), with_queue a q)"
    "wf_arm (with_queue a q)" "local_chars (with_queue a q) = drop k (local_chars a)" "q_masterpty q = q_masterpty (uart_q a ! 0)"
    using read_qstring_spec [OF assms(1) k(3), of k "cp_buffer c"] k by auto
  let ?b = "overlay (cp_buffer c) (nat (cp_nr c)) (take k (local_chars a))" and ?a = "with_queue a q"
  let ?nr = "cp_nr c + int (length (take k (local_chars a)))"
  have b: "length ?b = 256" using k by simp
  have m: "uart_q ?a ! 0 = q" "uart_q ?a \<noteq> []" using wf_armD(6) [OF assms(1)] by (auto simp: with_queue_def)
  obtain q2 where q2: "read_qstring 0 ?b 0 (int 256) ?a = Some (int (length (take 256 (drop k (local_chars a)))),
      overlay ?b 0 (take 256 (drop k (local_chars a))), with_queue ?a q2)" "wf_arm (with_queue ?a q2)"
    "local_chars (with_queue ?a q2) = drop 256 (drop k (local_chars a))" "q_masterpty q2 = q_masterpty q"
    using read_qstring_spec [OF q(2), of 0 256 ?b] b q(3) m by auto
  have m2: "uart_q (with_queue ?a q2) ! 0 = q2" "uart_q (with_queue ?a q2) \<noteq> []"
    using m by (auto simp: with_queue_def)
  have nr: "0 \<le> ?nr" "nat ?nr \<le> length ?b" using k b by auto
  obtain w1 where w1: "write_if_open os ?b ?nr ?a w = Some w1" using write_if_open_total [OF q(2) nr, where os = os and w = w] by blast
  show ?thesis
  proof (cases "length (local_chars a) < k")
    case True
    then have "int (length (take k (local_chars a))) \<noteq> cp_wanted c" using k(1) by simp
    then show ?thesis using q w1 True by (auto simp: readuart_rest_def Let_def)
  next
    case False
    then have t: "length (take k (local_chars a)) = k" by simp
    then have "0 < ?nr" using k by simp
    have b2: "length (overlay ?b 0 (take 256 (drop k (local_chars a)))) = 256" using b by simp
    have "readuart_rest os c a w =
        (if 0 < int (length (take 256 (drop k (local_chars a))))
         then do { w \<leftarrow> write_pty os (overlay ?b 0 (take 256 (drop k (local_chars a)))) 0 (with_queue ?a q2) w1;
                   Some (with_queue ?a q2, w) }
         else Some (with_queue ?a q2, w1))"
      using q(1) q2(1) w1 \<open>0 < ?nr\<close> t k(1) b by (simp add: readuart_rest_def Let_def)
    also have "\<dots> = Some (with_queue ?a q2, if k < length (local_chars a) then snd (os_write os (q_masterpty q) [] w1) else w1)"
      using m2 q2(4) by (simp add: write_pty_def first_q_def rd_blk_def rd_block_def)
    finally have r: "readuart_rest os c a w =
        Some (with_queue ?a q2, if k < length (local_chars a) then snd (os_write os (q_masterpty q) [] w1) else w1)" .
    have "w1 = snd (os_write os (q_masterpty q) (take (nat (cp_nr c)) (cp_buffer c) @ take k (local_chars a)) w)"
      if "q_masterpty q \<noteq> -1"
    proof -
      have "nat ?nr = nat (cp_nr c) + length (take k (local_chars a))" using k by simp
      then have "take (nat ?nr) ?b = take (nat (cp_nr c)) (cp_buffer c) @ take k (local_chars a)"
        using take_overlay [of "nat (cp_nr c)" "take k (local_chars a)" "cp_buffer c"] k by simp
      then show ?thesis using w1 m that nr
        by (simp add: write_if_open_def write_pty_def first_q_def no_fault)
    qed
    then show ?thesis using r q2(2,3) q(4) False by auto
  qed
qed

section \<open>Properties\<close>

lemma copying_ok_start: "wf_arm a \<Longrightarrow> length buffer = 256 \<Longrightarrow> copying_ok (copy_start buffer, a, w)"
  by (simp add: copying_ok_def copy_start_def copy_inv_def)

lemma copying_ok_after:
  assumes "full_duplex os"
  shows "after n (readuart_step os) v = Some v' \<Longrightarrow> copying_ok v \<Longrightarrow> copying_ok v'"
proof (induction n arbitrary: v)
  case (Suc n)
  then obtain v1 where "readuart_step os v = Some (Inl v1)" "after n (readuart_step os) v1 = Some v'"
    by (auto split: option.splits sum.splits)
  with Suc readuart_step_total [OF assms, of v] show ?case by auto
qed simp

text \<open>
  C36. However long the board goes on reporting characters and whatever it sends, every
  iteration of the copying loop of \<open>armpty_readuart\<close> stays inside the 256 bytes of its buffer
  and keeps the board's handle well formed, and so does what follows the loop.
\<close>

theorem armpty_readuart_safe:
  assumes "wf_arm a" and "full_duplex os" and "length buffer = 256"
    and "after n (readuart_step os) (copy_start buffer, a, w) = Some v"
  shows "\<exists>c a2 w2. (readuart_step os v = Some (Inl (c, a2, w2)) \<or> readuart_step os v = Some (Inr (c, a2, w2))) \<and> wf_arm a2 \<and>
    (\<exists>a3 w3. readuart_rest os c a2 w2 = Some (a3, w3) \<and> wf_arm a3)"
proof -
  have "copying_ok v" using copying_ok_after [OF assms(2,4)] copying_ok_start [OF assms(1,3), where w = w] by blast
  from readuart_step_total [OF assms(2) this] obtain c a2 w2 where
    "readuart_step os v = Some (Inl (c, a2, w2)) \<or> readuart_step os v = Some (Inr (c, a2, w2))" "wf_arm a2" "copy_inv c"
    by (auto simp: copying_ok_def)
  then show ?thesis using readuart_rest_spec [of a2 c os w2] by blast
qed

theorem armpty_readuart_safe_witness:
  "\<exists>c a2 w2. (readuart_step dead_bus (copy_start (replicate 256 0), blank_arm, ()) = Some (Inl (c, a2, w2)) \<or>
      readuart_step dead_bus (copy_start (replicate 256 0), blank_arm, ()) = Some (Inr (c, a2, w2))) \<and> wf_arm a2 \<and>
    (\<exists>a3 w3. readuart_rest dead_bus c a2 w2 = Some (a3, w3) \<and> wf_arm a3)"
  by (rule armpty_readuart_safe [OF wf_blank_arm dead_bus_full_duplex _ after.simps(1)]) simp

lemma armpty_readuart_wf:
  assumes "wf_arm a" and "full_duplex os" and "length buffer = 256"
    and "armpty_readuart os buffer do_idle a w = Some (a', w')"
  shows "wf_arm a'"
proof -
  obtain a1 w1 c a2 w2 where r: "(if do_idle then do { (_, a, w) \<leftarrow> idle_op os a w; Some (a, w) } else Some (a, w)) = Some (a1, w1)"
    "loop (readuart_step os) (copy_start buffer, a1, w1) = Some (c, a2, w2)" "readuart_rest os c a2 w2 = Some (a', w')"
    using assms(4) by (auto simp: armpty_readuart_def elim!: bind_SomeE)
  have "wf_arm a1" using r(1) one_phase_op_total [OF assms(1,2), of ARM_OP_IDLE "0x0e55" 0 w] assms(1)
    by (auto simp: idle_op_def split: if_splits)
  then have start: "copying_ok (copy_start buffer, a1, w1)" by (rule copying_ok_start [OF _ assms(3)])
  have "copying_ok (c, a2, w2)"
  proof (rule loop_invariant [where P = copying_ok and Q = copying_ok, OF r(2) start])
    show "copying_ok s'" if "copying_ok s" "readuart_step os s = Some (Inl s')" for s s'
      using readuart_step_total [OF assms(2) that(1)] that(2) by auto
    show "copying_ok s'" if "copying_ok s" "readuart_step os s = Some (Inr s')" for s s'
      using readuart_step_total [OF assms(2) that(1)] that(2) by auto
  qed
  then show ?thesis using readuart_rest_spec [of a2 c os w2] r(3) by (auto simp: copying_ok_def)
qed

text \<open>
  When the loop leaves more characters in the local queue than fit in the rest of the
  buffer, the surplus is lost: the first write fills the terminal with the buffer, and the
  remaining characters are taken out of the queue and followed by a write of zero bytes.
\<close>

theorem armpty_readuart_loses:
  assumes "wf_arm a" and "copy_inv c" and "cp_wanted c < int (length (local_chars a))"
    and "length (local_chars a) \<le> 256 + nat (cp_wanted c)" and "q_masterpty (uart_q a ! 0) = m" and "m \<noteq> -1"
  shows "\<exists>a'. local_chars a' = [] \<and> readuart_rest os c a w = Some (a', snd (os_write os m []
    (snd (os_write os m (take (nat (cp_nr c)) (cp_buffer c) @ take (nat (cp_wanted c)) (local_chars a)) w))))"
proof -
  have l: "nat (cp_wanted c) < length (local_chars a)" "\<not> length (local_chars a) < nat (cp_wanted c)"
    using assms(2,3) by (auto simp: copy_inv_def)
  obtain a' w' where "readuart_rest os c a w = Some (a', w')"
    "local_chars a' = drop 256 (drop (nat (cp_wanted c)) (local_chars a))"
    "w' = snd (os_write os m [] (snd (os_write os m (take (nat (cp_nr c)) (cp_buffer c) @ take (nat (cp_wanted c)) (local_chars a)) w)))"
    using readuart_rest_spec [OF assms(1,2), of os w] l assms(5,6) by auto
  then show ?thesis using assms(4) by auto
qed

definition two_chars :: arm_handle where
  "two_chars = with_queue blank_arm (empty_queue\<lparr>q_index := 2, q_masterpty := 5\<rparr>)"

theorem armpty_readuart_loses_witness:
  "\<exists>a'. local_chars a' = [] \<and>
     readuart_rest dead_bus \<lparr>cp_buffer = replicate 256 65, cp_wanted = 1, cp_nr = 255, cp_tries = 3\<rparr> two_chars () =
       Some (a', ())"
proof -
  have wf: "wf_arm two_chars"
    unfolding two_chars_def by (rule wf_with_queue [OF wf_blank_arm]) (simp add: wf_queue_def empty_queue_def)
  have q: "uart_q two_chars ! 0 = empty_queue\<lparr>q_index := 2, q_masterpty := 5\<rparr>"
    by (simp add: two_chars_def with_queue_def blank_arm_def)
  have l: "length (local_chars two_chars) = 2"
    unfolding local_chars_def content_def q by (simp add: empty_queue_def)
  have m: "q_masterpty (uart_q two_chars ! 0) = 5" by (simp add: q)
  show ?thesis
    using armpty_readuart_loses [OF wf _ _ _ m, of "\<lparr>cp_buffer = replicate 256 65, cp_wanted = 1, cp_nr = 255, cp_tries = 3\<rparr>"
        dead_bus "()"] l
    by (simp add: copy_inv_def)
qed

text \<open>Opening a terminal, and the transfers to the board, keep the handle well formed.\<close>

lemma set_master_wf:
  assumes "wf_arm a" and "unat uart < 4"
  shows "\<exists>a'. set_master uart m a = Some a' \<and> wf_arm a'"
proof -
  let ?q = "(uart_q a ! unat uart)\<lparr>q_masterpty := m\<rparr>"
  have l: "length (uart_q a) = 4" by (rule wf_armD(6) [OF assms(1)])
  have all: "\<forall>q \<in> set (uart_q a). wf_queue q" using assms(1) unfolding wf_arm_def by blast
  then have "wf_queue (uart_q a ! unat uart)" using l assms(2) by simp
  then have q: "wf_queue ?q" by (simp add: wf_queue_def)
  have "\<forall>q \<in> set ((uart_q a)[unat uart := ?q]). wf_queue q"
    using all q set_update_subset_insert [of "uart_q a" "unat uart" ?q] by blast
  then have "wf_arm (a\<lparr>uart_q := (uart_q a)[unat uart := ?q]\<rparr>)" using assms(1) unfolding wf_arm_def by (simp del: wf_armD)
  then show ?thesis using l assms(2) by (simp add: set_master_def)
qed

lemma armpty_setuart_wf:
  assumes "wf_arm a" and "full_duplex os"
  shows "\<exists>a' w'. armpty_setuart os pt masterfd uart a w = Some (a', w') \<and> wf_arm a'"
proof -
  obtain n tc w1 where g: "pty_getattr pt masterfd w = (n, tc, w1)" by (metis prod_cases3)
  let ?c = "ucast (c_cflag tc AND CBAUD) :: u16"
  obtain k a' w2 where "write_regs os (100 + 2 * ucast uart) 1 [lo8 ?c, hi8 ?c, 0, 0] 0 a w1 = Some (k, a', w2)" "wf_arm a'"
    using write_regs_total [OF assms, of 0 1 "[lo8 ?c, hi8 ?c, 0, 0]" "100 + 2 * ucast uart" w1] by auto
  then show ?thesis using assms(1) by (auto simp: armpty_setuart_def g Let_def split: prod.split)
qed

lemma armpty_readpty_wf:
  assumes "wf_arm a" and "full_duplex os" and "length buffer = 257"
    and "os_read os masterfd 257 w = (rd, bytes, err, w1)" and "length bytes \<le> 257" and "rd \<le> 257"
  shows "\<exists>a' w'. armpty_readpty os masterfd uart buffer a w = Some (a', w') \<and> wf_arm a'"
proof -
  let ?b = "overlay buffer 0 bytes"
  have b: "length ?b = 257" using assms(3,5) by simp
  have "1 + nat (rd - 1) \<le> length ?b" using assms(6) b by simp
  from write_string_spec [OF assms(1,2) this, of uart w1]
  obtain n a' w' where s: "write_string os uart ?b 1 (rd - 1) a w1 = Some (n, a', w')" "wf_arm a'" by blast
  obtain m a2 w2 where "write_char os uart (?b ! 1) a w1 = Some (m, a2, w2)" "wf_arm a2"
    using write_char_spec [OF assms(1,2), of uart "?b ! 1" w1] by blast
  moreover have "wr_block buffer 0 bytes = Some ?b" "rd8 ?b 1 = Some (?b ! 1)"
    using assms(3,5) b by (simp_all add: wr_block_def rd8_def)
  ultimately show ?thesis using s assms(1,4) by (simp add: armpty_readpty_def)
qed

end
