(* ===== verification/Arm_Firmware.thy ===== *)
theory Arm_Firmware
  imports Nb_Modbus_Replies Loops
begin

text \<open>
  The firmware loader of \<open>armspi.c\<close>: pages of 1024 bytes are sent to a board in frames with an
  address and a CRC; the reply to a frame confirms the page before it. Pauses (\<open>usleep\<close>) and
  progress messages are left out.
\<close>

section \<open>Frames\<close>

text \<open>
  \<open>arm_comm_firmware\<close> is packed: \<open>address\<close> at 0 (little-endian), \<open>data\<close> at 4, \<open>crc\<close> at 1028.
  The blocks are allocated with two bytes more.
\<close>

definition ARM_PAGE_SIZE :: nat where "ARM_PAGE_SIZE = 1024"
definition ARM_FIRMWARE_KEY :: u32 where "ARM_FIRMWARE_KEY = 0xAA99FF33"
definition SIZEOF_FIRMWARE :: nat where "SIZEOF_FIRMWARE = 1030"

definition wr32 :: "mem \<Rightarrow> nat \<Rightarrow> u32 \<Rightarrow> mem option" where
  "wr32 m i v = do { m \<leftarrow> wr16 m i (ucast v); wr16 m (i + 2) (ucast (drop_bit 16 v)) }"

text \<open>
  \<open>Tfirmware_context\<close>. A transfer is its delay, the offset of its bytes in \<open>tx\<close> and \<open>rx\<close>, and
  their number; the first one has no data.
\<close>

record fw_context =
  fw_tx :: mem
  fw_rx :: mem
  fw_tr :: "(nat \<times> nat \<times> nat) list"

definition fw_tr_len :: nat where "fw_tr_len = (SIZEOF_FIRMWARE - 1) div MAX_SPI_RX + 2"

definition fw_transfers :: "(nat \<times> nat \<times> nat) list" where
  "fw_transfers =
     (5, 0, 0) #
     map (\<lambda>i. (0, MAX_SPI_RX * i,
               if i + 2 = fw_tr_len then (SIZEOF_FIRMWARE - 1) mod MAX_SPI_RX + 1 else MAX_SPI_RX))
       [0..<fw_tr_len - 1]"

fun fw_out :: "mem \<Rightarrow> (nat \<times> nat \<times> nat) list \<Rightarrow> (nat \<times> u8 list) list option" where
  "fw_out tx [] = Some []"
| "fw_out tx ((delay, off, n) # ts) =
     do { bs \<leftarrow> rd_block tx off n; rest \<leftarrow> fw_out tx ts; Some ((delay, bs) # rest) }"

fun fw_in :: "(nat \<times> nat \<times> nat) list \<Rightarrow> u8 list \<Rightarrow> mem \<Rightarrow> mem option" where
  "fw_in [] inc rx = Some rx"
| "fw_in ((delay, off, n) # ts) inc rx =
     (if off + n \<le> length rx then fw_in ts (drop n inc) (overlay rx off (take n inc)) else None)"

text \<open>
  Where the CRC is right the function runs off its end without a value, here \<open>0\<close>; no caller
  looks at it.
\<close>

definition firmware_op :: "'w os \<Rightarrow> int \<Rightarrow> fw_context \<Rightarrow> 'w \<Rightarrow> (int \<times> fw_context \<times> 'w) option" where
  "firmware_op os dev c w =
     do { crc \<leftarrow> crc_of (fw_tx c) (SIZEOF_FIRMWARE - 2) 0;
          tx \<leftarrow> wr16 (fw_tx c) 1028 crc;
          out \<leftarrow> fw_out tx (fw_tr c);
          let (ret, inc, w) = os_spi_message os dev out w;
          rx \<leftarrow> fw_in (fw_tr c) inc (fw_rx c);
          let c = c\<lparr>fw_tx := tx, fw_rx := rx\<rparr>;
          if ret < 1 then Some (-1, c, w)
          else do {
            crc \<leftarrow> crc_of rx (SIZEOF_FIRMWARE - 2) 0;
            rxcrc \<leftarrow> rd16 rx 1028;
            Some (if crc \<noteq> rxcrc then -1 else 0, c, w) } }"

section \<open>Starting and finishing\<close>

text \<open>
  \<open>start_firmware\<close> allocates three blocks, and gives back what it has when one of them is not
  to be had; \<open>mem_ok\<close> tells how many of the calls of \<open>calloc\<close> succeed. Then the board is told
  to expect a program.
\<close>

definition fw_alloc :: "nat \<Rightarrow> fw_context option" where
  "fw_alloc mem_ok =
     (if mem_ok < 4 then None
      else Some \<lparr>fw_tx = replicate (SIZEOF_FIRMWARE + 2) 0, fw_rx = replicate (SIZEOF_FIRMWARE + 2) 0,
                 fw_tr = fw_transfers\<rparr>)"

definition prog_bit :: "arm_handle \<Rightarrow> u16" where
  "prog_bit a = (if sw_version (bv a) \<le> 0x400 then 104 else 1004)"

definition start_firmware ::
  "'w os \<Rightarrow> nat \<Rightarrow> arm_handle \<Rightarrow> 'w \<Rightarrow> (fw_context option \<times> arm_handle \<times> 'w) option" where
  "start_firmware os mem_ok a w =
     (case fw_alloc mem_ok of
        None \<Rightarrow> Some (None, a, w)
      | Some c \<Rightarrow> do { (_, a, w) \<leftarrow> write_bit os (prog_bit a) 1 a w; Some (Some c, a, w) })"

definition rx_confirms :: "fw_context \<Rightarrow> bool option" where
  "rx_confirms c = do { v \<leftarrow> rd32 (fw_rx c) 0; Some (v = ARM_FIRMWARE_KEY) }"

text \<open>The result is whether the board confirmed the end; the code only reports it.\<close>

definition finish_firmware :: "'w os \<Rightarrow> int \<Rightarrow> fw_context \<Rightarrow> 'w \<Rightarrow> (bool \<times> 'w) option" where
  "finish_firmware os dev c w =
     do { tx \<leftarrow> wr32 (fw_tx c) 0 ARM_FIRMWARE_KEY;
          (_, c, w) \<leftarrow> firmware_op os dev (c\<lparr>fw_tx := tx\<rparr>) w;
          ok \<leftarrow> rx_confirms c;
          Some (ok, w) }"

section \<open>Sending pages\<close>

text \<open>
  The variables of the loop of \<open>send_firmware\<close>: \<open>prev_addr\<close> is the \<open>int\<close> \<open>-1\<close> or the last
  confirmed address.
\<close>

record fw_send =
  fs_ctx :: fw_context
  fs_prev :: int
  fs_len :: int
  fs_address :: u32

text \<open>The frame's data, and the new values of \<open>len\<close> and \<open>address\<close>.\<close>

definition fw_fill :: "mem \<Rightarrow> u32 \<Rightarrow> fw_send \<Rightarrow> fw_send option" where
  "fw_fill data start_address s =
     do { let c = fs_ctx s;
          tx \<leftarrow> wr32 (fw_tx c) 0 (fs_address s);
          let off = unat (fs_address s - start_address);
          let len = fs_len s;
          if int ARM_PAGE_SIZE \<le> len then
            do { bs \<leftarrow> rd_block data off ARM_PAGE_SIZE;
                 tx \<leftarrow> wr_block tx 4 bs;
                 Some (s\<lparr>fs_ctx := c\<lparr>fw_tx := tx\<rparr>, fs_len := len - int ARM_PAGE_SIZE\<rparr>) }
          else if len \<noteq> 0 then
            do { bs \<leftarrow> rd_block data off (nat len);
                 tx \<leftarrow> wr_block tx 4 bs;
                 tx \<leftarrow> wr_block tx (4 + nat len) (replicate (ARM_PAGE_SIZE - nat len) 0xff);
                 Some (s\<lparr>fs_ctx := c\<lparr>fw_tx := tx\<rparr>, fs_len := 0\<rparr>) }
          else Some (s\<lparr>fs_ctx := c\<lparr>fw_tx := tx\<rparr>, fs_address := 0xF400, fs_len := -1\<rparr>) }"

text \<open>
  One iteration. A page that is not confirmed makes the loop go back to the page before it,
  unless it is that page, or the first one.
\<close>

definition send_firmware_step ::
  "'w os \<Rightarrow> int \<Rightarrow> mem \<Rightarrow> nat \<Rightarrow> u32 \<Rightarrow> fw_send \<times> 'w \<Rightarrow> (fw_send \<times> 'w + fw_context \<times> 'w) option" where
  "send_firmware_step os dev data datalen start_address v =
     (case v of (s, w) \<Rightarrow>
      if fs_len s < 0 then Some (Inr (fs_ctx s, w))
      else do {
        s \<leftarrow> fw_fill data start_address s;
        (_, c, w) \<leftarrow> firmware_op os dev (fs_ctx s) w;
        let s = s\<lparr>fs_ctx := c\<rparr>;
        ok \<leftarrow> rx_confirms c;
        Some (if \<not> ok then
                if fs_address s = word_of_int (fs_prev s) \<or> fs_prev s = -1 then Inr (c, w)
                else let address = (word_of_int (fs_prev s) :: u32) in
                     Inl (s\<lparr>fs_address := address, fs_len := int datalen - uint (address - start_address)\<rparr>, w)
              else Inl (s\<lparr>fs_prev := sint (fs_address s), fs_address := fs_address s + word_of_nat ARM_PAGE_SIZE\<rparr>, w)) })"

definition send_firmware ::
  "'w os \<Rightarrow> int \<Rightarrow> mem \<Rightarrow> nat \<Rightarrow> u32 \<Rightarrow> fw_context \<Rightarrow> 'w \<Rightarrow> (fw_context \<times> 'w) option" where
  "send_firmware os dev data datalen start_address c w =
     loop (send_firmware_step os dev data datalen start_address)
       (\<lparr>fs_ctx = c, fs_prev = -1, fs_len = int datalen, fs_address = start_address\<rparr>, w)"

text \<open>The older \<open>_send_firmware\<close> does all three steps in one function; it is not called.\<close>

definition old_send_firmware ::
  "'w os \<Rightarrow> nat \<Rightarrow> mem \<Rightarrow> nat \<Rightarrow> u32 \<Rightarrow> arm_handle \<Rightarrow> 'w \<Rightarrow> (int \<times> arm_handle \<times> 'w) option" where
  "old_send_firmware os mem_ok data datalen start_address a w =
     (case fw_alloc (mem_ok + 1) of
        None \<Rightarrow> Some (-1, a, w)
      | Some c \<Rightarrow>
          do { (_, a, w) \<leftarrow> write_bit os (prog_bit a) 1 a w;
               (c, w) \<leftarrow> send_firmware os (fd a) data datalen start_address c w;
               (_, w) \<leftarrow> finish_firmware os (fd a) c w;
               Some (0, a, w) })"

end
