(* ===== verification/Arm_Firmware_Correct.thy ===== *)
theory Arm_Firmware_Correct
  imports Arm_Firmware
begin

text \<open>
  What the firmware loader sends: the frames of the pages in order when the board confirms all
  of them, and no end of frames when the board keeps refusing the second one.
\<close>

section \<open>Transfers\<close>

text \<open>Consecutive transfers, from offset \<open>off\<close> to \<open>e\<close>.\<close>

fun fw_tiles :: "nat \<Rightarrow> nat \<Rightarrow> (nat \<times> nat \<times> nat) list \<Rightarrow> bool" where
  "fw_tiles off e [] \<longleftrightarrow> off = e"
| "fw_tiles off e ((d, i, n) # ts) \<longleftrightarrow> i = off \<and> fw_tiles (off + n) e ts"

lemma fw_tiles_le: "fw_tiles off e ts \<Longrightarrow> off \<le> e"
  by (induction off e ts rule: fw_tiles.induct) auto

lemma fw_out_tiles:
  assumes "fw_tiles off e ts" and "e \<le> length tx"
  shows "\<exists>out. fw_out tx ts = Some out \<and> concat (map snd out) = take (e - off) (drop off tx)"
  using assms
proof (induction off e ts rule: fw_tiles.induct)
  case (2 off e d i n ts)
  then obtain out where out: "fw_out tx ts = Some out" "concat (map snd out) = take (e - (off + n)) (drop (off + n) tx)" by auto
  have le: "off + n \<le> e" using 2 fw_tiles_le by auto
  then have "take n (drop off tx) @ take (e - (off + n)) (drop (off + n) tx) = take (e - off) (drop off tx)"
    using take_drop_join [of n "drop off tx" "e - (off + n)"] by (simp add: add.commute)
  then show ?case using 2 le out by (simp add: rd_block_def)
qed simp

lemma fw_in_tiles:
  assumes "fw_tiles off e ts" and "e \<le> length rx"
  shows "\<exists>rx'. fw_in ts inc rx = Some rx' \<and> length rx' = length rx \<and>
    (length inc = e - off \<longrightarrow> rx' = overlay rx off inc)"
  using assms
proof (induction off e ts arbitrary: rx inc rule: fw_tiles.induct)
  case (2 off e d i n ts)
  let ?rx = "overlay rx off (take n inc)"
  have le: "off + n \<le> e" using 2 fw_tiles_le by auto
  then have l: "length ?rx = length rx" using 2 by simp
  obtain rx' where rx': "fw_in ts (drop n inc) ?rx = Some rx'" "length rx' = length ?rx"
    "length (drop n inc) = e - (off + n) \<longrightarrow> rx' = overlay ?rx (off + n) (drop n inc)"
    using 2(1) [of ?rx "drop n inc"] 2(2,3) l by auto
  have "rx' = overlay rx off inc" if "length inc = e - off"
  proof -
    have "length (take n inc) = n" "length (drop n inc) = e - (off + n)" using that le by auto
    then show ?thesis using rx'(3) overlay_overlay [of off "take n inc" "drop n inc" rx] le 2(3) by simp
  qed
  then show ?case using 2 le rx' l by simp
qed simp

lemma fw_tiles_transfers: "fw_tiles 0 1030 fw_transfers"
  by code_simp

section \<open>One frame\<close>

definition le32 :: "u32 \<Rightarrow> u8 list" where
  "le32 v = [lo8 (ucast v), hi8 (ucast v), lo8 (ucast (drop_bit 16 v)), hi8 (ucast (drop_bit 16 v))]"

definition fw_frame :: "u32 \<Rightarrow> u8 list \<Rightarrow> u8 list" where
  "fw_frame address page =
     (let b = le32 address @ page in b @ crc_bytes (SpiCrcString b 0))"

definition wf_fw :: "fw_context \<Rightarrow> bool" where
  "wf_fw c \<longleftrightarrow> length (fw_tx c) = 1032 \<and> length (fw_rx c) = 1032 \<and> fw_tr c = fw_transfers"

lemma wf_fw_alloc: "fw_alloc n = Some c \<Longrightarrow> wf_fw c"
  by (auto simp: fw_alloc_def wf_fw_def SIZEOF_FIRMWARE_def split: if_splits)

lemma length_le32 [simp]: "length (le32 v) = 4"
  by (simp add: le32_def)

lemma wr32_eq: "4 \<le> length m \<Longrightarrow> wr32 m 0 v = Some (le32 v @ drop 4 m)"
  by (cases m; cases "tl m"; cases "tl (tl m)"; cases "tl (tl (tl m))")
    (auto simp: wr32_def wr16_def wr8_def le32_def)

lemma le32_inj: "le32 v = le32 v' \<longleftrightarrow> v = v'"
proof
  assume "le32 v = le32 v'"
  then have "lo8 (ucast v) = lo8 (ucast v')" "hi8 (ucast v) = hi8 (ucast v')"
    "lo8 (ucast (drop_bit 16 v)) = lo8 (ucast (drop_bit 16 v'))" "hi8 (ucast (drop_bit 16 v)) = hi8 (ucast (drop_bit 16 v'))"
    by (simp_all add: le32_def)
  then have "ucast v = (ucast v' :: u16)" "ucast (drop_bit 16 v) = (ucast (drop_bit 16 v') :: u16)"
    by (metis join16_hi_lo)+
  then show "v = v'"
  proof (intro bit_word_eqI)
    fix n assume u: "ucast v = (ucast v' :: u16)" "ucast (drop_bit 16 v) = (ucast (drop_bit 16 v') :: u16)" "n < LENGTH(32)"
    show "bit v n = bit v' n"
    proof (cases "n < 16")
      case True
      then show ?thesis using arg_cong [OF u(1), of "\<lambda>x. bit x n"] by (simp add: bit_simps)
    next
      case False
      then show ?thesis using arg_cong [OF u(2), of "\<lambda>x. bit x (n - 16)"] u(3)
        by (auto simp: bit_simps)
    qed
  qed
qed simp

lemma rd32_eq: "4 \<le> length m \<Longrightarrow> \<exists>v. rd32 m 0 = Some v \<and> take 4 m = le32 v"
proof -
  assume "4 \<le> length m"
  then obtain a b c d r where m: "m = a # b # c # d # r"
    by (cases m; cases "tl m"; cases "tl (tl m)"; cases "tl (tl (tl m))") auto
  let ?v = "push_bit 16 (ucast (join16 d c)) OR ucast (join16 b a) :: u32"
  have "ucast ?v = join16 b a" "ucast (drop_bit 16 ?v) = join16 d c"
    by (rule bit_word_eqI, auto simp: bit_simps dest: bit_imp_le_length)+
  then show ?thesis by (intro exI [of _ ?v]) (simp add: m rd32_def rd16_def rd8_def le32_def)
qed

lemma rx_confirms_eq:
  assumes "4 \<le> length (fw_rx c)"
  shows "rx_confirms c = Some (take 4 (fw_rx c) = le32 ARM_FIRMWARE_KEY)"
proof -
  obtain v where "rd32 (fw_rx c) 0 = Some v" "take 4 (fw_rx c) = le32 v" using rd32_eq [OF assms] by blast
  then show ?thesis by (simp add: rx_confirms_def le32_inj)
qed

lemma firmware_op_spec:
  assumes "wf_fw c"
  defines "frame \<equiv> take 1028 (fw_tx c) @ crc_bytes (SpiCrcString (take 1028 (fw_tx c)) 0)"
  shows "\<exists>out ret inc w' st rx. concat (map snd out) = frame \<and> os_spi_message os dev out w = (ret, inc, w') \<and>
    firmware_op os dev c w = Some (st, c\<lparr>fw_tx := frame @ drop 1030 (fw_tx c), fw_rx := rx\<rparr>, w') \<and>
    length rx = 1032 \<and> (length inc = 1030 \<longrightarrow> take 1030 rx = inc)"
proof -
  let ?crc = "SpiCrcString (take 1028 (fw_tx c)) 0"
  have l: "length (fw_tx c) = 1032" "length (fw_rx c) = 1032" "fw_tr c = fw_transfers" using assms(1) by (auto simp: wf_fw_def)
  have crc: "crc_of (fw_tx c) (SIZEOF_FIRMWARE - 2) 0 = Some ?crc"
    using l by (simp add: crc_of_def SIZEOF_FIRMWARE_def rd_block_def)
  define tx where "tx = (fw_tx c)[1028 := lo8 ?crc, 1029 := hi8 ?crc]"
  have w: "wr16 (fw_tx c) 1028 ?crc = Some tx" using l by (simp add: wr16_in tx_def)
  have "fw_tx c = take 1028 (fw_tx c) @ drop 1028 (fw_tx c)" by simp
  moreover obtain x y z where "drop 1028 (fw_tx c) = x # y # z" "length z = 2"
    using l by (cases "drop 1028 (fw_tx c)"; cases "tl (drop 1028 (fw_tx c))") (auto dest!: arg_cong [where f = length])
  ultimately have d: "fw_tx c = take 1028 (fw_tx c) @ x # y # z" by simp
  have "length (take 1028 (fw_tx c)) = 1028" using l by simp
  then obtain p where p: "fw_tx c = p @ x # y # z" "length p = 1028" "take 1028 (fw_tx c) = p" using d by metis
  have tx: "tx = frame @ drop 1030 (fw_tx c)"
    unfolding tx_def frame_def p(3) unfolding p(1) crc_bytes_def using p(2)
    by (simp add: list_update_append)
  have lf: "length frame = 1030" using l by (simp add: frame_def crc_bytes_def)
  have ltx: "length tx = 1032" using l by (simp add: tx_def)
  obtain out where out: "fw_out tx (fw_tr c) = Some out" "concat (map snd out) = take 1030 tx"
    using fw_out_tiles [OF fw_tiles_transfers, of tx] ltx l(3) by auto
  obtain ret inc w' where s: "os_spi_message os dev out w = (ret, inc, w')" by (metis prod_cases3)
  obtain rx where rx: "fw_in (fw_tr c) inc (fw_rx c) = Some rx" "length rx = 1032"
    "length inc = 1030 \<longrightarrow> rx = overlay (fw_rx c) 0 inc"
    using fw_in_tiles [OF fw_tiles_transfers, of "fw_rx c" inc] l by auto
  have t: "length inc = 1030 \<longrightarrow> take 1030 rx = inc" using rx(3) by (auto simp: overlay_def)
  have c2: "crc_of rx (SIZEOF_FIRMWARE - 2) 0 = Some (SpiCrcString (take 1028 rx) 0)"
    using rx(2) by (simp add: crc_of_def SIZEOF_FIRMWARE_def rd_block_def)
  have r2: "rd16 rx 1028 = Some (join16 (rx ! 1029) (rx ! 1028))" using rx(2) by (simp add: rd16_in)
  obtain st where op: "firmware_op os dev c w = Some (st, c\<lparr>fw_tx := tx, fw_rx := rx\<rparr>, w')"
    by (cases "ret < 1") (simp_all add: firmware_op_def Let_def crc w out(1) s rx(1) c2 r2)
  have "concat (map snd out) = frame" using out(2) lf by (simp add: tx)
  with s op rx(2) t show ?thesis unfolding tx by blast
qed

section \<open>The pages of a file\<close>

definition pad_page :: "u8 list \<Rightarrow> u8 list" where
  "pad_page p = p @ replicate (1024 - length p) 0xff"

function fw_pages :: "u8 list \<Rightarrow> u8 list list" where
  "fw_pages d = (if d = [] then [] else pad_page (take 1024 d) # fw_pages (drop 1024 d))"
  by auto
termination by (relation "measure length") auto

declare fw_pages.simps [simp del]

fun fw_frames :: "u32 \<Rightarrow> u8 list list \<Rightarrow> u8 list list" where
  "fw_frames address [] = []"
| "fw_frames address (p # ps) = fw_frame address p # fw_frames (address + 1024) ps"

text \<open>
  A board that answers every frame of the loader, and confirms those whose address bytes are
  \<open>good\<close>; \<open>sent\<close> is the record of what went over the bus.
\<close>

definition acks :: "'w os \<Rightarrow> int \<Rightarrow> (u8 list \<Rightarrow> bool) \<Rightarrow> bool" where
  "acks os dev good \<longleftrightarrow>
     (\<forall>out w ret inc w'. length (concat (map snd out)) = 1030 \<longrightarrow> os_spi_message os dev out w = (ret, inc, w') \<longrightarrow>
        length inc = 1030 \<and> (take 4 inc = le32 ARM_FIRMWARE_KEY \<longleftrightarrow> good (take 4 (concat (map snd out)))))"

definition records :: "'w os \<Rightarrow> int \<Rightarrow> ('w \<Rightarrow> u8 list list) \<Rightarrow> bool" where
  "records os dev sent \<longleftrightarrow>
     (\<forall>out w ret inc w'. os_spi_message os dev out w = (ret, inc, w') \<longrightarrow> sent w' = sent w @ [concat (map snd out)])"

lemma acksD:
  assumes "acks os dev good" and "length (concat (map snd out)) = 1030" and "os_spi_message os dev out w = (ret, inc, w')"
  shows "length inc = 1030" and "take 4 inc = le32 ARM_FIRMWARE_KEY \<longleftrightarrow> good (take 4 (concat (map snd out)))"
  using assms unfolding acks_def by blast+

lemma length_pad_page: "length p \<le> 1024 \<Longrightarrow> length (pad_page p) = 1024"
  by (simp add: pad_page_def)

lemma length_frame: "length p = 1024 \<Longrightarrow> length (fw_frame a p) = 1030"
  by (simp add: fw_frame_def Let_def crc_bytes_def)

lemma take_frame: "take 4 (fw_frame a p) = le32 a"
  by (simp add: fw_frame_def Let_def)

text \<open>One exchange with such a board, of the frame that is laid out in \<open>fw_tx\<close>.\<close>

lemma firmware_op_acks:
  assumes "wf_fw c" and "acks os dev good" and "take 1028 (fw_tx c) = le32 a @ p" and "length p = 1024"
  shows "\<exists>st c' w'. firmware_op os dev c w = Some (st, c', w') \<and> wf_fw c' \<and> take 1028 (fw_tx c') = le32 a @ p \<and>
    rx_confirms c' = Some (good (le32 a)) \<and> (\<forall>sent. records os dev sent \<longrightarrow> sent w' = sent w @ [fw_frame a p])"
proof -
  obtain out ret inc w' st rx where o: "concat (map snd out) = fw_frame a p" "os_spi_message os dev out w = (ret, inc, w')"
    "firmware_op os dev c w = Some (st, c\<lparr>fw_tx := fw_frame a p @ drop 1030 (fw_tx c), fw_rx := rx\<rparr>, w')"
    "length rx = 1032" "length inc = 1030 \<longrightarrow> take 1030 rx = inc"
    using firmware_op_spec [OF assms(1), of os dev w] unfolding assms(3) fw_frame_def Let_def by blast
  let ?c = "c\<lparr>fw_tx := fw_frame a p @ drop 1030 (fw_tx c), fw_rx := rx\<rparr>"
  have lf: "length (concat (map snd out)) = 1030" unfolding o(1) by (rule length_frame [OF assms(4)])
  have i: "length inc = 1030" "take 4 inc = le32 ARM_FIRMWARE_KEY \<longleftrightarrow> good (le32 a)"
    using acksD [OF assms(2) lf o(2)] unfolding o(1) take_frame by blast+
  have "take 4 rx = take 4 (take 1030 rx)" by simp
  then have "take 4 rx = take 4 inc" using o(5) i(1) by simp
  then have "rx_confirms ?c = Some (good (le32 a))" using rx_confirms_eq [of ?c] o(4) i(2) by simp
  moreover have "wf_fw ?c" using assms(1) o(4) length_frame [OF assms(4)] by (simp add: wf_fw_def)
  moreover have "take 1028 (fw_tx ?c) = le32 a @ p" using assms(4) by (simp add: fw_frame_def Let_def)
  moreover have "\<forall>sent. records os dev sent \<longrightarrow> sent w' = sent w @ [fw_frame a p]"
    using o(1,2) unfolding records_def by metis
  ultimately show ?thesis using o(3) by blast
qed

text \<open>The three cases of filling a frame.\<close>

lemma fw_fill_page:
  assumes "wf_fw (fs_ctx s)" and "fs_len s = int (length rest)" and "rest \<noteq> []"
    and "drop (unat (fs_address s - start)) data = rest"
  shows "\<exists>c. fw_fill data start s = Some (s\<lparr>fs_ctx := c, fs_len := int (length (drop 1024 rest))\<rparr>) \<and> wf_fw c \<and>
    take 1028 (fw_tx c) = le32 (fs_address s) @ pad_page (take 1024 rest)"
proof -
  let ?c = "fs_ctx s" and ?p = "pad_page (take 1024 rest)"
  let ?off = "unat (fs_address s - start)"
  have l: "length (fw_tx ?c) = 1032" "length (fw_rx ?c) = 1032" "fw_tr ?c = fw_transfers" using assms(1) by (auto simp: wf_fw_def)
  have w: "wr32 (fw_tx ?c) 0 (fs_address s) = Some (le32 (fs_address s) @ drop 4 (fw_tx ?c))" using l by (simp add: wr32_eq)
  have ld: "?off + length rest = length data" using assms(3,4) by (metis add.commute drop_all length_drop less_imp_le_nat linorder_le_less_linear le_add_diff_inverse)
  let ?tx = "le32 (fs_address s) @ ?p @ drop 1028 (fw_tx ?c)"
  have lp: "length ?p = 1024" by (rule length_pad_page) simp
  show ?thesis
  proof (cases "1024 \<le> length rest")
    case True
    have "?p = take 1024 rest" using True by (simp add: pad_page_def)
    moreover have "rd_block data ?off 1024 = Some (take 1024 rest)" using True ld assms(4) by (simp add: rd_block_def)
    moreover have "wr_block (le32 (fs_address s) @ drop 4 (fw_tx ?c)) 4 (take 1024 rest) = Some (le32 (fs_address s) @ take 1024 rest @ drop 1028 (fw_tx ?c))"
      using True l by (simp add: wr_block_def overlay_def)
    ultimately have "fw_fill data start s = Some (s\<lparr>fs_ctx := ?c\<lparr>fw_tx := ?tx\<rparr>, fs_len := int (length (drop 1024 rest))\<rparr>)"
      using w True by (simp add: fw_fill_def ARM_PAGE_SIZE_def assms(2) Let_def of_nat_diff)
    then show ?thesis using l lp by (auto simp: wf_fw_def)
  next
    case False
    then have p: "pad_page rest = rest @ replicate (1024 - length rest) 0xff" by (simp add: pad_page_def)
    have "rd_block data ?off (length rest) = Some rest" using ld assms(4) by (simp add: rd_block_def)
    moreover have "wr_block (le32 (fs_address s) @ drop 4 (fw_tx ?c)) 4 rest = Some (le32 (fs_address s) @ rest @ drop (4 + length rest) (fw_tx ?c))"
      using False l by (simp add: wr_block_def overlay_def add.commute)
    moreover have "wr_block (le32 (fs_address s) @ rest @ drop (4 + length rest) (fw_tx ?c)) (4 + length rest)
        (replicate (1024 - length rest) 0xff) = Some ?tx"
      using False l by (simp add: wr_block_def overlay_def p add.commute)
    ultimately have "fw_fill data start s = Some (s\<lparr>fs_ctx := ?c\<lparr>fw_tx := ?tx\<rparr>, fs_len := int (length (drop 1024 rest))\<rparr>)"
      using w False assms(3) by (simp add: fw_fill_def ARM_PAGE_SIZE_def assms(2) Let_def)
    then show ?thesis using l lp by (auto simp: wf_fw_def)
  qed
qed

lemma fw_fill_last:
  assumes "wf_fw (fs_ctx s)" and "fs_len s = 0" and "take 1024 (drop 4 (fw_tx (fs_ctx s))) = p"
  shows "\<exists>c. fw_fill data start s = Some (s\<lparr>fs_ctx := c, fs_address := 0xF400, fs_len := -1\<rparr>) \<and> wf_fw c \<and>
    take 1028 (fw_tx c) = le32 (fs_address s) @ p"
proof -
  let ?c = "fs_ctx s"
  have l: "length (fw_tx ?c) = 1032" "length (fw_rx ?c) = 1032" "fw_tr ?c = fw_transfers" using assms(1) by (auto simp: wf_fw_def)
  have w: "wr32 (fw_tx ?c) 0 (fs_address s) = Some (le32 (fs_address s) @ drop 4 (fw_tx ?c))" using l by (simp add: wr32_eq)
  have "take 1028 (le32 (fs_address s) @ drop 4 (fw_tx ?c)) = le32 (fs_address s) @ p" using assms(3) by simp
  then show ?thesis using w l assms(2)
    by (intro exI [of _ "?c\<lparr>fw_tx := le32 (fs_address s) @ drop 4 (fw_tx ?c)\<rparr>"])
      (simp add: fw_fill_def ARM_PAGE_SIZE_def wf_fw_def Let_def)
qed

section \<open>The loop\<close>

lemma send_step:
  assumes "fw_fill data start s = Some s1" and "0 \<le> fs_len s" and "wf_fw (fs_ctx s1)" and "acks os dev good"
    and "take 1028 (fw_tx (fs_ctx s1)) = le32 a @ p" and "length p = 1024"
  shows "\<exists>c w'. send_firmware_step os dev data n start (s, w) =
      Some (if good (le32 a) then Inl (s1\<lparr>fs_ctx := c, fs_prev := sint (fs_address s1), fs_address := fs_address s1 + 1024\<rparr>, w')
            else if fs_address s1 = word_of_int (fs_prev s1) \<or> fs_prev s1 = -1 then Inr (c, w')
            else Inl (s1\<lparr>fs_ctx := c, fs_address := word_of_int (fs_prev s1),
                         fs_len := int n - uint (word_of_int (fs_prev s1) - start)\<rparr>, w')) \<and>
    wf_fw c \<and> take 1028 (fw_tx c) = le32 a @ p \<and> (\<forall>sent. records os dev sent \<longrightarrow> sent w' = sent w @ [fw_frame a p])"
proof -
  obtain st c w' where o: "firmware_op os dev (fs_ctx s1) w = Some (st, c, w')" "wf_fw c" "take 1028 (fw_tx c) = le32 a @ p"
    "rx_confirms c = Some (good (le32 a))" "\<forall>sent. records os dev sent \<longrightarrow> sent w' = sent w @ [fw_frame a p]"
    using firmware_op_acks [OF assms(3-6), of w] by blast
  show ?thesis
    by (rule exI [of _ c], rule exI [of _ w'])
      (use assms(1,2) o in \<open>simp add: send_firmware_step_def Let_def ARM_PAGE_SIZE_def\<close>)
qed

lemma pages_Nil: "fw_pages [] = []"
  by (subst fw_pages.simps) simp

lemma pages_Cons: "d \<noteq> [] \<Longrightarrow> fw_pages d = pad_page (take 1024 d) # fw_pages (drop 1024 d)"
  by (subst fw_pages.simps) simp

lemma send_loop:
  assumes "acks os dev (\<lambda>_. True)" and "records os dev sent" and "length data < 2 ^ 31"
    and "wf_fw (fs_ctx s)" and "fs_len s = int (length rest)" and "rest = drop (1024 * k) data" and "k = 0 \<or> 1024 * (k - 1) < length data"
    and "fs_address s = start + word_of_nat (1024 * k)" and "take 1024 (drop 4 (fw_tx (fs_ctx s))) = p"
  shows "\<exists>c' w'. loop (send_firmware_step os dev data (length data) start) (s, w) = Some (c', w') \<and> wf_fw c' \<and>
    sent w' = sent w @ fw_frames (fs_address s) (fw_pages rest) @
      [fw_frame (fs_address s + word_of_nat (1024 * length (fw_pages rest))) (last (p # fw_pages rest))]"
  using assms(4-9)
proof (induction "length rest" arbitrary: s k rest p w rule: less_induct)
  case less
  have lp: "length p = 1024" using less.prems(1,6) by (auto simp: wf_fw_def)
  show ?case
  proof (cases "rest = []")
    case True
    then have len: "fs_len s = 0" using less.prems(2) by simp
    obtain c where f: "fw_fill data start s = Some (s\<lparr>fs_ctx := c, fs_address := 0xF400, fs_len := -1\<rparr>)" "wf_fw c"
      "take 1028 (fw_tx c) = le32 (fs_address s) @ p"
      using fw_fill_last [OF less.prems(1) len less.prems(6)] by blast
    let ?s = "s\<lparr>fs_ctx := c, fs_address := 0xF400, fs_len := -1\<rparr>"
    obtain c' w' where st: "send_firmware_step os dev data (length data) start (s, w) =
        Some (Inl (?s\<lparr>fs_ctx := c', fs_prev := sint (fs_address ?s), fs_address := fs_address ?s + 1024\<rparr>, w'))" "wf_fw c'"
      "sent w' = sent w @ [fw_frame (fs_address s) p]"
      using send_step [OF f(1) _ _ assms(1) _ lp, of "fs_address s" "length data" w] f(2,3) len assms(2) by auto
    let ?s2 = "?s\<lparr>fs_ctx := c', fs_prev := sint (fs_address ?s), fs_address := fs_address ?s + 1024\<rparr>"
    have "send_firmware_step os dev data (length data) start (?s2, w') = Some (Inr (c', w'))"
      by (simp add: send_firmware_step_def)
    then have "loop (send_firmware_step os dev data (length data) start) (?s2, w') = Some (c', w')" by (rule loop_Inr)
    with loop_Inl [where f = "send_firmware_step os dev data (length data) start", OF st(1)]
    have "loop (send_firmware_step os dev data (length data) start) (s, w) = Some (c', w')" by (rule trans)
    then show ?thesis using st(2,3) True by (simp add: pages_Nil)
  next
    case False
    let ?n = "1024 * k"
    have kn: "?n < length data" using False less.prems(3) by auto
    have "unat (fs_address s - start) = ?n"
      using kn assms(3) less.prems(5) by (simp add: unat_of_nat del: of_nat_mult)
    then have off: "drop (unat (fs_address s - start)) data = rest" using less.prems(3) by simp
    obtain c where f: "fw_fill data start s = Some (s\<lparr>fs_ctx := c, fs_len := int (length (drop 1024 rest))\<rparr>)" "wf_fw c"
      "take 1028 (fw_tx c) = le32 (fs_address s) @ pad_page (take 1024 rest)"
      using fw_fill_page [OF less.prems(1,2) False off] by blast
    let ?s = "s\<lparr>fs_ctx := c, fs_len := int (length (drop 1024 rest))\<rparr>" and ?p = "pad_page (take 1024 rest)"
    have lpp: "length ?p = 1024" by (rule length_pad_page) simp
    obtain c' w1 where st: "send_firmware_step os dev data (length data) start (s, w) =
        Some (Inl (?s\<lparr>fs_ctx := c', fs_prev := sint (fs_address s), fs_address := fs_address s + 1024\<rparr>, w1))" "wf_fw c'"
      "take 1028 (fw_tx c') = le32 (fs_address s) @ ?p" "sent w1 = sent w @ [fw_frame (fs_address s) ?p]"
      using send_step [OF f(1) _ _ assms(1) _ lpp, of "fs_address s" "length data" w] f(2,3) less.prems(2) assms(2) by auto
    let ?s2 = "?s\<lparr>fs_ctx := c', fs_prev := sint (fs_address s), fs_address := fs_address s + 1024\<rparr>"
    have "drop 4 (take 1028 (fw_tx c')) = ?p" using st(3) by simp
    then have p2: "take 1024 (drop 4 (fw_tx (fs_ctx ?s2))) = ?p" by (simp add: drop_take)
    have "drop 1024 rest = drop (1024 * Suc k) data" using less.prems(3) by (simp add: add.commute)
    moreover have "fs_address ?s2 = start + word_of_nat (1024 * Suc k)" using less.prems(5) by (simp add: algebra_simps)
    moreover have "length (drop 1024 rest) < length rest" using False by (cases rest) auto
    ultimately obtain c2 w2 where r: "loop (send_firmware_step os dev data (length data) start) (?s2, w1) = Some (c2, w2)" "wf_fw c2"
      "sent w2 = sent w1 @ fw_frames (fs_address ?s2) (fw_pages (drop 1024 rest)) @
        [fw_frame (fs_address ?s2 + word_of_nat (1024 * length (fw_pages (drop 1024 rest)))) (last (?p # fw_pages (drop 1024 rest)))]"
      using less.hyps [of "drop 1024 rest" ?s2 "Suc k" ?p w1] st(2) p2 kn by auto
    have "loop (send_firmware_step os dev data (length data) start) (s, w) = Some (c2, w2)"
      using loop_Inl [where f = "send_firmware_step os dev data (length data) start", OF st(1)] r(1) by simp
    then show ?thesis using r(2,3) st(4) by (simp add: pages_Cons [OF False] algebra_simps)
  qed
qed

text \<open>
  C17. When the board confirms every frame, \<open>send_firmware\<close> ends and has sent the pages of the
  file in order, each at its address and the last one filled up with \<open>0xff\<close>, followed by one
  more frame for the confirmation of the last page. That frame has the address after the last
  page and the last page's data, not the read-only address \<open>0xF400\<close>.
\<close>

theorem send_firmware_sends_pages:
  assumes "wf_fw c" and "acks os dev (\<lambda>_. True)" and "records os dev sent" and "data \<noteq> []" and "length data < 2 ^ 31"
  shows "\<exists>c' w'. send_firmware os dev data (length data) start c w = Some (c', w') \<and> wf_fw c' \<and>
    sent w' = sent w @ fw_frames start (fw_pages data) @
      [fw_frame (start + word_of_nat (1024 * length (fw_pages data))) (last (fw_pages data))]"
proof -
  let ?s = "\<lparr>fs_ctx = c, fs_prev = -1, fs_len = int (length data), fs_address = start\<rparr>"
  have "last (x # fw_pages data) = last (fw_pages data)" for x using pages_Cons [OF assms(4)] by simp
  then show ?thesis
    using send_loop [OF assms(2,3,5), of ?s data 0 start "take 1024 (drop 4 (fw_tx c))" w] assms(1)
    unfolding send_firmware_def by simp
qed

text \<open>
  C34. A board that confirms every frame but those of the second page keeps \<open>send_firmware\<close>
  sending the first two pages for ever: the retry is limited only when the same page fails
  twice in a row.
\<close>

theorem send_firmware_livelock:
  fixes os :: "'w os"
  assumes "wf_fw c" and "acks os dev (\<lambda>b. b \<noteq> le32 (start + 1024))" and "1024 < length data" and "length data < 2 ^ 31"
    and "start < 0x7fffffff"
  shows "endless (send_firmware_step os dev data (length data) start)
    (\<lparr>fs_ctx = c, fs_prev = -1, fs_len = int (length data), fs_address = start\<rparr>, w)"
proof -
  let ?f = "send_firmware_step os dev data (length data) start"
  let ?first = "\<lambda>s :: fw_send. fs_len s = int (length data) \<and> fs_address s = start \<and> (fs_prev s = -1 \<or> fs_prev s = sint start)"
  let ?second = "\<lambda>s :: fw_send. fs_len s = int (length (drop 1024 data)) \<and> fs_address s = start + 1024 \<and> fs_prev s = sint start"
  have ne: "data \<noteq> []" "drop 1024 data \<noteq> []" using assms(3) by auto
  have start: "sint start \<noteq> -1" "start \<noteq> start + 1024"
  proof -
    show "sint start \<noteq> -1"
    proof
      assume "sint start = -1"
      then have "word_of_int (sint start) = (word_of_int (-1) :: u32)" by simp
      then have "start = -1" by simp
      then show False using assms(5) by simp
    qed
    show "start \<noteq> start + 1024" by (simp add: word_eq_iff_unsigned)
  qed
  show ?thesis
  proof (rule endlessI [where P = "\<lambda>(s, w). wf_fw (fs_ctx s) \<and> (?first s \<or> ?second s)"])
    show "case (\<lparr>fs_ctx = c, fs_prev = -1, fs_len = int (length data), fs_address = start\<rparr>, w) of
        (s, w) \<Rightarrow> wf_fw (fs_ctx s) \<and> (?first s \<or> ?second s)" using assms(1) by simp
  next
    fix v :: "fw_send \<times> 'w" assume "case v of (s, w) \<Rightarrow> wf_fw (fs_ctx s) \<and> (?first s \<or> ?second s)"
    then obtain s w where v: "v = (s, w)" "wf_fw (fs_ctx s)" "?first s \<or> ?second s" by (cases v) auto
    show "\<exists>v'. ?f v = Some (Inl v') \<and> (case v' of (s, w) \<Rightarrow> wf_fw (fs_ctx s) \<and> (?first s \<or> ?second s))"
    proof (cases "?first s")
      case True
      obtain c1 where f: "fw_fill data start s = Some (s\<lparr>fs_ctx := c1, fs_len := int (length (drop 1024 data))\<rparr>)" "wf_fw c1"
        "take 1028 (fw_tx c1) = le32 start @ pad_page (take 1024 data)"
        using fw_fill_page [OF v(2), of data start data] True ne by auto
      have "\<exists>s2 w2. ?f (s, w) = Some (Inl (s2, w2)) \<and> wf_fw (fs_ctx s2) \<and> ?second s2"
        using send_step [OF f(1) _ _ assms(2) _ length_pad_page, of start "take 1024 data" "length data" w] f(2,3) True start
        by (auto simp: le32_inj)
      then show ?thesis using v(1) by blast
    next
      case False
      with v(3) have s: "?second s" by simp
      have "unat (fs_address s - start) = 1024" using s by simp
      then obtain c1 where f: "fw_fill data start s = Some (s\<lparr>fs_ctx := c1, fs_len := int (length (drop 1024 (drop 1024 data)))\<rparr>)"
        "wf_fw c1" "take 1028 (fw_tx c1) = le32 (start + 1024) @ pad_page (take 1024 (drop 1024 data))"
        using fw_fill_page [OF v(2), of "drop 1024 data" start data] s ne by auto
      have "\<exists>s2 w2. ?f (s, w) = Some (Inl (s2, w2)) \<and> wf_fw (fs_ctx s2) \<and> ?first s2"
        using send_step [OF f(1) _ _ assms(2) _ length_pad_page, of "start + 1024" "take 1024 (drop 1024 data)" "length data" w]
          f(2,3) s start by auto
      then show ?thesis using v(1) by blast
    qed
  qed
qed

section \<open>A board that keeps a record\<close>

definition flash_bus :: "(u8 list \<Rightarrow> bool) \<Rightarrow> u8 list list os" where
  "flash_bus good =
     \<lparr>os_spi_message = (\<lambda>fd out w. let b = concat (map snd out) in
        (1, (if good (take 4 b) then le32 ARM_FIRMWARE_KEY else replicate 4 0) @ replicate 1026 0, w @ [b])),
      os_spi_speed = (\<lambda>_ _ w. w), os_open = (\<lambda>_ w. (3, w)), os_close = (\<lambda>_ w. w),
      os_read = (\<lambda>_ _ w. (0, [], 0, w)), os_write = (\<lambda>_ _ w. (0, w)), os_send = (\<lambda>_ _ w. (0, 0, w)),
      os_cflag = (\<lambda>_ w. (None, w)), os_file = (\<lambda>_ _. None)\<rparr>"

lemma key_not_0: "le32 ARM_FIRMWARE_KEY \<noteq> replicate 4 0"
  by code_simp

lemma flash_bus_acks: "acks (flash_bus good) dev good"
  using key_not_0 by (auto simp: acks_def flash_bus_def Let_def)

lemma flash_bus_records: "records (flash_bus good) dev (\<lambda>w. w)"
  by (auto simp: records_def flash_bus_def Let_def)

definition fresh_fw :: fw_context where
  "fresh_fw = \<lparr>fw_tx = replicate 1032 0, fw_rx = replicate 1032 0, fw_tr = fw_transfers\<rparr>"

lemma wf_fresh_fw: "wf_fw fresh_fw"
  by (simp add: wf_fw_def fresh_fw_def)

theorem send_firmware_sends_pages_witness:
  "\<exists>c' w'. send_firmware (flash_bus (\<lambda>_. True)) 3 [1, 2, 3] (length [1, 2, 3 :: u8]) 0 fresh_fw [] = Some (c', w') \<and>
     w' = [fw_frame 0 ([1, 2, 3] @ replicate 1021 0xff), fw_frame 1024 ([1, 2, 3] @ replicate 1021 0xff)]"
proof -
  have "fw_pages [1, 2, 3] = [[1, 2, 3] @ replicate 1021 0xff]"
    by (subst fw_pages.simps) (simp add: pages_Nil pad_page_def)
  then show ?thesis
    using send_firmware_sends_pages [OF wf_fresh_fw flash_bus_acks flash_bus_records, of "[1, 2, 3]" 3 0 "[]"] by auto
qed

theorem send_firmware_livelock_witness:
  "endless (send_firmware_step (flash_bus (\<lambda>b. b \<noteq> le32 (0 + 1024))) 3 (replicate 2000 0) (length (replicate 2000 (0::u8))) 0)
    (\<lparr>fs_ctx = fresh_fw, fs_prev = -1, fs_len = int (length (replicate 2000 (0::u8))), fs_address = 0\<rparr>, [])"
  by (rule send_firmware_livelock [OF wf_fresh_fw flash_bus_acks]) simp_all

end
