(* ===== verification/Nb_Firmware.thy ===== *)
theory Nb_Firmware
  imports Arm_Firmware_Correct
begin

text \<open>
  The parts of \<open>nb_modbus.c\<close> that own the boards: adding one, closing all, and the update of a
  board's firmware from files.
\<close>

section \<open>Boards\<close>

text \<open>
  The value of \<open>add_arm\<close> is \<open>None\<close> where it runs off its end. \<open>zeroed\<close> is the handle that
  \<open>calloc\<close> returns, \<open>None\<close> when it fails.
\<close>

definition add_arm ::
  "'w os \<Rightarrow> nat \<Rightarrow> arm_handle option \<Rightarrow> u8 \<Rightarrow> string \<Rightarrow> int \<Rightarrow> string option \<Rightarrow> arm_handle nb_modbus \<Rightarrow> 'w \<Rightarrow>
     (int option \<times> arm_handle nb_modbus \<times> 'w) option" where
  "add_arm os nss_pause zeroed index device speed gpio nb w =
     (if MAX_ARMS \<le> uint index then Some (Some (-1), nb, w)
      else case zeroed of
        None \<Rightarrow> Some (Some (-1), nb, w)
      | Some a \<Rightarrow>
          do { (rc, a, w) \<leftarrow> arm_init os nss_pause a device speed (uint index) gpio w;
               if rc = 0 then
                 if unat index < length (nb_arm nb) then Some (None, nb\<lparr>nb_arm := (nb_arm nb)[unat index := Some a]\<rparr>, w)
                 else None
               else Some (Some (-1), nb, w) })"

text \<open>The boards are closed; \<open>modbus_free\<close> and the freed blocks are left out.\<close>

definition close_arm :: "'w os \<Rightarrow> arm_handle option \<Rightarrow> 'w \<Rightarrow> 'w" where
  "close_arm os arm w =
     (case arm of None \<Rightarrow> w
      | Some a \<Rightarrow> let w = os_close os (fd a) w in if 0 \<le> fdint a then os_close os (fdint a) w else w)"

definition nb_modbus_free :: "'w os \<Rightarrow> arm_handle nb_modbus option \<Rightarrow> 'w \<Rightarrow> 'w" where
  "nb_modbus_free os nb w =
     (case nb of None \<Rightarrow> w | Some nb \<Rightarrow> fold (close_arm os) (take (nat MAX_ARMS) (nb_arm nb)) w)"

section \<open>Firmware files\<close>

text \<open>
  The two kinds of blocks that are passed around as \<open>void*\<close> or through a wrong prototype. A
  \<open>Tfirmware_context\<close> (four pointers) is smaller than the offset of \<open>bv\<close> in an \<open>arm_handle\<close>,
  and an \<open>arm_handle\<close> holds no pointers where a \<open>Tfirmware_context\<close> has them: an access to the
  other kind of block is a fault.
\<close>

datatype fw_ptr = Arm_Ptr arm_handle | Fw_Ptr fw_context

text \<open>\<open>malloc\<close>, \<open>strcpy\<close> and \<open>strcat\<close>: the text must fit in the block.\<close>

definition fw_file_name :: "fw_ptr \<Rightarrow> string \<Rightarrow> string \<Rightarrow> string option" where
  "fw_file_name p fwdir ext =
     (case p of
        Fw_Ptr _ \<Rightarrow> None
      | Arm_Ptr a \<Rightarrow>
          let armname = arm_name (hw_version (bv a)) in
          str_into (length fwdir + length armname + length ext + 2) (dir_prefix fwdir @ armname @ ext))"

text \<open>
  Files: the contents when \<open>open\<close> succeeds, and whether \<open>fstat\<close> and \<open>mmap\<close> then succeed.
\<close>

record 'w fw_files =
  ff_open :: "string \<Rightarrow> 'w \<Rightarrow> u8 list option"
  ff_fstat :: "string \<Rightarrow> 'w \<Rightarrow> bool"
  ff_mmap :: "string \<Rightarrow> 'w \<Rightarrow> bool"

definition arm_flash_file ::
  "'w os \<Rightarrow> 'w fw_files \<Rightarrow> int \<Rightarrow> fw_ptr \<Rightarrow> string \<Rightarrow> 'w \<Rightarrow> (fw_ptr \<times> 'w) option" where
  "arm_flash_file os ff dev fwctx fwname w =
     (case ff_open ff fwname w of
        None \<Rightarrow> Some (fwctx, w)
      | Some bytes \<Rightarrow>
          if \<not> ff_fstat ff fwname w \<or> length bytes \<le> 1024 \<or> \<not> ff_mmap ff fwname w then Some (fwctx, w)
          else case fwctx of
            Arm_Ptr _ \<Rightarrow> None
          | Fw_Ptr c \<Rightarrow> do { (c, w) \<leftarrow> send_firmware os dev bytes (length bytes) 0 c w; Some (Fw_Ptr c, w) })"

text \<open>
  The file for the non-volatile memory; \<open>buffer\<close> is the array of 128 registers. Unless
  \<open>overwrite\<close>, the registers that the board has, all but the last, are kept.
\<close>

definition arm_flash_rw_file ::
  "'w os \<Rightarrow> 'w fw_files \<Rightarrow> mem \<Rightarrow> arm_handle \<Rightarrow> fw_context \<Rightarrow> string \<Rightarrow> bool \<Rightarrow> 'w \<Rightarrow>
     (arm_handle \<times> fw_context \<times> 'w) option" where
  "arm_flash_rw_file os ff buffer a c fwname overwrite w =
     (case ff_open ff fwname w of
        None \<Rightarrow> Some (a, c, w)
      | Some bytes \<Rightarrow>
          let len_file = length bytes in
          if \<not> ff_fstat ff fwname w \<or> \<not> (6 < len_file \<and> len_file < 256) then Some (a, c, w)
          else do {
            (n2000, buffer, a, w) \<leftarrow> read_regs os 2000 (word_of_nat (len_file div 2)) buffer 0 a w;
            if \<not> (0 < n2000 \<or> overwrite) \<or> \<not> ff_mmap ff fwname w then Some (a, c, w)
            else if overwrite then
              do { (c, w) \<leftarrow> send_firmware os (fd a) bytes len_file 0xe000 c w; Some (a, c, w) }
            else do {
              let off = 2 * (n2000 - 1);
              bs \<leftarrow> rd_blk bytes off (int len_file - off);
              buffer \<leftarrow> wr_blk buffer off bs;
              (c, w) \<leftarrow> send_firmware os (fd a) buffer len_file 0xe000 c w;
              Some (a, c, w) } })"

text \<open>The version at the end of the file: the last four bytes, or the upper two of them.\<close>

definition file_version :: "'w fw_files \<Rightarrow> string \<Rightarrow> 'w \<Rightarrow> int option" where
  "file_version ff fwname w =
     (case ff_open ff fwname w of
        None \<Rightarrow> Some 0
      | Some bytes \<Rightarrow>
          if length bytes < 4 then Some 0
          else do { v \<leftarrow> rd32 bytes (length bytes - 4);
                    Some (uint (if v AND 0xff000000 \<noteq> 0 then drop_bit 16 v else v)) })"

text \<open>
  \<open>arm_firmware\<close>, with the arguments of its calls as they are written: \<open>_firmware_name\<close> gets
  the context and \<open>arm_flash_file\<close> the handle. \<open>nvram\<close> and \<open>regs\<close> are the uninitialised
  arrays; the value is \<open>None\<close> where it runs off its end.
\<close>

definition arm_firmware ::
  "'w os \<Rightarrow> 'w fw_files \<Rightarrow> nat \<Rightarrow> mem \<Rightarrow> mem \<Rightarrow> arm_handle \<Rightarrow> string \<Rightarrow> bool \<Rightarrow> 'w \<Rightarrow>
     (int option \<times> arm_handle \<times> 'w) option" where
  "arm_firmware os ff mem_ok nvram regs a fwdir overwrite w =
     do { fwname \<leftarrow> fw_file_name (Arm_Ptr a) fwdir ''.rw'';
          fwver \<leftarrow> file_version ff fwname w;
          if uint (sw_version (bv a)) < fwver then
            do { (ctx, a, w) \<leftarrow> start_firmware os mem_ok a w;
                 case ctx of
                   None \<Rightarrow> Some (Some (-1), a, w)
                 | Some c \<Rightarrow>
                     do { fwname \<leftarrow> fw_file_name (Arm_Ptr a) fwdir ''.rw'';
                          (a, c, w) \<leftarrow> arm_flash_rw_file os ff nvram a c fwname overwrite w;
                          fwname \<leftarrow> fw_file_name (Fw_Ptr c) fwdir ''.bin'';
                          (p, w) \<leftarrow> arm_flash_file os ff (fd a) (Arm_Ptr a) fwname w;
                          (_, w) \<leftarrow> finish_firmware os (fd a) c w;
                          (n, regs, a, w) \<leftarrow> read_regs os 1000 5 regs 0 a w;
                          Some (None, if n = 5 then a\<lparr>bv := parse_version (bv a) (regs_of regs)\<rparr> else a, w) } }
          else Some (None, a, w) }"

section \<open>Properties\<close>

lemma fw_file_name_fits: "\<exists>s. fw_file_name (Arm_Ptr a) fwdir ext = Some s"
  using length_dir_prefix [of fwdir] by (simp add: fw_file_name_def str_into_def Let_def)

lemma arm_firmware_newer:
  assumes "fw_file_name (Arm_Ptr a) fwdir ''.rw'' = Some name" and "file_version ff name w = Some v"
    and "uint (sw_version (bv a)) < v" and "4 \<le> mem_ok"
  shows "arm_firmware os ff mem_ok nvram regs a fwdir overwrite w = None"
proof (rule ccontr)
  assume "arm_firmware os ff mem_ok nvram regs a fwdir overwrite w \<noteq> None"
  then show False using assms
    by (auto simp: arm_firmware_def start_firmware_def fw_alloc_def fw_file_name_def
        split: option.splits elim!: bind_SomeE)
qed

lemma arm_firmware_unchanged:
  assumes "arm_firmware os ff mem_ok nvram regs a fwdir overwrite w = Some (r, a', w')"
  shows "a' = a"
proof -
  obtain name where n: "fw_file_name (Arm_Ptr a) fwdir ''.rw'' = Some name" using fw_file_name_fits by blast
  obtain v where v: "file_version ff name w = Some v" using assms n
    by (auto simp: arm_firmware_def elim!: bind_SomeE)
  show ?thesis
  proof (cases "uint (sw_version (bv a)) < v")
    case True
    then have "mem_ok < 4" using arm_firmware_newer [OF n v] assms by (metis not_less option.distinct(1))
    then show ?thesis using assms n v True by (simp add: arm_firmware_def start_firmware_def fw_alloc_def)
  next
    case False
    then show ?thesis using assms n v by (simp add: arm_firmware_def)
  qed
qed

text \<open>
  C35. \<open>arm_firmware\<close> leaves a board alone whose software is not older than the file, and never
  completes an update: when the file is newer and there is memory for the transfer, it goes
  on to read the board's version out of the transfer's context, a smaller block of another
  type, which C leaves undefined.
\<close>

theorem arm_firmware_never_updates:
  assumes "fw_file_name (Arm_Ptr a) fwdir ''.rw'' = Some name" and "file_version ff name w = Some v"
  shows "(v \<le> uint (sw_version (bv a)) \<longrightarrow> arm_firmware os ff mem_ok nvram regs a fwdir overwrite w = Some (None, a, w)) \<and>
    (uint (sw_version (bv a)) < v \<and> 4 \<le> mem_ok \<longrightarrow> arm_firmware os ff mem_ok nvram regs a fwdir overwrite w = None)"
proof (intro conjI impI)
  show "arm_firmware os ff mem_ok nvram regs a fwdir overwrite w = Some (None, a, w)" if "v \<le> uint (sw_version (bv a))"
    using assms that by (simp add: arm_firmware_def)
  show "arm_firmware os ff mem_ok nvram regs a fwdir overwrite w = None" if "uint (sw_version (bv a)) < v \<and> 4 \<le> mem_ok"
    using arm_firmware_newer [OF assms] that by blast
qed

definition one_file :: "u8 list \<Rightarrow> unit fw_files" where
  "one_file bytes = \<lparr>ff_open = (\<lambda>_ _. Some bytes), ff_fstat = (\<lambda>_ _. True), ff_mmap = (\<lambda>_ _. True)\<rparr>"

theorem arm_firmware_never_updates_witness:
  "arm_firmware dead_bus (one_file [0, 0, 0, 6]) 4 [] [] blank_arm ''/opt/fw'' False () = None"
proof -
  obtain name where n: "fw_file_name (Arm_Ptr blank_arm) ''/opt/fw'' ''.rw'' = Some name" using fw_file_name_fits by blast
  have v: "file_version (one_file [0, 0, 0, 6]) name () = Some 0x600" unfolding file_version_def one_file_def by code_simp
  show ?thesis
    using arm_firmware_never_updates [OF n v, where os = dead_bus and mem_ok = 4] by (simp add: blank_arm_def)
qed

end
