(* ===== verification/Tcp_Server.thy ===== *)
theory Tcp_Server
  imports Buffer_Pool Arm_Pty Nb_Firmware
begin

text \<open>
  \<open>neuron_tcp_server.c\<close>: the connections of the server and its event loop, on the pool of
  \<open>Buffer_Pool\<close>. Everything that the server touches in an event is in the record \<open>server\<close>; the
  system calls and the uninitialised arrays on the stack are in the record \<open>env\<close>. \<open>malloc\<close> and
  \<open>calloc\<close> succeed here; messages are left out.
\<close>

section \<open>Events and connections\<close>

definition EPOLLIN :: u32 where "EPOLLIN = 0x1"
definition EPOLLPRI :: u32 where "EPOLLPRI = 0x2"
definition EPOLLOUT :: u32 where "EPOLLOUT = 0x4"
definition EPOLLERR :: u32 where "EPOLLERR = 0x8"
definition EPOLLHUP :: u32 where "EPOLLHUP = 0x10"
definition EPOLLET :: u32 where "EPOLLET = 0x80000000"

lemmas epoll_flags = EPOLLIN_def EPOLLPRI_def EPOLLOUT_def EPOLLERR_def EPOLLHUP_def EPOLLET_def

definition ED_MODBUS_SOCKET :: int where "ED_MODBUS_SOCKET = 0"
definition ED_SERVER_SOCKET :: int where "ED_SERVER_SOCKET = 1"
definition ED_INTERRUPT :: int where "ED_INTERRUPT = 2"
definition ED_PTY :: int where "ED_PTY = 3"
definition RES_WRITE_QUEUE :: int where "RES_WRITE_QUEUE = 1"

lemmas ed_types = ED_MODBUS_SOCKET_def ED_SERVER_SOCKET_def ED_INTERRUPT_def ED_PTY_def

text \<open>
  \<open>mb_event_data_t\<close>. The type tells which member of the union is in use: the two buffers of a
  socket, or the board (its index) of an interrupt line or a terminal.
\<close>

record event_data =
  ed_fd :: int
  ed_type :: int
  rd_buffer :: "nat option"
  wr_buffer :: "nat option"
  ed_arm :: "nat option"

text \<open>
  A pointer to an \<open>event_data\<close> is its place in \<open>sv_events\<close>, which holds \<open>None\<close> when it has been
  freed. \<open>sv_ptr\<close> is what the variable \<open>event\<close> of \<open>main\<close> holds in \<open>event.data.ptr\<close>.
\<close>

record server =
  sv_events :: "event_data option list"
  sv_pool :: pool
  sv_nb :: "arm_handle nb_modbus"
  sv_ptr :: "nat option"

record 'w epoll_calls =
  ep_accept :: "int \<Rightarrow> 'w \<Rightarrow> int \<times> int \<times> 'w"
  ep_getfl :: "int \<Rightarrow> 'w \<Rightarrow> int \<times> 'w"
  ep_setfl :: "int \<Rightarrow> int \<Rightarrow> 'w \<Rightarrow> int \<times> 'w"
  ep_add :: "int \<Rightarrow> u32 \<Rightarrow> nat option \<Rightarrow> 'w \<Rightarrow> int \<times> 'w"
  ep_mod :: "int \<Rightarrow> u32 \<Rightarrow> nat option \<Rightarrow> 'w \<Rightarrow> int \<times> 'w"
  ep_pread :: "int \<Rightarrow> 'w \<Rightarrow> 'w"

record 'w env =
  en_os :: "'w os"
  en_ep :: "'w epoll_calls"
  en_pty :: "'w pty_calls"
  en_files :: "'w fw_files"
  en_version :: string
  en_uart_buf :: mem
  en_pty_buf :: mem
  en_mem_ok :: nat
  en_nvram :: mem
  en_regs :: mem

definition make_socket_non_blocking :: "'w epoll_calls \<Rightarrow> int \<Rightarrow> 'w \<Rightarrow> int \<times> 'w" where
  "make_socket_non_blocking ep sfd w =
     (let (flags, w) = ep_getfl ep sfd w in
      if flags = -1 then (-1, w)
      else let (s, w) = ep_setfl ep sfd (flags OR O_NONBLOCK) w in (if s = -1 then -1 else 0, w))"

section \<open>Sending a buffer\<close>

definition to_u16 :: "int \<Rightarrow> nat" where "to_u16 k = nat (k mod 65536)"

definition nb_send_step ::
  "'w os \<Rightarrow> int \<Rightarrow> nat \<Rightarrow> int \<times> pool \<times> 'w \<Rightarrow> (int \<times> pool \<times> 'w + int \<times> pool \<times> 'w) option" where
  "nb_send_step os dev i v =
     (case v of (wanted, p, w) \<Rightarrow>
      if wanted \<le> 0 then Some (Inr (0, p, w))
      else do {
        b \<leftarrow> buf p i;
        bytes \<leftarrow> rd_blk (b_data b) (int (b_sendindex b)) wanted;
        let (n, err, w) = os_send os dev bytes w;
        if n = -1 then Some (Inr (if err = EAGAIN then 1 else -1, p, w))
        else do { p \<leftarrow> upd_buf i (\<lambda>b. b\<lparr>b_sendindex := to_u16 (int (b_sendindex b) + n)\<rparr>) p;
                  Some (Inl (wanted - n, p, w)) } })"

definition nb_send :: "'w os \<Rightarrow> int \<Rightarrow> nat \<Rightarrow> pool \<Rightarrow> 'w \<Rightarrow> (int \<times> pool \<times> 'w) option" where
  "nb_send os dev i p w =
     do { b \<leftarrow> buf p i;
          loop (nb_send_step os dev i) (int (b_index b) - int (b_sendindex b), p, w) }"

section \<open>Answering the requests in a buffer\<close>

text \<open>The bytes behind the first request move to a new buffer; the result is whether there was one.\<close>

definition split_buffer ::
  "nat \<Rightarrow> int \<Rightarrow> event_data \<Rightarrow> pool \<Rightarrow> (bool \<times> event_data \<times> pool) option" where
  "split_buffer i reqlen ed p =
     do { b \<leftarrow> buf p i;
          if reqlen < int (b_index b) then
            do { (new_buf, p) \<leftarrow> get_from_pool p;
                 case new_buf of
                   None \<Rightarrow> Some (False, ed, p)
                 | Some j \<Rightarrow>
                     do { let n = to_u16 (int (b_index b) - reqlen);
                          p \<leftarrow> upd_buf j (\<lambda>b. b\<lparr>b_index := n\<rparr>) p;
                          bs \<leftarrow> rd_blk (b_data b) reqlen (int n);
                          nb \<leftarrow> buf p j;
                          m \<leftarrow> wr_blk (b_data nb) 0 bs;
                          p \<leftarrow> upd_buf j (\<lambda>b. b\<lparr>b_data := m\<rparr>) p;
                          Some (True, ed\<lparr>rd_buffer := Some j\<rparr>, p) } }
          else Some (True, ed\<lparr>rd_buffer := None\<rparr>, p) }"

text \<open>
  A reply is queued behind others or sent at once; a value below zero is a fatal error, one
  above zero says that the reply could not be sent completely.
\<close>

definition send_reply ::
  "'w os \<Rightarrow> nat \<Rightarrow> event_data \<Rightarrow> pool \<Rightarrow> 'w \<Rightarrow> (int \<times> event_data \<times> pool \<times> 'w) option" where
  "send_reply os i ed p w =
     (case wr_buffer ed of
        Some h \<Rightarrow>
          do { l \<leftarrow> last_buf p h;
               p \<leftarrow> upd_buf l (\<lambda>b. b\<lparr>b_next := Some i\<rparr>) p;
               Some (0, ed, p, w) }
      | None \<Rightarrow>
          do { (rc, p, w) \<leftarrow> nb_send os (ed_fd ed) i p w;
               if rc < 0 then do { p \<leftarrow> repool_buffer i p; Some (-1, ed, p, w) }
               else do {
                 let ed = (if 0 < rc then ed\<lparr>wr_buffer := Some i\<rparr> else ed);
                 p \<leftarrow> repool_buffer i p;
                 Some (if 0 < rc then RES_WRITE_QUEUE else 0, ed, p, w) } })"

text \<open>
  One turn of the loop of \<open>parse_buffer\<close>. Its variables are \<open>result\<close>, the connection, the pool,
  the boards and the world; its value is the result of the function with the others.
\<close>

type_synonym 'w serving = "int \<times> event_data \<times> pool \<times> arm_handle nb_modbus \<times> 'w"

definition answer_request ::
  "'w os \<Rightarrow> string \<Rightarrow> nat \<Rightarrow> int \<Rightarrow> 'w serving \<Rightarrow> ('w serving + 'w serving) option" where
  "answer_request os version i reqlen v =
     (case v of (result, ed, p, nb, w) \<Rightarrow>
      do { b \<leftarrow> buf p i;
           (len, rsp, nb, w) \<leftarrow> nb_modbus_reply (arm_board os) version nb (b_data b) reqlen w;
           p \<leftarrow> upd_buf i (\<lambda>b. b\<lparr>b_data := rsp, b_index := to_u16 len\<rparr>) p;
           if 0 < to_u16 len then
             do { (rc, ed, p, w) \<leftarrow> send_reply os i ed p w;
                  Some (if rc < 0 then Inr (-1, ed, p, nb, w)
                        else Inl (if 0 < rc then RES_WRITE_QUEUE else result, ed, p, nb, w)) }
           else do { p \<leftarrow> repool_buffer i p; Some (Inl (result, ed, p, nb, w)) } })"

definition parse_step ::
  "'w os \<Rightarrow> string \<Rightarrow> 'w serving \<Rightarrow> ('w serving + 'w serving) option" where
  "parse_step os version v =
     (case v of (result, ed, p, nb, w) \<Rightarrow>
      case rd_buffer ed of
        None \<Rightarrow> Some (Inr (0, ed, p, nb, w))
      | Some i \<Rightarrow>
          do { b \<leftarrow> buf p i;
               reqlen \<leftarrow> nb_modbus_reqlen (b_data b) (word_of_nat (b_index b));
               if reqlen = 0 then Some (Inr (result, ed, p, nb, w))
               else if int MAX_MB_BUFFER_LEN < reqlen then Some (Inr (-1, ed, p, nb, w))
               else do {
                 (ok, ed, p) \<leftarrow> split_buffer i reqlen ed p;
                 if \<not> ok then Some (Inr (-1, ed, p, nb, w))
                 else answer_request os version i reqlen (result, ed, p, nb, w) } })"

definition parse_buffer ::
  "'w os \<Rightarrow> string \<Rightarrow> event_data \<Rightarrow> pool \<Rightarrow> arm_handle nb_modbus \<Rightarrow> 'w \<Rightarrow> 'w serving option" where
  "parse_buffer os version ed p nb w = loop (parse_step os version) (0, ed, p, nb, w)"

section \<open>Closing a connection\<close>

definition get_event :: "nat \<Rightarrow> server \<Rightarrow> event_data option" where
  "get_event i s = (if i < length (sv_events s) then sv_events s ! i else None)"

definition put_event :: "nat \<Rightarrow> event_data \<Rightarrow> server \<Rightarrow> server" where
  "put_event i ed s = s\<lparr>sv_events := (sv_events s)[i := Some ed]\<rparr>"

definition repool_opt :: "nat option \<Rightarrow> pool \<Rightarrow> pool option" where
  "repool_opt b p = (case b of None \<Rightarrow> Some p | Some i \<Rightarrow> repool_buffer i p)"

definition close_event :: "'w os \<Rightarrow> nat \<Rightarrow> server \<Rightarrow> 'w \<Rightarrow> (server \<times> 'w) option" where
  "close_event os i s w =
     do { ed \<leftarrow> get_event i s;
          p \<leftarrow> repool_opt (rd_buffer ed) (sv_pool s);
          p \<leftarrow> repool_opt (wr_buffer ed) p;
          Some (s\<lparr>sv_events := (sv_events s)[i := None], sv_pool := p\<rparr>, os_close os (ed_fd ed) w) }"

section \<open>A writable connection\<close>

text \<open>
  The comparison \<open>event_data->wr_buffer == buffer->next\<close>, where an assignment was meant, has no
  effect. A connection without a \<open>wr_buffer\<close> makes \<open>nb_send\<close> read through \<open>NULL\<close>.
\<close>

definition write_step ::
  "'w env \<Rightarrow> nat \<Rightarrow> server \<times> 'w \<Rightarrow> (server \<times> 'w + server \<times> 'w) option" where
  "write_step e i v =
     (case v of (s, w) \<Rightarrow>
      do { ed \<leftarrow> get_event i s;
           h \<leftarrow> wr_buffer ed;
           (rc, p, w) \<leftarrow> nb_send (en_os e) (ed_fd ed) h (sv_pool s) w;
           let s = s\<lparr>sv_pool := p\<rparr>;
           if rc < 0 then do { r \<leftarrow> close_event (en_os e) i s w; Some (Inr r) }
           else if rc = 0 then
             do { p \<leftarrow> upd_buf h (\<lambda>b. b\<lparr>b_next := None\<rparr>) p;
                  p \<leftarrow> repool_buffer h p;
                  let s = s\<lparr>sv_pool := p\<rparr>;
                  Some (if wr_buffer ed = None
                        then Inr (s, snd (ep_mod (en_ep e) (ed_fd ed) (EPOLLIN OR EPOLLET) (sv_ptr s) w))
                        else Inl (s, w)) }
           else Some (Inr (s, w)) })"

section \<open>A readable connection\<close>

text \<open>The buffer to read into, from the pool if the connection has none.\<close>

definition reading_buffer :: "nat \<Rightarrow> server \<Rightarrow> (nat option \<times> server) option" where
  "reading_buffer i s =
     do { ed \<leftarrow> get_event i s;
          case rd_buffer ed of
            Some j \<Rightarrow> Some (Some j, s)
          | None \<Rightarrow>
              do { (j, p) \<leftarrow> get_from_pool (sv_pool s);
                   Some (j, put_event i (ed\<lparr>rd_buffer := j\<rparr>) (s\<lparr>sv_pool := p\<rparr>)) } }"

text \<open>After bytes have arrived: the requests are answered. The result is whether to go on reading.\<close>

definition serve_data :: "'w env \<Rightarrow> nat \<Rightarrow> bool \<Rightarrow> server \<Rightarrow> 'w \<Rightarrow> (bool \<times> server \<times> 'w) option" where
  "serve_data e i full s w =
     do { ed \<leftarrow> get_event i s;
          (rc, ed, p, nb, w) \<leftarrow> parse_buffer (en_os e) (en_version e) ed (sv_pool s) (sv_nb s) w;
          let s = put_event i ed (s\<lparr>sv_pool := p, sv_nb := nb\<rparr>);
          if rc = -1 then do { (s, w) \<leftarrow> close_event (en_os e) i s w; Some (False, s, w) }
          else if rc = RES_WRITE_QUEUE then
            Some (full, s\<lparr>sv_ptr := Some i\<rparr>,
              snd (ep_mod (en_ep e) (ed_fd ed) (EPOLLIN OR EPOLLOUT OR EPOLLET) (Some i) w))
          else Some (full, s, w) }"

definition read_step ::
  "'w env \<Rightarrow> nat \<Rightarrow> server \<times> 'w \<Rightarrow> (server \<times> 'w + server \<times> 'w) option" where
  "read_step e i v =
     (case v of (s, w) \<Rightarrow>
      do { (j, s) \<leftarrow> reading_buffer i s;
           case j of
             None \<Rightarrow> Some (Inr (s, w))
           | Some j \<Rightarrow>
               do { ed \<leftarrow> get_event i s;
                    b \<leftarrow> buf (sv_pool s) j;
                    let wanted = int MAX_MB_BUFFER_LEN - int (b_index b);
                    if wanted < 0 then None
                    else do {
                      let (count, bytes, err, w) = os_read (en_os e) (ed_fd ed) (nat wanted) w;
                      m \<leftarrow> wr_blk (b_data b) (int (b_index b)) bytes;
                      p \<leftarrow> upd_buf j (\<lambda>b. b\<lparr>b_data := m\<rparr>) (sv_pool s);
                      if count = -1 \<and> err = EAGAIN then Some (Inr (s\<lparr>sv_pool := p\<rparr>, w))
                      else if count = -1 \<or> count = 0 then
                        do { r \<leftarrow> close_event (en_os e) i (s\<lparr>sv_pool := p\<rparr>) w; Some (Inr r) }
                      else do {
                        p \<leftarrow> upd_buf j (\<lambda>b. b\<lparr>b_index := to_u16 (int (b_index b) + count)\<rparr>) p;
                        (more, s, w) \<leftarrow> serve_data e i (wanted \<le> count) (s\<lparr>sv_pool := p\<rparr>) w;
                        Some (if more then Inl (s, w) else Inr (s, w)) } } } })"

section \<open>The listening socket\<close>

definition accept_step ::
  "'w env \<Rightarrow> int \<Rightarrow> server \<times> 'w \<Rightarrow> (server \<times> 'w + server \<times> 'w) option" where
  "accept_step e server_socket v =
     (case v of (s, w) \<Rightarrow>
      case ep_accept (en_ep e) server_socket w of (newfd, err, w) \<Rightarrow>
      if newfd = -1 then Some (Inr (s, w))
      else case make_socket_non_blocking (en_ep e) newfd w of (rc, w) \<Rightarrow>
      if rc = -1 then Some (Inl (s, os_close (en_os e) newfd w))
      else
        let i = length (sv_events s);
            ed = \<lparr>ed_fd = newfd, ed_type = ED_MODBUS_SOCKET, rd_buffer = None, wr_buffer = None, ed_arm = None\<rparr>;
            s = s\<lparr>sv_events := sv_events s @ [Some ed], sv_ptr := Some i\<rparr> in
        case ep_add (en_ep e) newfd (EPOLLIN OR EPOLLET) (Some i) w of (rc, w) \<Rightarrow>
        if rc = -1 then do { r \<leftarrow> close_event (en_os e) i s w; Some (Inl r) }
        else Some (Inl (s, w)))"

section \<open>One event\<close>

definition with_arm ::
  "nat \<Rightarrow> (arm_handle \<Rightarrow> 'w \<Rightarrow> (arm_handle \<times> 'w) option) \<Rightarrow> server \<Rightarrow> 'w \<Rightarrow> (server \<times> 'w) option" where
  "with_arm k f s w =
     do { arm \<leftarrow> (if k < length (nb_arm (sv_nb s)) then nb_arm (sv_nb s) ! k else None);
          (a, w) \<leftarrow> f arm w;
          Some (s\<lparr>sv_nb := (sv_nb s)\<lparr>nb_arm := (nb_arm (sv_nb s))[k := Some a]\<rparr>\<rparr>, w) }"

definition handle_board ::
  "'w env \<Rightarrow> event_data \<Rightarrow> u32 \<Rightarrow> server \<Rightarrow> 'w \<Rightarrow> (server \<times> 'w) option" where
  "handle_board e ed events s w =
     (case ed_arm ed of
        None \<Rightarrow> Some (s, w)
      | Some k \<Rightarrow>
          if ed_type ed = ED_INTERRUPT then
            if events AND EPOLLPRI \<noteq> 0 then
              with_arm k (armpty_readuart (en_os e) (en_uart_buf e) True) s (ep_pread (en_ep e) (ed_fd ed) w)
            else Some (s, w)
          else do {
            (s, w) \<leftarrow> (if events AND EPOLLPRI \<noteq> 0
                        then with_arm k (armpty_setuart (en_os e) (en_pty e) (ed_fd ed) 0) s w else Some (s, w));
            if events AND EPOLLIN \<noteq> 0
            then with_arm k (armpty_readpty (en_os e) (ed_fd ed) 0 (en_pty_buf e)) s w else Some (s, w) })"

text \<open>
  After a fatal error in the writing loop the connection has been freed, and the next access
  to it is a fault.
\<close>

definition handle_event ::
  "'w env \<Rightarrow> int \<Rightarrow> nat \<times> u32 \<Rightarrow> server \<Rightarrow> 'w \<Rightarrow> (server \<times> 'w) option" where
  "handle_event e server_socket ev s w =
     (case ev of (i, events) \<Rightarrow>
      do { ed \<leftarrow> get_event i s;
           if ed_type ed = ED_INTERRUPT \<or> ed_type ed = ED_PTY then handle_board e ed events s w
           else if events AND EPOLLERR \<noteq> 0 \<or> events AND EPOLLHUP \<noteq> 0 \<or> events AND EPOLLIN = 0 then
             close_event (en_os e) i s w
           else if ed_type ed = ED_SERVER_SOCKET then loop (accept_step e server_socket) (s, w)
           else do {
             (s, w) \<leftarrow> (if events AND EPOLLOUT \<noteq> 0 then loop (write_step e i) (s, w) else Some (s, w));
             if events AND EPOLLIN \<noteq> 0 then loop (read_step e i) (s, w) else Some (s, w) } })"

section \<open>One turn of the event loop\<close>

text \<open>
  The deferred firmware update, the events that \<open>epoll_wait\<close> has returned, in order, and the
  polling of boards without an interrupt line.
\<close>

definition deferred_firmware :: "'w env \<Rightarrow> string \<Rightarrow> server \<Rightarrow> 'w \<Rightarrow> (server \<times> 'w) option" where
  "deferred_firmware e fwdir s w =
     (if deferred_op (sv_nb s) = DFR_OP_FIRMWARE then
        do { let s = s\<lparr>sv_nb := (sv_nb s)\<lparr>deferred_op := DFR_NONE\<rparr>\<rparr>;
             k \<leftarrow> deferred_arm (sv_nb s);
             with_arm k (\<lambda>a w. do {
                 (_, a, w) \<leftarrow> arm_firmware (en_os e) (en_files e) (en_mem_ok e) (en_nvram e) (en_regs e) a fwdir False w;
                 Some (a, w) }) s w }
      else Some (s, w))"

definition poll_board :: "'w env \<Rightarrow> nat \<Rightarrow> server \<times> 'w \<Rightarrow> (server \<times> 'w) option" where
  "poll_board e k v =
     (case v of (s, w) \<Rightarrow>
      if length (nb_arm (sv_nb s)) \<le> k then None
      else case nb_arm (sv_nb s) ! k of
        None \<Rightarrow> Some (s, w)
      | Some a \<Rightarrow>
          if int_mask_register (bv a) \<le> 0 \<and> 0 < uart_count (bv a)
          then with_arm k (armpty_readuart (en_os e) (en_uart_buf e) True) s w
          else Some (s, w))"

definition server_turn ::
  "'w env \<Rightarrow> string \<Rightarrow> int \<Rightarrow> int \<Rightarrow> (nat \<times> u32) list \<Rightarrow> server \<Rightarrow> 'w \<Rightarrow> (server \<times> 'w) option" where
  "server_turn e fwdir server_socket poll_timeout events s w =
     do { (s, w) \<leftarrow> deferred_firmware e fwdir s w;
          (s, w) \<leftarrow> for_each events (\<lambda>ev (s, w). handle_event e server_socket ev s w) (s, w);
          if 0 < poll_timeout then for_each [0..<nat MAX_ARMS] (poll_board e) (s, w) else Some (s, w) }"

end
