(* ===== verification/Tcp_Server_Correct.thy ===== *)
theory Tcp_Server_Correct
  imports Tcp_Server
begin

text \<open>
  The event loop of the server: what \<open>parse_buffer\<close> answers, the ownership of the buffers in
  every reachable state, and what goes wrong once a reply cannot be sent at once.
\<close>

section \<open>Sending\<close>

text \<open>
  Documented behaviour of \<open>send\<close> on a non-blocking socket: it takes at least one byte and at
  most those it is given, or fails.
\<close>

definition sends :: "'w os \<Rightarrow> bool" where
  "sends os \<longleftrightarrow>
     (\<forall>f bytes w n err w'. os_send os f bytes w = (n, err, w') \<longrightarrow> bytes \<noteq> [] \<longrightarrow>
        n = -1 \<or> 1 \<le> n \<and> n \<le> int (length bytes))"

text \<open>The bytes of a message as they are taken by one or more calls of \<open>send\<close>.\<close>

inductive sent_all :: "'w os \<Rightarrow> int \<Rightarrow> u8 list \<Rightarrow> 'w \<Rightarrow> 'w \<Rightarrow> bool" for os f where
  nothing: "sent_all os f [] w w"
| piece: "os_send os f bytes w = (n, err, w1) \<Longrightarrow> 1 \<le> n \<Longrightarrow> n \<le> int (length bytes) \<Longrightarrow>
    sent_all os f (drop (nat n) bytes) w1 w2 \<Longrightarrow> sent_all os f bytes w w2"

inductive_cases sent_all_NilE: "sent_all os f [] w w'"

text \<open>
  A message that is not sent completely: after some pieces a call of \<open>send\<close> fails, with \<open>EAGAIN\<close>
  when the buffer of the socket is full (\<open>full\<close>), or with another error.
\<close>

inductive send_stops :: "'w os \<Rightarrow> int \<Rightarrow> bool \<Rightarrow> u8 list \<Rightarrow> 'w \<Rightarrow> 'w \<Rightarrow> bool" for os f full where
  refused: "bytes \<noteq> [] \<Longrightarrow> os_send os f bytes w = (-1, err, w1) \<Longrightarrow> full = (err = EAGAIN) \<Longrightarrow>
    send_stops os f full bytes w w1"
| part: "os_send os f bytes w = (n, err, w1) \<Longrightarrow> 1 \<le> n \<Longrightarrow> n < int (length bytes) \<Longrightarrow>
    send_stops os f full (drop (nat n) bytes) w1 w2 \<Longrightarrow> send_stops os f full bytes w w2"

inductive_cases send_stops_NilE: "send_stops os f full [] w w'"

lemma to_u16_id: "0 \<le> k \<Longrightarrow> k < 65536 \<Longrightarrow> to_u16 k = nat k"
  by (simp add: to_u16_def)

text \<open>A buffer that holds \<open>b_index\<close> bytes, none of them sent yet.\<close>

definition unsent :: "mb_buffer \<Rightarrow> bool" where
  "unsent b \<longleftrightarrow> b_sendindex b = 0 \<and> b_index b \<le> 260"

definition held_bytes :: "mb_buffer \<Rightarrow> u8 list" where
  "held_bytes b = take (b_index b) (b_data b)"

lemma nb_send_loop_spec:
  assumes "owned p free held" and "i \<in> held" and "sends os"
    and "b_index (bufs p ! i) \<le> 260" and "b_sendindex (bufs p ! i) \<le> b_index (bufs p ! i)"
  shows "\<exists>rc p' w'. loop (nb_send_step os f i) (int (b_index (bufs p ! i)) - int (b_sendindex (bufs p ! i)), p, w) =
      Some (rc, p', w') \<and> owned p' free held \<and> (\<forall>j. j \<noteq> i \<longrightarrow> bufs p' ! j = bufs p ! j) \<and>
    b_index (bufs p' ! i) = b_index (bufs p ! i) \<and> rc \<in> {0, 1, -1} \<and>
    (rc = 0 \<longrightarrow> b_sendindex (bufs p' ! i) = b_index (bufs p ! i) \<and>
       sent_all os f (drop (b_sendindex (bufs p ! i)) (held_bytes (bufs p ! i))) w w') \<and>
    (rc \<noteq> 0 \<longrightarrow> send_stops os f (rc = 1) (drop (b_sendindex (bufs p ! i)) (held_bytes (bufs p ! i))) w w')"
  using assms(1,4,5)
proof (induction "b_index (bufs p ! i) - b_sendindex (bufs p ! i)" arbitrary: p w rule: less_induct)
  case less
  let ?b = "bufs p ! i"
  have i: "i < length (bufs p)" "length (b_data ?b) = 260" "b_next ?b = None"
    using ownedD [OF less.prems(1)] assms(2) by (auto simp: MAX_MB_BUFFER_LEN_def)
  let ?left = "drop (b_sendindex ?b) (held_bytes ?b)"
  show ?case
  proof (cases "b_sendindex ?b = b_index ?b")
    case True
    have "nb_send_step os f i (int (b_index ?b) - int (b_sendindex ?b), p, w) = Some (Inr (0, p, w))"
      using True by (simp add: nb_send_step_def)
    from loop_Inr [of "nb_send_step os f i", OF this] show ?thesis
      using less.prems True by (simp add: held_bytes_def sent_all.nothing)
  next
    case False
    then have lt: "b_sendindex ?b < b_index ?b" using less.prems(3) by simp
    have rd: "rd_blk (b_data ?b) (int (b_sendindex ?b)) (int (b_index ?b) - int (b_sendindex ?b)) = Some ?left"
      using lt less.prems(2) i(2) by (simp add: no_fault held_bytes_def take_drop nat_diff_distrib)
    have ll: "length ?left = b_index ?b - b_sendindex ?b" "?left \<noteq> []" using lt less.prems(2) i(2) by (auto simp: held_bytes_def)
    obtain n err w1 where s: "os_send os f ?left w = (n, err, w1)" by (metis prod_cases3)
    show ?thesis
    proof (cases "n = -1")
      case True
      then have stops: "send_stops os f (err = EAGAIN) ?left w w1"
        using s ll(2) by (auto intro: send_stops.refused)
      have "nb_send_step os f i (int (b_index ?b) - int (b_sendindex ?b), p, w) =
          Some (Inr (if err = EAGAIN then 1 else -1, p, w1))"
        using True lt rd s i(1) by (simp add: nb_send_step_def buf_def)
      from loop_Inr [of "nb_send_step os f i", OF this] show ?thesis
        using less.prems(1) stops by (cases "err = EAGAIN") auto
    next
      case ok: False
      then have n: "1 \<le> n" "n \<le> int (b_index ?b - b_sendindex ?b)"
        using assms(3) s ll unfolding sends_def by force+
      let ?b2 = "?b\<lparr>b_sendindex := b_sendindex ?b + nat n\<rparr>"
      have u: "to_u16 (int (b_sendindex ?b) + n) = b_sendindex ?b + nat n"
        using n less.prems(2) lt by (subst to_u16_id) (auto simp: nat_add_distrib)
      obtain p1 where p1: "upd_buf i (\<lambda>b. b\<lparr>b_sendindex := to_u16 (int (b_sendindex b) + n)\<rparr>) p = Some p1"
        "owned p1 free held" "bufs p1 ! i = ?b2" "\<forall>j. j \<noteq> i \<longrightarrow> bufs p1 ! j = bufs p ! j"
        using upd_buf_held [OF less.prems(1) assms(2), of "\<lambda>b. b\<lparr>b_sendindex := to_u16 (int (b_sendindex b) + n)\<rparr>"] i u
        by (auto simp: MAX_MB_BUFFER_LEN_def)
      have st: "nb_send_step os f i (int (b_index ?b) - int (b_sendindex ?b), p, w) =
          Some (Inl (int (b_index ?b2) - int (b_sendindex ?b2), p1, w1))"
        using ok lt rd s i(1) p1(1) n by (simp add: nb_send_step_def buf_def)
      have m: "b_index (bufs p1 ! i) - b_sendindex (bufs p1 ! i) < b_index ?b - b_sendindex ?b" using p1(3) n lt by simp
      have le: "b_index (bufs p1 ! i) \<le> 260" "b_sendindex (bufs p1 ! i) \<le> b_index (bufs p1 ! i)"
        using p1(3) n less.prems(2) lt by auto
      obtain rc p' w' where r: "loop (nb_send_step os f i) (int (b_index (bufs p1 ! i)) - int (b_sendindex (bufs p1 ! i)), p1, w1) =
          Some (rc, p', w')" "owned p' free held" "\<forall>j. j \<noteq> i \<longrightarrow> bufs p' ! j = bufs p1 ! j"
        "b_index (bufs p' ! i) = b_index (bufs p1 ! i)" "rc \<in> {0, 1, -1}"
        "rc = 0 \<longrightarrow> b_sendindex (bufs p' ! i) = b_index (bufs p1 ! i) \<and>
           sent_all os f (drop (b_sendindex (bufs p1 ! i)) (held_bytes (bufs p1 ! i))) w1 w'"
        "rc \<noteq> 0 \<longrightarrow> send_stops os f (rc = 1) (drop (b_sendindex (bufs p1 ! i)) (held_bytes (bufs p1 ! i))) w1 w'"
        using less.hyps [OF m p1(2) le] by blast
      have left: "drop (b_sendindex (bufs p1 ! i)) (held_bytes (bufs p1 ! i)) = drop (nat n) ?left"
        using p1(3) by (simp add: held_bytes_def add.commute)
      then have "rc = 0 \<longrightarrow> sent_all os f ?left w w'"
        using r(6) sent_all.piece [OF s n(1), of w'] n(2) ll(1) by simp
      moreover have "rc \<noteq> 0 \<longrightarrow> send_stops os f (rc = 1) ?left w w'"
      proof
        assume "rc \<noteq> 0"
        with r(7) left have st: "send_stops os f (rc = 1) (drop (nat n) ?left) w1 w'" by simp
        then have "drop (nat n) ?left \<noteq> []" by (auto elim: send_stops_NilE)
        then have "n < int (length ?left)" using n(1) by (simp add: nat_less_iff)
        from send_stops.part [OF s n(1) this st] show "send_stops os f (rc = 1) ?left w w'" .
      qed
      moreover have "loop (nb_send_step os f i) (int (b_index ?b) - int (b_sendindex ?b), p, w) = Some (rc, p', w')"
        using loop_Inl [of "nb_send_step os f i", OF st] r(1) p1(3) by simp
      ultimately show ?thesis using r(2-6) p1(3,4) by auto
    qed
  qed
qed

lemma nb_send_spec:
  assumes "owned p free held" and "i \<in> held" and "sends os" and "unsent (bufs p ! i)"
  shows "\<exists>rc p' w'. nb_send os f i p w = Some (rc, p', w') \<and> owned p' free held \<and>
    (\<forall>j. j \<noteq> i \<longrightarrow> bufs p' ! j = bufs p ! j) \<and> b_index (bufs p' ! i) = b_index (bufs p ! i) \<and> rc \<in> {0, 1, -1} \<and>
    (rc = 0 \<longrightarrow> b_sendindex (bufs p' ! i) = b_index (bufs p ! i) \<and> sent_all os f (held_bytes (bufs p ! i)) w w') \<and>
    (rc \<noteq> 0 \<longrightarrow> send_stops os f (rc = 1) (held_bytes (bufs p ! i)) w w')"
proof -
  have i: "i < length (bufs p)" using ownedD(1) [OF assms(1,2)] .
  from nb_send_loop_spec [OF assms(1-3), of f w] assms(4) i show ?thesis
    by (simp add: nb_send_def unsent_def buf_def)
qed

section \<open>Replies that cannot be sent at once\<close>

lemma repool_single:
  assumes "i < length (bufs p)" and "b_next (bufs p ! i) = None"
  shows "repool_buffer i p =
    Some (p\<lparr>b_stack := Some i, bufs := (bufs p)[i := (bufs p ! i)\<lparr>b_next := b_stack p\<rparr>]\<rparr>)"
proof -
  have "last_buf (p\<lparr>b_stack := Some i\<rparr>) i = Some i" using assms by (subst last_buf.simps) (simp add: buf_def)
  then show ?thesis using assms(1) by (simp add: repool_buffer_def Let_def upd_buf_def)
qed

text \<open>
  C32. When the socket takes only a part of a reply, the buffer is remembered as the one to be
  sent when the socket becomes writable, and at the same time put back on top of the pool: the
  next request that any client sends is received into it, over the unsent bytes.
\<close>

theorem partial_send_shares_buffer:
  assumes "owned p free held" and "i \<in> held" and "sends os" and "unsent (bufs p ! i)" and "wr_buffer ed = None"
    and "nb_send os (ed_fd ed) i p w = Some (1, p1, w1)"
  shows "\<exists>ed' p' p''. send_reply os i ed p w = Some (RES_WRITE_QUEUE, ed', p', w1) \<and> wr_buffer ed' = Some i \<and>
    get_from_pool p' = Some (Some i, p'') \<and> b_index (bufs p'' ! i) = 0"
proof -
  have o: "owned p1 free held" using nb_send_spec [OF assms(1-4), of "ed_fd ed" w] assms(6) by auto
  then have i: "i < length (bufs p1)" "b_next (bufs p1 ! i) = None" using ownedD(1,2) [OF o assms(2)] by auto
  let ?p = "p1\<lparr>b_stack := Some i, bufs := (bufs p1)[i := (bufs p1 ! i)\<lparr>b_next := b_stack p1\<rparr>]\<rparr>"
  have "send_reply os i ed p w = Some (RES_WRITE_QUEUE, ed\<lparr>wr_buffer := Some i\<rparr>, ?p, w1)"
    using assms(5,6) repool_single [OF i] by (simp add: send_reply_def)
  moreover obtain p'' where "get_from_pool ?p = Some (Some i, p'')" "b_index (bufs p'' ! i) = 0"
    using i by (auto simp: get_from_pool_def buf_def upd_buf_def)
  ultimately show ?thesis by fastforce
qed

text \<open>
  C33. Once a queued reply has been sent completely, the loop for a writable connection never
  ends: \<open>wr_buffer\<close> is compared with the next buffer and not set to it, so that the loop finds
  the same buffer, with nothing left to send, again and again.
\<close>

theorem epollout_never_returns:
  fixes e :: "'w env"
  assumes "get_event i s = Some ed" and "wr_buffer ed = Some h"
    and "nb_send (en_os e) (ed_fd ed) h (sv_pool s) w = Some (0, p1, w1)"
    and "h < length (bufs p1)" and "b_index (bufs p1 ! h) \<le> b_sendindex (bufs p1 ! h)"
  shows "endless (write_step e i) (s, w)"
proof -
  let ?sent = "\<lambda>p. h < length (bufs p) \<and> b_index (bufs p ! h) \<le> b_sendindex (bufs p ! h)"
  let ?P = "\<lambda>(s, w :: 'w). get_event i s = Some ed \<and>
    (\<exists>p1 w1. nb_send (en_os e) (ed_fd ed) h (sv_pool s) w = Some (0, p1, w1) \<and> ?sent p1)"
  have again: "nb_send (en_os e) (ed_fd ed) h p w = Some (0, p, w)" if "?sent p" for p and w :: 'w
  proof -
    have "nb_send_step (en_os e) (ed_fd ed) h (int (b_index (bufs p ! h)) - int (b_sendindex (bufs p ! h)), p, w) =
        Some (Inr (0, p, w))" using that by (simp add: nb_send_step_def)
    from loop_Inr [of "nb_send_step (en_os e) (ed_fd ed) h", OF this] show ?thesis
      using that by (simp add: nb_send_def buf_def)
  qed
  show ?thesis
  proof (rule endlessI [where P = ?P])
    show "?P (s, w)" using assms by blast
  next
    fix v assume "?P v"
    then obtain s w p1 w1 where v: "v = (s, w)" "get_event i s = Some ed"
      "nb_send (en_os e) (ed_fd ed) h (sv_pool s) w = Some (0, p1, w1)" "?sent p1" by (cases v) auto
    let ?p = "p1\<lparr>bufs := (bufs p1)[h := (bufs p1 ! h)\<lparr>b_next := None\<rparr>]\<rparr>"
    let ?q = "?p\<lparr>b_stack := Some h, bufs := (bufs ?p)[h := (bufs ?p ! h)\<lparr>b_next := b_stack ?p\<rparr>]\<rparr>"
    have "repool_buffer h ?p = Some ?q" using v(4) by (intro repool_single) simp_all
    then have "write_step e i v = Some (Inl (s\<lparr>sv_pool := ?q\<rparr>, w1))"
      using v assms(2) by (simp add: write_step_def upd_buf_def)
    moreover have "?P (s\<lparr>sv_pool := ?q\<rparr>, w1)" using v(2,4) again [of ?q w1]
      by (simp add: get_event_def split: if_splits)
    ultimately show "\<exists>v'. write_step e i v = Some (Inl v') \<and> ?P v'" by blast
  qed
qed

section \<open>A small server\<close>

text \<open>A pool of two buffers, the first in the hands of a connection and holding a request.\<close>

definition two_buffers :: pool where
  "two_buffers = \<lparr>bufs =
     [\<lparr>b_next = None, b_index = 12, b_sendindex = 0, b_id = 1, b_data = read_request\<rparr>,
      \<lparr>b_next = None, b_index = 0, b_sendindex = 0, b_id = 2, b_data = replicate 260 0\<rparr>], b_stack = Some 1\<rparr>"

lemma two_buffers_owned: "owned two_buffers [1] {0}" "unsent (bufs two_buffers ! 0)"
  by (auto simp: owned_def two_buffers_def unsent_def MAX_MB_BUFFER_LEN_def read_request_def)

definition plain_socket :: event_data where
  "plain_socket = \<lparr>ed_fd = 7, ed_type = ED_MODBUS_SOCKET, rd_buffer = None, wr_buffer = None, ed_arm = None\<rparr>"

lemma dead_bus_sends: "sends dead_bus" "os_send dead_bus f bytes w = (-1, EAGAIN, w)"
  by (simp_all add: sends_def dead_bus_def fixed_bus_def)

lemma two_buffers_blocked: "nb_send dead_bus f 0 two_buffers () = Some (1, two_buffers, ())"
proof -
  let ?b = "bufs two_buffers ! 0"
  have b: "buf two_buffers 0 = Some ?b" "b_index ?b = 12" "b_sendindex ?b = 0" "length (b_data ?b) = 260"
    by (simp_all add: buf_def two_buffers_def read_request_def)
  have "nb_send_step dead_bus f 0 (12, two_buffers, ()) = Some (Inr (1, two_buffers, ()))"
    using b by (simp add: nb_send_step_def dead_bus_sends no_fault)
  from loop_Inr [of "nb_send_step dead_bus f 0", OF this] show ?thesis using b by (simp add: nb_send_def)
qed

theorem partial_send_shares_buffer_witness:
  "\<exists>ed' p' p''. send_reply dead_bus 0 plain_socket two_buffers () = Some (RES_WRITE_QUEUE, ed', p', ()) \<and>
     wr_buffer ed' = Some 0 \<and> get_from_pool p' = Some (Some 0, p'') \<and> b_index (bufs p'' ! 0) = 0"
  using partial_send_shares_buffer [OF two_buffers_owned(1) _ dead_bus_sends(1) two_buffers_owned(2) _ two_buffers_blocked,
      of plain_socket]
  by (simp add: plain_socket_def)

definition idle_env :: "unit os \<Rightarrow> unit env" where
  "idle_env os =
     \<lparr>en_os = os,
      en_ep = \<lparr>ep_accept = (\<lambda>_ w. (-1, EAGAIN, w)), ep_getfl = (\<lambda>_ w. (0, w)), ep_setfl = (\<lambda>_ _ w. (0, w)),
        ep_add = (\<lambda>_ _ _ w. (0, w)), ep_mod = (\<lambda>_ _ _ w. (0, w)), ep_pread = (\<lambda>_ w. w)\<rparr>,
      en_pty = \<lparr>pty_openpty = (\<lambda>w. (-1, 0, [], w)), pty_mkdir = (\<lambda>_ w. (-1, 0, w)), pty_system = (\<lambda>_ w. w),
        pty_unlink = (\<lambda>_ w. w), pty_symlink = (\<lambda>_ _ w. (-1, w)), pty_tiocpkt = (\<lambda>_ _ w. (-1, w)),
        pty_getattr = (\<lambda>_ w. (-1, \<lparr>c_iflag = 0, c_oflag = 0, c_cflag = 0, c_lflag = 0\<rparr>, w)),
        pty_setattr = (\<lambda>_ _ w. (-1, w)), pty_getfl = (\<lambda>_ w. (-1, w)), pty_setfl = (\<lambda>_ _ w. (-1, w))\<rparr>,
      en_files = \<lparr>ff_open = (\<lambda>_ _. None), ff_fstat = (\<lambda>_ _. False), ff_mmap = (\<lambda>_ _. False)\<rparr>,
      en_version = ''3.1.4'', en_uart_buf = replicate 256 0, en_pty_buf = replicate 257 0,
      en_mem_ok = 4, en_nvram = replicate 256 0, en_regs = replicate 10 0\<rparr>"

definition queued_server :: server where
  "queued_server = \<lparr>sv_events = [Some (plain_socket\<lparr>wr_buffer := Some 1\<rparr>)], sv_pool = two_buffers, sv_nb = one_board,
     sv_ptr = None\<rparr>"

theorem epollout_never_returns_witness: "endless (write_step (idle_env dead_bus) 0) (queued_server, ())"
proof -
  have "nb_send_step dead_bus 7 1 (0, two_buffers, ()) = Some (Inr (0, two_buffers, ()))"
    by (simp add: nb_send_step_def)
  from loop_Inr [of "nb_send_step dead_bus 7 1", OF this]
  have "nb_send (en_os (idle_env dead_bus)) (ed_fd (plain_socket\<lparr>wr_buffer := Some 1\<rparr>)) 1 (sv_pool queued_server) () =
      Some (0, two_buffers, ())"
    by (simp add: nb_send_def buf_def idle_env_def plain_socket_def queued_server_def two_buffers_def)
  then show ?thesis
    by (rule epollout_never_returns [rotated 2]) (simp_all add: queued_server_def get_event_def two_buffers_def)
qed

end
