(* ===== verification/Tcp_Server_Serve.thy ===== *)
theory Tcp_Server_Serve
  imports Tcp_Server_Correct
begin

text \<open>
  What the server does with the bytes that arrive on a connection, as long as its replies can
  be sent at once: \<open>parse_buffer\<close> answers the complete requests in order and keeps the rest.
\<close>

section \<open>A connection and its buffers\<close>

text \<open>
  \<open>others\<close> are the buffers of the other connections. A connection holds at most the buffer it
  reads into; the bytes there have been received and not yet been answered.
\<close>

definition conn_ok :: "pool \<Rightarrow> nat list \<Rightarrow> nat set \<Rightarrow> event_data \<Rightarrow> bool" where
  "conn_ok p free others ed \<longleftrightarrow>
     owned p free (others \<union> set_option (rd_buffer ed)) \<and> set_option (rd_buffer ed) \<inter> others = {} \<and>
     wr_buffer ed = None \<and> (\<forall>i \<in> others \<union> set_option (rd_buffer ed). unsent (bufs p ! i))"

definition pending :: "pool \<Rightarrow> event_data \<Rightarrow> u8 list" where
  "pending p ed = (case rd_buffer ed of None \<Rightarrow> [] | Some i \<Rightarrow> held_bytes (bufs p ! i))"

definition unchanged :: "nat set \<Rightarrow> pool \<Rightarrow> pool \<Rightarrow> bool" where
  "unchanged js p p' \<longleftrightarrow> (\<forall>j \<in> js. bufs p' ! j = bufs p ! j)"

lemma unchanged_refl [simp]: "unchanged js p p"
  by (simp add: unchanged_def)

lemma unchanged_trans: "unchanged js p q \<Longrightarrow> unchanged js q r \<Longrightarrow> unchanged js p r"
  by (simp add: unchanged_def)

lemma owned_lengths:
  assumes "owned p free held" and "i \<in> held"
  shows "i < length (bufs p)" "length (b_data (bufs p ! i)) = 260" "buf p i = Some (bufs p ! i)"
  using ownedD [OF assms(1)] assms(2) by (auto simp: MAX_MB_BUFFER_LEN_def buf_def)

lemma split_buffer_spec:
  assumes "owned p free (insert i others)" and "i \<notin> others" and "unsent (bufs p ! i)"
    and "0 < n" and "n \<le> b_index (bufs p ! i)"
  shows "(n = b_index (bufs p ! i) \<longrightarrow> split_buffer i (int n) ed p = Some (True, ed\<lparr>rd_buffer := None\<rparr>, p)) \<and>
    (n < b_index (bufs p ! i) \<longrightarrow> free = [] \<longrightarrow> split_buffer i (int n) ed p = Some (False, ed, p)) \<and>
    (\<forall>j rest. n < b_index (bufs p ! i) \<longrightarrow> free = j # rest \<longrightarrow>
       (\<exists>p'. split_buffer i (int n) ed p = Some (True, ed\<lparr>rd_buffer := Some j\<rparr>, p') \<and>
          owned p' rest (insert j (insert i others)) \<and> unchanged (insert i others) p p' \<and>
          j \<notin> insert i others \<and> unsent (bufs p' ! j) \<and> held_bytes (bufs p' ! j) = drop n (held_bytes (bufs p ! i))))"
proof (intro conjI allI impI)
  note i = owned_lengths [OF assms(1) insertI1]
  let ?b = "bufs p ! i"
  show "split_buffer i (int n) ed p = Some (True, ed\<lparr>rd_buffer := None\<rparr>, p)" if "n = b_index ?b"
    using that i by (simp add: split_buffer_def)
  show "split_buffer i (int n) ed p = Some (False, ed, p)" if "n < b_index ?b" "free = []"
    using that i assms(1) by (simp add: split_buffer_def get_from_pool_empty)
  fix j rest assume n: "n < b_index ?b" and f: "free = j # rest"
  have le: "b_index ?b \<le> 260" using assms(3) by (simp add: unsent_def)
  have o: "owned p (j # rest) (insert i others)" using assms(1) f by simp
  obtain p1 where p1: "get_from_pool p = Some (Some j, p1)" "owned p1 rest (insert j (insert i others))"
    "\<forall>k \<in> insert i others. bufs p1 ! k = bufs p ! k" "b_sendindex (bufs p1 ! j) = 0"
    using get_from_pool_free [OF o] by auto
  have j: "j \<notin> insert i others" using o by (auto simp: owned_def)
  note j1 = owned_lengths [OF p1(2) insertI1]
  let ?n = "b_index ?b - n"
  have u: "to_u16 (int (b_index ?b) - int n) = ?n" using n le by (subst to_u16_id) auto
  obtain p2 where p2: "upd_buf j (\<lambda>b. b\<lparr>b_index := ?n\<rparr>) p1 = Some p2" "owned p2 rest (insert j (insert i others))"
    "bufs p2 ! j = (bufs p1 ! j)\<lparr>b_index := ?n\<rparr>" "\<forall>k. k \<noteq> j \<longrightarrow> bufs p2 ! k = bufs p1 ! k"
    using upd_buf_held [OF p1(2) insertI1, of "\<lambda>b. b\<lparr>b_index := ?n\<rparr>"] j1 ownedD(2) [OF p1(2) insertI1]
    by (auto simp: MAX_MB_BUFFER_LEN_def)
  note j2 = owned_lengths [OF p2(2) insertI1]
  let ?bs = "take ?n (drop n (b_data ?b))"
  have rd: "rd_blk (b_data ?b) (int n) (int ?n) = Some ?bs" using n le i(2) by (simp add: no_fault del: of_nat_diff)
  have lb: "length ?bs = ?n" using n le i(2) by simp
  let ?m = "overlay (b_data (bufs p2 ! j)) 0 ?bs"
  have wr: "wr_blk (b_data (bufs p2 ! j)) 0 ?bs = Some ?m" using j2(2) lb le by (simp add: no_fault)
  have lm: "length ?m = 260" using j2(2) lb le by simp
  obtain p3 where p3: "upd_buf j (\<lambda>b. b\<lparr>b_data := ?m\<rparr>) p2 = Some p3" "owned p3 rest (insert j (insert i others))"
    "bufs p3 ! j = (bufs p2 ! j)\<lparr>b_data := ?m\<rparr>" "\<forall>k. k \<noteq> j \<longrightarrow> bufs p3 ! k = bufs p2 ! k"
    using upd_buf_held [OF p2(2) insertI1, of "\<lambda>b. b\<lparr>b_data := ?m\<rparr>"] lm ownedD(2) [OF p2(2) insertI1]
    by (auto simp: MAX_MB_BUFFER_LEN_def)
  have sp: "split_buffer i (int n) ed p = Some (True, ed\<lparr>rd_buffer := Some j\<rparr>, p3)"
    using n i p1(1) u p2(1) rd j2(3) wr p3(1) by (simp add: split_buffer_def)
  have "unchanged (insert i others) p p3" using p1(3) p2(4) p3(4) j by (auto simp: unchanged_def)
  moreover have "unsent (bufs p3 ! j)" using p3(3) p2(3) p1(4) le by (simp add: unsent_def)
  moreover have "held_bytes (bufs p3 ! j) = drop n (held_bytes ?b)"
  proof -
    have "held_bytes (bufs p3 ! j) = take ?n ?m" using p3(3) p2(3) by (simp add: held_bytes_def)
    also have "\<dots> = ?bs" using take_overlay_0 [of ?bs "b_data (bufs p2 ! j)"] lb j2(2) le by simp
    also have "\<dots> = drop n (held_bytes ?b)" using n by (simp add: held_bytes_def drop_take)
    finally show ?thesis .
  qed
  ultimately show "\<exists>p'. split_buffer i (int n) ed p = Some (True, ed\<lparr>rd_buffer := Some j\<rparr>, p') \<and>
      owned p' rest (insert j (insert i others)) \<and> unchanged (insert i others) p p' \<and>
      j \<notin> insert i others \<and> unsent (bufs p' ! j) \<and> held_bytes (bufs p' ! j) = drop n (held_bytes ?b)"
    using sp p3(2) j by blast
qed

section \<open>One request\<close>

lemma answer_request_spec:
  assumes "owned p free (insert i others)" and "i \<notin> others" and "unsent (bufs p ! i)" and "wr_buffer ed = None"
    and "wf_nb wf_arm nb" and "full_duplex os" and "length version \<le> 246" and "sends os"
  obtains (full) len rsp nb' w1 w' where
    "nb_modbus_reply (arm_board os) version nb (b_data (bufs p ! i)) n w = Some (int len, rsp, nb', w1)"
    "send_stops os (ed_fd ed) True (take len rsp) w1 w'"
  | (over) len rsp nb' w1 and rc :: int and p' w' where
    "nb_modbus_reply (arm_board os) version nb (b_data (bufs p ! i)) n w = Some (int len, rsp, nb', w1)" "9 \<le> len" "len \<le> 260"
    "wf_nb wf_arm nb'" "rc = 0 \<or> rc = -1"
    "answer_request os version i n (result, ed, p, nb, w) =
       Some (if rc = 0 then Inl (result, ed, p', nb', w') else Inr (-1, ed, p', nb', w'))"
    "owned p' (i # free) others" "unchanged others p p'"
    "rc = 0 \<Longrightarrow> sent_all os (ed_fd ed) (take len rsp) w1 w'"
    "rc \<noteq> 0 \<Longrightarrow> send_stops os (ed_fd ed) False (take len rsp) w1 w'"
proof -
  note i = owned_lengths [OF assms(1) insertI1]
  have "wf_nb (\<lambda>a. full_duplex os \<and> wf_arm a) nb" using assms(5,6) by (simp add: wf_nb_def)
  from arm.nb_modbus_reply_ok [OF this i(2) assms(7), of n w]
  obtain len rsp nb' w1 where r: "nb_modbus_reply (arm_board os) version nb (b_data (bufs p ! i)) n w = Some (int len, rsp, nb', w1)"
    "9 \<le> len" "len \<le> 260" "length rsp = 260" "wf_nb wf_arm nb'"
    by (auto simp: replied_def wf_nb_def)
  have u: "to_u16 (int len) = len" using r(3) by (subst to_u16_id) auto
  let ?upd = "\<lambda>b. b\<lparr>b_data := rsp, b_index := to_u16 (int len)\<rparr>"
  obtain p1 where p1: "upd_buf i ?upd p = Some p1" "owned p1 free (insert i others)" "bufs p1 ! i = ?upd (bufs p ! i)"
    "\<forall>k. k \<noteq> i \<longrightarrow> bufs p1 ! k = bufs p ! k"
    using upd_buf_held [OF assms(1) insertI1, of ?upd] r(4) ownedD(2) [OF assms(1) insertI1]
    by (auto simp: MAX_MB_BUFFER_LEN_def)
  have "unsent (bufs p1 ! i)" using p1(3) assms(3) u r(3) by (simp add: unsent_def)
  from nb_send_spec [OF p1(2) insertI1 assms(8) this, of "ed_fd ed" w1]
  obtain rc p2 w2 where s: "nb_send os (ed_fd ed) i p1 w1 = Some (rc, p2, w2)" "owned p2 free (insert i others)"
    "\<forall>j. j \<noteq> i \<longrightarrow> bufs p2 ! j = bufs p1 ! j" "rc \<in> {0, 1, -1}"
    "rc = 0 \<longrightarrow> sent_all os (ed_fd ed) (held_bytes (bufs p1 ! i)) w1 w2"
    "rc \<noteq> 0 \<longrightarrow> send_stops os (ed_fd ed) (rc = 1) (held_bytes (bufs p1 ! i)) w1 w2"
    by auto
  have held: "held_bytes (bufs p1 ! i) = take len rsp" using p1(3) u by (simp add: held_bytes_def)
  obtain p3 where p3: "repool_buffer i p2 = Some p3" "owned p3 (i # free) (insert i others - {i})"
    "\<forall>j \<in> insert i others - {i}. bufs p3 ! j = bufs p2 ! j"
    using repool_buffer_held [OF s(2) insertI1] by blast
  have d: "insert i others - {i} = others" using assms(2) by auto
  show thesis
  proof (cases "rc = 1")
    case True
    then show thesis using full [OF r(1), of w2] s(6) held by simp
  next
    case False
    then have rc: "rc = 0 \<or> rc = -1" using s(4) by simp
    show thesis
    proof (rule over [OF r(1-3,5) rc])
      show "answer_request os version i n (result, ed, p, nb, w) =
          Some (if rc = 0 then Inl (result, ed, p3, nb', w2) else Inr (-1, ed, p3, nb', w2))"
        using i(3) r(1,2) u p1(1) s(1) rc p3(1) assms(4)
        by (auto simp: answer_request_def send_reply_def RES_WRITE_QUEUE_def)
      show "owned p3 (i # free) others" using p3(2) d by simp
      show "unchanged others p p3" using p3(3) d s(3) p1(4) assms(2) by (auto simp: unchanged_def)
      show "rc = 0 \<Longrightarrow> sent_all os (ed_fd ed) (take len rsp) w1 w2" using s(5) held by simp
      show "rc \<noteq> 0 \<Longrightarrow> send_stops os (ed_fd ed) False (take len rsp) w1 w2" using s(6) held False by simp
    qed
  qed
qed

section \<open>All requests of a buffer\<close>

definition frame_length :: "u8 list \<Rightarrow> int" where
  "frame_length bs = be16 (bs ! 4) (bs ! 5) + 6"

definition complete :: "u8 list \<Rightarrow> bool" where
  "complete bs \<longleftrightarrow> 6 \<le> length bs \<and> frame_length bs \<le> int (length bs)"

text \<open>
  What the bytes received on a connection come to: \<open>answered os version f bs nb w rs rest nb' w'\<close>
  says that requests at the head of \<open>bs\<close> were answered in order, with the replies \<open>rs\<close>, each
  sent in full on \<open>f\<close> before the next request was looked at, and that \<open>rest\<close> is left. A request
  is answered in a buffer \<open>m\<close> of 260 bytes that begins with it.
\<close>

inductive answered ::
  "'w os \<Rightarrow> string \<Rightarrow> int \<Rightarrow> u8 list \<Rightarrow> arm_handle nb_modbus \<Rightarrow> 'w \<Rightarrow>
     u8 list list \<Rightarrow> u8 list \<Rightarrow> arm_handle nb_modbus \<Rightarrow> 'w \<Rightarrow> bool" for os version f where
  none: "answered os version f bs nb w [] bs nb w"
| request: "complete bs \<Longrightarrow> frame_length bs = int n \<Longrightarrow> length m = 260 \<Longrightarrow> take n m = take n bs \<Longrightarrow>
    nb_modbus_reply (arm_board os) version nb m (int n) w = Some (int len, rsp, nb1, w1) \<Longrightarrow>
    sent_all os f (take len rsp) w1 w2 \<Longrightarrow> answered os version f (drop n bs) nb1 w2 rs rest nb2 w3 \<Longrightarrow>
    answered os version f bs nb w (take len rsp # rs) rest nb2 w3"

text \<open>
  The reply to the first request in \<open>bs\<close> is not sent completely, and \<open>delayed\<close>: this happens
  with \<open>EAGAIN\<close> to one of the requests in \<open>bs\<close>, those before being answered.
\<close>

definition reply_stops ::
  "'w os \<Rightarrow> string \<Rightarrow> int \<Rightarrow> bool \<Rightarrow> u8 list \<Rightarrow> arm_handle nb_modbus \<Rightarrow> 'w \<Rightarrow> 'w \<Rightarrow> bool" where
  "reply_stops os version f full bs nb w w' \<longleftrightarrow>
     (\<exists>n m len rsp nb1 w1. complete bs \<and> frame_length bs = int n \<and> length m = 260 \<and> take n m = take n bs \<and>
        nb_modbus_reply (arm_board os) version nb m (int n) w = Some (int len, rsp, nb1, w1) \<and>
        send_stops os f full (take len rsp) w1 w')"

definition delayed :: "'w os \<Rightarrow> string \<Rightarrow> int \<Rightarrow> u8 list \<Rightarrow> arm_handle nb_modbus \<Rightarrow> 'w \<Rightarrow> bool" where
  "delayed os version f bs nb w \<longleftrightarrow>
     (\<exists>rs rest nb1 w1 w2. answered os version f bs nb w rs rest nb1 w1 \<and> reply_stops os version f True rest nb1 w1 w2)"

lemma delayed_now: "reply_stops os version f True bs nb w w' \<Longrightarrow> delayed os version f bs nb w"
  unfolding delayed_def by (intro exI conjI) (rule answered.none)

lemma delayed_later:
  assumes "complete bs" and "frame_length bs = int n" and "length m = 260" and "take n m = take n bs"
    and "nb_modbus_reply (arm_board os) version nb m (int n) w = Some (int len, rsp, nb1, w1)"
    and "sent_all os f (take len rsp) w1 w2" and "delayed os version f (drop n bs) nb1 w2"
  shows "delayed os version f bs nb w"
  using answered.request [OF assms(1-6)] assms(7) unfolding delayed_def by blast

lemma frame_length_pos: "6 \<le> frame_length bs"
  using be16_bounds(1) by (simp add: frame_length_def)

lemma length_held:
  assumes "owned p free held" and "i \<in> held" and "b_index (bufs p ! i) \<le> 260"
  shows "length (held_bytes (bufs p ! i)) = b_index (bufs p ! i)"
  using owned_lengths(2) [OF assms(1,2)] assms(3) by (simp add: held_bytes_def)

lemma reqlen_of_buffer:
  assumes "length m = 260" and "k \<le> 260"
  shows "nb_modbus_reqlen m (word_of_nat k) =
    Some (if k < 256 \<and> complete (take k m) then frame_length (take k m) else 0)"
proof (cases "k < 256")
  case True
  then have u: "unat (word_of_nat k :: u8) = k" "uint (word_of_nat k :: u8) = int k"
    by (simp_all add: unsigned_of_nat take_bit_nat_eq_self)
  show ?thesis
    using assms True u
    by (cases "k < 6") (auto simp: reqlen_no_fault complete_def frame_length_def word_less_nat_alt)
next
  case False
  then obtain j where k: "k = 256 + j" "j < 5" using assms(2) by (auto simp: not_less le_iff_add)
  have "unat (word_of_nat k :: u8) = k mod 256" by (simp add: unat_of_nat)
  with k have "unat (word_of_nat k :: u8) = j" by simp
  with assms(1) k False show ?thesis
    by (simp add: reqlen_no_fault word_less_nat_alt del: of_nat_add of_nat_mult)
qed

lemma parse_step_cases:
  assumes "conn_ok p free others ed" and "wf_nb wf_arm nb" and "full_duplex os" and "length version \<le> 246"
    and "sends os"
  obtains
    (idle) "parse_step os version (0, ed, p, nb, w) = Some (Inr (0, ed, p, nb, w))"
      "length (pending p ed) < 256 \<Longrightarrow> \<not> complete (pending p ed)"
  | (full) "parse_step os version (0, ed, p, nb, w) = Some (Inr (-1, ed, p, nb, w))" "free = []" "complete (pending p ed)"
  | (parse_stops) w' where "reply_stops os version (ed_fd ed) True (pending p ed) nb w w'"
  | (parse_answered) n m len rsp nb1 w1 and rc :: int and x p' w' free' where
      "complete (pending p ed)" "frame_length (pending p ed) = int n" "length m = 260" "take n m = take n (pending p ed)"
      "nb_modbus_reply (arm_board os) version nb m (int n) w = Some (int len, rsp, nb1, w1)" "wf_nb wf_arm nb1"
      "conn_ok p' free' others (ed\<lparr>rd_buffer := x\<rparr>)" "free' \<noteq> []" "unchanged others p p'"
      "pending p' (ed\<lparr>rd_buffer := x\<rparr>) = drop n (pending p ed)" "6 \<le> n" "n \<le> length (pending p ed)"
      "parse_step os version (0, ed, p, nb, w) =
         Some (if rc = 0 then Inl (0, ed\<lparr>rd_buffer := x\<rparr>, p', nb1, w') else Inr (-1, ed\<lparr>rd_buffer := x\<rparr>, p', nb1, w'))"
      "rc = 0 \<Longrightarrow> sent_all os (ed_fd ed) (take len rsp) w1 w'"
      "rc \<noteq> 0 \<Longrightarrow> reply_stops os version (ed_fd ed) False (pending p ed) nb w w'"
proof (cases "rd_buffer ed")
  case None
  then show thesis by (intro idle) (simp_all add: parse_step_def pending_def complete_def)
next
  case (Some i)
  have o: "owned p free (insert i others)" "i \<notin> others" "unsent (bufs p ! i)" "wr_buffer ed = None"
    using assms(1) Some by (auto simp: conn_ok_def)
  note i = owned_lengths [OF o(1) insertI1]
  have k: "b_index (bufs p ! i) \<le> 260" using o(3) by (simp add: unsent_def)
  have pend: "pending p ed = held_bytes (bufs p ! i)" "length (held_bytes (bufs p ! i)) = b_index (bufs p ! i)"
    using Some length_held [OF o(1) insertI1 k] by (simp_all add: pending_def)
  have rl: "nb_modbus_reqlen (b_data (bufs p ! i)) (word_of_nat (b_index (bufs p ! i))) =
      Some (if b_index (bufs p ! i) < 256 \<and> complete (pending p ed) then frame_length (pending p ed) else 0)"
    using reqlen_of_buffer [OF i(2) k] pend(1) by (simp add: held_bytes_def)
  show thesis
  proof (cases "b_index (bufs p ! i) < 256 \<and> complete (pending p ed)")
    case False
    then have "parse_step os version (0, ed, p, nb, w) = Some (Inr (0, ed, p, nb, w))"
      using Some i(3) rl [unfolded if_not_P [OF False]] by (simp add: parse_step_def)
    then show thesis using False pend by (intro idle) auto
  next
    case True
    define n where "n = nat (frame_length (pending p ed))"
    have n: "frame_length (pending p ed) = int n" "6 \<le> n" "n \<le> b_index (bufs p ! i)" "n \<le> 260"
      using frame_length_pos [of "pending p ed"] True pend k by (auto simp: n_def complete_def)
    note sp = split_buffer_spec [OF o(1-3), of n ed]
    show thesis
    proof (cases "n < b_index (bufs p ! i) \<and> free = []")
      case True
      then have "parse_step os version (0, ed, p, nb, w) = Some (Inr (-1, ed, p, nb, w))"
        using Some i(3) rl sp n \<open>b_index (bufs p ! i) < 256 \<and> complete (pending p ed)\<close>
        by (simp add: parse_step_def MAX_MB_BUFFER_LEN_def)
      then show thesis using True \<open>b_index (bufs p ! i) < 256 \<and> complete (pending p ed)\<close> by (intro full) auto
    next
      case False
      let ?js = "\<lambda>x :: nat option. set_option x"
      obtain x p1 free1 where x: "split_buffer i (int n) ed p = Some (True, ed\<lparr>rd_buffer := x\<rparr>, p1)"
        "owned p1 free1 (insert i (others \<union> ?js x))" "unchanged (insert i others) p p1" "?js x \<inter> insert i others = {}"
        "\<forall>j \<in> ?js x. unsent (bufs p1 ! j)"
        "(case x of None \<Rightarrow> [] | Some j \<Rightarrow> held_bytes (bufs p1 ! j)) = drop n (held_bytes (bufs p ! i))"
      proof (cases "n = b_index (bufs p ! i)")
        case True
        then have "split_buffer i (int n) ed p = Some (True, ed\<lparr>rd_buffer := None\<rparr>, p)" using sp n by simp
        then show thesis using that [of None p free] o(1) True pend(2) by simp
      next
        case lt: False
        then obtain j rest where f: "free = j # rest" using False n(3) by (cases free) auto
        then obtain p1 where "split_buffer i (int n) ed p = Some (True, ed\<lparr>rd_buffer := Some j\<rparr>, p1)"
          "owned p1 rest (insert j (insert i others))" "unchanged (insert i others) p p1" "j \<notin> insert i others"
          "unsent (bufs p1 ! j)" "held_bytes (bufs p1 ! j) = drop n (held_bytes (bufs p ! i))"
          using sp n lt by auto
        then show thesis using that [of "Some j" p1 rest] by (simp add: insert_commute)
      qed
      have i1: "bufs p1 ! i = bufs p ! i" using x(3) by (simp add: unchanged_def)
      have ni: "i \<notin> others \<union> ?js x" using o(2) x(4) by auto
      have us: "unsent (bufs p1 ! i)" using i1 o(3) by simp
      have wr: "wr_buffer (ed\<lparr>rd_buffer := x\<rparr>) = None" using o(4) by simp
      have req: "complete (pending p ed)" "length (b_data (bufs p1 ! i)) = 260"
        "take n (b_data (bufs p1 ! i)) = take n (pending p ed)"
        using \<open>b_index (bufs p ! i) < 256 \<and> complete (pending p ed)\<close> i1 i(2) n(3) pend(1)
        by (simp_all add: held_bytes_def)
      have stops: "reply_stops os version (ed_fd ed) full (pending p ed) nb w w2"
        if "nb_modbus_reply (arm_board os) version nb (b_data (bufs p1 ! i)) (int n) w = Some (int len, rsp, nb1, w1)"
          "send_stops os (ed_fd (ed\<lparr>rd_buffer := x\<rparr>)) full (take len rsp) w1 w2" for len rsp nb1 w1 full w2
        using that req n(1) unfolding reply_stops_def by auto
      show thesis
      proof (rule answer_request_spec [OF x(2) ni us wr assms(2-5), where n = "int n" and w = w and result = 0])
        fix len rsp nb1 w1 w2
        assume "nb_modbus_reply (arm_board os) version nb (b_data (bufs p1 ! i)) (int n) w = Some (int len, rsp, nb1, w1)"
          "send_stops os (ed_fd (ed\<lparr>rd_buffer := x\<rparr>)) True (take len rsp) w1 w2"
        then show thesis by (intro parse_stops stops)
      next
        fix len rsp nb1 w1 p2 w2 and rc :: int
        assume a: "nb_modbus_reply (arm_board os) version nb (b_data (bufs p1 ! i)) (int n) w = Some (int len, rsp, nb1, w1)"
          "wf_nb wf_arm nb1"
          "answer_request os version i (int n) (0, ed\<lparr>rd_buffer := x\<rparr>, p1, nb, w) =
             Some (if rc = 0 then Inl (0, ed\<lparr>rd_buffer := x\<rparr>, p2, nb1, w2) else Inr (-1, ed\<lparr>rd_buffer := x\<rparr>, p2, nb1, w2))"
          "owned p2 (i # free1) (others \<union> ?js x)" "unchanged (others \<union> ?js x) p1 p2"
          "rc = 0 \<Longrightarrow> sent_all os (ed_fd (ed\<lparr>rd_buffer := x\<rparr>)) (take len rsp) w1 w2"
          "rc \<noteq> 0 \<Longrightarrow> send_stops os (ed_fd (ed\<lparr>rd_buffer := x\<rparr>)) False (take len rsp) w1 w2"
        show thesis
        proof (rule parse_answered)
          show "complete (pending p ed)" "length (b_data (bufs p1 ! i)) = 260"
            "take n (b_data (bufs p1 ! i)) = take n (pending p ed)" by (rule req)+
          show "frame_length (pending p ed) = int n" "6 \<le> n" "n \<le> length (pending p ed)" using n pend by simp_all
          show "conn_ok p2 (i # free1) others (ed\<lparr>rd_buffer := x\<rparr>)"
          proof -
            have "\<forall>j \<in> others. unsent (bufs p1 ! j)" using x(3) assms(1) by (auto simp: unchanged_def conn_ok_def)
            then show ?thesis using a(4,5) x(4,5) wr by (auto simp: conn_ok_def unchanged_def)
          qed
          show "unchanged others p p2" using x(3) a(5) by (auto simp: unchanged_def)
          show "pending p2 (ed\<lparr>rd_buffer := x\<rparr>) = drop n (pending p ed)"
            using x(6) a(5) pend(1) by (cases x) (auto simp: pending_def unchanged_def)
          show "parse_step os version (0, ed, p, nb, w) =
              Some (if rc = 0 then Inl (0, ed\<lparr>rd_buffer := x\<rparr>, p2, nb1, w2) else Inr (-1, ed\<lparr>rd_buffer := x\<rparr>, p2, nb1, w2))"
            using Some i(3) rl x(1) a(3) n \<open>b_index (bufs p ! i) < 256 \<and> complete (pending p ed)\<close>
            by (simp add: parse_step_def MAX_MB_BUFFER_LEN_def)
          show "rc = 0 \<Longrightarrow> sent_all os (ed_fd ed) (take len rsp) w1 w2" using a(6) by simp
          show "rc \<noteq> 0 \<Longrightarrow> reply_stops os version (ed_fd ed) False (pending p ed) nb w w2" using stops [OF a(1) a(7)] .
        qed (use a(1,2) in auto)
      qed
    qed
  qed
qed

text \<open>
  How \<open>parse_buffer\<close> ends: all requests answered, a failure of \<open>send\<close> in the midst, or no buffer
  for the bytes behind the first request (\<open>dry\<close>: the pool was empty at the beginning).
\<close>

definition parsed ::
  "'w os \<Rightarrow> string \<Rightarrow> int \<Rightarrow> bool \<Rightarrow> u8 list \<Rightarrow> arm_handle nb_modbus \<Rightarrow> 'w \<Rightarrow>
     int \<Rightarrow> u8 list \<Rightarrow> arm_handle nb_modbus \<Rightarrow> 'w \<Rightarrow> bool" where
  "parsed os version f dry bs nb w rc left nb' w' \<longleftrightarrow>
     (\<exists>rs rest nb1 w1. answered os version f bs nb w rs rest nb1 w1 \<and>
        (rc = 0 \<and> rest = left \<and> \<not> complete rest \<and> nb1 = nb' \<and> w1 = w' \<or>
         rc = -1 \<and> (reply_stops os version f False rest nb1 w1 w' \<or>
           dry \<and> rs = [] \<and> complete rest \<and> nb' = nb \<and> w' = w)))"

lemma parsed_idle: "\<not> complete bs \<Longrightarrow> parsed os version f dry bs nb w 0 bs nb w"
  unfolding parsed_def by (intro exI conjI disjI1) (rule answered.none | assumption | rule refl)+

lemma parsed_full: "complete bs \<Longrightarrow> parsed os version f True bs nb w (-1) left nb w"
  unfolding parsed_def by (intro exI conjI disjI2) (rule answered.none | assumption | rule refl TrueI)+

lemma parsed_stops: "reply_stops os version f False bs nb w w' \<Longrightarrow> parsed os version f dry bs nb w (-1) left nb' w'"
  unfolding parsed_def
  by (rule exI [of _ "[]"], rule exI [of _ bs], rule exI [of _ nb], rule exI [of _ w]) (simp add: answered.none)

lemma parsed_later:
  assumes "complete bs" and "frame_length bs = int n" and "length m = 260" and "take n m = take n bs"
    and "nb_modbus_reply (arm_board os) version nb m (int n) w = Some (int len, rsp, nb1, w1)"
    and "sent_all os f (take len rsp) w1 w2" and "parsed os version f False (drop n bs) nb1 w2 rc left nb2 w3"
  shows "parsed os version f dry bs nb w rc left nb2 w3"
proof -
  from assms(7) obtain rs rest nb3 w4 where "answered os version f (drop n bs) nb1 w2 rs rest nb3 w4"
    and e: "rc = 0 \<and> rest = left \<and> \<not> complete rest \<and> nb3 = nb2 \<and> w4 = w3 \<or> rc = -1 \<and> reply_stops os version f False rest nb3 w4 w3"
    unfolding parsed_def by blast
  from answered.request [OF assms(1-6) this(1)] e show ?thesis unfolding parsed_def by blast
qed

lemma parse_loop:
  assumes "conn_ok p free others ed" and "wf_nb wf_arm nb" and "full_duplex os" and "length version \<le> 246" and "sends os"
  shows "delayed os version (ed_fd ed) (pending p ed) nb w \<or>
    (\<exists>rc x p' nb' w' free'. loop (parse_step os version) (0, ed, p, nb, w) = Some (rc, ed\<lparr>rd_buffer := x\<rparr>, p', nb', w') \<and>
      conn_ok p' free' others (ed\<lparr>rd_buffer := x\<rparr>) \<and> wf_nb wf_arm nb' \<and> unchanged others p p' \<and> (rc = 0 \<or> rc = -1) \<and>
      (length (pending p ed) < 256 \<longrightarrow>
         parsed os version (ed_fd ed) (free = []) (pending p ed) nb w rc (pending p' (ed\<lparr>rd_buffer := x\<rparr>)) nb' w'))"
    (is "_ \<or> ?done p free ed nb w")
  using assms(1,2)
proof (induction "length (pending p ed)" arbitrary: p free ed nb w rule: less_induct)
  case less
  have same: "ed\<lparr>rd_buffer := rd_buffer ed\<rparr> = ed" by simp
  have still: "?done p free ed nb w"
    if "loop (parse_step os version) (0, ed, p, nb, w) = Some (rc, ed, p, nb, w)" "rc = 0 \<or> rc = -1"
      "length (pending p ed) < 256 \<Longrightarrow>
         parsed os version (ed_fd ed) (free = []) (pending p ed) nb w rc (pending p ed) nb w" for rc
    by (rule exI [of _ rc], rule exI [of _ "rd_buffer ed"], rule exI [of _ p], rule exI [of _ nb], rule exI [of _ w],
        rule exI [of _ free]) (unfold same, intro conjI impI that less.prems unchanged_refl)
  show ?case
  proof (rule parse_step_cases [OF less.prems assms(3-5), of w])
    assume i: "parse_step os version (0, ed, p, nb, w) = Some (Inr (0, ed, p, nb, w))"
      "length (pending p ed) < 256 \<Longrightarrow> \<not> complete (pending p ed)"
    have "?done p free ed nb w"
      by (rule still [OF loop_Inr [of "parse_step os version", OF i(1)]]) (simp, rule parsed_idle [OF i(2)])
    then show ?thesis by (rule disjI2)
  next
    assume i: "parse_step os version (0, ed, p, nb, w) = Some (Inr (-1, ed, p, nb, w))" "free = []" "complete (pending p ed)"
    have e: "(free = []) = True" using i(2) by simp
    have "parsed os version (ed_fd ed) (free = []) (pending p ed) nb w (-1) (pending p ed) nb w"
      unfolding e by (rule parsed_full [OF i(3)])
    note full = this
    have "?done p free ed nb w"
      by (rule still [OF loop_Inr [of "parse_step os version", OF i(1)]], rule disjI2, rule refl, rule full)
    then show ?thesis by (rule disjI2)
  next
    fix w' assume "reply_stops os version (ed_fd ed) True (pending p ed) nb w w'"
    then show ?thesis by (intro disjI1) (rule delayed_now)
  next
    fix n m len rsp nb1 w1 and rc :: int and x p1 w2 free1
    let ?ed = "ed\<lparr>rd_buffer := x\<rparr>"
    assume s: "complete (pending p ed)" "frame_length (pending p ed) = int n" "length m = 260" "take n m = take n (pending p ed)"
      "nb_modbus_reply (arm_board os) version nb m (int n) w = Some (int len, rsp, nb1, w1)" "wf_nb wf_arm nb1"
      "conn_ok p1 free1 others ?ed" "free1 \<noteq> []" "unchanged others p p1" "pending p1 ?ed = drop n (pending p ed)"
      "6 \<le> n" "n \<le> length (pending p ed)"
      and st: "parse_step os version (0, ed, p, nb, w) =
         Some (if rc = 0 then Inl (0, ?ed, p1, nb1, w2) else Inr (-1, ?ed, p1, nb1, w2))"
      and sent: "rc = 0 \<Longrightarrow> sent_all os (ed_fd ed) (take len rsp) w1 w2"
        "rc \<noteq> 0 \<Longrightarrow> reply_stops os version (ed_fd ed) False (pending p ed) nb w w2"
    show ?thesis
    proof (cases "rc = 0")
      case False
      then have l: "loop (parse_step os version) (0, ed, p, nb, w) = Some (-1, ?ed, p1, nb1, w2)"
        using loop_Inr [of "parse_step os version"] st by simp
      have "?done p free ed nb w"
        by (rule exI [of _ "-1"], rule exI [of _ x], rule exI [of _ p1], rule exI [of _ nb1], rule exI [of _ w2],
            rule exI [of _ free1])
          (intro conjI impI l s(6,7,9) parsed_stops [OF sent(2) [OF False]] disjI2 refl)
      then show ?thesis by (rule disjI2)
    next
      case True
      note sent = sent(1) [OF True]
      have e: "?ed\<lparr>rd_buffer := y\<rparr> = ed\<lparr>rd_buffer := y\<rparr>" "ed_fd ?ed = ed_fd ed" for y by simp_all
      have "length (pending p1 ?ed) < length (pending p ed)" using s(10-12) by simp
      from less.hyps [OF this s(7,6), of w2]
      consider "delayed os version (ed_fd ed) (drop n (pending p ed)) nb1 w2" | "?done p1 free1 ?ed nb1 w2"
        unfolding e(2) s(10) by blast
      then show ?thesis
      proof cases
        case 1
        from delayed_later [OF s(1-5) sent this] show ?thesis by (rule disjI1)
      next
        case 2
        have ne: "(free1 = []) = False" using s(8) by simp
        obtain rc' y p2 nb2 w3 free2 where r: "loop (parse_step os version) (0, ?ed, p1, nb1, w2) =
            Some (rc', ed\<lparr>rd_buffer := y\<rparr>, p2, nb2, w3)" "conn_ok p2 free2 others (ed\<lparr>rd_buffer := y\<rparr>)" "wf_nb wf_arm nb2"
          "unchanged others p1 p2" "rc' = 0 \<or> rc' = -1"
          "length (drop n (pending p ed)) < 256 \<longrightarrow>
             parsed os version (ed_fd ed) False (drop n (pending p ed)) nb1 w2 rc' (pending p2 (ed\<lparr>rd_buffer := y\<rparr>)) nb2 w3"
          using 2 unfolding e s(10) ne by blast
        have l: "loop (parse_step os version) (0, ed, p, nb, w) = Some (rc', ed\<lparr>rd_buffer := y\<rparr>, p2, nb2, w3)"
          using loop_Inl [of "parse_step os version"] st True r(1) by simp
        have sv: "parsed os version (ed_fd ed) (free = []) (pending p ed) nb w rc' (pending p2 (ed\<lparr>rd_buffer := y\<rparr>)) nb2 w3"
          if "length (pending p ed) < 256"
          by (rule parsed_later [OF s(1-5) sent]) (use r(6) that in simp)
        have "?done p free ed nb w"
          by (rule exI [of _ rc'], rule exI [of _ y], rule exI [of _ p2], rule exI [of _ nb2], rule exI [of _ w3],
              rule exI [of _ free2]) (intro conjI impI l r(2,3,5) unchanged_trans [OF s(9) r(4)] sv)
        then show ?thesis by (rule disjI2)
      qed
    qed
  qed
qed


text \<open>A system on which sending works at once and connections are at their end.\<close>

definition calm_os :: "unit os" where
  "calm_os = dead_bus\<lparr>os_send := (\<lambda>f bytes w. (int (length bytes), 0, w)), os_read := (\<lambda>f n w. (0, [], 0, w))\<rparr>"

lemma calm_os_ok: "sends calm_os" "full_duplex calm_os"
  using dead_bus_full_duplex by (auto simp: calm_os_def sends_def full_duplex_def Suc_le_eq)

lemma calm_os_sends: "\<not> send_stops calm_os f full bytes w w'"
proof
  assume "send_stops calm_os f full bytes w w'"
  then show False by (induction rule: send_stops.induct) (auto simp: calm_os_def)
qed


end
