(* ===== verification/Tcp_Server_Reach.thy ===== *)
theory Tcp_Server_Reach
  imports Tcp_Server_Serve
begin

text \<open>
  The states that the event loop can reach while replies can be sent at once, whatever clients
  and boards do: the invariant of the server, and that no handler of a connection faults there.
\<close>

section \<open>The invariant\<close>

definition held_by :: "server \<Rightarrow> (nat \<Rightarrow> bool) \<Rightarrow> nat set" where
  "held_by s sel = {j. \<exists>i ed. sel i \<and> get_event i s = Some ed \<and> rd_buffer ed = Some j}"

definition server_ok :: "nat list \<Rightarrow> server \<Rightarrow> bool" where
  "server_ok free s \<longleftrightarrow>
     owned (sv_pool s) free (held_by s (\<lambda>_. True)) \<and>
     (\<forall>j \<in> held_by s (\<lambda>_. True). unsent (bufs (sv_pool s) ! j)) \<and>
     (\<forall>i ed. get_event i s = Some ed \<longrightarrow> wr_buffer ed = None) \<and>
     (\<forall>i i' ed ed' j. get_event i s = Some ed \<longrightarrow> get_event i' s = Some ed' \<longrightarrow>
        rd_buffer ed = Some j \<longrightarrow> rd_buffer ed' = Some j \<longrightarrow> i = i') \<and>
     wf_nb wf_arm (sv_nb s)"

lemma get_event_put: "get_event k (put_event i ed s) = (if k = i \<and> i < length (sv_events s) then Some ed else get_event k s)"
  by (simp add: get_event_def put_event_def)

lemma get_event_free: "get_event k (s\<lparr>sv_events := (sv_events s)[i := None]\<rparr>) = (if k = i then None else get_event k s)"
  by (simp add: get_event_def)

lemma get_event_new: "get_event k (s\<lparr>sv_events := sv_events s @ [Some ed]\<rparr>) =
    (if k = length (sv_events s) then Some ed else get_event k s)"
  by (simp add: get_event_def nth_append)

lemma get_event_upd [simp]:
  "get_event k (s\<lparr>sv_pool := p\<rparr>) = get_event k s" "get_event k (s\<lparr>sv_nb := nb\<rparr>) = get_event k s"
  "get_event k (s\<lparr>sv_ptr := ptr\<rparr>) = get_event k s"
  by (simp_all add: get_event_def)

lemma get_event_less: "get_event i s = Some ed \<Longrightarrow> i < length (sv_events s)"
  by (simp add: get_event_def split: if_splits)

text \<open>The view of one connection.\<close>

lemma held_by_split:
  assumes "get_event i s = Some ed"
  shows "held_by s (\<lambda>_. True) = held_by s (\<lambda>k. k \<noteq> i) \<union> set_option (rd_buffer ed)"
  using assms by (auto simp: held_by_def) (metis option.inject)

lemma server_ok_conn:
  assumes "server_ok free s" and "get_event i s = Some ed"
  shows "conn_ok (sv_pool s) free (held_by s (\<lambda>k. k \<noteq> i)) ed"
proof -
  have "set_option (rd_buffer ed) \<inter> held_by s (\<lambda>k. k \<noteq> i) = {}"
    using assms unfolding server_ok_def held_by_def by fastforce
  then show ?thesis using assms held_by_split [OF assms(2)] unfolding server_ok_def conn_ok_def by auto
qed

lemma conn_ok_server:
  assumes "server_ok free s" and "get_event i s = Some ed"
    and "conn_ok p free' (held_by s (\<lambda>k. k \<noteq> i)) ed'" and "wf_nb wf_arm nb"
    and "unchanged (held_by s (\<lambda>k. k \<noteq> i)) (sv_pool s) p"
  shows "server_ok free' (put_event i ed' (s\<lparr>sv_pool := p, sv_nb := nb\<rparr>))"
proof -
  let ?s = "put_event i ed' (s\<lparr>sv_pool := p, sv_nb := nb\<rparr>)"
  have l: "i < length (sv_events s)" by (rule get_event_less [OF assms(2)])
  have g: "get_event k ?s = (if k = i then Some ed' else get_event k s)" for k
    using l by (simp add: get_event_put)
  have "held_by ?s (\<lambda>k. k \<noteq> i) = held_by s (\<lambda>k. k \<noteq> i)" by (auto simp: held_by_def g)
  then have h: "held_by ?s (\<lambda>_. True) = held_by s (\<lambda>k. k \<noteq> i) \<union> set_option (rd_buffer ed')"
    using held_by_split [of i ?s ed'] g by simp
  have p: "sv_pool ?s = p" "sv_nb ?s = nb" by (simp_all add: put_event_def)
  have "k = k'" if "get_event k ?s = Some e" "get_event k' ?s = Some e'" "rd_buffer e = Some j" "rd_buffer e' = Some j" for k k' e e' j
  proof (cases "k = i \<or> k' = i")
    case True
    have "j \<notin> held_by s (\<lambda>k. k \<noteq> i)" if "rd_buffer ed' = Some j" using assms(3) that by (auto simp: conn_ok_def)
    then show ?thesis using True that unfolding g held_by_def by (auto split: if_splits)
  next
    case False
    then show ?thesis using that assms(1) unfolding g server_ok_def by auto
  qed
  moreover have "\<forall>k e. get_event k ?s = Some e \<longrightarrow> wr_buffer e = None"
    using assms(1,3) unfolding g server_ok_def conn_ok_def by auto
  ultimately show ?thesis using assms(3,4) unfolding server_ok_def h p by (auto simp: conn_ok_def)
qed

text \<open>Removing a connection that holds no buffer, and adding one.\<close>

lemma server_ok_free:
  assumes "server_ok free s" and "get_event i s = Some ed" and "rd_buffer ed = None"
  shows "server_ok free (s\<lparr>sv_events := (sv_events s)[i := None]\<rparr>)"
proof -
  have "held_by (s\<lparr>sv_events := (sv_events s)[i := None]\<rparr>) (\<lambda>_. True) = held_by s (\<lambda>_. True)"
    using assms(2,3) by (auto simp: held_by_def get_event_free) (metis option.distinct(1) option.inject)
  then show ?thesis using assms(1) unfolding server_ok_def by (auto simp: get_event_free split: if_splits)
qed

lemma server_ok_new:
  assumes "server_ok free s" and "rd_buffer ed = None" and "wr_buffer ed = None"
  shows "server_ok free (s\<lparr>sv_events := sv_events s @ [Some ed]\<rparr>)"
proof -
  have n: "get_event (length (sv_events s)) s = None" by (simp add: get_event_def)
  have "held_by (s\<lparr>sv_events := sv_events s @ [Some ed]\<rparr>) (\<lambda>_. True) = held_by s (\<lambda>_. True)"
    using assms(2) n by (auto simp: held_by_def get_event_new) (metis option.distinct(1))
  then show ?thesis using assms unfolding server_ok_def by (auto simp: get_event_new split: if_splits)
qed

section \<open>The handlers\<close>

lemma close_event_spec:
  assumes "server_ok free s" and "get_event i s = Some ed"
  shows "\<exists>free' p. close_event os i s w = Some (s\<lparr>sv_events := (sv_events s)[i := None], sv_pool := p\<rparr>, os_close os (ed_fd ed) w) \<and>
    server_ok free' (s\<lparr>sv_events := (sv_events s)[i := None], sv_pool := p\<rparr>)"
proof -
  note c = server_ok_conn [OF assms]
  let ?others = "held_by s (\<lambda>k. k \<noteq> i)"
  obtain p free' where p: "repool_opt (rd_buffer ed) (sv_pool s) = Some p" "owned p free' ?others" "unchanged ?others (sv_pool s) p"
  proof (cases "rd_buffer ed")
    case None
    then show thesis using that [of "sv_pool s" free] c by (simp add: repool_opt_def conn_ok_def)
  next
    case (Some j)
    then have o: "owned (sv_pool s) free (insert j ?others)" "j \<notin> ?others" using c by (auto simp: conn_ok_def)
    then have "insert j ?others - {j} = ?others" by auto
    with repool_buffer_held [OF o(1) insertI1] obtain p where
      "repool_buffer j (sv_pool s) = Some p" "owned p (j # free) ?others" "\<forall>k \<in> ?others. bufs p ! k = bufs (sv_pool s) ! k" by auto
    then show thesis using that [of p "j # free"] Some by (simp add: repool_opt_def unchanged_def)
  qed
  have w: "wr_buffer ed = None" using c by (simp add: conn_ok_def)
  let ?s = "put_event i (ed\<lparr>rd_buffer := None\<rparr>) (s\<lparr>sv_pool := p, sv_nb := sv_nb s\<rparr>)"
  have "conn_ok p free' ?others (ed\<lparr>rd_buffer := None\<rparr>)" using c p(2,3) by (auto simp: conn_ok_def unchanged_def)
  from conn_ok_server [OF assms this _ p(3), of "sv_nb s"] assms(1)
  have "server_ok free' ?s" by (simp add: server_ok_def)
  moreover have "get_event i ?s = Some (ed\<lparr>rd_buffer := None\<rparr>)" using get_event_less [OF assms(2)] by (simp add: get_event_put)
  ultimately have "server_ok free' (?s\<lparr>sv_events := (sv_events ?s)[i := None]\<rparr>)" by (rule server_ok_free) simp
  also have "?s\<lparr>sv_events := (sv_events ?s)[i := None]\<rparr> = s\<lparr>sv_events := (sv_events s)[i := None], sv_pool := p\<rparr>"
    by (simp add: put_event_def)
  finally show ?thesis using assms(2) p(1) w by (auto simp: close_event_def repool_opt_def)
qed

text \<open>
  The documented behaviour of \<open>read\<close>, and the sizes of the arrays on the stack.
\<close>

definition reads :: "'w os \<Rightarrow> bool" where
  "reads os \<longleftrightarrow> (\<forall>f n w count bytes err w'. os_read os f n w = (count, bytes, err, w') \<longrightarrow>
     count = -1 \<and> bytes = [] \<or> count = int (length bytes) \<and> length bytes \<le> n)"

definition good_env :: "'w env \<Rightarrow> bool" where
  "good_env e \<longleftrightarrow> full_duplex (en_os e) \<and> sends (en_os e) \<and> reads (en_os e) \<and>
     length (en_version e) \<le> 246 \<and> length (en_uart_buf e) = 256 \<and> length (en_pty_buf e) = 257"

lemma put_event_same: "get_event i s = Some ed \<Longrightarrow> put_event i ed s = s"
proof -
  assume g: "get_event i s = Some ed"
  then have "sv_events s ! i = Some ed" by (simp add: get_event_def split: if_splits)
  then have "(sv_events s)[i := Some ed] = sv_events s" by (metis list_update_id)
  then show ?thesis by (simp add: put_event_def)
qed

lemma rd_buffer_same: "rd_buffer ed = x \<Longrightarrow> ed\<lparr>rd_buffer := x\<rparr> = ed"
  by (cases ed) simp

lemma reading_buffer_spec:
  assumes "server_ok free s" and "get_event i s = Some ed"
  shows "\<exists>j s' free'. reading_buffer i s = Some (j, s') \<and> server_ok free' s' \<and>
    (\<forall>k. j = Some k \<longrightarrow> (\<exists>ed'. get_event i s' = Some ed' \<and> rd_buffer ed' = Some k \<and> ed_fd ed' = ed_fd ed \<and>
       pending (sv_pool s') ed' = pending (sv_pool s) ed \<and> sv_nb s' = sv_nb s))"
proof (cases "rd_buffer ed")
  case (Some j)
  then show ?thesis using assms by (auto simp: reading_buffer_def)
next
  case None
  note c = server_ok_conn [OF assms]
  let ?others = "held_by s (\<lambda>k. k \<noteq> i)" and ?p = "sv_pool s"
  have o: "owned ?p free ?others" using c None by (simp add: conn_ok_def)
  have nb: "wf_nb wf_arm (sv_nb s)" using assms(1) by (simp add: server_ok_def)
  have e: "s\<lparr>sv_pool := q, sv_nb := sv_nb s\<rparr> = s\<lparr>sv_pool := q\<rparr>" for q by simp
  show ?thesis
  proof (cases free)
    case Nil
    have "put_event i (ed\<lparr>rd_buffer := None\<rparr>) (s\<lparr>sv_pool := ?p\<rparr>) = s"
      using put_event_same [OF assms(2)] rd_buffer_same [OF None] by simp
    then show ?thesis using assms None get_from_pool_empty [of ?p] o Nil by (auto simp: reading_buffer_def)
  next
    case (Cons j rest)
    obtain p' where p': "get_from_pool ?p = Some (Some j, p')" "owned p' rest (insert j ?others)"
      "\<forall>k \<in> ?others. bufs p' ! k = bufs ?p ! k" "b_index (bufs p' ! j) = 0" "b_sendindex (bufs p' ! j) = 0"
      using get_from_pool_free [of ?p j rest ?others] o Cons by auto
    have j: "j \<notin> ?others" using o Cons by (auto simp: owned_def)
    have "unchanged ?others ?p p'" using p'(3) by (simp add: unchanged_def)
    moreover have "conn_ok p' rest ?others (ed\<lparr>rd_buffer := Some j\<rparr>)"
      using c p' j by (auto simp: conn_ok_def unsent_def)
    ultimately have "server_ok rest (put_event i (ed\<lparr>rd_buffer := Some j\<rparr>) (s\<lparr>sv_pool := p'\<rparr>))"
      using conn_ok_server [OF assms _ nb] e by metis
    moreover have "get_event i (put_event i (ed\<lparr>rd_buffer := Some j\<rparr>) (s\<lparr>sv_pool := p'\<rparr>)) = Some (ed\<lparr>rd_buffer := Some j\<rparr>)"
      using get_event_less [OF assms(2)] by (simp add: get_event_put)
    moreover have "pending (sv_pool (put_event i (ed\<lparr>rd_buffer := Some j\<rparr>) (s\<lparr>sv_pool := p'\<rparr>))) (ed\<lparr>rd_buffer := Some j\<rparr>) = pending ?p ed"
      and "sv_nb (put_event i (ed\<lparr>rd_buffer := Some j\<rparr>) (s\<lparr>sv_pool := p'\<rparr>)) = sv_nb s"
      using p'(4) None by (simp_all add: pending_def held_bytes_def put_event_def)
    ultimately show ?thesis using assms(2) None p'(1) by (auto simp: reading_buffer_def)
  qed
qed

lemma upd_own_buffer:
  assumes "server_ok free s" and "get_event i s = Some ed" and "rd_buffer ed = Some j"
    and "b_next (f (bufs (sv_pool s) ! j)) = None" and "length (b_data (f (bufs (sv_pool s) ! j))) = 260"
    and "unsent (f (bufs (sv_pool s) ! j))"
  shows "\<exists>p. upd_buf j f (sv_pool s) = Some p \<and> server_ok free (s\<lparr>sv_pool := p\<rparr>) \<and> bufs p ! j = f (bufs (sv_pool s) ! j)"
proof -
  note c = server_ok_conn [OF assms(1,2)]
  let ?others = "held_by s (\<lambda>k. k \<noteq> i)" and ?p = "sv_pool s"
  have o: "owned ?p free (insert j ?others)" "j \<notin> ?others" using c assms(3) by (auto simp: conn_ok_def)
  have nb: "wf_nb wf_arm (sv_nb s)" using assms(1) by (simp add: server_ok_def)
  obtain p where p: "upd_buf j f ?p = Some p" "owned p free (insert j ?others)" "bufs p ! j = f (bufs ?p ! j)"
    "\<forall>k. k \<noteq> j \<longrightarrow> bufs p ! k = bufs ?p ! k"
    using upd_buf_held [OF o(1) insertI1, of f] assms(4,5) by (auto simp: MAX_MB_BUFFER_LEN_def)
  have "unchanged ?others ?p p" using p(4) o(2) by (auto simp: unchanged_def)
  moreover have "conn_ok p free ?others ed" using c p assms(3,6) o(2) by (auto simp: conn_ok_def)
  ultimately have "server_ok free (put_event i ed (s\<lparr>sv_pool := p, sv_nb := sv_nb s\<rparr>))"
    by (intro conn_ok_server [OF assms(1,2) _ nb])
  moreover have "put_event i ed (s\<lparr>sv_pool := p, sv_nb := sv_nb s\<rparr>) = s\<lparr>sv_pool := p\<rparr>"
    using put_event_same [of i "s\<lparr>sv_pool := p\<rparr>" ed] assms(2) by simp
  ultimately show ?thesis using p(1,3) by auto
qed

lemma server_ok_ptr [simp]: "server_ok free (s\<lparr>sv_ptr := x\<rparr>) = server_ok free s"
  by (simp add: server_ok_def held_by_def)

lemma serve_data_spec:
  assumes "server_ok free s" and "get_event i s = Some ed" and "good_env e"
    and "\<not> delayed (en_os e) (en_version e) (ed_fd ed) (pending (sv_pool s) ed) (sv_nb s) w"
  shows "\<exists>more s' w' free'. serve_data e i full s w = Some (more, s', w') \<and> server_ok free' s' \<and>
    (more \<longrightarrow> get_event i s' \<noteq> None)"
proof -
  note c = server_ok_conn [OF assms(1,2)]
  let ?others = "held_by s (\<lambda>k. k \<noteq> i)"
  have nb: "wf_nb wf_arm (sv_nb s)" using assms(1) by (simp add: server_ok_def)
  have env: "full_duplex (en_os e)" "length (en_version e) \<le> 246" "sends (en_os e)"
    using assms(3) by (simp_all add: good_env_def)
  obtain rc x p' nb' w' free' where r: "loop (parse_step (en_os e) (en_version e)) (0, ed, sv_pool s, sv_nb s, w) =
      Some (rc, ed\<lparr>rd_buffer := x\<rparr>, p', nb', w')" "conn_ok p' free' ?others (ed\<lparr>rd_buffer := x\<rparr>)" "wf_nb wf_arm nb'"
    "unchanged ?others (sv_pool s) p'" "rc = 0 \<or> rc = -1"
    using parse_loop [OF c nb env, of w] assms(4) by blast
  let ?s = "put_event i (ed\<lparr>rd_buffer := x\<rparr>) (s\<lparr>sv_pool := p', sv_nb := nb'\<rparr>)"
  have ok: "server_ok free' ?s" by (rule conn_ok_server [OF assms(1,2) r(2,3,4)])
  have g: "get_event i ?s = Some (ed\<lparr>rd_buffer := x\<rparr>)" using get_event_less [OF assms(2)] by (simp add: get_event_put)
  show ?thesis
  proof (cases "rc = 0")
    case True
    then have "serve_data e i full s w = Some (full, ?s, w')"
      using assms(2) r(1) by (simp add: serve_data_def parse_buffer_def RES_WRITE_QUEUE_def)
    then show ?thesis using ok g by auto
  next
    case False
    then have "rc = -1" using r(5) by simp
    from close_event_spec [OF ok g, of "en_os e" w'] obtain free2 s2 w2 where
      "close_event (en_os e) i ?s w' = Some (s2, w2)" "server_ok free2 s2" by blast
    moreover from this have "serve_data e i full s w = Some (False, s2, w2)"
      using assms(2) r(1) \<open>rc = -1\<close> by (simp add: serve_data_def parse_buffer_def)
    ultimately show ?thesis by auto
  qed
qed

text \<open>
  A turn of the reading loop in which a reply is met with \<open>EAGAIN\<close>: with the bytes that the turn
  reads, a request on the connection is complete and its reply cannot be sent at once.
\<close>

definition read_delayed :: "'w env \<Rightarrow> nat \<Rightarrow> server \<times> 'w \<Rightarrow> bool" where
  "read_delayed e i v \<longleftrightarrow>
     (case v of (s, w) \<Rightarrow> \<exists>ed bytes err w1. get_event i s = Some ed \<and>
        os_read (en_os e) (ed_fd ed) (260 - length (pending (sv_pool s) ed)) w = (int (length bytes), bytes, err, w1) \<and>
        delayed (en_os e) (en_version e) (ed_fd ed) (pending (sv_pool s) ed @ bytes) (sv_nb s) w1)"

lemma read_step_spec:
  assumes "server_ok free s" and "get_event i s = Some ed" and "good_env e" and "\<not> read_delayed e i (s, w)"
  shows "\<exists>s' w' free'. server_ok free' s' \<and>
    (read_step e i (s, w) = Some (Inl (s', w')) \<and> get_event i s' \<noteq> None \<or> read_step e i (s, w) = Some (Inr (s', w')))"
proof -
  obtain jo s1 free1 where b: "reading_buffer i s = Some (jo, s1)" "server_ok free1 s1"
    "\<forall>k. jo = Some k \<longrightarrow> (\<exists>ed'. get_event i s1 = Some ed' \<and> rd_buffer ed' = Some k \<and> ed_fd ed' = ed_fd ed \<and>
       pending (sv_pool s1) ed' = pending (sv_pool s) ed \<and> sv_nb s1 = sv_nb s)"
    using reading_buffer_spec [OF assms(1,2)] by blast
  show ?thesis
  proof (cases jo)
    case None
    then have "read_step e i (s, w) = Some (Inr (s1, w))" using b(1) by (simp add: read_step_def)
    then show ?thesis using b(2) by blast
  next
    case (Some j)
    then obtain ed1 where ed1: "get_event i s1 = Some ed1" "rd_buffer ed1 = Some j"
      and same: "ed_fd ed1 = ed_fd ed" "pending (sv_pool s1) ed1 = pending (sv_pool s) ed" "sv_nb s1 = sv_nb s"
      using b(3) by blast
    note c = server_ok_conn [OF b(2) ed1(1)]
    have o: "owned (sv_pool s1) free1 (insert j (held_by s1 (\<lambda>k. k \<noteq> i)))" "unsent (bufs (sv_pool s1) ! j)"
      using c ed1(2) by (auto simp: conn_ok_def)
    note j = owned_lengths [OF o(1) insertI1]
    have nx: "b_next (bufs (sv_pool s1) ! j) = None" by (rule ownedD(2) [OF o(1) insertI1])
    let ?b = "bufs (sv_pool s1) ! j"
    have k: "b_index ?b \<le> 260" "b_sendindex ?b = 0" using o(2) by (simp_all add: unsent_def)
    let ?wanted = "int MAX_MB_BUFFER_LEN - int (b_index ?b)"
    have wanted: "0 \<le> ?wanted" "nat ?wanted = 260 - b_index ?b" using k(1) by (simp_all add: MAX_MB_BUFFER_LEN_def nat_diff_distrib)
    obtain count bytes err w1 where rd: "os_read (en_os e) (ed_fd ed1) (nat ?wanted) w = (count, bytes, err, w1)" by (metis prod_cases4)
    have "reads (en_os e)" using assms(3) by (simp add: good_env_def)
    then have cnt: "count = -1 \<and> bytes = [] \<or> count = int (length bytes) \<and> length bytes \<le> 260 - b_index ?b"
      using rd unfolding reads_def wanted(2) by blast
    then have lb: "b_index ?b + length bytes \<le> 260" using k(1) by auto
    let ?m = "overlay (b_data ?b) (b_index ?b) bytes"
    have wr: "wr_blk (b_data ?b) (int (b_index ?b)) bytes = Some ?m" using lb j(2) by (simp add: no_fault)
    obtain p1 where p1: "upd_buf j (\<lambda>b. b\<lparr>b_data := ?m\<rparr>) (sv_pool s1) = Some p1" "server_ok free1 (s1\<lparr>sv_pool := p1\<rparr>)"
      "bufs p1 ! j = ?b\<lparr>b_data := ?m\<rparr>"
      using upd_own_buffer [OF b(2) ed1, of "\<lambda>b. b\<lparr>b_data := ?m\<rparr>"] nx lb j(2) k by (auto simp: unsent_def)
    have g1: "get_event i (s1\<lparr>sv_pool := p1\<rparr>) = Some ed1" using ed1(1) by simp
    have step: "read_step e i (s, w) =
      (if count = -1 \<and> err = EAGAIN then Some (Inr (s1\<lparr>sv_pool := p1\<rparr>, w1))
       else if count = -1 \<or> count = 0 then
         do { r \<leftarrow> close_event (en_os e) i (s1\<lparr>sv_pool := p1\<rparr>) w1; Some (Inr r) }
       else do {
         p \<leftarrow> upd_buf j (\<lambda>b. b\<lparr>b_index := to_u16 (int (b_index b) + count)\<rparr>) p1;
         (more, s, w) \<leftarrow> serve_data e i (?wanted \<le> count) (s1\<lparr>sv_pool := p\<rparr>) w1;
         Some (if more then Inl (s, w) else Inr (s, w)) })"
      using b(1) Some ed1(1) j(3) wanted(1) rd wr p1(1) by (simp add: read_step_def)
    show ?thesis
    proof (cases "count = -1 \<or> count = 0")
      case True
      then show ?thesis
      proof (cases "count = -1 \<and> err = EAGAIN")
        case True
        then show ?thesis using step p1(2) by auto
      next
        case False
        obtain free2 s2 w2 where "close_event (en_os e) i (s1\<lparr>sv_pool := p1\<rparr>) w1 = Some (s2, w2)" "server_ok free2 s2"
          using close_event_spec [OF p1(2) g1, of "en_os e" w1] by blast
        then show ?thesis using step True False by auto
      qed
    next
      case False
      then have count: "count = int (length bytes)" using cnt by auto
      have u: "to_u16 (int (b_index ?b) + count) = b_index ?b + length bytes"
        using lb count by (subst to_u16_id) (auto simp: nat_add_distrib)
      let ?f = "\<lambda>b. b\<lparr>b_index := to_u16 (int (b_index b) + count)\<rparr>"
      obtain p2 where p2: "upd_buf j ?f p1 = Some p2" "server_ok free1 (s1\<lparr>sv_pool := p2\<rparr>)"
        and p2': "bufs p2 ! j = ?f (bufs p1 ! j)"
        using upd_own_buffer [OF p1(2) g1 ed1(2), of ?f] p1(3) nx lb j(2) k u by (auto simp: unsent_def)
      have pend: "pending (sv_pool s1) ed1 = take (b_index ?b) (b_data ?b)" "length (pending (sv_pool s1) ed1) = b_index ?b"
        using ed1(2) k(1) j(2) by (simp_all add: pending_def held_bytes_def)
      have "pending p2 ed1 = take (b_index ?b + length bytes) ?m"
        using ed1(2) p2' p1(3) u by (simp add: pending_def held_bytes_def)
      also have "\<dots> = pending (sv_pool s1) ed1 @ bytes"
        using take_overlay [of "b_index ?b" bytes "b_data ?b"] lb j(2) pend(1) by simp
      finally have pend2: "pending p2 ed1 = pending (sv_pool s) ed @ bytes" unfolding same(2) .
      have "os_read (en_os e) (ed_fd ed) (260 - length (pending (sv_pool s) ed)) w = (int (length bytes), bytes, err, w1)"
        using rd count pend(2) unfolding wanted(2) same(1) same(2) by simp
      then have nd: "\<not> delayed (en_os e) (en_version e) (ed_fd ed) (pending (sv_pool s) ed @ bytes) (sv_nb s) w1"
        using assms(2,4) unfolding read_delayed_def by auto
      have g2: "get_event i (s1\<lparr>sv_pool := p2\<rparr>) = Some ed1" using ed1(1) by simp
      obtain more s3 w3 free3 where "serve_data e i (?wanted \<le> count) (s1\<lparr>sv_pool := p2\<rparr>) w1 = Some (more, s3, w3)"
        "server_ok free3 s3" "more \<longrightarrow> get_event i s3 \<noteq> None"
        using serve_data_spec [OF p2(2) g2 assms(3), of w1 "?wanted \<le> count"] nd by (auto simp: pend2 same)
      then show ?thesis using step p2(1) False by (cases more) auto
    qed
  qed
qed

lemma accept_step_spec:
  assumes "server_ok free s"
  shows "\<exists>s' w' free'. server_ok free' s' \<and>
    (accept_step e sock (s, w) = Some (Inl (s', w')) \<or> accept_step e sock (s, w) = Some (Inr (s', w')))"
proof -
  obtain newfd err w1 where a: "ep_accept (en_ep e) sock w = (newfd, err, w1)" by (metis prod_cases3)
  obtain rc w2 where n: "make_socket_non_blocking (en_ep e) newfd w1 = (rc, w2)" by fastforce
  show ?thesis
  proof (cases "newfd = -1 \<or> rc = -1")
    case True
    then show ?thesis using assms a n by (cases "newfd = -1") (auto simp: accept_step_def)
  next
    case False
    let ?i = "length (sv_events s)"
    let ?ed = "\<lparr>ed_fd = newfd, ed_type = ED_MODBUS_SOCKET, rd_buffer = None, wr_buffer = None, ed_arm = None\<rparr>"
    let ?s = "s\<lparr>sv_events := sv_events s @ [Some ?ed], sv_ptr := Some ?i\<rparr>"
    have ok: "server_ok free ?s" using server_ok_new [OF assms, of ?ed] by simp
    have g: "get_event ?i ?s = Some ?ed" by (simp add: get_event_def)
    obtain rc2 w3 where ad: "ep_add (en_ep e) newfd (EPOLLIN OR EPOLLET) (Some ?i) w2 = (rc2, w3)" by fastforce
    obtain free2 p where "close_event (en_os e) ?i ?s w3 = Some (?s\<lparr>sv_events := (sv_events ?s)[?i := None], sv_pool := p\<rparr>, os_close (en_os e) (ed_fd ?ed) w3)"
      "server_ok free2 (?s\<lparr>sv_events := (sv_events ?s)[?i := None], sv_pool := p\<rparr>)"
      using close_event_spec [OF ok g, of "en_os e" w3] by blast
    then show ?thesis using False a n ad ok by (cases "rc2 = -1") (auto simp: accept_step_def Let_def)
  qed
qed

text \<open>The boards' handlers touch neither the pool nor the connections.\<close>

lemma server_ok_nb:
  assumes "server_ok free s" and "wf_nb wf_arm nb"
  shows "server_ok free (s\<lparr>sv_nb := nb\<rparr>)"
  using assms by (simp add: server_ok_def held_by_def)

lemma with_arm_ok:
  assumes "server_ok free s" and "with_arm k f s w = Some (s', w')"
    and "\<And>a a' w w'. wf_arm a \<Longrightarrow> f a w = Some (a', w') \<Longrightarrow> wf_arm a'"
  shows "server_ok free s'"
proof -
  obtain a a' where k: "k < length (nb_arm (sv_nb s))" "nb_arm (sv_nb s) ! k = Some a" "f a w = Some (a', w')"
    "s' = s\<lparr>sv_nb := (sv_nb s)\<lparr>nb_arm := (nb_arm (sv_nb s))[k := Some a']\<rparr>\<rparr>"
    using assms(2) by (auto simp: with_arm_def elim!: bind_SomeE split: if_splits)
  have nb: "wf_nb wf_arm (sv_nb s)" using assms(1) by (simp add: server_ok_def)
  moreover have "Some a \<in> set (nb_arm (sv_nb s))" using k(1,2) by (metis nth_mem)
  ultimately have "wf_arm a" by (simp add: wf_nb_def)
  then have "wf_arm a'" using assms(3) k(3) by blast
  then show ?thesis unfolding k(4) by (intro server_ok_nb [OF assms(1)] wf_nb_update [OF nb])
qed

lemma readuart_keeps: "good_env e \<Longrightarrow> wf_arm a \<Longrightarrow> armpty_readuart (en_os e) (en_uart_buf e) b a w = Some (a', w') \<Longrightarrow> wf_arm a'"
  using armpty_readuart_wf [of a "en_os e" "en_uart_buf e" b w a' w'] by (simp add: good_env_def)

lemma setuart_keeps: "good_env e \<Longrightarrow> wf_arm a \<Longrightarrow> armpty_setuart (en_os e) pt f u a w = Some (a', w') \<Longrightarrow> wf_arm a'"
  using armpty_setuart_wf [of a "en_os e" pt f u w] unfolding good_env_def by auto

lemma readpty_keeps:
  assumes "good_env e" and "wf_arm a" and "armpty_readpty (en_os e) f u (en_pty_buf e) a w = Some (a', w')"
  shows "wf_arm a'"
proof -
  obtain rd bytes err w1 where r: "os_read (en_os e) f 257 w = (rd, bytes, err, w1)" by (metis prod_cases4)
  have "length bytes \<le> 257" "rd \<le> 257" using assms(1) r unfolding good_env_def reads_def by force+
  then show ?thesis using armpty_readpty_wf [OF assms(2) _ _ r, of "en_pty_buf e" u] assms(1,3) by (auto simp: good_env_def)
qed

lemma handle_board_ok:
  assumes "server_ok free s" and "good_env e" and "handle_board e ed events s w = Some (s', w')"
  shows "server_ok free s'"
proof (cases "ed_arm ed")
  case None
  then show ?thesis using assms by (simp add: handle_board_def)
next
  case (Some k)
  show ?thesis
  proof (cases "ed_type ed = ED_INTERRUPT")
    case True
    then show ?thesis using assms Some with_arm_ok [OF assms(1) _ readuart_keeps [OF assms(2)]]
      by (auto simp: handle_board_def split: if_splits)
  next
    case False
    obtain s1 w1 where s1: "(if events AND EPOLLPRI \<noteq> 0 then with_arm k (armpty_setuart (en_os e) (en_pty e) (ed_fd ed) 0) s w
        else Some (s, w)) = Some (s1, w1)"
      "(if events AND EPOLLIN \<noteq> 0 then with_arm k (armpty_readpty (en_os e) (ed_fd ed) 0 (en_pty_buf e)) s1 w1
        else Some (s1, w1)) = Some (s', w')"
      using assms(3) Some False by (auto simp: handle_board_def elim!: bind_SomeE)
    have "server_ok free s1" using s1(1) assms(1) with_arm_ok [OF assms(1) _ setuart_keeps [OF assms(2)]]
      by (auto split: if_splits)
    then show ?thesis using s1(2) with_arm_ok [OF _ _ readpty_keeps [OF assms(2)], of free s1]
      by (auto split: if_splits)
  qed
qed

lemma poll_board_ok:
  assumes "server_ok free s" and "good_env e" and "poll_board e k (s, w) = Some (s', w')"
  shows "server_ok free s'"
  using assms(1,3) with_arm_ok [OF assms(1) _ readuart_keeps [OF assms(2)]]
  by (auto simp: poll_board_def split: if_splits option.splits)

lemma deferred_firmware_ok:
  assumes "server_ok free s" and "deferred_firmware e fwdir s w = Some (s', w')"
  shows "server_ok free s'"
proof (cases "deferred_op (sv_nb s) = DFR_OP_FIRMWARE")
  case False
  then show ?thesis using assms by (simp add: deferred_firmware_def)
next
  case True
  let ?s = "s\<lparr>sv_nb := (sv_nb s)\<lparr>deferred_op := DFR_NONE\<rparr>\<rparr>"
  have "wf_nb wf_arm ((sv_nb s)\<lparr>deferred_op := DFR_NONE\<rparr>)" using assms(1) by (simp add: server_ok_def wf_nb_def)
  then have ok: "server_ok free ?s" by (rule server_ok_nb [OF assms(1)])
  obtain k where "with_arm k (\<lambda>a w. do {
      (_, a, w) \<leftarrow> arm_firmware (en_os e) (en_files e) (en_mem_ok e) (en_nvram e) (en_regs e) a fwdir False w;
      Some (a, w) }) ?s w = Some (s', w')"
    using assms(2) True by (auto simp: deferred_firmware_def Let_def elim!: bind_SomeE)
  then show ?thesis
    by (rule with_arm_ok [OF ok]) (auto elim!: bind_SomeE dest: arm_firmware_unchanged)
qed

section \<open>Reachable states\<close>

text \<open>
  The steps of the server: a turn of the accepting or of a reading loop, the end of a
  connection, the handling of a board, and time passing, in which clients and boards do what
  they like. A turn of a reading loop counts as long as no reply is met with \<open>EAGAIN\<close> in it.
  \<open>server_turn\<close> is made of such steps (\<open>server_turn_reachable\<close> below); here they may come in any
  order.
\<close>

inductive server_step :: "'w env \<Rightarrow> int \<Rightarrow> string \<Rightarrow> server \<times> 'w \<Rightarrow> server \<times> 'w \<Rightarrow> bool" for e sock fwdir where
  accepting: "accept_step e sock v = Some (Inl v') \<or> accept_step e sock v = Some (Inr v') \<Longrightarrow>
    server_step e sock fwdir v v'"
| reading: "get_event i (fst v) = Some ed \<Longrightarrow> \<not> read_delayed e i v \<Longrightarrow> read_step e i v = Some (Inl v') \<or> read_step e i v = Some (Inr v') \<Longrightarrow>
    server_step e sock fwdir v v'"
| closing: "close_event (en_os e) i s w = Some v' \<Longrightarrow> server_step e sock fwdir (s, w) v'"
| board: "handle_board e ed events s w = Some v' \<Longrightarrow> server_step e sock fwdir (s, w) v'"
| polling: "poll_board e k v = Some v' \<Longrightarrow> server_step e sock fwdir v v'"
| updating: "deferred_firmware e fwdir s w = Some v' \<Longrightarrow> server_step e sock fwdir (s, w) v'"
| elapse: "server_step e sock fwdir (s, w) (s, w')"

text \<open>The server when the event loop starts.\<close>

definition at_start :: "server \<Rightarrow> bool" where
  "at_start s \<longleftrightarrow> sv_pool s = pool_allocate \<and> wf_nb wf_arm (sv_nb s) \<and>
     (\<forall>ed. Some ed \<in> set (sv_events s) \<longrightarrow> rd_buffer ed = None \<and> wr_buffer ed = None)"

inductive reachable :: "'w env \<Rightarrow> int \<Rightarrow> string \<Rightarrow> server \<times> 'w \<Rightarrow> bool" for e sock fwdir where
  start: "at_start s \<Longrightarrow> reachable e sock fwdir (s, w)"
| step: "reachable e sock fwdir v \<Longrightarrow> server_step e sock fwdir v v' \<Longrightarrow> reachable e sock fwdir v'"

lemma at_start_ok:
  assumes "at_start s"
  shows "server_ok (rev [0..<129]) s"
proof -
  have n: "rd_buffer ed = None \<and> wr_buffer ed = None" if "get_event i s = Some ed" for i ed
  proof -
    have "i < length (sv_events s)" "sv_events s ! i = Some ed" using that by (simp_all add: get_event_def split: if_splits)
    then have "Some ed \<in> set (sv_events s)" by (metis nth_mem)
    then show ?thesis using assms by (simp add: at_start_def)
  qed
  then have "held_by s (\<lambda>_. True) = {}" by (auto simp: held_by_def)
  then show ?thesis using assms pool_allocate_owned(1) n by (auto simp: server_ok_def at_start_def)
qed

lemma server_step_ok:
  assumes "server_step e sock fwdir v v'" and "good_env e" and "server_ok free (fst v)"
  shows "\<exists>free'. server_ok free' (fst v')"
  using assms(1,3)
proof (cases rule: server_step.cases)
  case accepting
  obtain s' w' free' where "server_ok free' s'"
    "accept_step e sock v = Some (Inl (s', w')) \<or> accept_step e sock v = Some (Inr (s', w'))"
    using accept_step_spec [OF assms(3), of e sock "snd v"] by auto
  then show ?thesis using accepting by auto
next
  case (reading i ed)
  obtain s' w' free' where "server_ok free' s'" "read_step e i v = Some (Inl (s', w')) \<or> read_step e i v = Some (Inr (s', w'))"
    using read_step_spec [OF assms(3) reading(1) assms(2), of "snd v"] reading(2) by auto
  then show ?thesis using reading by auto
next
  case (closing i s w)
  then obtain ed where "get_event i s = Some ed" by (auto simp: close_event_def elim!: bind_SomeE)
  then show ?thesis using closing assms(3) close_event_spec [of free s i ed "en_os e" w] by auto
next
  case (board ed events s w)
  then show ?thesis using handle_board_ok [OF _ assms(2), of free s ed events w "fst v'" "snd v'"] assms(3) by auto
next
  case (polling k)
  then show ?thesis using poll_board_ok [OF assms(3,2), of k "snd v" "fst v'" "snd v'"] by auto
next
  case (updating s w)
  then show ?thesis using deferred_firmware_ok [of free s e fwdir w "fst v'" "snd v'"] assms(3) by auto
next
  case elapse
  then show ?thesis using assms(3) by auto
qed

lemma reachable_ok:
  assumes "reachable e sock fwdir v" and "good_env e"
  shows "\<exists>free. server_ok free (fst v)"
  using assms(1)
proof (induction rule: reachable.induct)
  case (step v v')
  then show ?case using server_step_ok [OF step.hyps(2) assms(2)] by blast
qed (use at_start_ok in auto)

text \<open>
  C8. In every state that is reached without a reply having been met with \<open>EAGAIN\<close> (C32 says what
  happens then), whatever clients send and however their connections come and go, every buffer
  of the pool is either on the stack of free buffers or the receive buffer of exactly one open
  connection, no reply is queued, and the handlers of the listening socket and of every open
  connection run without a fault, that of reading as long as it is not met with \<open>EAGAIN\<close> itself.
\<close>

theorem server_keeps_buffers:
  assumes "good_env e" and "reachable e sock fwdir (s, w)"
  shows "(\<exists>free. owned (sv_pool s) free {j. \<exists>i ed. get_event i s = Some ed \<and> rd_buffer ed = Some j}) \<and>
    (\<forall>i i' ed ed' j. get_event i s = Some ed \<and> get_event i' s = Some ed' \<and> rd_buffer ed = Some j \<and> rd_buffer ed' = Some j \<longrightarrow> i = i') \<and>
    (\<forall>i ed w. get_event i s = Some ed \<longrightarrow>
       wr_buffer ed = None \<and> (read_delayed e i (s, w) \<or> read_step e i (s, w) \<noteq> None) \<and> close_event (en_os e) i s w \<noteq> None) \<and>
    (\<forall>w. accept_step e sock (s, w) \<noteq> None)"
proof -
  obtain free where ok: "server_ok free s" using reachable_ok [OF assms(2,1)] by auto
  have "accept_step e sock (s, w) \<noteq> None" for w using accept_step_spec [OF ok, of e sock w] by auto
  moreover have "wr_buffer ed = None \<and> (read_delayed e i (s, w) \<or> read_step e i (s, w) \<noteq> None) \<and> close_event (en_os e) i s w \<noteq> None"
    if "get_event i s = Some ed" for i ed w
  proof (intro conjI)
    show "wr_buffer ed = None" using that ok by (simp add: server_ok_def)
    show "read_delayed e i (s, w) \<or> read_step e i (s, w) \<noteq> None" using read_step_spec [OF ok that assms(1), of w] by fastforce
    show "close_event (en_os e) i s w \<noteq> None" using close_event_spec [OF ok that, of "en_os e" w] by fastforce
  qed
  moreover have "owned (sv_pool s) free {j. \<exists>i ed. get_event i s = Some ed \<and> rd_buffer ed = Some j}"
    and "\<forall>i i' ed ed' j. get_event i s = Some ed \<and> get_event i' s = Some ed' \<and> rd_buffer ed = Some j \<and> rd_buffer ed' = Some j \<longrightarrow> i = i'"
    using ok by (auto simp: server_ok_def held_by_def)
  ultimately show ?thesis by auto
qed

section \<open>The event loop\<close>

lemma loop_reachable:
  assumes "loop f v = Some v'" and "reachable e sock fwdir v" and "good v"
    and "\<And>v v'. good v \<Longrightarrow> reachable e sock fwdir v \<Longrightarrow> f v = Some (Inl v') \<Longrightarrow> server_step e sock fwdir v v' \<and> good v'"
    and "\<And>v v'. good v \<Longrightarrow> reachable e sock fwdir v \<Longrightarrow> f v = Some (Inr v') \<Longrightarrow> server_step e sock fwdir v v'"
  shows "reachable e sock fwdir v'"
  by (rule loop_invariant [where P = "\<lambda>v. reachable e sock fwdir v \<and> good v" and Q = "reachable e sock fwdir", OF assms(1)])
    (use assms(2-5) reachable.step in blast)+

lemma handle_event_reachable:
  assumes "handle_event e sock (i, events) s w = Some v'" and "reachable e sock fwdir (s, w)" and "good_env e"
    and "\<And>i v. \<not> read_delayed e i v"
  shows "reachable e sock fwdir v'"
proof -
  obtain free where ok: "server_ok free s" using reachable_ok [OF assms(2,3)] by auto
  obtain ed where ed: "get_event i s = Some ed" using assms(1) by (auto simp: handle_event_def elim!: bind_SomeE)
  let ?bad = "events AND EPOLLERR \<noteq> 0 \<or> events AND EPOLLHUP \<noteq> 0 \<or> events AND EPOLLIN = 0"
  consider (brd) "ed_type ed = ED_INTERRUPT \<or> ed_type ed = ED_PTY" "handle_board e ed events s w = Some v'"
    | (bad) "close_event (en_os e) i s w = Some v'"
    | (acc) "loop (accept_step e sock) (s, w) = Some v'"
    | (out) "loop (write_step e i) (s, w) \<noteq> None"
    | (inp) "loop (read_step e i) (s, w) = Some v'"
    using assms(1) ed
    by (cases "ed_type ed = ED_INTERRUPT \<or> ed_type ed = ED_PTY"; cases ?bad; cases "ed_type ed = ED_SERVER_SOCKET";
        cases "events AND EPOLLOUT \<noteq> 0") (auto simp: handle_event_def elim!: bind_SomeE)
  then show ?thesis
  proof cases
    case brd
    show ?thesis by (rule reachable.step [OF assms(2) server_step.board [OF brd(2)]])
  next
    case bad
    show ?thesis by (rule reachable.step [OF assms(2) server_step.closing [OF bad]])
  next
    case acc
    then show ?thesis by (rule loop_reachable [OF _ assms(2), where good = "\<lambda>_. True"]) (auto intro: server_step.accepting)
  next
    case out
    have "wr_buffer ed = None" using ok ed by (simp add: server_ok_def)
    then have "write_step e i (s, w) = None" using ed by (simp add: write_step_def)
    then have "loop (write_step e i) (s, w) = None" by (rule loop_fault)
    with out show ?thesis by contradiction
  next
    case inp
    show ?thesis
    proof (rule loop_reachable [OF inp assms(2), where good = "\<lambda>v. get_event i (fst v) \<noteq> None"])
      show "get_event i (fst (s, w)) \<noteq> None" using ed by simp
      fix v v' assume v: "get_event i (fst v) \<noteq> None" "reachable e sock fwdir v"
      then obtain ed1 where g: "get_event i (fst v) = Some ed1" by auto
      obtain free1 where "server_ok free1 (fst v)" using reachable_ok [OF v(2) assms(3)] by blast
      from read_step_spec [OF this g assms(3), of "snd v"] g assms(4)
      show "read_step e i v = Some (Inl v') \<Longrightarrow> server_step e sock fwdir v v' \<and> get_event i (fst v') \<noteq> None"
        and "read_step e i v = Some (Inr v') \<Longrightarrow> server_step e sock fwdir v v'"
        by (auto intro: server_step.reading [OF g assms(4)])
    qed
  qed
qed

text \<open>
  A turn of the event loop in \<open>main\<close>, with any events, that runs to its end leads from a reachable
  state to a reachable one, when no reply is met with \<open>EAGAIN\<close>.
\<close>

lemma server_turn_reachable:
  assumes "good_env e" and "reachable e sock fwdir (s, w)" and "\<And>i v. \<not> read_delayed e i v"
    and "server_turn e fwdir sock poll_timeout events s w = Some v'"
  shows "reachable e sock fwdir v'"
proof -
  obtain s1 w1 v2 where t: "deferred_firmware e fwdir s w = Some (s1, w1)"
    "for_each events (\<lambda>ev (s, w). handle_event e sock ev s w) (s1, w1) = Some v2"
    "(if 0 < poll_timeout then for_each [0..<nat MAX_ARMS] (poll_board e) v2 else Some v2) = Some v'"
    using assms(4) by (auto simp: server_turn_def elim!: bind_SomeE)
  have "reachable e sock fwdir (s1, w1)" by (rule reachable.step [OF assms(2) server_step.updating [OF t(1)]])
  then have "reachable e sock fwdir v2"
    by (rule for_each_invariant [OF t(2), where P = "reachable e sock fwdir"])
      (auto intro: handle_event_reachable [OF _ _ assms(1,3)] split: prod.splits)
  then show ?thesis
  proof (cases "0 < poll_timeout")
    case True
    then have "for_each [0..<nat MAX_ARMS] (poll_board e) v2 = Some v'" using t(3) by simp
    then show ?thesis
      by (rule for_each_invariant [where P = "reachable e sock fwdir"]) (use \<open>reachable e sock fwdir v2\<close> reachable.step server_step.polling in blast)+
  next
    case False
    then show ?thesis using t(3) \<open>reachable e sock fwdir v2\<close> by simp
  qed
qed

section \<open>A server at its start\<close>

definition first_server :: server where
  "first_server = \<lparr>sv_events = [Some (plain_socket\<lparr>ed_type := ED_SERVER_SOCKET\<rparr>)], sv_pool = pool_allocate, sv_nb = one_board,
     sv_ptr = Some 0\<rparr>"

lemma first_server_at_start: "at_start first_server"
  using wf_one_board by (simp add: at_start_def first_server_def plain_socket_def)

lemma calm_env_good: "good_env (idle_env calm_os)"
  using calm_os_ok by (simp add: good_env_def idle_env_def reads_def) (simp add: calm_os_def)

lemma calm_env_never_delays: "\<not> read_delayed (idle_env calm_os) i v"
proof
  assume "read_delayed (idle_env calm_os) i v"
  then show False
    using calm_os_sends by (auto simp: read_delayed_def delayed_def reply_stops_def idle_env_def)
qed

theorem server_keeps_buffers_witness:
  "(\<exists>free. owned (sv_pool first_server) free {j. \<exists>i ed. get_event i first_server = Some ed \<and> rd_buffer ed = Some j}) \<and>
   read_step (idle_env calm_os) 0 (first_server, ()) \<noteq> None \<and> accept_step (idle_env calm_os) 7 (first_server, ()) \<noteq> None"
proof -
  have "get_event 0 first_server = Some (plain_socket\<lparr>ed_type := ED_SERVER_SOCKET\<rparr>)" by (simp add: get_event_def first_server_def)
  with server_keeps_buffers [OF calm_env_good reachable.start [OF first_server_at_start, of _ 7 "[]" "()"]] calm_env_never_delays
  show ?thesis by blast
qed

end
