(* ===== verification/C_Strings.thy ===== *)
theory C_Strings
  imports Arm_Spi
begin

text \<open>
  Strings in memory, and the conversions of the C library that the programs use on their arguments: \<open>atoi\<close> and
  \<open>strtol\<close> with base 10. They read back what \<open>%d\<close> prints.
\<close>

section \<open>Conversions\<close>

text \<open>
  \<open>atoi\<close> of the C library: blanks, a sign and decimal digits; a value that is not an \<open>int\<close> is
  undefined.
\<close>

definition is_blank :: "char \<Rightarrow> bool" where
  "is_blank c \<longleftrightarrow> c = CHR '' '' \<or> of_char c \<in> {9 :: nat..13}"

definition is_digit :: "char \<Rightarrow> bool" where
  "is_digit c \<longleftrightarrow> of_char c \<in> {48 :: nat..57}"

definition digits_value :: "string \<Rightarrow> int" where
  "digits_value s = foldl (\<lambda>n c. 10 * n + (int (of_char c) - 48)) 0 s"

text \<open>The sign and the digits, after blanks.\<close>

definition number_text :: "string \<Rightarrow> int \<times> string" where
  "number_text s =
     (case dropWhile is_blank s of
        [] \<Rightarrow> (1, [])
      | c # r \<Rightarrow> if c = CHR ''-'' then (-1, takeWhile is_digit r)
          else if c = CHR ''+'' then (1, takeWhile is_digit r) else (1, takeWhile is_digit (c # r)))"

definition atoi :: "string \<Rightarrow> int option" where
  "atoi s =
     (let (sign, digits) = number_text s; v = sign * digits_value digits
      in if - (2 ^ 31) \<le> v \<and> v < 2 ^ 31 then Some v else None)"

text \<open>
  \<open>strtol(s, &endptr, 10)\<close> for a \<open>long\<close> of 64 bits: \<open>None\<close> when there are no digits, that is,
  \<open>endptr == s\<close>; otherwise the value, limited to the range of the type.
\<close>

definition strtol :: "string \<Rightarrow> int option" where
  "strtol s =
     (let (sign, digits) = number_text s
      in if digits = [] then None else Some (max (- (2 ^ 63)) (min (2 ^ 63 - 1) (sign * digits_value digits))))"

text \<open>A string with its terminator.\<close>

definition c_str :: "string \<Rightarrow> mem" where "c_str s = str_bytes s @ [0]"

section \<open>Decimal numbers\<close>

lemma of_char_char_of_digit: "n < 10 \<Longrightarrow> of_char (char_of (48 + n :: nat) :: char) = (48 + n :: nat)"
  by simp

lemma digits_snoc: "digits_value (s @ [c]) = 10 * digits_value s + (int (of_char c) - 48)"
  by (simp add: digits_value_def)

lemma is_digit_char: "n < 10 \<Longrightarrow> is_digit (char_of (48 + n :: nat))"
  by (simp add: is_digit_def of_char_char_of_digit)

lemma dec_nat_digits: "\<forall>c \<in> set (dec_nat n). is_digit c" "digits_value (dec_nat n) = int n" "dec_nat n \<noteq> []"
proof (induction n rule: dec_nat.induct)
  case (1 n)
  {
    case 1
    show ?case using "1.IH"(1) by (subst dec_nat.simps) (auto intro: is_digit_char)
  next
    case 2
    show ?case
    proof (cases "n < 10")
      case True
      then show ?thesis by (subst dec_nat.simps) (simp add: digits_value_def of_char_char_of_digit)
    next
      case False
      have "digits_value (dec_nat n) = 10 * int (n div 10) + int (n mod 10)"
        using False "1.IH"(2) by (subst dec_nat.simps) (simp add: digits_snoc of_char_char_of_digit)
      moreover have "10 * (n div 10) + n mod 10 = n" by simp
      ultimately show ?thesis by linarith
    qed
  next
    case 3
    show ?case by (subst dec_nat.simps) simp
  }
qed

lemma digit_not_special: "is_digit c \<Longrightarrow> \<not> is_blank c \<and> c \<noteq> CHR ''-'' \<and> c \<noteq> CHR ''+'' \<and> c \<noteq> CHR '',''"
  by (auto simp: is_digit_def is_blank_def)

lemma atoi_dec_nat:
  assumes "int n < 2 ^ 31" and "rest = [] \<or> \<not> is_digit (hd rest)"
  shows "atoi (dec_nat n @ rest) = Some (int n)"
proof -
  obtain c r where d: "dec_nat n = c # r" using dec_nat_digits(3) [of n] by (cases "dec_nat n") auto
  have c: "is_digit c" using dec_nat_digits(1) [of n] d by simp
  have "takeWhile is_digit (dec_nat n @ rest) = dec_nat n"
    using dec_nat_digits(1) [of n] assms(2) by (cases rest) (auto simp: takeWhile_append)
  then show ?thesis using digit_not_special [OF c] dec_nat_digits(2) [of n] assms(1)
    unfolding atoi_def d by (simp add: number_text_def Let_def d)
qed

end
