(* ===== verification/Tcp_Server_Setup.thy ===== *)
theory Tcp_Server_Setup
  imports Tcp_Server_Reach C_Strings
begin

text \<open>
  The first half of \<open>main\<close> in \<open>neuron_tcp_server.c\<close>: the command line and the registration of
  the boards, before the event loop. The options arrive as \<open>getopt_long\<close> delivers them, a
  letter and an argument each.
\<close>

section \<open>Lists on the command line\<close>

text \<open>\<open>strchr(p, ',')\<close>: the text before the first comma, and what follows it, if there is one.\<close>

definition before_comma :: "string \<Rightarrow> string" where
  "before_comma p = takeWhile (\<lambda>c. c \<noteq> CHR '','') p"

definition after_comma :: "string \<Rightarrow> string option" where
  "after_comma p = (case dropWhile (\<lambda>c. c \<noteq> CHR '','') p of [] \<Rightarrow> None | _ # np \<Rightarrow> Some np)"

lemma after_comma_shorter: "after_comma p = Some np \<Longrightarrow> length np < length p"
  using length_dropWhile_le [of "\<lambda>c. c \<noteq> CHR '','' " p] by (auto simp: after_comma_def split: list.splits)

text \<open>
  The new string is a block of \<open>len + 1\<close> bytes; its terminator is written at \<open>len + 1\<close>.
\<close>

function slist_loop :: "nat \<Rightarrow> string option \<Rightarrow> mem option list \<Rightarrow> (nat \<times> mem option list) option" where
  "slist_loop i None results = Some (i, results)"
| "slist_loop i (Some p) results =
     (if nat MAX_ARMS \<le> i then Some (0, results)
      else do {
        let len = length (before_comma p);
        block \<leftarrow> wr_block (replicate (len + 1) 0) 0 (str_bytes (before_comma p));
        block \<leftarrow> wr8 block (len + 1) 0;
        slist_loop (i + 1) (after_comma p) (results[i := Some block]) })"
  by pat_completeness auto
termination
  by (relation "measure (\<lambda>(i, p, results). case p of None \<Rightarrow> 0 | Some p \<Rightarrow> Suc (length p))")
    (auto split: option.split dest: after_comma_shorter)

definition parse_slist :: "string \<Rightarrow> (nat \<times> mem option list) option" where
  "parse_slist arg = slist_loop 0 (Some arg) (replicate (nat MAX_ARMS) None)"

function ilist_loop :: "nat \<Rightarrow> string option \<Rightarrow> int list \<Rightarrow> (nat \<times> int list) option" where
  "ilist_loop i None results = Some (i, results)"
| "ilist_loop i (Some p) results =
     (if nat MAX_ARMS \<le> i then Some (0, results)
      else do { v \<leftarrow> atoi p; ilist_loop (i + 1) (after_comma p) (results[i := v]) })"
  by pat_completeness auto
termination
  by (relation "measure (\<lambda>(i, p, results). case p of None \<Rightarrow> 0 | Some p \<Rightarrow> Suc (length p))")
    (auto split: option.split dest: after_comma_shorter)

definition parse_ilist :: "string \<Rightarrow> (nat \<times> int list) option" where
  "parse_ilist arg = ilist_loop 0 (Some arg) (replicate (nat MAX_ARMS) 0)"

section \<open>Options\<close>

record options =
  op_verbose :: int
  op_daemon :: bool
  op_listen :: string
  op_port :: int
  op_poll_timeout :: int
  op_nss_pause :: int
  op_spi_devices :: "mem option list"
  op_gpio_int :: "mem option list"
  op_spi_speed :: "int list"
  op_firmwaredir :: string
  op_check_fw :: bool

definition default_options :: options where
  "default_options =
     \<lparr>op_verbose = 0, op_daemon = False, op_listen = ''0.0.0.0'', op_port = 502, op_poll_timeout = 0, op_nss_pause = 10,
      op_spi_devices = map (Some \<circ> c_str) [''/dev/spidev0.1'', ''/dev/spidev0.3'', ''/dev/spidev0.2''],
      op_gpio_int = map (Some \<circ> c_str) [''27'', ''23'', ''22''], op_spi_speed = [0, 0, 0],
      op_firmwaredir = ''/opt/fw'', op_check_fw = False\<rparr>"

text \<open>One option: \<open>Inl ()\<close> is \<open>exit(EXIT_FAILURE)\<close>.\<close>

definition set_option :: "char \<times> string \<Rightarrow> options \<Rightarrow> (unit + options) option" where
  "set_option opt o1 =
     (case opt of (c, arg) \<Rightarrow>
      if c = CHR ''v'' then Some (Inr (o1\<lparr>op_verbose := op_verbose o1 + 1\<rparr>))
      else if c = CHR ''d'' then Some (Inr (o1\<lparr>op_daemon := True\<rparr>))
      else if c = CHR ''l'' then Some (Inr (o1\<lparr>op_listen := take 99 arg\<rparr>))
      else if c = CHR ''p'' then
        do { v \<leftarrow> atoi arg; Some (if v = 0 then Inl () else Inr (o1\<lparr>op_port := v\<rparr>)) }
      else if c = CHR ''t'' then
        do { v \<leftarrow> atoi arg; Some (if v = 0 then Inl () else Inr (o1\<lparr>op_poll_timeout := v\<rparr>)) }
      else if c = CHR ''n'' then
        do { v \<leftarrow> atoi arg; Some (if v \<le> 0 then Inl () else Inr (o1\<lparr>op_nss_pause := v\<rparr>)) }
      else if c = CHR ''s'' then
        do { (n, l) \<leftarrow> parse_slist arg; Some (if n = 0 then Inl () else Inr (o1\<lparr>op_spi_devices := l\<rparr>)) }
      else if c = CHR ''i'' then
        do { (n, l) \<leftarrow> parse_slist arg; Some (if n = 0 then Inl () else Inr (o1\<lparr>op_gpio_int := l\<rparr>)) }
      else if c = CHR ''b'' then
        do { (n, l) \<leftarrow> parse_ilist arg; Some (if n = 0 then Inl () else Inr (o1\<lparr>op_spi_speed := l\<rparr>)) }
      else if c = CHR ''f'' then Some (Inr (o1\<lparr>op_firmwaredir := arg\<rparr>))
      else if c = CHR ''c'' then Some (Inr (o1\<lparr>op_check_fw := True\<rparr>))
      else Some (Inl ()))"

fun read_options :: "(char \<times> string) list \<Rightarrow> options \<Rightarrow> (unit + options) option" where
  "read_options [] o1 = Some (Inr o1)"
| "read_options (opt # opts) o1 =
     do { r \<leftarrow> set_option opt o1; case r of Inl u \<Rightarrow> Some (Inl u) | Inr o2 \<Rightarrow> read_options opts o2 }"

section \<open>The boards\<close>

text \<open>A C string in memory, up to its terminator; reading on to the end of the block is a fault.\<close>

definition c_text :: "mem \<Rightarrow> string option" where
  "c_text m = (if 0 \<in> set m then Some (map (\<lambda>b. char_of (unat b)) (takeWhile (\<lambda>b. b \<noteq> 0) m)) else None)"

text \<open>One turn of the loop that creates the boards; \<open>zeroed\<close> is what \<open>calloc\<close> returns.\<close>

definition start_board ::
  "'w env \<Rightarrow> options \<Rightarrow> arm_handle \<Rightarrow> nat \<Rightarrow> arm_handle nb_modbus \<times> 'w \<Rightarrow> (arm_handle nb_modbus \<times> 'w) option" where
  "start_board e o1 zeroed ai v =
     (case v of (nb, w) \<Rightarrow>
      let nb = nb\<lparr>nb_arm := (nb_arm nb)[ai := None]\<rparr> in
      case op_spi_devices o1 ! ai of
        None \<Rightarrow> Some (nb, w)
      | Some m \<Rightarrow>
          do { dev \<leftarrow> c_text m;
               if dev = [] then Some (nb, w)
               else do {
                 let speed = (if 0 < op_spi_speed o1 ! ai then op_spi_speed o1 ! ai else op_spi_speed o1 ! 0);
                 gpio \<leftarrow> (case op_gpio_int o1 ! ai of None \<Rightarrow> Some None | Some g \<Rightarrow> map_option Some (c_text g));
                 (_, nb, w) \<leftarrow> add_arm (en_os e) (nat (op_nss_pause o1)) (Some zeroed) (word_of_nat ai) dev speed gpio nb w;
                 case nb_arm nb ! ai of
                   Some a \<Rightarrow>
                     if op_check_fw o1 then
                       do { (_, a, w) \<leftarrow> arm_firmware (en_os e) (en_files e) (en_mem_ok e) (en_nvram e) (en_regs e) a
                              (op_firmwaredir o1) False w;
                            Some (nb\<lparr>nb_arm := (nb_arm nb)[ai := Some a]\<rparr>, w) }
                     else Some (nb, w)
                 | None \<Rightarrow> Some (nb, w) } })"

text \<open>
  One turn of the loop that puts the interrupt line and the terminals of a board under
  \<open>epoll\<close>; the variables are the server, \<open>poll_timeout\<close>, the counter of \<open>armpty_open\<close> and the
  world.
\<close>

definition DEFAULT_POLL_TIMEOUT :: int where "DEFAULT_POLL_TIMEOUT = 20"

definition watch :: "'w env \<Rightarrow> event_data \<Rightarrow> u32 \<Rightarrow> server \<Rightarrow> 'w \<Rightarrow> server \<times> 'w" where
  "watch e ed events s w =
     (let i = length (sv_events s);
          s = s\<lparr>sv_events := sv_events s @ [Some ed], sv_ptr := Some i\<rparr>;
          (_, w) = ep_add (en_ep e) (ed_fd ed) events (Some i) w
      in (s, w))"

definition board_event :: "int \<Rightarrow> int \<Rightarrow> nat \<Rightarrow> event_data" where
  "board_event f type k = \<lparr>ed_fd = f, ed_type = type, rd_buffer = None, wr_buffer = None, ed_arm = Some k\<rparr>"

definition watch_pty ::
  "'w env \<Rightarrow> nat \<Rightarrow> nat \<Rightarrow> server \<times> nat \<times> 'w \<Rightarrow> (server \<times> nat \<times> 'w) option" where
  "watch_pty e k pi v =
     (case v of (s, counter, w) \<Rightarrow>
      do { arm \<leftarrow> (if k < length (nb_arm (sv_nb s)) then nb_arm (sv_nb s) ! k else None);
           (pty, counter, a, w) \<leftarrow> armpty_open (en_os e) (en_pty e) (word_of_nat pi) counter arm w;
           let s = s\<lparr>sv_nb := (sv_nb s)\<lparr>nb_arm := (nb_arm (sv_nb s))[k := Some a]\<rparr>\<rparr>;
           Some (if 0 \<le> pty then
                   (let (s, w) = watch e (board_event pty ED_PTY k) (EPOLLPRI OR EPOLLIN OR EPOLLHUP) s w
                    in (s, counter, w))
                 else (s, counter, w)) })"

definition watch_board ::
  "'w env \<Rightarrow> nat \<Rightarrow> server \<times> int \<times> nat \<times> 'w \<Rightarrow> (server \<times> int \<times> nat \<times> 'w) option" where
  "watch_board e k v =
     (case v of (s, poll_timeout, counter, w) \<Rightarrow>
      if length (nb_arm (sv_nb s)) \<le> k then None
      else case nb_arm (sv_nb s) ! k of
        None \<Rightarrow> Some (s, poll_timeout, counter, w)
      | Some arm \<Rightarrow>
          do { let (s, w) = (if 0 \<le> fdint arm then watch e (board_event (fdint arm) ED_INTERRUPT k) EPOLLPRI s w else (s, w));
               let poll_timeout =
                 (if 0 \<le> fdint arm \<or> poll_timeout \<noteq> 0 then poll_timeout else DEFAULT_POLL_TIMEOUT);
               (s, counter, w) \<leftarrow> for_each [0..<unat (uart_count (bv arm))] (watch_pty e k) (s, counter, w);
               Some (s, poll_timeout, counter, w) })"

text \<open>
  From the listening socket on to the event loop; the first part of the result is \<open>None\<close> for
  \<open>abort()\<close>, otherwise the timeout of \<open>epoll_wait\<close>.
\<close>

definition start_server ::
  "'w env \<Rightarrow> options \<Rightarrow> arm_handle \<Rightarrow> int \<Rightarrow> arm_handle nb_modbus \<Rightarrow> 'w \<Rightarrow> (int option \<times> server \<times> 'w) option" where
  "start_server e o1 zeroed server_socket nb w =
     (let nb = nb\<lparr>nb_fwdir := op_firmwaredir o1\<rparr>;
          s0 = \<lparr>sv_events = [], sv_pool = \<lparr>bufs = [], b_stack = None\<rparr>, sv_nb = nb, sv_ptr = None\<rparr> in
      if server_socket = -1 then Some (None, s0, w)
      else case make_socket_non_blocking (en_ep e) server_socket w of (rc, w) \<Rightarrow>
      if rc = -1 then Some (None, s0, w)
      else do {
        (nb, w) \<leftarrow> for_each [0..<nat MAX_ARMS] (start_board e o1 zeroed) (nb, w);
        let ed = \<lparr>ed_fd = server_socket, ed_type = ED_SERVER_SOCKET, rd_buffer = None, wr_buffer = None, ed_arm = None\<rparr>;
        let s = s0\<lparr>sv_nb := nb, sv_events := [Some ed], sv_ptr := Some 0\<rparr>;
        let (rc, w) = ep_add (en_ep e) server_socket (EPOLLIN OR EPOLLET) (Some 0) w;
        if rc = -1 then Some (None, s, w)
        else do {
          (s, poll_timeout, _, w) \<leftarrow> for_each [0..<nat MAX_ARMS] (watch_board e) (s, op_poll_timeout o1, 0, w);
          Some (Some (if poll_timeout = 0 then -1 else poll_timeout), s\<lparr>sv_pool := pool_allocate\<rparr>, w) } })"

text \<open>
  The handler of \<open>SIGINT\<close>. It closes the global \<open>server_socket\<close>, which a local variable of
  \<open>main\<close> hides, so that the global one is still zero.
\<close>

definition close_sigint :: "'w os \<Rightarrow> arm_handle nb_modbus option \<Rightarrow> 'w \<Rightarrow> 'w" where
  "close_sigint os nb_ctx w = (let server_socket = 0 in nb_modbus_free os nb_ctx (os_close os server_socket w))"

section \<open>Lists\<close>

text \<open>
  Every list of devices or interrupt lines on the command line makes \<open>parse_slist\<close> write
  outside its memory: the terminator of the first string goes one byte behind the block
  allocated for it.
\<close>

theorem parse_slist_overflows: "parse_slist arg = None"
  by (simp add: parse_slist_def MAX_ARMS_def wr_block_def wr8_def str_bytes_def Let_def)

fun comma_list :: "nat list \<Rightarrow> string" where
  "comma_list [] = []"
| "comma_list [n] = dec_nat n"
| "comma_list (n # ns) = dec_nat n @ CHR '','' # comma_list ns"

lemma comma_list_Cons:
  "comma_list (n # ns) = dec_nat n @ (if ns = [] then [] else CHR '','' # comma_list ns)"
  by (cases ns) simp_all

lemma after_comma_number:
  "after_comma (dec_nat n) = None" "after_comma (dec_nat n @ CHR '','' # r) = Some r"
proof -
  have all: "\<forall>c \<in> set (dec_nat n). c \<noteq> CHR '',''" using dec_nat_digits(1) [of n] digit_not_special by blast
  then have "dropWhile (\<lambda>c. c \<noteq> CHR '','') (dec_nat n) = []" by (simp only: dropWhile_eq_Nil_conv)
  then show "after_comma (dec_nat n) = None" unfolding after_comma_def by (simp only: list.case)
  have "dropWhile (\<lambda>c. c \<noteq> CHR '','') (dec_nat n @ CHR '','' # r) = CHR '','' # r"
    using all by (subst dropWhile_append2) auto
  then show "after_comma (dec_nat n @ CHR '','' # r) = Some r" unfolding after_comma_def by (simp only: list.case)
qed

lemma ilist_loop_numbers:
  assumes "ns \<noteq> []" and "\<forall>n \<in> set ns. int n < 2 ^ 31" and "i \<le> 3" and "length res = 3"
  shows "if i + length ns \<le> 3
    then ilist_loop i (Some (comma_list ns)) res = Some (i + length ns, take i res @ map int ns @ drop (i + length ns) res)
    else \<exists>res'. ilist_loop i (Some (comma_list ns)) res = Some (0, res')"
  using assms
proof (induction ns arbitrary: i res)
  case (Cons n ns)
  show ?case
  proof (cases "i = 3")
    case True
    then show ?thesis by (simp add: MAX_ARMS_def)
  next
    case False
    let ?rest = "if ns = [] then [] else CHR '','' # comma_list ns"
    have v: "atoi (comma_list (n # ns)) = Some (int n)"
      unfolding comma_list_Cons using Cons.prems(2) by (intro atoi_dec_nat) (auto simp: is_digit_def)
    have a: "after_comma (comma_list (n # ns)) = (if ns = [] then None else Some (comma_list ns))"
      unfolding comma_list_Cons by (simp add: after_comma_number)
    have e: "ilist_loop i (Some (comma_list (n # ns))) res =
        ilist_loop (i + 1) (if ns = [] then None else Some (comma_list ns)) (res[i := int n])"
      using False Cons.prems(3) v a by (simp add: MAX_ARMS_def)
    have t: "take i res @ int n # drop (Suc i) res = res[i := int n]"
      using False Cons.prems(3,4) by (simp add: upd_conv_take_nth_drop)
    show ?thesis
    proof (cases "ns = []")
      case True
      then show ?thesis using e t False Cons.prems(3) by (simp del: ilist_loop.simps(2))
    next
      case ne: False
      have t2: "take (Suc i) (res[i := int n]) @ xs = take i res @ int n # xs" for xs
        using False Cons.prems(3,4) by (simp add: take_Suc_conv_app_nth)
      have d: "drop (Suc i + length ns) (res[i := int n]) = drop (Suc i + length ns) res" by simp
      from Cons.IH [OF ne, of "Suc i" "res[i := int n]"] Cons.prems(2-4) False e ne
      show ?thesis by (simp add: t2 del: ilist_loop.simps(2) comma_list.simps)
    qed
  qed
qed simp

text \<open>
  A list of one to three numbers on the command line is read as these numbers, the other
  speeds being zero; of a longer list none is taken and the program reports it.
\<close>

theorem parse_ilist_numbers:
  assumes "ns \<noteq> []" and "\<forall>n \<in> set ns. int n < 2 ^ 31"
  shows "if length ns \<le> 3 then parse_ilist (comma_list ns) = Some (length ns, map int ns @ replicate (3 - length ns) 0)
    else \<exists>res. parse_ilist (comma_list ns) = Some (0, res) \<and> set_option (CHR ''b'', comma_list ns) o1 = Some (Inl ())"
  using ilist_loop_numbers [OF assms, of 0 "replicate 3 0"]
  by (auto simp: parse_ilist_def MAX_ARMS_def set_option_def simp del: ilist_loop.simps(2) split: if_splits)

theorem parse_ilist_numbers_witness:
  "parse_ilist (comma_list [12000000, 5000000]) = Some (2, [12000000, 5000000, 0])"
  using parse_ilist_numbers [of "[12000000, 5000000]"] by simp

section \<open>The start\<close>

text \<open>What the start relies on: the zeroed handles, and interrupt lines whose names fit in a path.\<close>

definition startable :: "'w env \<Rightarrow> options \<Rightarrow> arm_handle \<Rightarrow> bool" where
  "startable e o1 zeroed \<longleftrightarrow> full_duplex (en_os e) \<and> raw_arm zeroed \<and>
     length (op_gpio_int o1) = 3 \<and> (\<forall>m. Some m \<in> set (op_gpio_int o1) \<longrightarrow> length m \<le> 230)"

lemma takeWhile_shorter: "x \<in> set xs \<Longrightarrow> \<not> P x \<Longrightarrow> length (takeWhile P xs) < length xs"
  by (induction xs) auto

lemma c_text_short: "c_text m = Some s \<Longrightarrow> length s < length m"
  by (auto simp: c_text_def takeWhile_shorter split: if_splits)

lemma add_arm_wf:
  assumes "add_arm os pause (Some zeroed) index dev speed gpio nb w = Some (rc, nb', w')"
    and "full_duplex os" and "raw_arm zeroed" and "\<And>g. gpio = Some g \<Longrightarrow> length g \<le> 229" and "wf_nb wf_arm nb"
  shows "wf_nb wf_arm nb'"
proof -
  obtain r a w1 where "arm_init os pause zeroed dev speed (uint index) gpio w = Some (r, a, w1)" "r = 0 \<longrightarrow> wf_arm a"
    using arm_init_total [OF assms(3,2,4)] by blast
  then show ?thesis using assms(1,5) wf_nb_update
    by (auto simp: add_arm_def split: if_splits)
qed

lemma start_board_wf:
  assumes "start_board e o1 zeroed k (nb, w) = Some (nb', w')" and "startable e o1 zeroed"
    and "k < 3" and "wf_nb wf_arm nb"
  shows "wf_nb wf_arm nb'"
proof -
  let ?nb = "nb\<lparr>nb_arm := (nb_arm nb)[k := None]\<rparr>"
  let ?g = "case op_gpio_int o1 ! k of None \<Rightarrow> Some None | Some g \<Rightarrow> map_option Some (c_text g)"
  have wf: "wf_nb wf_arm ?nb"
    using assms(4) set_update_subset_insert [of "nb_arm nb" k None] by (auto simp: wf_nb_def)
  have short: "length g \<le> 229" if g: "?g = Some (Some g)" for g
  proof -
    obtain m where m: "op_gpio_int o1 ! k = Some m" "c_text m = Some g" using g by (auto split: option.splits)
    then have "Some m \<in> set (op_gpio_int o1)" using assms(2,3) unfolding startable_def by (metis nth_mem)
    then show ?thesis using assms(2) c_text_short [OF m(2)] unfolding startable_def by fastforce
  qed
  consider "nb' = ?nb" | gpio rc dev speed nb1 w1 where "?g = Some gpio"
      "add_arm (en_os e) (nat (op_nss_pause o1)) (Some zeroed) (word_of_nat k) dev speed gpio ?nb w = Some (rc, nb1, w1)"
      "nb' = nb1 \<or> (\<exists>a r a'. nb_arm nb1 ! k = Some a \<and> nb' = nb1\<lparr>nb_arm := (nb_arm nb1)[k := Some a']\<rparr> \<and>
         arm_firmware (en_os e) (en_files e) (en_mem_ok e) (en_nvram e) (en_regs e) a (op_firmwaredir o1) False w1 =
           Some (r, a', w'))"
    using assms(1) unfolding start_board_def Let_def
    by (auto split: option.split_asm if_split_asm elim!: bind_SomeE)
  then show ?thesis
  proof cases
    case 1
    then show ?thesis using wf by simp
  next
    case 2
    then have w1: "wf_nb wf_arm nb1"
      using add_arm_wf [OF 2(2) _ _ _ wf] short assms(2) by (simp add: startable_def)
    then have "wf_arm a" if "nb_arm nb1 ! k = Some a" for a
      using that assms(3) by (metis wf_nb_def nth_mem)
    then show ?thesis using 2(3) w1 wf_nb_update arm_firmware_unchanged by metis
  qed
qed

lemma set_master_keeps: "set_master uart m a = Some a' \<Longrightarrow> wf_arm a \<Longrightarrow> wf_arm a'"
  using set_master_wf [of a uart m] by (auto simp: set_master_def split: if_splits)

lemma armpty_open_wf:
  assumes "armpty_open os pt uart counter a w = Some (pty, counter', a', w')" and "full_duplex os" and "wf_arm a"
  shows "wf_arm a'"
proof -
  obtain a1 where a1: "set_master uart (-1) a = Some a1" using assms(1) by (auto simp: armpty_open_def elim!: bind_SomeE)
  then have wf1: "wf_arm a1" using assms(3) by (rule set_master_keeps)
  consider "a' = a1" | a2 m w2 where "set_master uart m a1 = Some a2"
      "a' = a2 \<or> (\<exists>n. write_regs os (int_mask_register (bv a2)) 1 [5, 0] 0 a2 w2 = Some (n, a', w'))"
    using assms(1) a1 unfolding armpty_open_def Let_def
    by (auto split: prod.splits if_split_asm elim!: bind_SomeE) blast
  then show ?thesis
  proof cases
    case 1
    then show ?thesis using wf1 by simp
  next
    case 2
    then have "wf_arm a2" using wf1 set_master_keeps by blast
    with 2(2) show ?thesis using write_regs_total [OF _ assms(2), of a2 0 1 "[5, 0]" "int_mask_register (bv a2)" w2] by auto
  qed
qed

text \<open>The registration of boards and terminals keeps what the start promises of the connections.\<close>

definition registering :: "server \<Rightarrow> bool" where
  "registering s \<longleftrightarrow> wf_nb wf_arm (sv_nb s) \<and>
     (\<forall>ed. Some ed \<in> set (sv_events s) \<longrightarrow> rd_buffer ed = None \<and> wr_buffer ed = None)"

lemma watch_registering:
  assumes "watch e (board_event f type k) events s w = (s', w')" and "registering s"
  shows "registering s'"
  using assms by (auto simp: watch_def board_event_def registering_def Let_def split: prod.splits)

lemma watch_pty_registering:
  assumes "watch_pty e k pi (s, counter, w) = Some (s', v')" and "full_duplex (en_os e)" and "registering s"
  shows "registering s'"
proof -
  obtain arm where arm: "k < length (nb_arm (sv_nb s))" "nb_arm (sv_nb s) ! k = Some arm"
    using assms(1) by (auto simp: watch_pty_def split: if_splits elim!: bind_SomeE)
  obtain pty counter1 a w1 where a: "armpty_open (en_os e) (en_pty e) (word_of_nat pi) counter arm w = Some (pty, counter1, a, w1)"
    using assms(1) arm by (auto simp: watch_pty_def elim!: bind_SomeE)
  have "wf_arm arm" using arm assms(3) unfolding registering_def wf_nb_def by (metis nth_mem)
  then have "wf_arm a" by (rule armpty_open_wf [OF a assms(2)])
  then have r: "registering (s\<lparr>sv_nb := (sv_nb s)\<lparr>nb_arm := (nb_arm (sv_nb s))[k := Some a]\<rparr>\<rparr>)"
    using assms(3) wf_nb_update by (auto simp: registering_def)
  show ?thesis using assms(1) arm a r watch_registering [OF _ r]
    by (auto simp: watch_pty_def Let_def split: if_splits prod.splits)
qed

lemma watch_board_registering:
  assumes "watch_board e k (s, t, counter, w) = Some (s', v')" and "full_duplex (en_os e)" and "registering s"
  shows "registering s'"
proof (cases "nb_arm (sv_nb s) ! k")
  case None
  then show ?thesis using assms by (auto simp: watch_board_def split: if_splits)
next
  case (Some arm)
  obtain s1 w1 where w1: "(if 0 \<le> fdint arm then watch e (board_event (fdint arm) ED_INTERRUPT k) EPOLLPRI s w else (s, w)) = (s1, w1)"
    by fastforce
  then have r: "registering s1" using assms(3) watch_registering by (auto split: if_splits)
  obtain v2 where v2: "for_each [0..<unat (uart_count (bv arm))] (watch_pty e k) (s1, counter, w1) = Some v2" "s' = fst v2"
    using assms(1) Some w1 by (auto simp: watch_board_def Let_def split: if_splits elim!: bind_SomeE)
  have "registering (fst v2)"
    by (rule for_each_invariant [OF v2(1), where P = "\<lambda>v. registering (fst v)"])
      (use r watch_pty_registering assms(2) in \<open>auto split: prod.splits\<close>)
  then show ?thesis using v2(2) by simp
qed

text \<open>
  C30. When \<open>main\<close> gets as far as its event loop, the server is in a start state of
  \<open>server_keeps_buffers\<close>: every board that answered has a well-formed handle, no connection has
  a buffer, and all 129 buffers are free. This holds for all boards, terminals and sockets, and
  for every choice of options with which the names of the interrupt lines fit in a path.
\<close>

theorem start_server_at_start:
  assumes "start_server e o1 zeroed sock nb w = Some (Some t, s, w')" and "startable e o1 zeroed"
    and "nb_arm nb = [None, None, None]"
  shows "reachable e sock fwdir (s, w') \<and> wf_nb wf_arm (sv_nb s) \<and> owned (sv_pool s) (rev [0..<129]) {}"
proof -
  let ?nb = "nb\<lparr>nb_fwdir := op_firmwaredir o1\<rparr>"
  let ?ed = "\<lparr>ed_fd = sock, ed_type = ED_SERVER_SOCKET, rd_buffer = None, wr_buffer = None, ed_arm = None\<rparr>"
  obtain w1 v1 w2 v2 where nb: "for_each [0..<nat MAX_ARMS] (start_board e o1 zeroed) (?nb, w1) = Some v1"
    and ev: "for_each [0..<nat MAX_ARMS] (watch_board e)
        (\<lparr>sv_events = [Some ?ed], sv_pool = \<lparr>bufs = [], b_stack = None\<rparr>, sv_nb = fst v1, sv_ptr = Some 0\<rparr>, op_poll_timeout o1, 0, w2) = Some v2"
    and s: "s = (fst v2)\<lparr>sv_pool := pool_allocate\<rparr>"
    using assms(1) unfolding start_server_def Let_def by (auto split: prod.splits if_split_asm elim!: bind_SomeE)
  have "wf_nb wf_arm ?nb" using assms(3) by (simp add: wf_nb_def)
  then have "wf_nb wf_arm (fst v1)"
    by (intro for_each_invariant [OF nb, where P = "\<lambda>v. wf_nb wf_arm (fst v)"])
      (use start_board_wf assms(2) in \<open>auto simp: MAX_ARMS_def split: prod.splits\<close>)
  then have "registering \<lparr>sv_events = [Some ?ed], sv_pool = \<lparr>bufs = [], b_stack = None\<rparr>, sv_nb = fst v1, sv_ptr = Some 0\<rparr>"
    by (auto simp: registering_def)
  moreover have "full_duplex (en_os e)" using assms(2) by (simp add: startable_def)
  ultimately have "registering (fst v2)"
    by (intro for_each_invariant [OF ev, where P = "\<lambda>v. registering (fst v)"])
      (use watch_board_registering in \<open>auto split: prod.splits\<close>)
  then have "at_start s" "wf_nb wf_arm (sv_nb s)" using s by (auto simp: at_start_def registering_def)
  moreover have "owned (sv_pool s) (rev [0..<129]) {}" using pool_allocate_owned(1) s by simp
  ultimately show ?thesis by (simp add: reachable.start)
qed

text \<open>A start without devices: the server listens, with no board, and waits for ever.\<close>

definition no_devices :: options where
  "no_devices = default_options\<lparr>op_spi_devices := [None, None, None]\<rparr>"

definition no_boards :: "arm_handle nb_modbus" where
  "no_boards = one_board\<lparr>nb_arm := [None, None, None]\<rparr>"

lemma start_without_boards:
  "\<exists>s. start_server (idle_env calm_os) no_devices blank_arm 7 no_boards () = Some (Some (-1), s, ())"
proof -
  have u: "[0..<nat MAX_ARMS] = [0, 1, 2]" by (simp add: MAX_ARMS_def upt_rec)
  show ?thesis
    by (simp add: start_server_def u start_board_def watch_board_def no_devices_def default_options_def no_boards_def
        make_socket_non_blocking_def idle_env_def Let_def)
qed

theorem start_server_at_start_witness:
  "\<exists>s. start_server (idle_env calm_os) no_devices blank_arm 7 no_boards () = Some (Some (-1), s, ()) \<and>
     reachable (idle_env calm_os) 7 [] (s, ())"
proof -
  obtain s where s: "start_server (idle_env calm_os) no_devices blank_arm 7 no_boards () = Some (Some (-1), s, ())"
    using start_without_boards by blast
  have "startable (idle_env calm_os) no_devices blank_arm"
    using calm_os_ok(2) raw_blank_arm
    by (auto simp: startable_def idle_env_def no_devices_def default_options_def c_str_def str_bytes_def)
  with s start_server_at_start [OF s, of "[]"] show ?thesis by (auto simp: no_boards_def)
qed

end
