(* ===== verification/Fw_Serial.thy ===== *)
theory Fw_Serial
  imports Modbus_Client_Writes C_Strings Loops
begin

text \<open>
  \<open>fwserial.c\<close>, the tool that programs a board over its serial line, as a client of
  \<open>libmodbus\<close>: the choice and loading of the firmware files, writing pages to the flash memory
  and comparing them. Messages are left out, and so is freeing memory.
\<close>

section \<open>Files\<close>

definition PAGE_SIZE :: int where "PAGE_SIZE = 1024"
definition REG_SIZE :: int where "REG_SIZE = 64"
definition MAX_FW_SIZE :: nat where "MAX_FW_SIZE = 65536"
definition MAX_RW_SIZE :: nat where "MAX_RW_SIZE = 1024"
definition RW_START_PAGE :: int where "RW_START_PAGE = 56"

lemmas fw_sizes = PAGE_SIZE_def REG_SIZE_def MAX_FW_SIZE_def MAX_RW_SIZE_def RW_START_PAGE_def

text \<open>
  \<open>load_fw\<close>: the block is filled with \<open>0xff\<close>, then up to \<open>MAX_FW_SIZE\<close> bytes of the file are read
  into it, whatever its size is. \<open>bytes\<close> is the contents of the file, if it can be opened.
\<close>

definition load_fw :: "u8 list option \<Rightarrow> mem \<Rightarrow> nat \<Rightarrow> (int \<times> mem) option" where
  "load_fw bytes prog_data len =
     (case bytes of
        None \<Rightarrow> Some (-1, prog_data)
      | Some bs \<Rightarrow>
          do { prog_data \<leftarrow> wr_block prog_data 0 (replicate len 0xff);
               let red = take MAX_FW_SIZE bs;
               prog_data \<leftarrow> wr_block prog_data 0 red;
               Some (int (length red), prog_data) })"

section \<open>The client\<close>

text \<open>
  The transport and the uninitialised arrays on the stack of the client's functions.
\<close>

record ('a, 'd, 'w) fw_line =
  ln_net :: "('a, 'w) net"
  ln_be :: "('d, 'w) modbus_backend"
  ln_small :: mem
  ln_req :: mem
  ln_rsp :: mem

definition fw_write_register ::
  "('a, 'd, 'w) fw_line \<Rightarrow> int \<Rightarrow> int \<Rightarrow> 'd modbus \<Rightarrow> 'w \<Rightarrow> (int \<times> 'd modbus \<times> 'w) option" where
  "fw_write_register ln addr v ctx w = modbus_write_register (ln_net ln) (ln_be ln) addr v (ln_small ln) (ln_rsp ln) ctx w"

definition fw_write_registers ::
  "('a, 'd, 'w) fw_line \<Rightarrow> int \<Rightarrow> int \<Rightarrow> u16 list \<Rightarrow> 'd modbus \<Rightarrow> 'w \<Rightarrow> (int \<times> 'd modbus \<times> 'w) option" where
  "fw_write_registers ln addr nb src ctx w =
     modbus_write_registers (ln_net ln) (ln_be ln) addr nb src (ln_req ln) (ln_rsp ln) ctx w"

definition fw_read_registers ::
  "('a, 'd, 'w) fw_line \<Rightarrow> int \<Rightarrow> int \<Rightarrow> u16 list \<Rightarrow> 'd modbus \<Rightarrow> 'w \<Rightarrow> (int \<times> u16 list \<times> 'd modbus \<times> 'w) option" where
  "fw_read_registers ln addr nb dest ctx w =
     modbus_read_registers (ln_net ln) (ln_be ln) addr nb (ln_small ln) (ln_rsp ln) dest ctx w"

definition fw_write_bit ::
  "('a, 'd, 'w) fw_line \<Rightarrow> int \<Rightarrow> int \<Rightarrow> 'd modbus \<Rightarrow> 'w \<Rightarrow> (int \<times> 'd modbus \<times> 'w) option" where
  "fw_write_bit ln addr v ctx w = modbus_write_bit (ln_net ln) (ln_be ln) addr v (ln_small ln) (ln_rsp ln) ctx w"

section \<open>Writing pages\<close>

text \<open>The pointer \<open>pd\<close>: a block and an offset in it. \<open>rw_data\<close> may be uninitialised, \<open>None\<close>.\<close>

definition page_data :: "mem \<Rightarrow> mem option \<Rightarrow> int \<Rightarrow> int \<Rightarrow> mem option \<times> int" where
  "page_data prog_data rw_data last_prog_page page =
     (if page < last_prog_page then (Some prog_data, page * PAGE_SIZE)
      else (rw_data, (page - RW_START_PAGE) * PAGE_SIZE))"

text \<open>The 64 registers at \<open>pd\<close>, after \<open>chunk\<close> steps of it.\<close>

definition chunk_data :: "mem option \<times> int \<Rightarrow> nat \<Rightarrow> u16 list option" where
  "chunk_data pd chunk =
     do { m \<leftarrow> fst pd;
          bs \<leftarrow> rd_blk m (snd pd + int chunk * (2 * REG_SIZE)) (2 * REG_SIZE);
          Some (regs_of bs) }"

definition send_chunk ::
  "('a, 'd, 'w) fw_line \<Rightarrow> mem option \<times> int \<Rightarrow> nat \<Rightarrow> int \<times> 'd modbus \<times> 'w \<Rightarrow> (int \<times> 'd modbus \<times> 'w) option" where
  "send_chunk ln pd chunk v =
     (case v of (errors, ctx, w) \<Rightarrow>
      do { values \<leftarrow> chunk_data pd chunk;
           (rc, ctx, w) \<leftarrow> fw_write_registers ln (0x7700 + int chunk) REG_SIZE values ctx w;
           Some (if rc = -1 then errors + 1 else errors, ctx, w) })"

text \<open>One page; the first part of the result is whether the board has confirmed the last step.\<close>

definition program_page ::
  "('a, 'd, 'w) fw_line \<Rightarrow> mem option \<times> int \<Rightarrow> int \<Rightarrow> int \<times> 'd modbus \<times> 'w \<Rightarrow> (bool \<times> int \<times> 'd modbus \<times> 'w) option" where
  "program_page ln pd page v =
     (case v of (errors, ctx, w) \<Rightarrow>
      do { (rc, ctx, w) \<leftarrow> fw_write_register ln 0x7705 page ctx w;
           if rc = 1 then
             do { (errors, ctx, w) \<leftarrow> for_each [0..<8] (send_chunk ln pd) (errors, ctx, w);
                  (rc, ctx, w) \<leftarrow> fw_write_register ln 0x7707 1 ctx w;
                  Some (rc = 1, if rc = 1 then errors else errors + 1, ctx, w) }
           else Some (False, errors + 1, ctx, w) })"

text \<open>The variables of the loop are \<open>page\<close>, \<open>errors\<close>, the context and the world.\<close>

definition flashit_step ::
  "('a, 'd, 'w) fw_line \<Rightarrow> mem \<Rightarrow> mem option \<Rightarrow> int \<Rightarrow> int \<Rightarrow> int \<times> int \<times> 'd modbus \<times> 'w \<Rightarrow>
     (int \<times> int \<times> 'd modbus \<times> 'w + 'd modbus \<times> 'w) option" where
  "flashit_step ln prog_data rw_data last_prog_page last_page v =
     (case v of (page, errors, ctx, w) \<Rightarrow>
      if last_page \<le> page then Some (Inr (ctx, w))
      else do {
        (ok, errors, ctx, w) \<leftarrow> program_page ln (page_data prog_data rw_data last_prog_page page) page (errors, ctx, w);
        let page = (if ok then page + 1 else page);
        let page = (if ok \<and> page = last_prog_page then RW_START_PAGE else page);
        Some (if 200 < errors then Inr (ctx, w) else Inl (page, errors, ctx, w)) })"

definition flashit ::
  "('a, 'd, 'w) fw_line \<Rightarrow> mem \<Rightarrow> mem option \<Rightarrow> int \<Rightarrow> int \<Rightarrow> 'd modbus \<Rightarrow> 'w \<Rightarrow> ('d modbus \<times> 'w) option" where
  "flashit ln prog_data rw_data last_prog_page last_page ctx w =
     loop (flashit_step ln prog_data rw_data last_prog_page last_page)
       (0, 0, snd (modbus_set_response_timeout 1 0 ctx), w)"

section \<open>Comparing pages\<close>

text \<open>
  What is printed for a page is the entry \<open>(page, val)\<close> of the report. The pointer moves on
  from page to page and is set anew after the last page of the program.
\<close>

definition compare_chunk ::
  "('a, 'd, 'w) fw_line \<Rightarrow> mem option \<times> int \<Rightarrow> nat \<Rightarrow> 'd modbus \<times> 'w \<Rightarrow> ('d modbus \<times> 'w) option" where
  "compare_chunk ln pd chunk v =
     (case v of (ctx, w) \<Rightarrow>
      do { values \<leftarrow> chunk_data pd chunk;
           (_, ctx, w) \<leftarrow> fw_write_registers ln (0x7700 + int chunk) REG_SIZE values ctx w;
           Some (ctx, w) })"

definition verify_step ::
  "('a, 'd, 'w) fw_line \<Rightarrow> mem option \<Rightarrow> int \<Rightarrow> int \<Rightarrow>
     int \<times> (mem option \<times> int) \<times> (int \<times> u16) list \<times> 'd modbus \<times> 'w \<Rightarrow>
     (int \<times> (mem option \<times> int) \<times> (int \<times> u16) list \<times> 'd modbus \<times> 'w + (int \<times> u16) list \<times> 'd modbus \<times> 'w) option" where
  "verify_step ln rw_data last_prog_page last_page v =
     (case v of (page, pd, report, ctx, w) \<Rightarrow>
      if last_page \<le> page then Some (Inr (report, ctx, w))
      else do {
        (rc, ctx, w) \<leftarrow> fw_write_register ln 0x7705 page ctx w;
        if rc \<noteq> 1 then Some (Inr (report, ctx, w))
        else do {
          (ctx, w) \<leftarrow> for_each [0..<8] (compare_chunk ln pd) (ctx, w);
          let pd = (fst pd, snd pd + 8 * (2 * REG_SIZE));
          (rc, val, ctx, w) \<leftarrow> fw_read_registers ln 0x7707 1 [0] ctx w;
          if rc \<noteq> 1 then Some (Inr (report, ctx, w))
          else do {
            let report = report @ [(page, val ! 0)];
            let (page, pd) = (if page = last_prog_page - 1 then (RW_START_PAGE - 1, (rw_data, 0)) else (page, pd));
            Some (Inl (page + 1, pd, report, ctx, w)) } } })"

definition verify ::
  "('a, 'd, 'w) fw_line \<Rightarrow> mem \<Rightarrow> mem option \<Rightarrow> int \<Rightarrow> int \<Rightarrow> 'd modbus \<Rightarrow> 'w \<Rightarrow>
     ((int \<times> u16) list \<times> 'd modbus \<times> 'w) option" where
  "verify ln prog_data rw_data last_prog_page last_page ctx w =
     loop (verify_step ln rw_data last_prog_page last_page)
       (0, (Some prog_data, 0), [], snd (modbus_set_response_timeout 2 999999 ctx), w)"


section \<open>Options\<close>

text \<open>
  The global variables that the options set; \<open>None\<close> is the null pointer.
\<close>

record fw_options =
  fo_port :: "string option"
  fo_baud :: int
  fo_device_id :: int
  fo_firmwaredir :: string
  fo_upboard :: int
  fo_verbose :: int
  fo_verify :: bool
  fo_prog :: bool
  fo_resetrw :: bool
  fo_calibrate :: bool
  fo_final :: bool

definition fw_defaults :: fw_options where
  "fw_defaults =
     \<lparr>fo_port = None, fo_baud = 19200, fo_device_id = 15, fo_firmwaredir = ''/opt/fw'', fo_upboard = 0, fo_verbose = 0,
      fo_verify = False, fo_prog = False, fo_resetrw = False, fo_calibrate = False, fo_final = False\<rparr>"

text \<open>
  One option as \<open>getopt_long\<close> delivers it: its letter, and its argument or a null pointer, which
  the code hands to \<open>strdup\<close>, \<open>atoi\<close> or \<open>strtol\<close> all the same, a fault. \<open>Inl ()\<close> is
  \<open>exit(EXIT_FAILURE)\<close>; \<open>upboard\<close> is the \<open>long\<close> cut to an \<open>int\<close>.
\<close>

definition set_fw_number :: "string option \<Rightarrow> (int \<Rightarrow> fw_options) \<Rightarrow> (unit + fw_options) option" where
  "set_fw_number optarg upd =
     do { arg \<leftarrow> optarg; v \<leftarrow> atoi arg; Some (if v = 0 then Inl () else Inr (upd v)) }"

definition set_fw_upboard :: "string option \<Rightarrow> fw_options \<Rightarrow> (unit + fw_options) option" where
  "set_fw_upboard optarg o1 =
     do { arg \<leftarrow> optarg;
          Some (case strtol arg of
                  None \<Rightarrow> Inl ()
                | Some v \<Rightarrow>
                    let upboard = sint (word_of_int v :: 32 word) in
                    if upboard_exists upboard then
                      Inr (o1\<lparr>fo_upboard := upboard, fo_final := True, fo_prog := True, fo_resetrw := True\<rparr>)
                    else Inl ()) }"

definition set_fw_option :: "char \<times> string option \<Rightarrow> fw_options \<Rightarrow> (unit + fw_options) option" where
  "set_fw_option opt o1 =
     (case opt of (c, optarg) \<Rightarrow>
      if c = CHR ''v'' then Some (Inr (o1\<lparr>fo_verbose := fo_verbose o1 + 1\<rparr>))
      else if c = CHR ''V'' then Some (Inr (o1\<lparr>fo_verify := True\<rparr>))
      else if c = CHR ''P'' then Some (Inr (o1\<lparr>fo_prog := True\<rparr>))
      else if c = CHR ''R'' then Some (Inr (o1\<lparr>fo_resetrw := True\<rparr>))
      else if c = CHR ''C'' then Some (Inr (o1\<lparr>fo_calibrate := True, fo_prog := True, fo_resetrw := True\<rparr>))
      else if c = CHR ''F'' then set_fw_upboard optarg o1
      else if c = CHR ''p'' then do { arg \<leftarrow> optarg; Some (Inr (o1\<lparr>fo_port := Some arg\<rparr>)) }
      else if c = CHR ''b'' then set_fw_number optarg (\<lambda>v. o1\<lparr>fo_baud := v\<rparr>)
      else if c = CHR ''u'' then set_fw_number optarg (\<lambda>v. o1\<lparr>fo_device_id := v\<rparr>)
      else if c = CHR ''d'' then do { arg \<leftarrow> optarg; Some (Inr (o1\<lparr>fo_firmwaredir := arg\<rparr>)) }
      else Some (Inl ()))"

fun read_fw_options :: "(char \<times> string option) list \<Rightarrow> fw_options \<Rightarrow> (unit + fw_options) option" where
  "read_fw_options [] o1 = Some (Inr o1)"
| "read_fw_options (opt # opts) o1 =
     do { r \<leftarrow> set_fw_option opt o1; case r of Inl u \<Rightarrow> Some (Inl u) | Inr o2 \<Rightarrow> read_fw_options opts o2 }"

section \<open>The program\<close>

text \<open>
  The version the board is to have: that of the calibrating firmware, that of the combination
  with the upper board, or its own. \<open>Inl ()\<close> is \<open>return -1\<close>.
\<close>

definition choose_version :: "fw_options \<Rightarrow> Tboard_version \<Rightarrow> (unit + Tboard_version) option" where
  "choose_version o1 brd =
     (if fo_calibrate o1 then Some (Inr (brd\<lparr>hw_version := base_hw_version brd OR 0x8\<rparr>))
      else if fo_final o1 then
        if \<not> IS_CALIB (uint (hw_version brd)) then Some (Inl ())
        else do {
          hw \<leftarrow> check_compatibility (uint (base_hw_version brd)) (fo_upboard o1);
          let chosen = brd\<lparr>hw_version := word_of_int hw\<rparr>;
          Some (if hw_version chosen = 0 then Inl () else Inr chosen) }
      else Some (Inr brd))"

text \<open>
  A firmware file is found by the version; a null pointer for its name is a fault. \<open>heap\<close> tells
  which sizes \<open>malloc\<close> has a block for, \<open>files\<close> are the contents of the files that can be opened.
\<close>

definition load_version ::
  "(nat \<Rightarrow> bool) \<Rightarrow> (string \<Rightarrow> u8 list option) \<Rightarrow> fw_options \<Rightarrow> Tboard_version \<Rightarrow> string \<Rightarrow> mem \<Rightarrow> nat \<Rightarrow> (int \<times> mem) option" where
  "load_version heap files o1 brd ext prog_data len =
     do { fwname \<leftarrow> firmware_name heap (uint (hw_version brd)) (uint (base_hw_version brd)) (fo_firmwaredir o1) ext;
          path \<leftarrow> fwname;
          load_fw (files path) prog_data len }"

definition fw_page_count :: "int \<Rightarrow> int" where
  "fw_page_count red = (red + (PAGE_SIZE - 1)) sdiv PAGE_SIZE"

text \<open>
  The branch of \<open>main\<close> that manipulates the firmware. The result is its status, what has been
  printed of the comparison, the context and the world. \<open>prog_data\<close> and \<open>rw_data\<close> are the
  blocks that \<open>malloc\<close> returns, the empty block when it fails: it is not checked, and the first
  write to it faults; \<open>do_resetrw\<close> is set for calibration.
\<close>

definition load_rw ::
  "(nat \<Rightarrow> bool) \<Rightarrow> (string \<Rightarrow> u8 list option) \<Rightarrow> fw_options \<Rightarrow> Tboard_version \<Rightarrow> mem \<Rightarrow> (int \<times> mem option) option" where
  "load_rw heap files o1 brd rw_data =
     (if fo_resetrw o1 \<or> fo_calibrate o1 then
        do { (rwlen, rw_data) \<leftarrow> load_version heap files o1 brd ''.rw'' rw_data MAX_RW_SIZE;
             Some (RW_START_PAGE + fw_page_count rwlen, Some rw_data) }
      else Some (RW_START_PAGE, None))"

definition change_firmware ::
  "('a, 'd, 'w) fw_line \<Rightarrow> (nat \<Rightarrow> bool) \<Rightarrow> (string \<Rightarrow> u8 list option) \<Rightarrow> fw_options \<Rightarrow> mem \<Rightarrow> mem \<Rightarrow> Tboard_version \<Rightarrow>
     'd modbus \<Rightarrow> 'w \<Rightarrow> (int \<times> (int \<times> u16) list \<times> 'd modbus \<times> 'w) option" where
  "change_firmware ln heap files o1 prog_data rw_data brd ctx w =
     do { chosen \<leftarrow> choose_version o1 brd;
          case chosen of
            Inl _ \<Rightarrow> Some (-1, [], ctx, w)
          | Inr ver \<Rightarrow>
              do { (red, prog_data) \<leftarrow> load_version heap files o1 ver ''.bin'' prog_data MAX_FW_SIZE;
                   if red \<le> 0 then Some (-1, [], ctx, w)
                   else do {
                     let red = fw_page_count red;
                     (rwred, rw_data) \<leftarrow> load_rw heap files o1 ver rw_data;
                     (rc, ctx, w) \<leftarrow> fw_write_bit ln 1006 1 ctx w;
                     if rc \<noteq> 1 then Some (-1, [], ctx, w)
                     else do {
                       (ctx, w) \<leftarrow> (if fo_prog o1 \<or> fo_calibrate o1 then flashit ln prog_data rw_data red rwred ctx w
                                   else Some (ctx, w));
                       (report, ctx, w) \<leftarrow> (if fo_verify o1 then verify ln prog_data rw_data red rwred ctx w
                                           else Some ([], ctx, w));
                       (_, ctx, w) \<leftarrow> fw_write_register ln 0x7707 3 ctx w;
                       Some (0, report, ctx, w) } } } }"

text \<open>
  \<open>main\<close> with its options. \<open>fresh\<close> is the memory of the new context, \<open>regs\<close> and \<open>brd\<close> the
  uninitialised \<open>r1000\<close> and \<open>bv\<close>; the arrays of \<open>ln\<close> are those of the client's functions. The
  result is the exit status, the report and the world; the context is freed.
\<close>

definition fwserial ::
  "'w modbus_rtu modbus \<Rightarrow> 'w tty \<Rightarrow> ('a, 'w modbus_rtu, 'w) fw_line \<Rightarrow> (nat \<Rightarrow> bool) \<Rightarrow> (string \<Rightarrow> u8 list option) \<Rightarrow> mem \<Rightarrow> mem \<Rightarrow>
     u16 list \<Rightarrow> Tboard_version \<Rightarrow> (char \<times> string option) list \<Rightarrow> 'w \<Rightarrow> (int \<times> (int \<times> u16) list \<times> 'w) option" where
  "fwserial fresh tty ln heap files prog_data rw_data r1000 brd opts w =
     do { r \<leftarrow> read_fw_options opts fw_defaults;
          case r of Inl _ \<Rightarrow> Some (1, [], w)
          | Inr o1 \<Rightarrow>
            case fo_port o1 of None \<Rightarrow> Some (1, [], w)
            | Some device_name \<Rightarrow>
              case modbus_new_rtu tty (Some (c_str device_name)) (fo_baud o1) (CHR ''N'') 8 1 fresh of
                None \<Rightarrow> Some (-1, [], w)
              | Some ctx \<Rightarrow>
                  do { let ln = ln\<lparr>ln_be := rtu_backend (ln_net ln) tty\<rparr>;
                       let ctx = (if 1 < fo_verbose o1 then snd (modbus_set_debug (fo_verbose o1 - 1) ctx) else ctx);
                       let ctx = snd (modbus_set_slave (ln_be ln) (fo_device_id o1) ctx);
                       let (rc, ctx, w) = modbus_connect (ln_be ln) ctx w;
                       if rc = -1 then Some (-1, [], w)
                       else do {
                         (rc, r1000, ctx, w) \<leftarrow> fw_read_registers ln 1000 5 r1000 ctx w;
                         if rc \<noteq> 5 then Some (-1, [], w)
                         else if fo_prog o1 \<or> fo_verify o1 then
                           do { (rc, report, _, w) \<leftarrow> change_firmware ln heap files o1 prog_data rw_data (parse_version brd r1000) ctx w;
                                Some (rc, report, w) }
                         else Some (0, [], w) } } }"

end
