(* ===== verification/Fw_Serial_Correct.thy ===== *)
theory Fw_Serial_Correct
  imports Fw_Serial Arm_Firmware_Correct
begin

text \<open>
  What \<open>fwserial\<close> does to a board: the pages that \<open>flashit\<close> writes, and the loading of files.
\<close>

section \<open>A board that is programmed\<close>

text \<open>
  The board as a peer: it confirms every request and keeps a log of the registers written,
  except that it answers a block of registers with an exception when \<open>refuses\<close> holds of its
  address. A read of a register returns what \<open>answer\<close> makes of the log.
\<close>

type_synonym flash_log = "(int \<times> u16 list) list"

definition flash_board :: "(int \<Rightarrow> bool) \<Rightarrow> (flash_log \<Rightarrow> u16) \<Rightarrow> flash_log \<Rightarrow> u8 list \<Rightarrow> u8 list \<times> flash_log" where
  "flash_board refuses answer log pdu =
     (let a = pdu_address pdu in
      if pdu ! 0 = 0x03 then (0x03 # 2 # reg_bytes [answer log], log)
      else if pdu ! 0 = 0x10 \<and> refuses a then ([0x90, 4], log)
      else (take 5 pdu, log @ [(a, if pdu ! 0 = 0x05 \<or> pdu ! 0 = 0x06 then [join16 (pdu ! 3) (pdu ! 4)]
                                   else regs_of_bytes (drop 6 pdu))]))"

text \<open>What programming a page is: its number, its 512 registers in eight blocks, the command to write it.\<close>

definition page_blocks :: "(int \<Rightarrow> bool) \<Rightarrow> int \<Rightarrow> u8 list \<Rightarrow> flash_log" where
  "page_blocks refuses page bytes =
     [(0x7705, [word_of_int page])] @
     map (\<lambda>c. (0x7700 + int c, regs_of (take 128 (drop (128 * c) bytes))))
       (filter (\<lambda>c. \<not> refuses (0x7700 + int c)) [0..<8])"

definition page_writes :: "(int \<Rightarrow> bool) \<Rightarrow> int \<Rightarrow> u8 list \<Rightarrow> flash_log" where
  "page_writes refuses page bytes = page_blocks refuses page bytes @ [(0x7707, [1])]"

definition refused :: "(int \<Rightarrow> bool) \<Rightarrow> nat" where
  "refused refuses = length (filter (\<lambda>c. refuses (0x7700 + int c)) [0..<8])"

definition page_bytes :: "u8 list \<Rightarrow> nat \<Rightarrow> u8 list" where
  "page_bytes m i = take 1024 (drop (1024 * i) m)"

definition line_ok :: "('a, 'd, 'w) fw_line \<Rightarrow> bool" where
  "line_ok ln \<longleftrightarrow> length (ln_small ln) = 12 \<and> length (ln_req ln) = 260 \<and> length (ln_rsp ln) = 260"

lemma length_regs_of [simp]: "length (regs_of m) = length m div 2"
  by (induction m rule: regs_of.induct) simp_all

text \<open>A firmware file in the flash memory, from page \<open>start\<close> on; the last page is filled up.\<close>

definition file_writes :: "(int \<Rightarrow> bool) \<Rightarrow> nat \<Rightarrow> u8 list \<Rightarrow> flash_log" where
  "file_writes refuses start file =
     concat (map (\<lambda>i. page_writes refuses (int (start + i)) (fw_pages file ! i)) [0..<length (fw_pages file)])"

text \<open>
  A program with constants in the flash memory. The constants have the page 56, which limits a
  program to 56 pages; of a longer one the pages up to 55 are written, and the page 56 when
  constants are to be written, which it then has in their place.
\<close>

definition program_writes :: "(int \<Rightarrow> bool) \<Rightarrow> u8 list \<Rightarrow> u8 list \<Rightarrow> flash_log" where
  "program_writes refuses file rw =
     (if length file \<le> 57344 then file_writes refuses 0 file @ file_writes refuses 56 rw
      else file_writes refuses 0 (take (1024 * (56 + length (fw_pages rw))) file))"

lemma fw_pages_nth:
  shows length_fw_pages: "length (fw_pages d) = (length d + 1023) div 1024"
    and "i < length (fw_pages d) \<Longrightarrow> fw_pages d ! i = pad_page (take 1024 (drop (1024 * i) d))"
proof (induction d arbitrary: i rule: fw_pages.induct)
  case (1 d)
  {
    case 1
    show ?case
    proof (cases "d = []")
      case False
      have "(length d + 1023) div 1024 = Suc ((length d - 1024 + 1023) div 1024)"
        using False by (cases "length d \<le> 1024") (auto simp: div_eq_dividend_iff Suc_le_eq le_div_geq)
      then show ?thesis using False "1.IH"(1) by (subst fw_pages.simps) simp
    qed (simp add: fw_pages.simps)
  next
    case 2
    then have "d \<noteq> []" by (auto simp: fw_pages.simps)
    then show ?case using "1.IH"(2) [of "i - 1"] 2
      by (subst fw_pages.simps) (cases i; simp add: fw_pages.simps [of d] add.commute)
  }
qed

lemma fw_pages_take:
  assumes "n \<le> length (fw_pages d)"
  shows "length (fw_pages (take (1024 * n) d)) = n"
    and "i < n \<Longrightarrow> fw_pages (take (1024 * n) d) ! i = fw_pages d ! i"
proof -
  show len: "length (fw_pages (take (1024 * n) d)) = n"
  proof (cases "length d \<le> 1024 * n")
    case True
    then have "take (1024 * n) d = d" by simp
    moreover have "(length d + 1023) div 1024 \<le> n" using True by linarith
    ultimately show ?thesis using assms by (simp add: length_fw_pages)
  next
    case False
    then have "length (take (1024 * n) d) = 1024 * n" by simp
    then show ?thesis by (simp add: length_fw_pages)
  qed
  assume i: "i < n"
  then have "i < length (fw_pages (take (1024 * n) d))" "i < length (fw_pages d)" using len assms by simp_all
  then show "fw_pages (take (1024 * n) d) ! i = fw_pages d ! i"
    using i by (simp add: fw_pages_nth(2) drop_take min_def)
qed

lemma page_of_file:
  assumes "i < length (fw_pages file)" and "1024 * Suc i \<le> len"
  shows "page_bytes (file @ replicate (len - length file) 0xff) i = fw_pages file ! i"
proof -
  let ?k = "length (drop (1024 * i) file)"
  have "1024 * i \<le> length file" using assms(1) unfolding length_fw_pages by linarith
  then have "take (1024 - ?k) (replicate (len - length file) (0xff :: u8)) = replicate (1024 - ?k) 0xff"
    using assms(2) by (simp only: take_replicate) (simp add: min_def)
  then show ?thesis unfolding fw_pages_nth(2) [OF assms(1)] page_bytes_def
    using \<open>1024 * i \<le> length file\<close> by (simp add: pad_page_def)
qed

lemma word_of_uint16: "join16 (word_of_int (drop_bit 8 v)) (word_of_int (v AND 0xff)) = word_of_int v"
  if "0 \<le> v" "v < 65536"
proof -
  have "uint (join16 (word_of_int (drop_bit 8 v)) (word_of_int (v AND 0xff))) = uint (word_of_int v :: u16)"
    using be16_split [OF that] that by (simp add: uint_join16 uint_word_of_int_eq take_bit_int_eq_self)
  then show ?thesis by (simp only: word_uint_eq_iff)
qed

context modbus_framing
begin

lemma small_room: "line_ok ln \<Longrightarrow> header_length be + 5 + checksum_length be \<le> length (ln_small ln)"
  using adu_fits max_adu by (simp add: line_ok_def)

lemma write_register_flash:
  assumes "ln_be ln = be" and "line_ok ln" and "client_ready be adu accepts pending log (flash_board refuses answer) ctx"
    and "pending w = []" and "0 \<le> addr" "addr < 65536" and "0 \<le> v" "v < 65536"
  shows "\<exists>ctx' w'. fw_write_register ln addr v ctx w = Some (1, ctx', w') \<and> pending w' = [] \<and>
    log w' = log w @ [(addr, [word_of_int v])] \<and> client_ready be adu accepts pending log (flash_board refuses answer) ctx'"
proof -
  let ?p = "register_request 0x06 addr v"
  have "pdu_address ?p = addr" "take 5 ?p = ?p" "?p ! 0 = 0x06" "join16 (?p ! 3) (?p ! 4) = word_of_int v"
    using be16_split [OF assms(5,6)] word_of_uint16 [OF assms(7,8)] by (simp_all add: pdu_address_def register_request_def)
  then have s: "flash_board refuses answer (log w) ?p = (?p, log w @ [(addr, [word_of_int v])])"
    by (simp add: flash_board_def)
  have f: "(0x06 :: int) = 0x05 \<or> (0x06 :: int) = 0x06" by simp
  have "length (ln_rsp ln) = 260" using assms(2) by (simp add: line_ok_def)
  from client_writes_single(1) [where net = "ln_net ln", OF assms(3) f small_room [OF assms(2)] this assms(4) s]
  show ?thesis using assms(1) by (auto simp: fw_write_register_def modbus_write_register_def)
qed

lemma write_registers_flash:
  assumes "ln_be ln = be" and "line_ok ln" and "client_ready be adu accepts pending log (flash_board refuses answer) ctx"
    and "pending w = []" and "0 \<le> addr" "addr < 65536" and "length vals = 64"
  shows "\<exists>rc ctx' w'. fw_write_registers ln addr 64 vals ctx w = Some (rc, ctx', w') \<and> pending w' = [] \<and>
    (rc = -1 \<longleftrightarrow> refuses addr) \<and> log w' = log w @ (if refuses addr then [] else [(addr, vals)]) \<and>
    client_ready be adu accepts pending log (flash_board refuses answer) ctx'"
proof -
  let ?p = "write_registers_pdu addr 64 vals"
  have p: "pdu_address ?p = addr" "?p ! 0 = 0x10" "regs_of_bytes (drop 6 ?p) = vals"
    using be16_split [OF assms(5,6)] assms(7) by (simp_all add: pdu_address_def write_registers_pdu_def register_request_def)
  have r: "length (ln_req ln) = 260" "length (ln_rsp ln) = 260" using assms(2) by (simp_all add: line_ok_def)
  have n: "(1 :: int) \<le> 64" "(64 :: int) \<le> 123" "64 \<le> int (length vals)" using assms(7) by simp_all
  note writes = client_writes_registers [where net = "ln_net ln" and addr = addr, OF assms(3) n r assms(4)]
  show ?thesis
  proof (cases "refuses addr")
    case True
    then have "flash_board refuses answer (log w) ?p = ([0x90, 4], log w)" using p by (simp add: flash_board_def)
    from writes(2) [OF this] show ?thesis
      using True assms(1)
      by (auto simp: fw_write_registers_def MODBUS_EXCEPTION_MAX_def)
  next
    case False
    then have "flash_board refuses answer (log w) ?p = (take 5 ?p, log w @ [(addr, vals)])" using p by (simp add: flash_board_def)
    from writes(1) [OF this] show ?thesis
      using False assms(1) by (auto simp: fw_write_registers_def)
  qed
qed

text \<open>A page that is selected and filled, as for writing and for comparing it.\<close>

lemma fill_page_flash:
  assumes "ln_be ln = be" and "line_ok ln" and "client_ready be adu accepts pending log (flash_board refuses answer) ctx"
    and "pending w = []" and "0 \<le> page" "page < 65536" and "1024 * i + 1024 \<le> length m"
  shows "\<exists>ctx1 w1 x v. fw_write_register ln 0x7705 page ctx w = Some (1, ctx1, w1) \<and>
    for_each [0..<8] (send_chunk ln (Some m, 1024 * int i)) (errors, ctx1, w1) = Some (errors + int (refused refuses), x, v) \<and>
    pending v = [] \<and> log v = log w @ page_blocks refuses page (page_bytes m i) \<and>
    client_ready be adu accepts pending log (flash_board refuses answer) x"
proof -
  let ?ready = "client_ready be adu accepts pending log (flash_board refuses answer)" and ?b = "page_bytes m i"
  obtain ctx1 w1 where 1: "fw_write_register ln 0x7705 page ctx w = Some (1, ctx1, w1)" "pending w1 = []"
    "log w1 = log w @ [(0x7705, [word_of_int page])]" "?ready ctx1"
    using write_register_flash [where addr = "0x7705", OF assms(1-4) _ _ assms(5,6)] by auto
  let ?blk = "\<lambda>c. (0x7700 + int c, regs_of (take 128 (drop (128 * c) ?b)))"
  let ?P = "\<lambda>n (e, c, v). e = errors + int (length (filter (\<lambda>c. refuses (0x7700 + int c)) [0..<n])) \<and> ?ready c \<and> pending v = [] \<and>
      log v = log w1 @ map ?blk (filter (\<lambda>c. \<not> refuses (0x7700 + int c)) [0..<n])"
  have "\<exists>s. for_each [0..<8] (send_chunk ln (Some m, 1024 * int i)) (errors, ctx1, w1) = Some s \<and> ?P 8 s"
  proof (rule for_each_upt)
    fix c s assume c: "c < (8 :: nat)" and P: "?P c s"
    obtain e x v where s: "s = (e, x, v)" by (cases s)
    have off: "1024 * int i + int c * 128 = int (1024 * i + 128 * c)" by simp
    have b: "take 128 (drop (128 * c) ?b) = take 128 (drop (1024 * i + 128 * c) m)"
      using c by (simp add: page_bytes_def drop_take min_def add.commute)
    have fits: "1024 * i + 128 * c + 128 \<le> length m" using c assms(7) by simp
    have rd: "rd_blk m (int (1024 * i + 128 * c)) 128 = Some (take 128 (drop (1024 * i + 128 * c) m))"
      using fits unfolding rd_blk_def nat_int by (simp add: rd_block_def)
    have d: "chunk_data (Some m, 1024 * int i) c = Some (snd (?blk c))"
      using rd unfolding chunk_data_def fst_conv snd_conv REG_SIZE_def b by (simp add: off)
    have "length (take 128 (drop (128 * c) ?b)) = 128" unfolding b using fits by simp
    then have l: "length (snd (?blk c)) = 64" by simp
    from P s have x: "?ready x" "pending v = []" by simp_all
    obtain rc x' v' where w: "fw_write_registers ln (0x7700 + int c) 64 (snd (?blk c)) x v = Some (rc, x', v')" "pending v' = []"
      "rc = -1 \<longleftrightarrow> refuses (0x7700 + int c)" "?ready x'"
      "log v' = log v @ (if refuses (0x7700 + int c) then [] else [?blk c])"
      using write_registers_flash [where addr = "0x7700 + int c" and vals = "snd (?blk c)", OF assms(1,2) x] c l by auto
    have "send_chunk ln (Some m, 1024 * int i) c s = Some (if refuses (0x7700 + int c) then e + 1 else e, x', v')"
      using d w(1,3) unfolding send_chunk_def s REG_SIZE_def by simp
    then show "\<exists>s'. send_chunk ln (Some m, 1024 * int i) c s = Some s' \<and> ?P (Suc c) s'"
      using P w(2,4,5) s by simp
  qed (use 1 in simp_all)
  then obtain x v where 2: "for_each [0..<8] (send_chunk ln (Some m, 1024 * int i)) (errors, ctx1, w1) =
      Some (errors + int (refused refuses), x, v)" "?ready x" "pending v = []"
    "log v = log w1 @ map ?blk (filter (\<lambda>c. \<not> refuses (0x7700 + int c)) [0..<8])"
    unfolding refused_def by (auto simp only: split_paired_Ex prod.case)
  have "log v = log w @ page_blocks refuses page ?b" unfolding 2(4) 1(3) page_blocks_def by simp
  with 1(1) 2(1-3) show ?thesis by blast
qed

lemma program_page_flash:
  assumes "ln_be ln = be" and "line_ok ln" and "client_ready be adu accepts pending log (flash_board refuses answer) ctx"
    and "pending w = []" and "0 \<le> page" "page < 65536" and "1024 * i + 1024 \<le> length m"
  shows "\<exists>ctx' w'. program_page ln (Some m, 1024 * int i) page (errors, ctx, w) =
      Some (True, errors + int (refused refuses), ctx', w') \<and> pending w' = [] \<and>
    log w' = log w @ page_writes refuses page (page_bytes m i) \<and> client_ready be adu accepts pending log (flash_board refuses answer) ctx'"
proof -
  obtain ctx1 w1 x v where 1: "fw_write_register ln 0x7705 page ctx w = Some (1, ctx1, w1)"
    "for_each [0..<8] (send_chunk ln (Some m, 1024 * int i)) (errors, ctx1, w1) = Some (errors + int (refused refuses), x, v)"
    "pending v = []" "log v = log w @ page_blocks refuses page (page_bytes m i)"
    "client_ready be adu accepts pending log (flash_board refuses answer) x"
    using fill_page_flash [OF assms] by blast
  obtain ctx3 w3 where 3: "fw_write_register ln 0x7707 1 x v = Some (1, ctx3, w3)" "pending w3 = []"
    "log w3 = log v @ [(0x7707, [1])]" "client_ready be adu accepts pending log (flash_board refuses answer) ctx3"
    using write_register_flash [where addr = "0x7707" and v = 1, OF assms(1,2) 1(5,3)] by auto
  have "program_page ln (Some m, 1024 * int i) page (errors, ctx, w) = Some (True, errors + int (refused refuses), ctx3, w3)"
    using 1(1,2) 3(1) unfolding program_page_def by simp
  then show ?thesis using 1(4) 3(2-4) by (simp add: page_writes_def)
qed

text \<open>The loop over pages, from one page to the last of a block of pages.\<close>

lemma flashit_pages:
  assumes "ln_be ln = be" and "line_ok ln" and "client_ready be adu accepts pending log (flash_board refuses answer) ctx"
    and "pending w = []" and "int p + int n \<le> last_page" "p + n < 65536"
    and "\<And>i. i < n \<Longrightarrow> page_data prog_data rw_data lp (int (p + i)) = (Some m, 1024 * int i)"
    and "1024 * n \<le> length m" and "\<And>i. 0 < i \<Longrightarrow> i < n \<Longrightarrow> int (p + i) \<noteq> lp" and "errors + int (n * refused refuses) \<le> 200"
  shows "\<exists>ctx' w'. loop (flashit_step ln prog_data rw_data lp last_page) (int p, errors, ctx, w) =
      loop (flashit_step ln prog_data rw_data lp last_page)
        (if 0 < n \<and> int (p + n) = lp then RW_START_PAGE else int (p + n), errors + int (n * refused refuses), ctx', w') \<and>
    pending w' = [] \<and> client_ready be adu accepts pending log (flash_board refuses answer) ctx' \<and>
    log w' = log w @ concat (map (\<lambda>i. page_writes refuses (int (p + i)) (page_bytes m i)) [0..<n])"
  using assms(5-10)
proof (induction n)
  case 0
  then show ?case using assms(3,4) by auto
next
  case (Suc n)
  let ?step = "flashit_step ln prog_data rw_data lp last_page" and ?k = "refused refuses"
  have le: "errors + int (n * ?k) \<le> 200" using Suc.prems(6) by simp
  have before: "int p + int n \<le> last_page" "p + n < 65536" "1024 * n \<le> length m" using Suc.prems by simp_all
  have pages: "page_data prog_data rw_data lp (int (p + i)) = (Some m, 1024 * int i)" if "i < n" for i
    using Suc.prems(3) [of i] that by simp
  have jump: "int (p + i) \<noteq> lp" if "0 < i" "i < n" for i using Suc.prems(5) [of i] that by simp
  obtain ctx1 w1 where 1: "loop ?step (int p, errors, ctx, w) =
      loop ?step (if 0 < n \<and> int (p + n) = lp then RW_START_PAGE else int (p + n), errors + int (n * ?k), ctx1, w1)"
    "pending w1 = []" "client_ready be adu accepts pending log (flash_board refuses answer) ctx1"
    "log w1 = log w @ concat (map (\<lambda>i. page_writes refuses (int (p + i)) (page_bytes m i)) [0..<n])"
    using Suc.IH [OF before(1,2) pages before(3) jump le] by blast
  have here: "(if 0 < n \<and> int (p + n) = lp then RW_START_PAGE else int (p + n)) = int (p + n)"
    using Suc.prems(5) [of n] by auto
  have b: "0 \<le> int (p + n)" "int (p + n) < 65536" "1024 * n + 1024 \<le> length m" using Suc.prems by simp_all
  obtain ctx2 w2 where 2: "program_page ln (Some m, 1024 * int n) (int (p + n)) (errors + int (n * ?k), ctx1, w1) =
      Some (True, errors + int (n * ?k) + int ?k, ctx2, w2)" "pending w2 = []"
    "log w2 = log w1 @ page_writes refuses (int (p + n)) (page_bytes m n)"
    "client_ready be adu accepts pending log (flash_board refuses answer) ctx2"
    using program_page_flash [OF assms(1,2) 1(3,2) b] by blast
  have e: "errors + int (n * ?k) + int ?k = errors + int (Suc n * ?k)" by simp
  have "\<not> last_page \<le> int (p + n)" using Suc.prems(1) by simp
  then have "?step (int (p + n), errors + int (n * ?k), ctx1, w1) =
      Some (Inl (if int (p + Suc n) = lp then RW_START_PAGE else int (p + Suc n), errors + int (Suc n * ?k), ctx2, w2))"
    using 2(1) Suc.prems(3) [of n] Suc.prems(6) unfolding flashit_step_def e [symmetric] by (simp add: Let_def add.commute)
  from loop_Inl [of ?step, OF this] 1(1) 2(2-4) 1(4) show ?case unfolding here by (intro exI [of _ ctx2] exI [of _ w2]) simp
qed

lemma flashit_flash:
  assumes "ln_be ln = be" and "line_ok ln"
    and "client_ready be adu accepts pending log (flash_board refuses answer) (snd (modbus_set_response_timeout 1 0 ctx))"
    and "pending w = []" and "1 \<le> lp" "lp \<le> 56" "1024 * lp \<le> length prog" and "0 < r \<Longrightarrow> rw_data = Some m"
    and "1024 * r \<le> length m" "r < 1024"
    and "(lp + r) * refused refuses \<le> 200"
  shows "\<exists>ctx' w'. flashit ln prog rw_data (int lp) (56 + int r) ctx w = Some (ctx', w') \<and>
    pending w' = [] \<and> client_ready be adu accepts pending log (flash_board refuses answer) ctx' \<and>
    log w' = log w @ concat (map (\<lambda>i. page_writes refuses (int i) (page_bytes prog i)) [0..<lp]) @
      concat (map (\<lambda>i. page_writes refuses (int (56 + i)) (page_bytes m i)) [0..<r])"
proof -
  let ?step = "flashit_step ln prog rw_data (int lp) (56 + int r)" and ?k = "refused refuses"
  let ?ctx = "snd (modbus_set_response_timeout 1 0 ctx)"
  have k: "int (lp * ?k) + int (r * ?k) \<le> 200" using assms(11) by (simp add: distrib_right flip: of_nat_add of_nat_mult)
  have k1: "int (lp * ?k) \<le> 200" using k of_nat_0_le_iff [of "r * ?k"] by linarith
  have "\<exists>ctx' w'. loop ?step (int 0, 0, ?ctx, w) =
      loop ?step (if 0 < lp \<and> int (0 + lp) = int lp then RW_START_PAGE else int (0 + lp), 0 + int (lp * ?k), ctx', w') \<and>
    pending w' = [] \<and> client_ready be adu accepts pending log (flash_board refuses answer) ctx' \<and>
    log w' = log w @ concat (map (\<lambda>i. page_writes refuses (int (0 + i)) (page_bytes prog i)) [0..<lp])"
    by (rule flashit_pages [OF assms(1-4)]) (use assms(5-7) k1 in \<open>auto simp: page_data_def PAGE_SIZE_def simp del: of_nat_mult\<close>)
  then obtain ctx1 w1 where 1: "loop ?step (int 0, 0, ?ctx, w) = loop ?step (int 56, int (lp * ?k), ctx1, w1)" "pending w1 = []"
    "client_ready be adu accepts pending log (flash_board refuses answer) ctx1"
    "log w1 = log w @ concat (map (\<lambda>i. page_writes refuses (int i) (page_bytes prog i)) [0..<lp])"
    using assms(5) by (auto simp: RW_START_PAGE_def)
  have "\<exists>ctx' w'. loop ?step (int 56, int (lp * ?k), ctx1, w1) =
      loop ?step (if 0 < r \<and> int (56 + r) = int lp then RW_START_PAGE else int (56 + r), int (lp * ?k) + int (r * ?k), ctx', w') \<and>
    pending w' = [] \<and> client_ready be adu accepts pending log (flash_board refuses answer) ctx' \<and>
    log w' = log w1 @ concat (map (\<lambda>i. page_writes refuses (int (56 + i)) (page_bytes m i)) [0..<r])"
    by (rule flashit_pages [OF assms(1,2) 1(3,2)]) (use assms(6,8-10) k in \<open>auto simp: page_data_def fw_sizes simp del: of_nat_mult\<close>)
  then obtain ctx2 w2 where 2: "loop ?step (int 56, int (lp * ?k), ctx1, w1) =
      loop ?step (int (56 + r), int (lp * ?k) + int (r * ?k), ctx2, w2)"
    "pending w2 = []" "client_ready be adu accepts pending log (flash_board refuses answer) ctx2"
    "log w2 = log w1 @ concat (map (\<lambda>i. page_writes refuses (int (56 + i)) (page_bytes m i)) [0..<r])"
    using assms(6) by (auto split: if_splits)
  have "?step (int (56 + r), int (lp * ?k) + int (r * ?k), ctx2, w2) = Some (Inr (ctx2, w2))"
    by (simp add: flashit_step_def)
  from loop_Inr [of ?step, OF this] 1(1,4) 2 show ?thesis by (simp add: flashit_def)
qed

text \<open>
  A program of more than 56 pages. The page after its last one is never reached, or is the page
  behind the last of all, so neither the gap before the constants nor the constants are seen.
\<close>

lemma flashit_long:
  assumes "ln_be ln = be" and "line_ok ln"
    and "client_ready be adu accepts pending log (flash_board refuses answer) (snd (modbus_set_response_timeout 1 0 ctx))"
    and "pending w = []" and "57 \<le> lp" "1024 * (56 + r) \<le> length prog" "r \<le> 1" "r = 0 \<or> lp \<noteq> 57"
    and "(56 + r) * refused refuses \<le> 200"
  shows "\<exists>ctx' w'. flashit ln prog rw_data (int lp) (56 + int r) ctx w = Some (ctx', w') \<and>
    pending w' = [] \<and> client_ready be adu accepts pending log (flash_board refuses answer) ctx' \<and>
    log w' = log w @ concat (map (\<lambda>i. page_writes refuses (int i) (page_bytes prog i)) [0..<56 + r])"
proof -
  let ?step = "flashit_step ln prog rw_data (int lp) (56 + int r)" and ?k = "refused refuses"
  let ?ctx = "snd (modbus_set_response_timeout 1 0 ctx)"
  have room: "int 0 + int (56 + r) \<le> 56 + int r" "0 + (56 + r) < 65536" using assms(7) by simp_all
  have pages: "page_data prog rw_data (int lp) (int (0 + i)) = (Some prog, 1024 * int i)" if "i < 56 + r" for i
    using that assms(5,7) by (simp add: page_data_def PAGE_SIZE_def)
  have jump: "int (0 + i) \<noteq> int lp" if "0 < i" "i < 56 + r" for i using that assms(5,7) by simp
  have k: "0 + int ((56 + r) * ?k) \<le> 200" using assms(9) by (metis add_0 of_nat_mono of_nat_numeral)
  have stop: "\<not> (0 < 56 + r \<and> int (0 + (56 + r)) = int lp)" using assms(5,7,8) by auto
  obtain ctx1 w1 where 1: "loop ?step (int 0, 0, ?ctx, w) = loop ?step (int (0 + (56 + r)), 0 + int ((56 + r) * ?k), ctx1, w1)"
    "pending w1 = []" "client_ready be adu accepts pending log (flash_board refuses answer) ctx1"
    "log w1 = log w @ concat (map (\<lambda>i. page_writes refuses (int (0 + i)) (page_bytes prog i)) [0..<56 + r])"
    using flashit_pages [OF assms(1-4) room pages assms(6) jump k] unfolding if_not_P [OF stop] by blast
  have "?step (int (0 + (56 + r)), e, ctx1, w1) = Some (Inr (ctx1, w1))" for e
    by (simp add: flashit_step_def)
  from loop_Inr [of ?step, OF this] 1 show ?thesis
    by (intro exI [of _ ctx1] exI [of _ w1]) (simp add: flashit_def)
qed

text \<open>
  The program of exactly 57 pages with constants: its last page ends where the constants are to
  end, and the loop goes back to it for ever.
\<close>

lemma flashit_endless:
  assumes "ln_be ln = be" and "line_ok ln"
    and "client_ready be adu accepts pending log (flash_board refuses answer) ctx"
    and "pending w = []" and "58368 \<le> length prog" and "refused refuses = 0"
  shows "endless (flashit_step ln prog rw_data 57 57) (0, 0, ctx, w)"
proof (rule endlessI [where P = "\<lambda>(page, errors, ctx, w). 0 \<le> page \<and> page \<le> 56 \<and> errors = 0 \<and> pending w = [] \<and>
    client_ready be adu accepts pending log (flash_board refuses answer) ctx"])
  show "case (0, 0, ctx, w) of (page, errors, ctx, w) \<Rightarrow> (0 :: int) \<le> page \<and> page \<le> 56 \<and> errors = (0 :: int) \<and> pending w = [] \<and>
      client_ready be adu accepts pending log (flash_board refuses answer) ctx"
    using assms(3,4) by simp
next
  fix s
  assume "case s of (page, errors, ctx, w) \<Rightarrow> (0 :: int) \<le> page \<and> page \<le> 56 \<and> errors = (0 :: int) \<and> pending w = [] \<and>
      client_ready be adu accepts pending log (flash_board refuses answer) ctx"
  then obtain page ctx w where s: "s = (page, 0, ctx, w)" "0 \<le> page" "page \<le> 56" "pending w = []"
    "client_ready be adu accepts pending log (flash_board refuses answer) ctx"
    by (cases s) auto
  have b: "page < 65536" "1024 * nat page + 1024 \<le> length prog" using s(2,3) assms(5) by linarith+
  have "page_data prog rw_data 57 page = (Some prog, 1024 * int (nat page))"
    using s(2,3) by (simp add: page_data_def PAGE_SIZE_def)
  moreover obtain ctx' w' where "program_page ln (Some prog, 1024 * int (nat page)) page (0, ctx, w) =
      Some (True, 0 + int (refused refuses), ctx', w')" "pending w' = []"
    "client_ready be adu accepts pending log (flash_board refuses answer) ctx'"
    using program_page_flash [OF assms(1,2) s(5,4,2) b] by blast
  moreover have "\<not> 57 \<le> page" using s(3) by simp
  ultimately show "\<exists>s'. flashit_step ln prog rw_data 57 57 s = Some (Inl s') \<and>
      (case s' of (page, errors, ctx, w) \<Rightarrow> 0 \<le> page \<and> page \<le> 56 \<and> errors = 0 \<and> pending w = [] \<and>
        client_ready be adu accepts pending log (flash_board refuses answer) ctx)"
    using s(2,3) assms(6) unfolding s(1) flashit_step_def
    by (simp add: Let_def RW_START_PAGE_def)
qed

end


section \<open>Loading files\<close>

text \<open>
  \<open>load_fw\<close> reads up to 65536 bytes whatever the size of the block, so a longer file overruns a
  shorter block, like that of 1024 bytes for the constants.
\<close>

lemma load_fw_eq:
  "load_fw (Some bytes) prog_data (length prog_data) =
     (if min (length bytes) MAX_FW_SIZE \<le> length prog_data
      then Some (int (min (length bytes) MAX_FW_SIZE),
        take MAX_FW_SIZE bytes @ replicate (length prog_data - min (length bytes) MAX_FW_SIZE) 0xff)
      else None)"
  by (simp add: load_fw_def wr_block_def overlay_def Let_def min.commute)

lemma fw_page_count_nat: "fw_page_count (int n) = int ((n + 1023) div 1024)"
  by (simp add: fw_page_count_def PAGE_SIZE_def signed_divide_int_def sgn_if zdiv_int)

lemma load_version_file:
  assumes "firmware_name heap (uint (hw_version brd)) (uint (base_hw_version brd)) (fo_firmwaredir o1) ext = Some (Some path)"
    and "files path = Some file" and "length file \<le> len" "len \<le> MAX_FW_SIZE" and "length block = len"
  shows "load_version heap files o1 brd ext block len = Some (int (length file), file @ replicate (len - length file) 0xff)"
  using assms(1-4) load_fw_eq [of "file" block] unfolding load_version_def assms(5) by (simp add: min_absorb1)

text \<open>
  The file with the constants, when it is wanted; it has at most one page, and it may be
  missing.
\<close>

definition rw_file :: "(nat \<Rightarrow> bool) \<Rightarrow> (string \<Rightarrow> u8 list option) \<Rightarrow> fw_options \<Rightarrow> Tboard_version \<Rightarrow> u8 list" where
  "rw_file heap files o1 brd =
     (if fo_resetrw o1 \<or> fo_calibrate o1 then
        (case firmware_name heap (uint (hw_version brd)) (uint (base_hw_version brd)) (fo_firmwaredir o1) ''.rw'' of
           Some (Some path) \<Rightarrow> (case files path of None \<Rightarrow> [] | Some file \<Rightarrow> file)
         | _ \<Rightarrow> [])
      else [])"

lemma load_rw_file:
  assumes "\<exists>path. firmware_name heap (uint (hw_version brd)) (uint (base_hw_version brd)) (fo_firmwaredir o1) ''.rw'' = Some (Some path)"
    and "length (rw_file heap files o1 brd) \<le> 1024" and "length rw_data = 1024"
  shows "\<exists>m. load_rw heap files o1 brd rw_data = Some (56 + int (length (fw_pages (rw_file heap files o1 brd))), m) \<and>
    (0 < length (fw_pages (rw_file heap files o1 brd)) \<longrightarrow>
       m = Some (rw_file heap files o1 brd @ replicate (1024 - length (rw_file heap files o1 brd)) 0xff))"
proof (cases "fo_resetrw o1 \<or> fo_calibrate o1")
  case False
  then show ?thesis by (simp add: load_rw_def rw_file_def RW_START_PAGE_def fw_pages.simps)
next
  case True
  obtain path where n: "firmware_name heap (uint (hw_version brd)) (uint (base_hw_version brd)) (fo_firmwaredir o1) ''.rw'' = Some (Some path)"
    using assms(1) by blast
  show ?thesis
  proof (cases "files path")
    case None
    then show ?thesis using True n
      by (simp add: load_rw_def rw_file_def load_version_def load_fw_def RW_START_PAGE_def fw_pages.simps
          fw_page_count_def PAGE_SIZE_def signed_divide_int_def)
  next
    case (Some bytes)
    then have f: "rw_file heap files o1 brd = bytes" using True n by (simp add: rw_file_def)
    have "load_version heap files o1 brd ''.rw'' rw_data MAX_RW_SIZE = Some (int (length bytes), bytes @ replicate (1024 - length bytes) 0xff)"
      using load_version_file [where heap = heap and files = files, OF n Some, of 1024 rw_data] assms(2,3) f
      by (simp add: MAX_RW_SIZE_def MAX_FW_SIZE_def)
    then show ?thesis using True unfolding f by (simp add: load_rw_def RW_START_PAGE_def fw_page_count_nat length_fw_pages)
  qed
qed

section \<open>The whole change\<close>

context modbus_framing
begin

lemma write_bit_flash:
  assumes "ln_be ln = be" and "line_ok ln" and "client_ready be adu accepts pending log (flash_board refuses answer) ctx"
    and "pending w = []"
  shows "\<exists>ctx' w'. fw_write_bit ln 1006 1 ctx w = Some (1, ctx', w') \<and> pending w' = [] \<and>
    log w' = log w @ [(1006, [0xFF00])] \<and> client_ready be adu accepts pending log (flash_board refuses answer) ctx'"
proof -
  let ?p = "register_request 0x05 1006 0xFF00"
  have "pdu_address ?p = 1006" "take 5 ?p = ?p" "?p ! 0 = 0x05" "join16 (?p ! 3) (?p ! 4) = 0xFF00"
    by (simp_all add: pdu_address_def register_request_def join16_def be16_def)
  then have s: "flash_board refuses answer (log w) ?p = (?p, log w @ [(1006, [0xFF00])])"
    by (simp add: flash_board_def)
  have f: "(0x05 :: int) = 0x05 \<or> (0x05 :: int) = 0x06" by simp
  have "length (ln_rsp ln) = 260" using assms(2) by (simp add: line_ok_def)
  from client_writes_single(1) [where net = "ln_net ln", OF assms(3) f small_room [OF assms(2)] this assms(4) s]
  show ?thesis using assms(1) by (auto simp: fw_write_bit_def modbus_write_bit_def)
qed

text \<open>The way to the point where the board is in program mode and the files are loaded.\<close>

lemma change_firmware_enters:
  fixes files :: "string \<Rightarrow> u8 list option"
  assumes "ln_be ln = be" and "line_ok ln" and "client_ready be adu accepts pending log (flash_board refuses answer) ctx"
    and "pending w = []" and "choose_version o1 brd = Some (Inr ver)"
    and "\<exists>path. firmware_name heap (uint (hw_version ver)) (uint (base_hw_version ver)) (fo_firmwaredir o1) ''.rw'' = Some (Some path)"
    and "firmware_name heap (uint (hw_version ver)) (uint (base_hw_version ver)) (fo_firmwaredir o1) ''.bin'' = Some (Some path)"
    and "files path = Some file" and "0 < length file" "length file \<le> 65536" and "length (rw_file heap files o1 ver) \<le> 1024"
    and "length prog_data = 65536" "length rw_data = 1024"
  defines "blk \<equiv> file @ replicate (65536 - length file) 0xff" and "lp \<equiv> length (fw_pages file)"
    and "m \<equiv> rw_file heap files o1 ver @ replicate (1024 - length (rw_file heap files o1 ver)) 0xff"
    and "r \<equiv> length (fw_pages (rw_file heap files o1 ver))"
  shows "1 \<le> lp" "lp \<le> 56 \<longleftrightarrow> length file \<le> 57344" "1024 * lp \<le> length blk" "1024 * r \<le> length m" "r \<le> 1"
    and "\<And>i. i < lp \<Longrightarrow> page_bytes blk i = fw_pages file ! i"
    and "\<And>i. i < r \<Longrightarrow> page_bytes m i = fw_pages (rw_file heap files o1 ver) ! i"
    and "\<exists>mm ctx1 w1. (0 < r \<longrightarrow> mm = Some m) \<and> pending w1 = [] \<and> log w1 = log w @ [(1006, [0xFF00])] \<and>
      client_ready be adu accepts pending log (flash_board refuses answer) ctx1 \<and>
      change_firmware ln heap files o1 prog_data rw_data brd ctx w =
        do { (ctx, w) \<leftarrow> (if fo_prog o1 \<or> fo_calibrate o1 then flashit ln blk mm (int lp) (56 + int r) ctx1 w1
                         else Some (ctx1, w1));
             (report, ctx, w) \<leftarrow> (if fo_verify o1 then verify ln blk mm (int lp) (56 + int r) ctx w
                                 else Some ([], ctx, w));
             (_, ctx, w) \<leftarrow> fw_write_register ln 0x7707 3 ctx w;
             Some (0, report, ctx, w) }"
proof -
  show "1 \<le> lp" "lp \<le> 56 \<longleftrightarrow> length file \<le> 57344" using assms(9) unfolding lp_def length_fw_pages by linarith+
  have lp: "lp \<le> 64" using assms(10) unfolding lp_def length_fw_pages by linarith
  show r: "r \<le> 1" using assms(11) by (simp add: r_def length_fw_pages)
  show "1024 * lp \<le> length blk" "1024 * r \<le> length m" using lp r assms(10,11) by (simp_all add: blk_def m_def)
  show "page_bytes blk i = fw_pages file ! i" if "i < lp" for i
    using page_of_file [OF that [unfolded lp_def], of 65536] that lp by (simp add: blk_def)
  show "page_bytes m i = fw_pages (rw_file heap files o1 ver) ! i" if "i < r" for i
    using page_of_file [OF that [unfolded r_def], of 1024] that r by (simp add: m_def)
  have bin: "load_version heap files o1 ver ''.bin'' prog_data MAX_FW_SIZE = Some (int (length file), blk)"
    using load_version_file [where heap = heap and files = files, OF assms(7,8), of 65536 prog_data] assms(10,12)
    by (simp add: MAX_FW_SIZE_def blk_def)
  obtain mm where rw: "load_rw heap files o1 ver rw_data = Some (56 + int r, mm)" "0 < r \<longrightarrow> mm = Some m"
    using load_rw_file [OF assms(6,11,13)] by (auto simp: r_def m_def)
  obtain ctx1 w1 where 1: "fw_write_bit ln 1006 1 ctx w = Some (1, ctx1, w1)" "pending w1 = []"
    "log w1 = log w @ [(1006, [0xFF00])]" "client_ready be adu accepts pending log (flash_board refuses answer) ctx1"
    using write_bit_flash [OF assms(1-4)] by blast
  have "0 < int (length file)" and "fw_page_count (int (length file)) = int lp"
    using assms(9) by (simp_all add: lp_def fw_page_count_nat length_fw_pages)
  then show "\<exists>mm ctx1 w1. (0 < r \<longrightarrow> mm = Some m) \<and> pending w1 = [] \<and> log w1 = log w @ [(1006, [0xFF00])] \<and>
      client_ready be adu accepts pending log (flash_board refuses answer) ctx1 \<and>
      change_firmware ln heap files o1 prog_data rw_data brd ctx w =
        do { (ctx, w) \<leftarrow> (if fo_prog o1 \<or> fo_calibrate o1 then flashit ln blk mm (int lp) (56 + int r) ctx1 w1
                         else Some (ctx1, w1));
             (report, ctx, w) \<leftarrow> (if fo_verify o1 then verify ln blk mm (int lp) (56 + int r) ctx w
                                 else Some ([], ctx, w));
             (_, ctx, w) \<leftarrow> fw_write_register ln 0x7707 3 ctx w;
             Some (0, report, ctx, w) }"
    using assms(5) bin rw 1
    by (intro exI [of _ mm] exI [of _ ctx1] exI [of _ w1]) (simp add: change_firmware_def Let_def)
qed

lemma change_firmware_flash:
  fixes files :: "string \<Rightarrow> u8 list option"
  assumes "ln_be ln = be" and "line_ok ln" and "client_ready be adu accepts pending log (flash_board refuses answer) ctx"
    and "pending w = []" and "choose_version o1 brd = Some (Inr ver)"
    and "\<exists>path. firmware_name heap (uint (hw_version ver)) (uint (base_hw_version ver)) (fo_firmwaredir o1) ''.rw'' = Some (Some path)"
    and "firmware_name heap (uint (hw_version ver)) (uint (base_hw_version ver)) (fo_firmwaredir o1) ''.bin'' = Some (Some path)"
    and "files path = Some file" and "0 < length file" "length file \<le> 65536" and "length (rw_file heap files o1 ver) \<le> 1024"
    and "length prog_data = 65536" "length rw_data = 1024" and "fo_prog o1" "\<not> fo_verify o1"
    and "length (fw_pages file) = 57 \<Longrightarrow> rw_file heap files o1 ver = []"
    and "(length (fw_pages file) + length (fw_pages (rw_file heap files o1 ver))) * refused refuses \<le> 200"
  shows "\<exists>ctx' w'. change_firmware ln heap files o1 prog_data rw_data brd ctx w = Some (0, [], ctx', w') \<and>
    log w' = log w @ [(1006, [0xFF00])] @ program_writes refuses file (rw_file heap files o1 ver) @ [(0x7707, [3])]"
proof -
  let ?rw = "rw_file heap files o1 ver" and ?image = "file @ replicate (65536 - length file) 0xff"
  let ?m = "?rw @ replicate (1024 - length ?rw) 0xff" and ?lp = "length (fw_pages file)" and ?r = "length (fw_pages ?rw)"
  note enters = change_firmware_enters [OF assms(1-13)]
  obtain mm ctx1 w1 where 1: "0 < ?r \<Longrightarrow> mm = Some ?m" "pending w1 = []" "log w1 = log w @ [(1006, [0xFF00])]"
    "client_ready be adu accepts pending log (flash_board refuses answer) ctx1"
    "change_firmware ln heap files o1 prog_data rw_data brd ctx w =
        do { (ctx, w) \<leftarrow> flashit ln ?image mm (int ?lp) (56 + int ?r) ctx1 w1;
             (_, ctx, w) \<leftarrow> fw_write_register ln 0x7707 3 ctx w;
             Some (0, [], ctx, w) }"
    using enters(8) assms(14,15) by auto
  obtain ctx2 w2 where 2: "flashit ln ?image mm (int ?lp) (56 + int ?r) ctx1 w1 = Some (ctx2, w2)" "pending w2 = []"
    "client_ready be adu accepts pending log (flash_board refuses answer) ctx2"
    "log w2 = log w1 @ program_writes refuses file ?rw"
  proof (cases "length file \<le> 57344")
    case True
    then have lp: "?lp \<le> 56" and r: "?r < 1024" using enters(2,5) by simp_all
    have "concat (map (\<lambda>i. page_writes refuses (int i) (page_bytes ?image i)) [0..<?lp]) @
        concat (map (\<lambda>i. page_writes refuses (int (56 + i)) (page_bytes ?m i)) [0..<?r]) = program_writes refuses file ?rw"
      using True unfolding program_writes_def file_writes_def if_P [OF True]
      by (intro arg_cong2 [where f = append] arg_cong [where f = concat] map_cong refl) (simp_all add: enters(6,7))
    with flashit_flash [OF assms(1,2) client_ready_again(3) [OF 1(4)] 1(2) enters(1) lp enters(3) 1(1) enters(4) r assms(17)]
    show thesis using that by (simp only:) blast
  next
    case False
    then have lp: "57 \<le> ?lp" using enters(2) by simp
    have n: "56 + ?r \<le> ?lp" using lp enters(5) by simp
    have "1024 * (56 + ?r) \<le> 1024 * ?lp" using n by (rule mult_le_mono2)
    then have room: "1024 * (56 + ?r) \<le> length ?image" using enters(3) by (rule order_trans)
    have ne: "?r = 0 \<or> ?lp \<noteq> 57" using assms(16) by (auto simp: length_fw_pages)
    have "(56 + ?r) * refused refuses \<le> (?lp + ?r) * refused refuses" using lp by (intro mult_le_mono1) simp
    then have k: "(56 + ?r) * refused refuses \<le> 200" using assms(17) by (rule order_trans)
    have "page_bytes ?image i = fw_pages (take (1024 * (56 + ?r)) file) ! i" if "i < 56 + ?r" for i
    proof -
      have "i < ?lp" using that n by (rule less_le_trans)
      from enters(6) [OF this] fw_pages_take(2) [OF n that] show ?thesis by (simp only:)
    qed
    then have "concat (map (\<lambda>i. page_writes refuses (int i) (page_bytes ?image i)) [0..<56 + ?r]) = program_writes refuses file ?rw"
      unfolding program_writes_def file_writes_def if_not_P [OF False] fw_pages_take(1) [OF n]
      by (intro arg_cong [where f = concat] map_cong refl) (simp only: set_upt atLeastLessThan_iff add_0)
    with flashit_long [OF assms(1,2) client_ready_again(3) [OF 1(4)] 1(2) lp room enters(5) ne k, of mm]
    show thesis using that by (simp only:) blast
  qed
  obtain ctx3 w3 where "fw_write_register ln 0x7707 3 ctx2 w2 = Some (1, ctx3, w3)"
    "log w3 = log w2 @ [(0x7707, [3])]"
    using write_register_flash [where addr = "0x7707" and v = 3, OF assms(1,2) 2(3,2)] by auto
  then show ?thesis using 1(3) 2(1,4) unfolding 1(5) by simp
qed

end


section \<open>Properties\<close>

text \<open>
  C18. With \<open>-P\<close>, for a firmware file of at most 65536 bytes (what the buffer holds) and constants
  of at most 1024, \<open>fwserial\<close> puts the board into program mode, writes the pages of the file once
  and in order, then restarts the board and succeeds. A file of at most 56 pages is written in
  full and followed by the page of constants, if they are wanted and there are any; of a longer
  one only the first 56 pages are written, or 57 and no constants when constants are wanted. It
  does so as well when the board has refused blocks of a page, as long as there are at most 200 of
  them: these are missing, the page is written to flash all the same, and the status is 0.
  Exactly 57 pages with constants are excluded: they never end.
\<close>

theorem fwserial_programs:
  fixes files :: "string \<Rightarrow> u8 list option"
  assumes "ln_be ln = rtu_backend net tty" and "line_ok ln"
    and "client_ready (rtu_backend net tty) rtu_message rtu_accepts pending log (flash_board refuses answer) ctx"
    and "pending w = []" and "choose_version o1 brd = Some (Inr ver)"
    and "\<exists>path. firmware_name heap (uint (hw_version ver)) (uint (base_hw_version ver)) (fo_firmwaredir o1) ''.rw'' = Some (Some path)"
    and "firmware_name heap (uint (hw_version ver)) (uint (base_hw_version ver)) (fo_firmwaredir o1) ''.bin'' = Some (Some path)"
    and "files path = Some file" and "0 < length file" "length file \<le> 65536" and "length (rw_file heap files o1 ver) \<le> 1024"
    and "length prog_data = 65536" "length rw_data = 1024" and "fo_prog o1" "\<not> fo_verify o1"
    and "length (fw_pages file) = 57 \<Longrightarrow> rw_file heap files o1 ver = []"
    and "(length (fw_pages file) + length (fw_pages (rw_file heap files o1 ver))) * refused refuses \<le> 200"
  shows "\<exists>ctx' w'. change_firmware ln heap files o1 prog_data rw_data brd ctx w = Some (0, [], ctx', w') \<and>
    log w' = log w @ [(1006, [0xFF00])] @ program_writes refuses file (rw_file heap files o1 ver) @ [(0x7707, [3])]"
  by (rule rtu_line.change_firmware_flash [OF assms])

text \<open>The board that refuses one of the eight blocks, on a serial line.\<close>

definition length_answer :: "flash_log \<Rightarrow> u16" where "length_answer l = word_of_nat (length l)"

definition second_block :: "int \<Rightarrow> bool" where "second_block a \<longleftrightarrow> a = 0x7701"

definition fresh_block :: "nat \<Rightarrow> mem" where "fresh_block n = replicate n 0"

lemma length_fresh_block [simp]: "length (fresh_block n) = n"
  by (simp add: fresh_block_def)

definition flash_tty :: "(int \<Rightarrow> bool) \<Rightarrow> (flash_log \<Rightarrow> u16) \<Rightarrow> (flash_log \<times> u8 list) tty" where
  "flash_tty refuses answer = \<lparr>tty_open = (\<lambda>d w. (3, 0, w)), tty_close = (\<lambda>f w. w),
     tty_write = (\<lambda>f bs (l, q). let a = flash_board refuses answer l (take (length bs - 3) (drop 1 bs)) in
       (int (length bs), 0, (snd a, q @ rtu_adu (bs ! 0 # fst a)))),
     tty_read = (\<lambda>f n (l, q). (int (length (take n q)), take n q, 0, (l, drop n q))),
     tty_tcflush = (\<lambda>f w. (0, 0, w)), tty_tcgetattr = (\<lambda>f w. (\<lparr>c_iflag = 0, c_oflag = 0, c_cflag = 0, c_lflag = 0,
       c_ispeed = 0, c_ospeed = 0, c_vmin = 0, c_vtime = 0\<rparr>, w)), tty_tcsetattr = (\<lambda>f t w. (0, 0, w)),
     tty_tiocmget = (\<lambda>f w. (0, w)), tty_tiocmset = (\<lambda>f v w. w), tty_tiocsrs485 = (\<lambda>f b w. (0, 0, w)),
     tty_usleep = (\<lambda>t w. w)\<rparr>"

definition flash_net :: "(unit, flash_log \<times> u8 list) net" where
  "flash_net = \<lparr>net_nanosleep = (\<lambda>t w. (0, (0, 0), 0, w)), net_select = (\<lambda>fd tv w. (1, (0, 0), 0, w)),
     net_select_write = (\<lambda>fd tv w. (1, 0, w)), net_recv = (\<lambda>fd n b w. (0, [], 0, w)),
     net_send = (\<lambda>fd bs w. (int (length bs), 0, w)), net_socket = (\<lambda>a b c w. (3, 0, w)),
     net_setsockopt = (\<lambda>a b c d w. (0, 0, w)), net_so_error = (\<lambda>fd w. (0, 0, 0, w)),
     net_connect = (\<lambda>fd a w. (0, 0, w)), net_bind = (\<lambda>fd a w. (0, 0, w)), net_listen = (\<lambda>fd n w. (0, 0, w)),
     net_accept = (\<lambda>fd w. (4, 0, w)), net_shutdown = (\<lambda>fd w. w), net_close = (\<lambda>fd w. w)\<rparr>"

definition flash_ctx :: "(flash_log \<times> u8 list) modbus_rtu modbus" where
  "flash_ctx = \<lparr>mb_slave = 15, mb_s = 3, mb_debug = 0, error_recovery = 0, response_timeout = (0, 500000),
     byte_timeout = (0, 500000), backend_data = \<lparr>device = [0], baud = 19200, data_bit = 8, stop_bit = 1,
       parity = CHR ''N'', old_tios = \<lparr>c_iflag = 0, c_oflag = 0, c_cflag = 0, c_lflag = 0, c_ispeed = 0, c_ospeed = 0,
       c_vmin = 0, c_vtime = 0\<rparr>, serial_mode = 0, rts = 0, rts_delay = 0, onebyte_time = 0, set_rts = (\<lambda>_ _ w. w),
       confirmation_to_ignore = False\<rparr>, errno = 0\<rparr>"

lemma flash_net_ready:
  "client_ready (rtu_backend flash_net (flash_tty refuses answer)) rtu_message rtu_accepts snd fst (flash_board refuses answer) flash_ctx"
proof -
  have "delivers_only (rtu_backend flash_net (flash_tty refuses answer)) snd fst c" for c
    unfolding delivers_only_def
    by (auto simp: rtu_backend_def rtu_select.simps rtu_recv_def flash_net_def flash_tty_def Let_def)
  moreover have "serves (rtu_backend flash_net (flash_tty refuses answer)) rtu_message snd fst (flash_board refuses answer) s c"
    if "rts (backend_data c) = 0" for s c
    using that unfolding serves_def
    by (auto simp: rtu_backend_def rtu_send_def flash_tty_def RTU_RTS_NONE_def Let_def rtu_message_def rtu_adu_def)
  ultimately show ?thesis
    unfolding client_ready_def
    by (intro conjI exI [of _ "{backend_data flash_ctx}"])
      (auto simp: flash_ctx_def rtu_accepts_def rtu_backend_def rtu_build_request_basis_def elim!: bind_SomeE split: if_splits)
qed

definition flash_line :: "(unit, (flash_log \<times> u8 list) modbus_rtu, flash_log \<times> u8 list) fw_line" where
  "flash_line = \<lparr>ln_net = flash_net, ln_be = rtu_backend flash_net (flash_tty second_block length_answer), ln_small = fresh_block 12,
     ln_req = fresh_block 260, ln_rsp = fresh_block 260\<rparr>"

definition analog_board :: Tboard_version where
  "analog_board = \<lparr>sw_version = 0x0500, hw_version = 0x0b10, base_hw_version = 0x0b10, di_count = 0, do_count = 0,
     ai_count = 0, ao_count = 0, uart_count = 0, uled_count = 0, int_mask_register = 1007\<rparr>"

lemma analog_version:
  "uint (hw_version analog_board) = 0x0b10" "uint (base_hw_version analog_board) = 0x0b10" "fo_firmwaredir fw_defaults = ''/opt/fw''"
  "fo_firmwaredir (fw_defaults\<lparr>fo_prog := b\<rparr>) = ''/opt/fw''"
  "fo_firmwaredir (fw_defaults\<lparr>fo_verify := b\<rparr>) = ''/opt/fw''"
  "fo_firmwaredir (fw_defaults\<lparr>fo_prog := b, fo_resetrw := b'\<rparr>) = ''/opt/fw''"
  by (simp_all add: analog_board_def fw_defaults_def)

lemma analog_choice: "\<not> fo_calibrate o1 \<Longrightarrow> \<not> fo_final o1 \<Longrightarrow> choose_version o1 analog_board = Some (Inr analog_board)"
  by (simp add: choose_version_def)

lemma analog_names:
  "firmware_name (\<lambda>_. True) 0x0b10 0x0b10 ''/opt/fw'' ''.rw'' = Some (Some ''/opt/fw/E-4Ai4Ao-1.rw'')"
  "firmware_name (\<lambda>_. True) 0x0b10 0x0b10 ''/opt/fw'' ''.bin'' = Some (Some ''/opt/fw/E-4Ai4Ao-1.bin'')"
  by code_simp+

lemma analog_rw_name: "\<exists>path. firmware_name (\<lambda>_. True) 0x0b10 0x0b10 ''/opt/fw'' ''.rw'' = Some (Some path)"
  using analog_names(1) by blast

lemma flash_line_parts:
  "ln_be flash_line = rtu_backend flash_net (flash_tty second_block length_answer)" "line_ok flash_line"
  by (simp_all add: flash_line_def line_ok_def)

lemma second_block_refused: "refused second_block = 1"
  unfolding refused_def second_block_def by code_simp

lemma no_rw_file: "\<not> fo_resetrw o1 \<Longrightarrow> \<not> fo_calibrate o1 \<Longrightarrow> rw_file heap files o1 ver = []"
  by (simp add: rw_file_def)

lemma three_bytes_pages: "length (fw_pages [1, 2, 3]) = 1" "fw_pages [] = []" "file_writes refuses start [] = []"
  by (simp_all add: length_fw_pages file_writes_def fw_pages.simps [of "[]"])

lemma program_writes_three: "program_writes refuses [1, 2, 3] [] = file_writes refuses 0 [1, 2, 3]"
  by (simp add: program_writes_def three_bytes_pages(3))

theorem fwserial_programs_witness:
  "\<exists>ctx' w'. change_firmware flash_line (\<lambda>_. True) (\<lambda>_. Some [1, 2, 3]) (fw_defaults\<lparr>fo_prog := True\<rparr>) (fresh_block 65536)
      (fresh_block 1024) analog_board flash_ctx ([], []) = Some (0, [], ctx', w') \<and>
    fst w' = [(1006, [0xFF00])] @ file_writes second_block 0 [1, 2, 3] @ [(0x7707, [3])]"
proof -
  let ?o = "fw_defaults\<lparr>fo_prog := True\<rparr>"
  have o: "\<not> fo_calibrate ?o" "\<not> fo_final ?o" "\<not> fo_resetrw ?o" by (simp_all add: fw_defaults_def)
  show ?thesis
    using fwserial_programs [OF flash_line_parts flash_net_ready _ analog_choice [OF o(1,2)], where files = "\<lambda>_. Some [1, 2, 3]" and
        w = "([], [])" and prog_data = "fresh_block 65536" and rw_data = "fresh_block 1024",
        unfolded analog_version no_rw_file [OF o(3,1)] second_block_refused three_bytes_pages, OF _ analog_rw_name analog_names(2)]
    by (simp add: fw_defaults_def three_bytes_pages(1) program_writes_three)
qed

text \<open>
  C31. A firmware file of exactly 57 pages with a page of constants keeps \<open>flashit\<close> busy for ever,
  however well the board behaves: \<open>last_prog_page\<close> and \<open>last_page\<close> are both 57, and behind the
  page 56 the loop goes on at the page 56, without counting an error.
\<close>

theorem fwserial_livelock:
  assumes "ln_be ln = rtu_backend net tty" and "line_ok ln"
    and "client_ready (rtu_backend net tty) rtu_message rtu_accepts pending log (flash_board (\<lambda>_. False) answer) ctx"
    and "pending w = []" and "length prog_data = 65536" and "length (fw_pages file) = 57" and "length (fw_pages constants) = 1"
  shows "endless (flashit_step ln prog_data (Some rw_data) (int (length (fw_pages file)))
      (RW_START_PAGE + int (length (fw_pages constants))))
    (0, 0, snd (modbus_set_response_timeout 1 0 ctx), w)"
proof -
  have "refused (\<lambda>_. False) = 0" by (simp add: refused_def)
  then show ?thesis
    using rtu_line.flashit_endless [OF assms(1,2) client_ready_again(3) [OF assms(3)] assms(4), of prog_data "Some rw_data"] assms(5)
    by (simp add: assms(6,7) RW_START_PAGE_def)
qed

definition obedient_line :: "(unit, (flash_log \<times> u8 list) modbus_rtu, flash_log \<times> u8 list) fw_line" where
  "obedient_line = flash_line\<lparr>ln_be := rtu_backend flash_net (flash_tty (\<lambda>_. False) length_answer)\<rparr>"

lemma obedient_line_parts:
  "ln_be obedient_line = rtu_backend flash_net (flash_tty (\<lambda>_. False) length_answer)" "line_ok obedient_line"
  using flash_line_parts(2) by (simp_all add: obedient_line_def line_ok_def)

theorem fwserial_livelock_witness:
  "endless (flashit_step obedient_line (fresh_block 65536) (Some (fresh_block 1024))
       (int (length (fw_pages (fresh_block 58000)))) (RW_START_PAGE + int (length (fw_pages (fresh_block 10)))))
     (0, 0, snd (modbus_set_response_timeout 1 0 flash_ctx), ([], []))"
proof -
  have "length (fw_pages (fresh_block 58000)) = 57" "length (fw_pages (fresh_block 10)) = 1"
    by (simp_all add: length_fw_pages)
  with fwserial_livelock [OF obedient_line_parts flash_net_ready, where w = "([], [])" and prog_data = "fresh_block 65536"]
  show ?thesis by simp
qed

text \<open>
  C20. \<open>fwserial\<close> leaves a board alone unless it knows what to write: if anything has been sent,
  there is a version for the board, a firmware file of that version that can be read and is not
  empty; and with \<open>-F\<close>, the board had the calibrating version and its base board goes with the
  upper board.
\<close>

theorem fwserial_leaves_board:
  assumes "change_firmware ln heap files o1 prog_data rw_data brd ctx w = Some (rc, report, ctx', w')" and "w' \<noteq> w"
  shows "\<exists>ver path file. choose_version o1 brd = Some (Inr ver) \<and>
    firmware_name heap (uint (hw_version ver)) (uint (base_hw_version ver)) (fo_firmwaredir o1) ''.bin'' = Some (Some path) \<and>
    files path = Some file \<and> file \<noteq> [] \<and>
    (fo_final o1 \<and> \<not> fo_calibrate o1 \<longrightarrow> IS_CALIB (uint (hw_version brd)) \<and> hw_version ver \<noteq> 0 \<and>
       (\<exists>hw. check_compatibility (uint (base_hw_version brd)) (fo_upboard o1) = Some hw \<and> hw_version ver = word_of_int hw))"
proof -
  obtain chosen where c: "choose_version o1 brd = Some chosen" using assms(1) by (auto simp: change_firmware_def elim: bind_SomeE)
  then obtain ver where v: "choose_version o1 brd = Some (Inr ver)"
    using assms by (cases chosen) (auto simp: change_firmware_def)
  obtain red m where l: "load_version heap files o1 ver ''.bin'' prog_data MAX_FW_SIZE = Some (red, m)"
    using assms(1) v by (auto simp: change_firmware_def elim!: bind_SomeE)
  then have r: "0 < red" using assms v by (auto simp: change_firmware_def split: if_splits)
  obtain path where p: "firmware_name heap (uint (hw_version ver)) (uint (base_hw_version ver)) (fo_firmwaredir o1) ''.bin'' = Some (Some path)"
    "load_fw (files path) prog_data MAX_FW_SIZE = Some (red, m)"
    using l by (auto simp: load_version_def elim!: bind_SomeE)
  obtain bytes where f: "files path = Some bytes" using p(2) r by (cases "files path") (auto simp: load_fw_def)
  then have "bytes \<noteq> []" using p(2) r by (auto simp: load_fw_def Let_def elim!: bind_SomeE)
  moreover have "fo_final o1 \<and> \<not> fo_calibrate o1 \<longrightarrow> IS_CALIB (uint (hw_version brd)) \<and> hw_version ver \<noteq> 0 \<and>
       (\<exists>hw. check_compatibility (uint (base_hw_version brd)) (fo_upboard o1) = Some hw \<and> hw_version ver = word_of_int hw)"
    using v by (auto simp: choose_version_def Let_def elim!: bind_SomeE split: if_splits)
  ultimately show ?thesis using v p(1) f by blast
qed

theorem fwserial_leaves_board_witness:
  "\<exists>ctx' w' path. change_firmware flash_line (\<lambda>_. True) (\<lambda>_. Some [1, 2, 3]) (fw_defaults\<lparr>fo_prog := True\<rparr>) (fresh_block 65536)
      (fresh_block 1024) analog_board flash_ctx ([], []) = Some (0, [], ctx', w') \<and> w' \<noteq> ([], []) \<and>
    firmware_name (\<lambda>_. True) 0x0b10 0x0b10 ''/opt/fw'' ''.bin'' = Some (Some path)"
proof -
  let ?o = "fw_defaults\<lparr>fo_prog := True\<rparr>"
  have o: "\<not> fo_calibrate ?o" "\<not> fo_final ?o" "\<not> fo_resetrw ?o" by (simp_all add: fw_defaults_def)
  obtain ctx' w' where "change_firmware flash_line (\<lambda>_. True) (\<lambda>_. Some [1, 2, 3]) ?o (fresh_block 65536)
      (fresh_block 1024) analog_board flash_ctx ([], []) = Some (0, [], ctx', w')"
    and "fst w' = [(1006, [0xFF00])] @ file_writes second_block 0 [1, 2, 3] @ [(0x7707, [3])]"
    using rtu_line.change_firmware_flash [OF flash_line_parts flash_net_ready _ analog_choice [OF o(1,2)], where files = "\<lambda>_. Some [1, 2, 3]" and
        w = "([], [])" and prog_data = "fresh_block 65536" and rw_data = "fresh_block 1024",
        unfolded analog_version no_rw_file [OF o(3,1)] second_block_refused three_bytes_pages, OF _ analog_rw_name analog_names(2)]
    by (auto simp: fw_defaults_def three_bytes_pages(1) program_writes_three)
  moreover from this(2) have "w' \<noteq> ([], [])" by auto
  ultimately show ?thesis
    using fwserial_leaves_board [of flash_line "\<lambda>_. True" "\<lambda>_. Some [1, 2, 3]" ?o "fresh_block 65536" "fresh_block 1024" analog_board flash_ctx "([], [])"] analog_choice [OF o(1,2)] by (auto simp: analog_version)
qed

end
