(* ===== verification/Fw_Serial_Verify.thy ===== *)
theory Fw_Serial_Verify
  imports Fw_Serial_Correct
begin

text \<open>The comparison of the flash memory with the files in \<open>fwserial\<close>.\<close>

section \<open>What is compared and reported\<close>

text \<open>The pages of a file with their numbers.\<close>

definition numbered_pages :: "nat \<Rightarrow> u8 list \<Rightarrow> (int \<times> u8 list) list" where
  "numbered_pages start file = map (\<lambda>i. (int (start + i), fw_pages file ! i)) [0..<length (fw_pages file)]"

text \<open>The pages of a program and its constants that the loop comes to, as for programming them.\<close>

definition program_pages :: "u8 list \<Rightarrow> u8 list \<Rightarrow> (int \<times> u8 list) list" where
  "program_pages file rw =
     (if length file \<le> 57344 then numbered_pages 0 file @ numbered_pages 56 rw
      else numbered_pages 0 (take (1024 * (56 + length (fw_pages rw))) file))"

text \<open>
  The board is given page after page, and what it answers then is reported for the page; the
  second part is its log.
\<close>

fun checked :: "(int \<Rightarrow> bool) \<Rightarrow> (flash_log \<Rightarrow> u16) \<Rightarrow> flash_log \<Rightarrow> (int \<times> u8 list) list \<Rightarrow> (int \<times> u16) list \<times> flash_log" where
  "checked refuses answer l [] = ([], l)"
| "checked refuses answer l ((page, bytes) # ps) =
     (let l1 = l @ page_blocks refuses page bytes; (r, l2) = checked refuses answer l1 ps
      in ((page, answer l1) # r, l2))"

lemma checked_append:
  "checked refuses answer l (ps @ qs) =
     (fst (checked refuses answer l ps) @ fst (checked refuses answer (snd (checked refuses answer l ps)) qs),
      snd (checked refuses answer (snd (checked refuses answer l ps)) qs))"
  by (induction ps arbitrary: l) (auto simp: Let_def split: prod.splits)

lemma compare_chunks:
  "for_each cs (compare_chunk ln pd) (snd v) = map_option snd (for_each cs (send_chunk ln pd) v)"
proof (induction cs arbitrary: v)
  case (Cons c cs)
  obtain e ctx w where v: "v = (e, ctx, w)" by (cases v)
  show ?case
  proof (cases "compare_chunk ln pd c (ctx, w)")
    case None
    then have "send_chunk ln pd c v = None"
      by (auto simp: compare_chunk_def send_chunk_def v split: bind_splits)
    then show ?thesis using None by (simp add: v)
  next
    case (Some s)
    then obtain e' where "send_chunk ln pd c v = Some (e', s)"
      by (auto simp: compare_chunk_def send_chunk_def v split: bind_splits)
    then show ?thesis using Some Cons.IH [of "(e', s)"] by (simp add: v)
  qed
qed simp

section \<open>The loop\<close>

context modbus_framing
begin

lemma read_register_flash:
  assumes "ln_be ln = be" and "line_ok ln" and "client_ready be adu accepts pending log (flash_board refuses answer) ctx"
    and "pending w = []"
  shows "\<exists>ctx' w'. fw_read_registers ln 0x7707 1 [0] ctx w = Some (1, [answer (log w)], ctx', w') \<and> pending w' = [] \<and>
    log w' = log w \<and> client_ready be adu accepts pending log (flash_board refuses answer) ctx'"
proof -
  let ?a = "answer (log w)"
  have s: "flash_board refuses answer (log w) (register_request 0x03 0x7707 1) =
      (word_of_int 3 # word_of_int (2 * 1) # reg_bytes [?a], log w)"
    by (simp add: flash_board_def register_request_def)
  have f: "(0x03 :: int) = 0x03 \<or> (0x03 :: int) = 0x04" and n: "(1 :: int) \<le> 1" "(1 :: int) \<le> 125" by simp_all
  have "length (ln_rsp ln) = 260" using assms(2) by (simp add: line_ok_def)
  from client_reads(1) [where net = "ln_net ln" and regs = "[?a]" and dest = "[0]", OF assms(3) f n small_room [OF assms(2)] this assms(4) s]
  show ?thesis using assms(1)
    by (auto simp: fw_read_registers_def modbus_read_registers_def MAX_READ_REGISTERS_def overlay_def)
qed

lemma verify_page:
  assumes "ln_be ln = be" and "line_ok ln" and "client_ready be adu accepts pending log (flash_board refuses answer) ctx"
    and "pending w = []" and "0 \<le> page" "page < 65536" and "1024 * i + 1024 \<le> length m" and "page < last_page"
  shows "\<exists>ctx' w'. verify_step ln rw lp last_page (page, (Some m, 1024 * int i), report, ctx, w) =
      Some (Inl (if page = lp - 1 then (RW_START_PAGE, (rw, 0), report @ [(page, answer (log w'))], ctx', w')
        else (page + 1, (Some m, 1024 * int (Suc i)), report @ [(page, answer (log w'))], ctx', w'))) \<and>
    pending w' = [] \<and> log w' = log w @ page_blocks refuses page (page_bytes m i) \<and>
    client_ready be adu accepts pending log (flash_board refuses answer) ctx'"
proof -
  obtain ctx1 w1 x v where 1: "fw_write_register ln 0x7705 page ctx w = Some (1, ctx1, w1)"
    "for_each [0..<8] (send_chunk ln (Some m, 1024 * int i)) (0, ctx1, w1) = Some (0 + int (refused refuses), x, v)"
    "pending v = []" "log v = log w @ page_blocks refuses page (page_bytes m i)"
    "client_ready be adu accepts pending log (flash_board refuses answer) x"
    using fill_page_flash [OF assms(1-7)] by blast
  have c: "for_each [0..<8] (compare_chunk ln (Some m, 1024 * int i)) (ctx1, w1) = Some (x, v)"
    using compare_chunks [of "[0..<8]" ln "(Some m, 1024 * int i)" "(0, ctx1, w1)"] unfolding 1(2) by simp
  obtain ctx2 w2 where 2: "fw_read_registers ln 0x7707 1 [0] x v = Some (1, [answer (log v)], ctx2, w2)" "pending w2 = []"
    "log w2 = log v" "client_ready be adu accepts pending log (flash_board refuses answer) ctx2"
    using read_register_flash [OF assms(1,2) 1(5,3)] by blast
  have "\<not> last_page \<le> page" using assms(8) by simp
  then have "verify_step ln rw lp last_page (page, (Some m, 1024 * int i), report, ctx, w) =
      Some (Inl (if page = lp - 1 then (RW_START_PAGE, (rw, 0), report @ [(page, answer (log w2))], ctx2, w2)
        else (page + 1, (Some m, 1024 * int (Suc i)), report @ [(page, answer (log w2))], ctx2, w2)))"
    using 1(1) c 2(1,3) by (simp add: verify_step_def Let_def REG_SIZE_def)
  then show ?thesis using 2(2-4) 1(4) by (intro exI [of _ ctx2] exI [of _ w2]) simp
qed

lemma verify_pages:
  assumes "ln_be ln = be" and "line_ok ln" and "client_ready be adu accepts pending log (flash_board refuses answer) ctx"
    and "pending w = []" and "int p + int n \<le> last_page" "p + n < 65536" and "1024 * n \<le> length m"
    and "\<And>i. 0 < i \<Longrightarrow> i < n \<Longrightarrow> int (p + i) \<noteq> lp"
  defines "pages \<equiv> \<lambda>n. map (\<lambda>i. (int (p + i), page_bytes m i)) [0..<n]"
  shows "\<exists>ctx' w'. loop (verify_step ln rw lp last_page) (int p, (Some m, 0), report, ctx, w) =
      loop (verify_step ln rw lp last_page)
        (if 0 < n \<and> int (p + n) = lp then (RW_START_PAGE, (rw, 0), report @ fst (checked refuses answer (log w) (pages n)), ctx', w')
         else (int (p + n), (Some m, 1024 * int n), report @ fst (checked refuses answer (log w) (pages n)), ctx', w')) \<and>
    pending w' = [] \<and> log w' = snd (checked refuses answer (log w) (pages n)) \<and>
    client_ready be adu accepts pending log (flash_board refuses answer) ctx'"
  using assms(5-8)
proof (induction n)
  case 0
  then show ?case using assms(3,4) by (auto simp: pages_def)
next
  case (Suc n)
  let ?step = "verify_step ln rw lp last_page" and ?C = "\<lambda>n. checked refuses answer (log w) (pages n)"
  have before: "int p + int n \<le> last_page" "p + n < 65536" "1024 * n \<le> length m" using Suc.prems by simp_all
  have jump: "int (p + i) \<noteq> lp" if "0 < i" "i < n" for i using Suc.prems(4) [of i] that by simp
  obtain ctx1 w1 where 1: "loop ?step (int p, (Some m, 0), report, ctx, w) =
      loop ?step (if 0 < n \<and> int (p + n) = lp then (RW_START_PAGE, (rw, 0), report @ fst (?C n), ctx1, w1)
         else (int (p + n), (Some m, 1024 * int n), report @ fst (?C n), ctx1, w1))"
    "pending w1 = []" "log w1 = snd (?C n)" "client_ready be adu accepts pending log (flash_board refuses answer) ctx1"
    using Suc.IH [OF before jump] by blast
  have here: "\<not> (0 < n \<and> int (p + n) = lp)" using Suc.prems(4) [of n] by auto
  have b: "0 \<le> int (p + n)" "int (p + n) < 65536" "1024 * n + 1024 \<le> length m" "int (p + n) < last_page"
    using Suc.prems by simp_all
  obtain ctx2 w2 where 2: "?step (int (p + n), (Some m, 1024 * int n), report @ fst (?C n), ctx1, w1) =
      Some (Inl (if int (p + n) = lp - 1 then (RW_START_PAGE, (rw, 0), (report @ fst (?C n)) @ [(int (p + n), answer (log w2))], ctx2, w2)
        else (int (p + n) + 1, (Some m, 1024 * int (Suc n)), (report @ fst (?C n)) @ [(int (p + n), answer (log w2))], ctx2, w2)))"
    "pending w2 = []" "log w2 = log w1 @ page_blocks refuses (int (p + n)) (page_bytes m n)"
    "client_ready be adu accepts pending log (flash_board refuses answer) ctx2"
    using verify_page [OF assms(1,2) 1(4,2) b, of rw lp "report @ fst (?C n)"] by blast
  have C: "?C (Suc n) = (fst (?C n) @ [(int (p + n), answer (log w2))], log w2)"
    unfolding 2(3) 1(3) by (simp add: pages_def checked_append Let_def)
  have lp: "int (p + Suc n) = lp \<longleftrightarrow> int (p + n) = lp - 1" by auto
  show ?case
    using 1(1) loop_Inl [of ?step, OF 2(1)] 2(2,4) unfolding if_not_P [OF here] C lp
    by (intro exI [of _ ctx2] exI [of _ w2]) (simp add: add.commute)
qed

end


section \<open>The whole comparison\<close>

context modbus_framing
begin

lemma verify_flash:
  assumes "ln_be ln = be" and "line_ok ln"
    and "client_ready be adu accepts pending log (flash_board refuses answer) (snd (modbus_set_response_timeout 2 999999 ctx))"
    and "pending w = []" and "1 \<le> lp" "lp \<le> 56" "1024 * lp \<le> length prog" and "0 < r \<Longrightarrow> rw = Some m"
    and "1024 * r \<le> length m" "r < 1024"
  shows "\<exists>ctx' w'. verify ln prog rw (int lp) (56 + int r) ctx w =
      Some (fst (checked refuses answer (log w) (map (\<lambda>i. (int i, page_bytes prog i)) [0..<lp] @
        map (\<lambda>i. (int (56 + i), page_bytes m i)) [0..<r])), ctx', w') \<and> pending w' = [] \<and>
    log w' = snd (checked refuses answer (log w) (map (\<lambda>i. (int i, page_bytes prog i)) [0..<lp] @
        map (\<lambda>i. (int (56 + i), page_bytes m i)) [0..<r])) \<and>
    client_ready be adu accepts pending log (flash_board refuses answer) ctx'"
proof -
  let ?step = "verify_step ln rw (int lp) (56 + int r)" and ?ctx = "snd (modbus_set_response_timeout 2 999999 ctx)"
  let ?A = "map (\<lambda>i. (int i, page_bytes prog i)) [0..<lp]" and ?B = "map (\<lambda>i. (int (56 + i), page_bytes m i)) [0..<r]"
  have jump: "\<And>i. 0 < i \<Longrightarrow> i < lp \<Longrightarrow> int (0 + i) \<noteq> int lp" "\<And>i. 0 < i \<Longrightarrow> i < r \<Longrightarrow> int (56 + i) \<noteq> int lp"
    using assms(6) by simp_all
  have room: "int 0 + int lp \<le> 56 + int r" "0 + lp < 65536" "int 56 + int r \<le> 56 + int r" "56 + r < 65536"
    using assms(6,10) by simp_all
  have "0 < lp \<and> int (0 + lp) = int lp" using assms(5) by simp
  from verify_pages [OF assms(1-4) room(1,2) assms(7) jump(1), of rw "[]", unfolded if_P [OF this]]
  obtain ctx1 w1 where 1: "loop ?step (0, (Some prog, 0), [], ?ctx, w) =
      loop ?step (56, (rw, 0), fst (checked refuses answer (log w) ?A), ctx1, w1)" "pending w1 = []"
    "client_ready be adu accepts pending log (flash_board refuses answer) ctx1"
    "log w1 = snd (checked refuses answer (log w) ?A)"
    by (auto simp: RW_START_PAGE_def)
  obtain pd ctx2 w2 where 2: "loop ?step (56, (rw, 0), fst (checked refuses answer (log w) ?A), ctx1, w1) =
      loop ?step (int (56 + r), pd, fst (checked refuses answer (log w) ?A) @ fst (checked refuses answer (log w1) ?B), ctx2, w2)"
    "pending w2 = []" "client_ready be adu accepts pending log (flash_board refuses answer) ctx2"
    "log w2 = snd (checked refuses answer (log w1) ?B)"
  proof (cases "r = 0")
    case True
    then show ?thesis using that 1(2,3) by simp
  next
    case False
    then have "\<not> (0 < r \<and> int (56 + r) = int lp)" and "rw = Some m" using assms(6,8) by simp_all
    with verify_pages [OF assms(1,2) 1(3,2) room(3,4) assms(9) jump(2), of rw "fst (checked refuses answer (log w) ?A)"]
    show ?thesis using that by (simp add: if_not_P) blast
  qed
  have "?step (int (56 + r), pd, report, ctx2, w2) = Some (Inr (report, ctx2, w2))" for report
    by (simp add: verify_step_def)
  from loop_Inr [of ?step, OF this] 1(1,4) 2 show ?thesis
    unfolding checked_append by (intro exI [of _ ctx2] exI [of _ w2]) (simp add: verify_def)
qed

lemma verify_long:
  assumes "ln_be ln = be" and "line_ok ln"
    and "client_ready be adu accepts pending log (flash_board refuses answer) (snd (modbus_set_response_timeout 2 999999 ctx))"
    and "pending w = []" and "57 \<le> lp" "1024 * (56 + r) \<le> length prog" "r \<le> 1" "r = 0 \<or> lp \<noteq> 57"
  shows "\<exists>ctx' w'. verify ln prog rw (int lp) (56 + int r) ctx w =
      Some (fst (checked refuses answer (log w) (map (\<lambda>i. (int i, page_bytes prog i)) [0..<56 + r])), ctx', w') \<and> pending w' = [] \<and>
    log w' = snd (checked refuses answer (log w) (map (\<lambda>i. (int i, page_bytes prog i)) [0..<56 + r])) \<and>
    client_ready be adu accepts pending log (flash_board refuses answer) ctx'"
proof -
  let ?step = "verify_step ln rw (int lp) (56 + int r)" and ?ctx = "snd (modbus_set_response_timeout 2 999999 ctx)"
  let ?A = "map (\<lambda>i. (int i, page_bytes prog i)) [0..<56 + r]"
  have jump: "int (0 + i) \<noteq> int lp" if "0 < i" "i < 56 + r" for i using that assms(5,7) by simp
  have room: "int 0 + int (56 + r) \<le> 56 + int r" "0 + (56 + r) < 65536" using assms(7) by simp_all
  have stop: "\<not> (0 < 56 + r \<and> int (0 + (56 + r)) = int lp)" using assms(5,7,8) by auto
  from verify_pages [OF assms(1-4) room assms(6) jump, of rw "[]", unfolded if_not_P [OF stop]]
  obtain ctx1 w1 where 1: "loop ?step (0, (Some prog, 0), [], ?ctx, w) =
      loop ?step (56 + int r, (Some prog, 1024 * int (56 + r)), fst (checked refuses answer (log w) ?A), ctx1, w1)" "pending w1 = []"
    "log w1 = snd (checked refuses answer (log w) ?A)"
    "client_ready be adu accepts pending log (flash_board refuses answer) ctx1"
    by (auto simp del: upt_Suc map_upt_Suc)
  have "?step (56 + int r, pd, report, ctx1, w1) = Some (Inr (report, ctx1, w1))" for pd report
    by (simp add: verify_step_def)
  from loop_Inr [of ?step, OF this] 1 show ?thesis
    by (intro exI [of _ ctx1] exI [of _ w1]) (simp add: verify_def)
qed

lemma change_firmware_verifies:
  fixes files :: "string \<Rightarrow> u8 list option"
  assumes "ln_be ln = be" and "line_ok ln" and "client_ready be adu accepts pending log (flash_board refuses answer) ctx"
    and "pending w = []" and "choose_version o1 brd = Some (Inr ver)"
    and "\<exists>path. firmware_name heap (uint (hw_version ver)) (uint (base_hw_version ver)) (fo_firmwaredir o1) ''.rw'' = Some (Some path)"
    and "firmware_name heap (uint (hw_version ver)) (uint (base_hw_version ver)) (fo_firmwaredir o1) ''.bin'' = Some (Some path)"
    and "files path = Some file" and "0 < length file" "length file \<le> 65536" and "length (rw_file heap files o1 ver) \<le> 1024"
    and "length prog_data = 65536" "length rw_data = 1024" and "fo_verify o1" "\<not> fo_prog o1" "\<not> fo_calibrate o1"
    and "length (fw_pages file) = 57 \<Longrightarrow> rw_file heap files o1 ver = []"
  defines "pages \<equiv> program_pages file (rw_file heap files o1 ver)"
  shows "\<exists>ctx' w'. change_firmware ln heap files o1 prog_data rw_data brd ctx w =
      Some (0, fst (checked refuses answer (log w @ [(1006, [0xFF00])]) pages), ctx', w') \<and>
    log w' = snd (checked refuses answer (log w @ [(1006, [0xFF00])]) pages) @ [(0x7707, [3])]"
proof -
  let ?rw = "rw_file heap files o1 ver" and ?image = "file @ replicate (65536 - length file) 0xff"
  let ?m = "?rw @ replicate (1024 - length ?rw) 0xff" and ?lp = "length (fw_pages file)" and ?r = "length (fw_pages ?rw)"
  note enters = change_firmware_enters [OF assms(1-13)]
  obtain mm ctx1 w1 where 1: "0 < ?r \<Longrightarrow> mm = Some ?m" "pending w1 = []" "log w1 = log w @ [(1006, [0xFF00])]"
    "client_ready be adu accepts pending log (flash_board refuses answer) ctx1"
    "change_firmware ln heap files o1 prog_data rw_data brd ctx w =
        do { (report, ctx, w) \<leftarrow> verify ln ?image mm (int ?lp) (56 + int ?r) ctx1 w1;
             (_, ctx, w) \<leftarrow> fw_write_register ln 0x7707 3 ctx w;
             Some (0, report, ctx, w) }"
    using enters(8) assms(14-16) by auto
  obtain ctx2 w2 where 2: "verify ln ?image mm (int ?lp) (56 + int ?r) ctx1 w1 =
      Some (fst (checked refuses answer (log w1) pages), ctx2, w2)" "pending w2 = []"
    "log w2 = snd (checked refuses answer (log w1) pages)"
    "client_ready be adu accepts pending log (flash_board refuses answer) ctx2"
  proof (cases "length file \<le> 57344")
    case True
    then have lp: "?lp \<le> 56" and r: "?r < 1024" using enters(2,5) by simp_all
    have "map (\<lambda>i. (int i, page_bytes ?image i)) [0..<?lp] @ map (\<lambda>i. (int (56 + i), page_bytes ?m i)) [0..<?r] = pages"
      unfolding pages_def program_pages_def numbered_pages_def if_P [OF True]
      by (intro arg_cong2 [where f = append] map_cong refl) (simp_all add: enters(6,7))
    with verify_flash [OF assms(1,2) client_ready_again(3) [OF 1(4)] 1(2) enters(1) lp enters(3) 1(1) enters(4) r]
    show thesis using that by (simp only:) blast
  next
    case False
    then have lp: "57 \<le> ?lp" using enters(2) by simp
    have n: "56 + ?r \<le> ?lp" using lp enters(5) by simp
    have "1024 * (56 + ?r) \<le> 1024 * ?lp" using n by (rule mult_le_mono2)
    then have room: "1024 * (56 + ?r) \<le> length ?image" using enters(3) by (rule order_trans)
    have ne: "?r = 0 \<or> ?lp \<noteq> 57" using assms(17) by (auto simp: length_fw_pages)
    have "page_bytes ?image i = fw_pages (take (1024 * (56 + ?r)) file) ! i" if "i < 56 + ?r" for i
    proof -
      have "i < ?lp" using that n by (rule less_le_trans)
      from enters(6) [OF this] fw_pages_take(2) [OF n that] show ?thesis by (simp only:)
    qed
    then have "map (\<lambda>i. (int i, page_bytes ?image i)) [0..<56 + ?r] = pages"
      unfolding pages_def program_pages_def numbered_pages_def if_not_P [OF False] fw_pages_take(1) [OF n]
      by (intro map_cong refl) (simp only: set_upt atLeastLessThan_iff add_0)
    with verify_long [OF assms(1,2) client_ready_again(3) [OF 1(4)] 1(2) lp room enters(5) ne, of mm]
    show thesis using that by (simp only:) blast
  qed
  obtain ctx3 w3 where "fw_write_register ln 0x7707 3 ctx2 w2 = Some (1, ctx3, w3)" "log w3 = log w2 @ [(0x7707, [3])]"
    using write_register_flash [where addr = "0x7707" and v = 3, OF assms(1,2) 2(4,2)] by auto
  then show ?thesis using 2(1,3) unfolding 1(3,5) by simp
qed

end

section \<open>Property\<close>

text \<open>
  C21. With \<open>-V\<close> alone, for a firmware file of at most 65536 bytes and constants of at most 1024,
  \<open>fwserial\<close> gives the board the pages that \<open>-P\<close> would write: every page of a file of at most 56
  pages and that of the constants, if they are wanted and there are any; of a longer file the
  first 56 pages, or 57 and no constants when constants are wanted. It never has a page written
  to flash, and reports for each page what the board answers after it; then it restarts the
  board. Exactly 57 pages with constants are excluded.
\<close>

theorem fwserial_verifies:
  fixes files :: "string \<Rightarrow> u8 list option"
  assumes "ln_be ln = rtu_backend net tty" and "line_ok ln"
    and "client_ready (rtu_backend net tty) rtu_message rtu_accepts pending log (flash_board refuses answer) ctx"
    and "pending w = []" and "choose_version o1 brd = Some (Inr ver)"
    and "\<exists>path. firmware_name heap (uint (hw_version ver)) (uint (base_hw_version ver)) (fo_firmwaredir o1) ''.rw'' = Some (Some path)"
    and "firmware_name heap (uint (hw_version ver)) (uint (base_hw_version ver)) (fo_firmwaredir o1) ''.bin'' = Some (Some path)"
    and "files path = Some file" and "0 < length file" "length file \<le> 65536" and "length (rw_file heap files o1 ver) \<le> 1024"
    and "length prog_data = 65536" "length rw_data = 1024" and "fo_verify o1" "\<not> fo_prog o1" "\<not> fo_calibrate o1"
    and "length (fw_pages file) = 57 \<Longrightarrow> rw_file heap files o1 ver = []"
  defines "pages \<equiv> program_pages file (rw_file heap files o1 ver)"
  shows "\<exists>ctx' w'. change_firmware ln heap files o1 prog_data rw_data brd ctx w =
      Some (0, fst (checked refuses answer (log w @ [(1006, [0xFF00])]) pages), ctx', w') \<and>
    log w' = snd (checked refuses answer (log w @ [(1006, [0xFF00])]) pages) @ [(0x7707, [3])]"
  unfolding pages_def by (rule rtu_line.change_firmware_verifies [OF assms(1-17)])

theorem fwserial_verifies_witness:
  "\<exists>ctx' w'. change_firmware flash_line (\<lambda>_. True) (\<lambda>_. Some [1, 2, 3]) (fw_defaults\<lparr>fo_verify := True\<rparr>) (fresh_block 65536)
      (fresh_block 1024) analog_board flash_ctx ([], []) = Some (0, [(0, 9)], ctx', w') \<and>
    fst w' = [(1006, [0xFF00])] @ page_blocks second_block 0 (fw_pages [1, 2, 3] ! 0) @ [(0x7707, [3])]"
proof -
  let ?o = "fw_defaults\<lparr>fo_verify := True\<rparr>"
  have o: "\<not> fo_calibrate ?o" "\<not> fo_final ?o" "\<not> fo_resetrw ?o" by (simp_all add: fw_defaults_def)
  have p: "program_pages [1, 2, 3] [] = [(0, fw_pages [1, 2, 3] ! 0)]" "length (fw_pages [1, 2, 3]) = 1"
    by (simp_all add: program_pages_def numbered_pages_def three_bytes_pages)
  have k: "length (page_blocks second_block 0 b) = 8" for b
    by (simp add: page_blocks_def second_block_def upt_rec)
  show ?thesis
    using fwserial_verifies [OF flash_line_parts flash_net_ready _ analog_choice [OF o(1,2)], where files = "\<lambda>_. Some [1, 2, 3]" and
        w = "([], [])" and prog_data = "fresh_block 65536" and rw_data = "fresh_block 1024",
        unfolded analog_version no_rw_file [OF o(3,1)], OF _ analog_rw_name analog_names(2)] p
    by (simp add: fw_defaults_def length_answer_def k)
qed

end
