(* ===== verification/Fw_Spi.thy ===== *)
theory Fw_Spi
  imports Fw_Serial_Correct Nb_Firmware
begin

text \<open>
  \<open>fwspi.c\<close>, the tool that programs a board over SPI with the loader of \<open>armspi.c\<close>. It is the
  twin of \<open>fwserial.c\<close>: the options are the same but for the unit, the comparison and the
  letter of the device, and \<open>load_fw\<close>, the choice of the version and the loading by version
  have the same text, so their definitions are shared. Messages and freeing memory are left out.
\<close>

section \<open>Options\<close>

definition spi_defaults :: fw_options where
  "spi_defaults = fw_defaults\<lparr>fo_baud := 10000000\<rparr>"

definition set_spi_option :: "char \<times> string option \<Rightarrow> fw_options \<Rightarrow> (unit + fw_options) option" where
  "set_spi_option opt o1 =
     (case opt of (c, optarg) \<Rightarrow>
      if c = CHR ''v'' then Some (Inr (o1\<lparr>fo_verbose := fo_verbose o1 + 1\<rparr>))
      else if c = CHR ''P'' then Some (Inr (o1\<lparr>fo_prog := True\<rparr>))
      else if c = CHR ''R'' then Some (Inr (o1\<lparr>fo_resetrw := True\<rparr>))
      else if c = CHR ''C'' then Some (Inr (o1\<lparr>fo_calibrate := True, fo_prog := True, fo_resetrw := True\<rparr>))
      else if c = CHR ''F'' then set_fw_upboard optarg o1
      else if c = CHR ''s'' then do { arg \<leftarrow> optarg; Some (Inr (o1\<lparr>fo_port := Some arg\<rparr>)) }
      else if c = CHR ''b'' then set_fw_number optarg (\<lambda>v. o1\<lparr>fo_baud := v\<rparr>)
      else if c = CHR ''d'' then do { arg \<leftarrow> optarg; Some (Inr (o1\<lparr>fo_firmwaredir := arg\<rparr>)) }
      else Some (Inl ()))"

fun read_spi_options :: "(char \<times> string option) list \<Rightarrow> fw_options \<Rightarrow> (unit + fw_options) option" where
  "read_spi_options [] o1 = Some (Inr o1)"
| "read_spi_options (opt # opts) o1 =
     do { r \<leftarrow> set_spi_option opt o1; case r of Inl u \<Rightarrow> Some (Inl u) | Inr o2 \<Rightarrow> read_spi_options opts o2 }"

section \<open>The program\<close>

text \<open>The length and the block of the constants; \<open>rwlen\<close> is 0 when they are not wanted.\<close>

definition load_spi_rw ::
  "(nat \<Rightarrow> bool) \<Rightarrow> (string \<Rightarrow> u8 list option) \<Rightarrow> fw_options \<Rightarrow> Tboard_version \<Rightarrow> mem \<Rightarrow> (int \<times> mem option) option" where
  "load_spi_rw heap files o1 ver rw_data =
     (if fo_resetrw o1 \<or> fo_calibrate o1 then
        do { (rwlen, rw_data) \<leftarrow> load_version heap files o1 ver ''.rw'' rw_data MAX_RW_SIZE; Some (rwlen, Some rw_data) }
      else Some (0, None))"

text \<open>
  A length of \<open>-1\<close>, of a file that is missing, is \<open>-1\<close> again in the \<open>int\<close> that \<open>send_firmware\<close>
  counts with, and its loop is not entered.
\<close>

definition send_spi :: "'w os \<Rightarrow> int \<Rightarrow> mem \<Rightarrow> int \<Rightarrow> u32 \<Rightarrow> fw_context \<Rightarrow> 'w \<Rightarrow> (fw_context \<times> 'w) option" where
  "send_spi os dev data len start c w =
     (if len < 0 then Some (c, w) else send_firmware os dev data (nat len) start c w)"

definition program_spi ::
  "'w os \<Rightarrow> nat \<Rightarrow> mem \<Rightarrow> int \<Rightarrow> mem option \<Rightarrow> int \<Rightarrow> arm_handle \<Rightarrow> 'w \<Rightarrow> (arm_handle \<times> 'w) option" where
  "program_spi os mem_ok prog_data red rw_data rwlen a w =
     do { (fwctx, a, w) \<leftarrow> start_firmware os mem_ok a w;
          case fwctx of None \<Rightarrow> Some (a, w)
          | Some c \<Rightarrow>
              do { (c, w) \<leftarrow> send_spi os (fd a) prog_data red 0 c w;
                   (c, w) \<leftarrow> (case rw_data of None \<Rightarrow> Some (c, w) | Some m \<Rightarrow> send_spi os (fd a) m rwlen 0xe000 c w);
                   (_, w) \<leftarrow> finish_firmware os (fd a) c w;
                   Some (a, w) } }"

text \<open>
  The branch of \<open>main\<close> that manipulates the firmware; the result is the status, the handle and
  the world, with the descriptor not yet closed.
\<close>

definition change_firmware_spi ::
  "'w os \<Rightarrow> nat \<Rightarrow> (nat \<Rightarrow> bool) \<Rightarrow> (string \<Rightarrow> u8 list option) \<Rightarrow> fw_options \<Rightarrow> mem \<Rightarrow> mem \<Rightarrow> Tboard_version \<Rightarrow>
     arm_handle \<Rightarrow> 'w \<Rightarrow> (int \<times> arm_handle \<times> 'w) option" where
  "change_firmware_spi os mem_ok heap files o1 prog_data rw_data brd a w =
     do { chosen \<leftarrow> choose_version o1 brd;
          case chosen of
            Inl _ \<Rightarrow> Some (-1, a, w)
          | Inr ver \<Rightarrow>
              do { (red, prog_data) \<leftarrow> load_version heap files o1 ver ''.bin'' prog_data MAX_FW_SIZE;
                   if red \<le> 0 then Some (-1, a, w)
                   else do {
                     (rwlen, rw_data) \<leftarrow> load_spi_rw heap files o1 ver rw_data;
                     (a, w) \<leftarrow> (if fo_prog o1 \<or> fo_calibrate o1 then program_spi os mem_ok prog_data red rw_data rwlen a w
                              else Some (a, w));
                     Some (0, a, w) } } }"

text \<open>
  \<open>main\<close> with its options. \<open>fresh\<close> is the memory of the handle, \<open>r1000\<close> the uninitialised array
  of ten bytes; the result is the exit status and the world.
\<close>

definition fwspi ::
  "'w os \<Rightarrow> nat \<Rightarrow> nat \<Rightarrow> (nat \<Rightarrow> bool) \<Rightarrow> (string \<Rightarrow> u8 list option) \<Rightarrow> arm_handle \<Rightarrow> mem \<Rightarrow> mem \<Rightarrow> mem \<Rightarrow> Tboard_version \<Rightarrow>
     (char \<times> string option) list \<Rightarrow> 'w \<Rightarrow> (int \<times> 'w) option" where
  "fwspi os nss_pause mem_ok heap files fresh prog_data rw_data r1000 brd opts w =
     do { r \<leftarrow> read_spi_options opts spi_defaults;
          case r of Inl _ \<Rightarrow> Some (1, w)
          | Inr o1 \<Rightarrow>
            case fo_port o1 of None \<Rightarrow> Some (1, w)
            | Some device_name \<Rightarrow>
                do { (rc, a, w) \<leftarrow> arm_init os nss_pause fresh device_name (fo_baud o1) 0 None w;
                     if rc < 0 then Some (-1, w)
                     else do {
                       (n, r1000, a, w) \<leftarrow> read_regs os 1000 5 r1000 0 a w;
                       if n \<noteq> 5 then Some (-1, os_close os (fd a) w)
                       else do {
                         (rc, a, w) \<leftarrow> (if fo_prog o1 then
                             change_firmware_spi os mem_ok heap files o1 prog_data rw_data (parse_version brd (regs_of r1000)) a w
                           else Some (0, a, w));
                         Some (rc, os_close os (fd a) w) } } } }"

text \<open>The function \<open>arm_flash_file\<close> of this file gets the right block, but is not called.\<close>

definition spi_flash_file ::
  "'w os \<Rightarrow> 'w fw_files \<Rightarrow> int \<Rightarrow> fw_context \<Rightarrow> string \<Rightarrow> 'w \<Rightarrow> (fw_context \<times> 'w) option" where
  "spi_flash_file os ff dev c fwname w =
     (case ff_open ff fwname w of
        None \<Rightarrow> Some (c, w)
      | Some bytes \<Rightarrow>
          if \<not> ff_fstat ff fwname w \<or> length bytes \<le> 1024 \<or> \<not> ff_mmap ff fwname w then Some (c, w)
          else send_firmware os dev bytes (length bytes) 0 c w)"

end
