(* ===== verification/Fw_Spi_Correct.thy ===== *)
theory Fw_Spi_Correct
  imports Fw_Spi
begin

text \<open>What \<open>fwspi\<close> sends to a board over SPI.\<close>

section \<open>A file in a larger block\<close>

lemma rd_block_append: "rd_block m off n = Some bs \<Longrightarrow> rd_block (m @ pad) off n = Some bs"
  by (auto simp: rd_block_def split: if_splits)

lemma fw_fill_append: "fw_fill data start s = Some s' \<Longrightarrow> fw_fill (data @ pad) start s = Some s'"
  by (auto simp: fw_fill_def Let_def rd_block_append elim!: bind_SomeE split: if_splits)

lemma send_firmware_append:
  assumes "send_firmware os dev data len start c w = Some r"
  shows "send_firmware os dev (data @ pad) len start c w = Some r"
proof -
  have "send_firmware_step os dev (data @ pad) len start v = Some x" if step: "send_firmware_step os dev data len start v = Some x" for v x
  proof (cases "fs_len (fst v) < 0")
    case True
    then show ?thesis using step by (simp add: send_firmware_step_def case_prod_unfold)
  next
    case False
    then obtain s1 where 1: "fw_fill data start (fst v) = Some s1"
      using step by (cases "fw_fill data start (fst v)") (simp_all add: send_firmware_step_def case_prod_unfold)
    have "send_firmware_step os dev (data @ pad) len start v = send_firmware_step os dev data len start v"
      by (simp only: send_firmware_step_def case_prod_unfold False if_False 1 fw_fill_append [OF 1])
    then show ?thesis using step by (simp only:)
  qed
  from loop_mono [OF assms [unfolded send_firmware_def] this] show ?thesis unfolding send_firmware_def .
qed

text \<open>The frames that a file becomes, with the one that confirms its last page.\<close>

definition file_frames :: "u32 \<Rightarrow> u8 list \<Rightarrow> u8 list list" where
  "file_frames start data =
     fw_frames start (fw_pages data) @
     [fw_frame (start + word_of_nat (1024 * length (fw_pages data))) (last (fw_pages data))]"

lemma send_spi_frames:
  assumes "wf_fw c" and "acks os dev (\<lambda>_. True)" and "records os dev sent" and "data \<noteq> []" and "length data < 2 ^ 31"
  shows "\<exists>c' w'. send_spi os dev (data @ pad) (int (length data)) start c w = Some (c', w') \<and> wf_fw c' \<and>
    sent w' = sent w @ file_frames start data"
proof -
  let ?s = "\<lparr>fs_ctx = c, fs_prev = -1, fs_len = int (length data), fs_address = start\<rparr>"
  have "last (x # fw_pages data) = last (fw_pages data)" for x using pages_Cons [OF assms(4)] by simp
  then obtain c' w' where "send_firmware os dev data (length data) start c w = Some (c', w')" "wf_fw c'"
    "sent w' = sent w @ file_frames start data"
    using send_loop [OF assms(2,3,5), of ?s data 0 start "take 1024 (drop 4 (fw_tx c))" w] assms(1)
    unfolding send_firmware_def file_frames_def by auto
  then show ?thesis using send_firmware_append [where pad = pad] by (fastforce simp: send_spi_def)
qed

lemma finish_frames:
  assumes "wf_fw c" and "acks os dev (\<lambda>_. True)" and "records os dev sent"
  shows "\<exists>w' p. finish_firmware os dev c w = Some (True, w') \<and> length p = 1024 \<and>
    sent w' = sent w @ [fw_frame ARM_FIRMWARE_KEY p]"
proof -
  let ?c = "c\<lparr>fw_tx := le32 ARM_FIRMWARE_KEY @ drop 4 (fw_tx c)\<rparr>" and ?p = "take 1024 (drop 4 (fw_tx c))"
  have l: "length (fw_tx c) = 1032" using assms(1) by (simp add: wf_fw_def)
  have c: "wf_fw ?c" "take 1028 (fw_tx ?c) = le32 ARM_FIRMWARE_KEY @ ?p" "length ?p = 1024"
    using assms(1) l by (simp_all add: wf_fw_def)
  obtain st c' w' where "firmware_op os dev ?c w = Some (st, c', w')" "rx_confirms c' = Some True"
    "sent w' = sent w @ [fw_frame ARM_FIRMWARE_KEY ?p]"
    using firmware_op_acks [OF c(1) assms(2) c(2,3)] assms(3) by blast
  moreover have "wr32 (fw_tx c) 0 ARM_FIRMWARE_KEY = Some (le32 ARM_FIRMWARE_KEY @ drop 4 (fw_tx c))"
    using l by (intro wr32_eq) simp
  ultimately show ?thesis using c(3) by (intro exI [of _ w'] exI [of _ ?p]) (simp add: finish_firmware_def)
qed

lemma start_firmware_ok:
  assumes "wf_arm a" and "full_duplex os" and "4 \<le> mem_ok"
  shows "\<exists>c a' w'. start_firmware os mem_ok a w = Some (Some c, a', w') \<and> wf_fw c \<and> wf_arm a' \<and> same_board a a'"
proof -
  obtain n a' w' where "write_bit os (prog_bit a) 1 a w = Some (n, a', w')" "wf_arm a'" "same_board a a'"
    using write_bit_spec [OF assms(1,2)] by blast
  moreover obtain c where "fw_alloc mem_ok = Some c" using assms(3) by (simp add: fw_alloc_def)
  ultimately show ?thesis using wf_fw_alloc by (auto simp: start_firmware_def)
qed

section \<open>The whole change\<close>

lemma load_spi_rw_file:
  assumes "fo_resetrw o1 \<or> fo_calibrate o1 \<Longrightarrow> rw_file heap files o1 ver \<noteq> []" and "length (rw_file heap files o1 ver) \<le> 1024"
    and "length rw_data = 1024"
  shows "load_spi_rw heap files o1 ver rw_data =
    Some (int (length (rw_file heap files o1 ver)),
      if rw_file heap files o1 ver = [] then None
      else Some (rw_file heap files o1 ver @ replicate (1024 - length (rw_file heap files o1 ver)) 0xff))"
proof (cases "fo_resetrw o1 \<or> fo_calibrate o1")
  case True
  let ?name = "firmware_name heap (uint (hw_version ver)) (uint (base_hw_version ver)) (fo_firmwaredir o1) ''.rw''"
  obtain path where n: "?name = Some (Some path)"
    using assms(1) True by (auto simp: rw_file_def split: option.splits)
  have f: "files path = Some (rw_file heap files o1 ver)"
    using assms(1) True n by (auto simp: rw_file_def split: option.splits)
  show ?thesis
    using load_version_file [where heap = heap and files = files, OF n f, of 1024 rw_data] True assms
    by (simp add: load_spi_rw_def MAX_RW_SIZE_def MAX_FW_SIZE_def)
qed (simp add: load_spi_rw_def rw_file_def)

lemma change_firmware_spi_frames:
  fixes files :: "string \<Rightarrow> u8 list option"
  assumes "wf_arm a" and "full_duplex os" and "4 \<le> mem_ok" and "acks os (fd a) (\<lambda>_. True)" and "records os (fd a) sent"
    and "choose_version o1 brd = Some (Inr ver)"
    and "firmware_name heap (uint (hw_version ver)) (uint (base_hw_version ver)) (fo_firmwaredir o1) ''.bin'' = Some (Some path)"
    and "files path = Some file" and "file \<noteq> []" "length file \<le> 65536"
    and "fo_resetrw o1 \<or> fo_calibrate o1 \<Longrightarrow> rw_file heap files o1 ver \<noteq> []" and "length (rw_file heap files o1 ver) \<le> 1024"
    and "length prog_data = 65536" "length rw_data = 1024" and "fo_prog o1"
  shows "\<exists>c a' w1 w' p. start_firmware os mem_ok a w = Some (Some c, a', w1) \<and> wf_arm a' \<and> length p = 1024 \<and>
    change_firmware_spi os mem_ok heap files o1 prog_data rw_data brd a w = Some (0, a', w') \<and>
    sent w' = sent w1 @ file_frames 0 file @
      (if rw_file heap files o1 ver = [] then [] else file_frames 0xe000 (rw_file heap files o1 ver)) @ [fw_frame ARM_FIRMWARE_KEY p]"
proof -
  let ?rw = "rw_file heap files o1 ver"
  let ?pad = "replicate (65536 - length file) (0xff :: u8)" and ?pad' = "replicate (1024 - length ?rw) (0xff :: u8)"
  have bin: "load_version heap files o1 ver ''.bin'' prog_data MAX_FW_SIZE = Some (int (length file), file @ ?pad)"
    using load_version_file [where heap = heap and files = files, OF assms(7,8), of 65536 prog_data] assms(10,13) by (simp add: MAX_FW_SIZE_def)
  note rw = load_spi_rw_file [OF assms(11,12,14)]
  obtain c a' w1 where 1: "start_firmware os mem_ok a w = Some (Some c, a', w1)" "wf_fw c" "wf_arm a'" "same_board a a'"
    using start_firmware_ok [OF assms(1-3)] by blast
  have dev: "fd a' = fd a" using 1(4) by (simp add: same_board_def)
  have small: "length file < 2 ^ 31" "length ?rw < 2 ^ 31" using assms(10,12) by simp_all
  obtain c2 w2 where 2: "send_spi os (fd a) (file @ ?pad) (int (length file)) 0 c w1 = Some (c2, w2)" "wf_fw c2"
    "sent w2 = sent w1 @ file_frames 0 file"
    using send_spi_frames [OF 1(2) assms(4,5,9) small(1)] by blast
  obtain c3 w3 where 3: "(if ?rw = [] then Some (c2, w2) else send_spi os (fd a) (?rw @ ?pad') (int (length ?rw)) 0xe000 c2 w2) =
      Some (c3, w3)" "wf_fw c3" "sent w3 = sent w2 @ (if ?rw = [] then [] else file_frames 0xe000 ?rw)"
  proof (cases "?rw = []")
    case True
    then show ?thesis using 2(2) that by simp
  next
    case False
    then show ?thesis
      using send_spi_frames [OF 2(2) assms(4,5) False small(2), of ?pad' "0xe000" w2] that by auto
  qed
  obtain w4 p where 4: "finish_firmware os (fd a) c3 w3 = Some (True, w4)" "length p = 1024"
    "sent w4 = sent w3 @ [fw_frame ARM_FIRMWARE_KEY p]"
    using finish_frames [OF 3(2) assms(4,5)] by blast
  have "program_spi os mem_ok (file @ ?pad) (int (length file)) (if ?rw = [] then None else Some (?rw @ ?pad'))
      (int (length ?rw)) a w = Some (a', w4)"
    using 1(1) 2(1) 3(1) 4(1) by (simp add: program_spi_def dev split: if_splits)
  then have "change_firmware_spi os mem_ok heap files o1 prog_data rw_data brd a w = Some (0, a', w4)"
    using assms(6,9,15) bin rw by (simp add: change_firmware_spi_def)
  then show ?thesis using 1(1,3) 2(3) 3(3) 4(2,3) by (simp only: append_assoc) blast
qed


section \<open>Properties\<close>

text \<open>
  C19. With \<open>-P\<close>, \<open>fwspi\<close> sends a board that confirms every frame the pages of the whole firmware
  file from address 0 on, then those of the constants at \<open>0xe000\<close> if they are wanted, each
  followed by the frame that confirms its last page, then the frame that ends the transfer, and
  succeeds. The file and the constants lie in larger blocks, of which nothing else is sent.
\<close>

theorem fwspi_programs:
  fixes files :: "string \<Rightarrow> u8 list option"
  assumes "wf_arm a" and "full_duplex os" and "4 \<le> mem_ok" and "acks os (fd a) (\<lambda>_. True)" and "records os (fd a) sent"
    and "choose_version o1 brd = Some (Inr ver)"
    and "firmware_name heap (uint (hw_version ver)) (uint (base_hw_version ver)) (fo_firmwaredir o1) ''.bin'' = Some (Some path)"
    and "files path = Some file" and "file \<noteq> []" "length file \<le> 65536"
    and "fo_resetrw o1 \<or> fo_calibrate o1 \<Longrightarrow> rw_file heap files o1 ver \<noteq> []" and "length (rw_file heap files o1 ver) \<le> 1024"
    and "length prog_data = 65536" "length rw_data = 1024" and "fo_prog o1"
  shows "\<exists>c a' w1 w' p. start_firmware os mem_ok a w = Some (Some c, a', w1) \<and> wf_arm a' \<and> length p = 1024 \<and>
    change_firmware_spi os mem_ok heap files o1 prog_data rw_data brd a w = Some (0, a', w') \<and>
    sent w' = sent w1 @ file_frames 0 file @
      (if rw_file heap files o1 ver = [] then [] else file_frames 0xe000 (rw_file heap files o1 ver)) @ [fw_frame ARM_FIRMWARE_KEY p]"
  using assms by (rule change_firmware_spi_frames)

text \<open>A board that confirms every frame of the loader, and keeps what it gets.\<close>

definition loader_bus :: "u8 list list os" where
  "loader_bus =
     (flash_bus (\<lambda>_. True))\<lparr>os_spi_message := (\<lambda>f out w. let b = concat (map snd out) in
        (1, (if length b = 1030 then le32 ARM_FIRMWARE_KEY @ replicate 1026 0 else replicate (length b) 0), w @ [b]))\<rparr>"

theorem fwspi_programs_witness:
  "\<exists>c a' w1 w' p. start_firmware loader_bus 4 blank_arm [] = Some (Some c, a', w1) \<and> length p = 1024 \<and>
    change_firmware_spi loader_bus 4 (\<lambda>_. True) (\<lambda>_. Some [1, 2, 3]) (fw_defaults\<lparr>fo_prog := True, fo_resetrw := True\<rparr>)
      (fresh_block 65536) (fresh_block 1024) analog_board blank_arm [] = Some (0, a', w') \<and>
    w' = w1 @ file_frames 0 [1, 2, 3] @ file_frames 0xe000 [1, 2, 3] @ [fw_frame ARM_FIRMWARE_KEY p]"
proof -
  let ?o = "fw_defaults\<lparr>fo_prog := True, fo_resetrw := True\<rparr>" and ?f = "\<lambda>_ :: string. Some [1, 2, 3 :: u8]"
  have o: "\<not> fo_calibrate ?o" "\<not> fo_final ?o" by (simp_all add: fw_defaults_def)
  have rw: "rw_file (\<lambda>_. True) ?f ?o analog_board = [1, 2, 3]"
    using analog_names(1) analog_version(1,2) by (simp add: rw_file_def fw_defaults_def)
  have bus: "full_duplex loader_bus" "acks loader_bus (fd blank_arm) (\<lambda>_. True)" "records loader_bus (fd blank_arm) (\<lambda>w. w)"
    by (auto simp: full_duplex_def acks_def records_def loader_bus_def Let_def)
  show ?thesis
    using fwspi_programs [OF wf_blank_arm bus(1) _ bus(2,3) analog_choice [OF o], where heap = "\<lambda>_. True" and files = ?f and mem_ok = 4 and w = "[]" and
        prog_data = "fresh_block 65536" and rw_data = "fresh_block 1024", unfolded analog_version rw, OF _ analog_names(2) refl]
    by (simp add: fw_defaults_def) blast
qed

end
