(* ===== verification/Test_Programs.thy ===== *)
theory Test_Programs
  imports Fw_Serial Arm_Spi_Safe
begin

text \<open>
  The two test programs: \<open>neuronspi.c\<close> reads registers of the first board over SPI, and
  \<open>bandwidth-client.c\<close> measures how fast a server answers. What they print is their result,
  without the texts and without the times in fractions of a second.
\<close>

section \<open>\<open>neuronspi.c\<close>\<close>

text \<open>
  The result of \<open>arm_init\<close> is ignored. \<open>buffer\<close> is the uninitialised array of 128 registers;
  the result is \<open>n\<close>, the first ten registers, seven registers from 1000 on, \<open>n2000\<close> and that
  many registers from 2000 on.
\<close>

definition neuronspi ::
  "'w os \<Rightarrow> nat \<Rightarrow> arm_handle \<Rightarrow> mem \<Rightarrow> 'w \<Rightarrow> ((int \<times> u16 list \<times> u16 list \<times> int \<times> u16 list) \<times> 'w) option" where
  "neuronspi os nss_pause fresh buffer w =
     do { (_, a, w) \<leftarrow> arm_init os nss_pause fresh ''/dev/spidev0.1'' 12000000 0 None w;
          (_, a, w) \<leftarrow> idle_op os a w;
          buffer \<leftarrow> wr16 buffer 0 10;
          buffer \<leftarrow> wr16 buffer 2 1;
          (n, buffer, a, w) \<leftarrow> read_regs os 0 10 buffer 0 a w;
          first \<leftarrow> rd_block buffer 0 20;
          (_, buffer, a, w) \<leftarrow> read_regs os 1000 7 buffer 0 a w;
          versions \<leftarrow> rd_block buffer 0 14;
          (n2000, buffer, a, w) \<leftarrow> read_regs os 2000 30 buffer 0 a w;
          nvram \<leftarrow> rd_block buffer 0 (2 * nat n2000);
          Some ((n, regs_of first, regs_of versions, n2000, regs_of nvram), os_close os (fd a) w) }"

lemma read_regs_buffer:
  assumes "wf_arm a" and "full_duplex os" and "unat cnt \<le> 128" and "length buffer = 256"
  shows "\<exists>n b a' w'. read_regs os reg cnt buffer 0 a w = Some (n, b, a', w') \<and> length b = 256 \<and> wf_arm a' \<and> n \<le> uint cnt"
proof -
  have "unat cnt \<le> 146" and room: "0 + 2 * unat cnt \<le> length buffer" using assms(3,4) by simp_all
  from read_regs_total [OF assms(1,2) this, of reg w]
  obtain n bs a' w' where r: "read_regs os reg cnt buffer 0 a w = Some (n, overlay buffer 0 bs, a', w')" "wf_arm a'"
    "same_board a a'" "n \<le> uint cnt" "if n < 0 then bs = [] else length bs = 2 * nat n"
    by (elim exE conjE) (rule that)
  have "nat n \<le> unat cnt" using nat_mono [OF r(4)] by simp
  then have "length bs \<le> length buffer" using r(5) room by (auto split: if_splits)
  then have "length (overlay buffer 0 bs) = 256" using assms(4) by simp
  with r(1,2,4) show ?thesis by blast
qed

text \<open>When the board is there, the program stays inside its buffers and ends.\<close>

lemma neuronspi_safe:
  assumes "arm_init os nss_pause fresh ''/dev/spidev0.1'' 12000000 0 None w = Some (0, a, w0)" and "wf_arm a"
    and "full_duplex os" and "length buffer = 256"
  shows "\<exists>printed w'. neuronspi os nss_pause fresh buffer w = Some (printed, w')"
proof -
  obtain st a1 w1 where 1: "idle_op os a w0 = Some (st, a1, w1)" "wf_arm a1"
    using one_phase_op_total [OF assms(2,3)] unfolding idle_op_def by blast
  obtain b0 b1 where b: "wr16 buffer 0 10 = Some b0" "wr16 b0 2 1 = Some b1" "length b1 = 256"
    using assms(4) by (simp add: wr16_def wr8_def)
  obtain n b2 a2 w2 where 2: "read_regs os 0 10 b1 0 a1 w1 = Some (n, b2, a2, w2)" "length b2 = 256" "wf_arm a2"
    using read_regs_buffer [OF 1(2) assms(3) _ b(3), of 10 0 w1] by auto
  obtain n' b3 a3 w3 where 3: "read_regs os 1000 7 b2 0 a2 w2 = Some (n', b3, a3, w3)" "length b3 = 256" "wf_arm a3"
    using read_regs_buffer [OF 2(3) assms(3) _ 2(2), of 7 1000 w2] by auto
  obtain n2 b4 a4 w4 where 4: "read_regs os 2000 30 b3 0 a3 w3 = Some (n2, b4, a4, w4)" "length b4 = 256" "n2 \<le> 30"
    using read_regs_buffer [OF 3(3) assms(3) _ 3(2), of 30 2000 w3] by auto
  show ?thesis
    using assms(1) 1(1) b 2(1,2) 3(1,2) 4 by (simp add: neuronspi_def rd_block_in)
qed

section \<open>\<open>bandwidth-client.c\<close>\<close>

definition xMODBUS_MAX_READ_BITS :: nat where "xMODBUS_MAX_READ_BITS = 1"
definition xMODBUS_MAX_READ_REGISTERS :: nat where "xMODBUS_MAX_READ_REGISTERS = 19"

text \<open>\<open>gettime_ms\<close>; \<open>clock\<close> is \<open>gettimeofday\<close>. The product is one of \<open>uint32_t\<close> and wraps.\<close>

definition gettime_ms :: "('w \<Rightarrow> timeval \<times> 'w) \<Rightarrow> 'w \<Rightarrow> u32 \<times> 'w" where
  "gettime_ms clock w =
     (case clock w of ((sec, usec), w) \<Rightarrow> (word_of_int (uint ((word_of_int sec :: u32) * 1000) + usec sdiv 1000), w))"

text \<open>The loop of calls; the first part of the result is whether none has failed.\<close>

fun call_repeatedly ::
  "nat \<Rightarrow> ('d modbus \<Rightarrow> 'w \<Rightarrow> (int \<times> 'd modbus \<times> 'w) option) \<Rightarrow> 'd modbus \<Rightarrow> 'w \<Rightarrow> (bool \<times> 'd modbus \<times> 'w) option" where
  "call_repeatedly 0 call ctx w = Some (True, ctx, w)"
| "call_repeatedly (Suc n) call ctx w =
     do { (rc, ctx, w) \<leftarrow> call ctx w;
          if rc = -1 then Some (False, ctx, w) else call_repeatedly n call ctx w }"

text \<open>
  One measurement. The numbers printed are those of points, of bytes of values and of bytes
  with the overhead per second; dividing by the time is a fault when no millisecond has passed.
\<close>

definition measure_calls ::
  "('w \<Rightarrow> timeval \<times> 'w) \<Rightarrow> nat \<Rightarrow> nat \<Rightarrow> nat \<Rightarrow> nat \<Rightarrow> ('d modbus \<Rightarrow> 'w \<Rightarrow> (int \<times> 'd modbus \<times> 'w) option) \<Rightarrow>
     'd modbus \<Rightarrow> 'w \<Rightarrow> (u32 list option \<times> 'd modbus \<times> 'w) option" where
  "measure_calls clock n_loop nb_points value_bytes message_bytes call ctx w =
     do { let (start, w) = gettime_ms clock w;
          (ok, ctx, w) \<leftarrow> call_repeatedly n_loop call ctx w;
          if \<not> ok then Some (None, ctx, w)
          else do {
            let (end_time, w) = gettime_ms clock w;
            let elapsed = end_time - start;
            if elapsed = 0 then None
            else Some (Some [word_of_nat (n_loop * nb_points * 1000) div elapsed,
                             (word_of_nat value_bytes div 1024 * 1000) div elapsed,
                             (word_of_nat (n_loop * message_bytes) div 1024 * 1000) div elapsed], ctx, w) } }"

text \<open>
  The bytes of the bits are counted as the code does it: the last byte of a message that is
  not full is added once, not for each of the messages.
\<close>

definition bandwidth_run ::
  "('a, 'd, 'w) fw_line \<Rightarrow> ('w \<Rightarrow> timeval \<times> 'w) \<Rightarrow> nat \<Rightarrow> 'd modbus \<Rightarrow> 'w \<Rightarrow> (int \<times> u32 list \<times> 'w) option" where
  "bandwidth_run ln clock n_loop ctx w =
     (let (rc, ctx, w) = modbus_connect (ln_be ln) ctx w in
      if rc = -1 then Some (-1, [], w)
      else do {
        let nb = xMODBUS_MAX_READ_BITS;
        let extra = (if nb mod 8 \<noteq> 0 then 1 else 0);
        (bits, ctx, w) \<leftarrow> measure_calls clock n_loop nb (n_loop * (nb div 8) + extra) (12 + 9 + nb div 8 + extra)
          (\<lambda>ctx w. do { (rc, _, ctx, w) \<leftarrow> modbus_read_bits (ln_net ln) (ln_be ln) 0 (int nb) (ln_small ln) (ln_rsp ln)
                          (replicate nb 0) ctx w; Some (rc, ctx, w) }) ctx w;
        case bits of None \<Rightarrow> Some (-1, [], w)
        | Some printed \<Rightarrow>
            do { let nr = xMODBUS_MAX_READ_REGISTERS;
                 (regs, ctx, w) \<leftarrow> measure_calls clock n_loop nr (n_loop * nr * 2) (12 + 9 + nr * 2)
                   (\<lambda>ctx w. do { (rc, _, ctx, w) \<leftarrow> modbus_read_registers (ln_net ln) (ln_be ln) 0 (int nr) (ln_small ln) (ln_rsp ln)
                                   (replicate nr 0) ctx w; Some (rc, ctx, w) }) ctx w;
                 case regs of None \<Rightarrow> Some (-1, printed, w)
                 | Some others \<Rightarrow> let (_, w) = modbus_close (ln_be ln) ctx w in Some (0, printed @ others, w) } })"

text \<open>
  \<open>main\<close>: the backend is chosen by the first argument. A context that could not be made is a
  null pointer, which the library's functions refuse with -1.
\<close>

definition bandwidth_client ::
  "('a, 'w) net \<Rightarrow> (mem option \<Rightarrow> int \<Rightarrow> 'a) \<Rightarrow> 'w tty \<Rightarrow> ('w \<Rightarrow> timeval \<times> 'w) \<Rightarrow> mem \<Rightarrow> mem \<Rightarrow>
     modbus_tcp modbus \<Rightarrow> 'w modbus_rtu modbus \<Rightarrow> string option \<Rightarrow> 'w \<Rightarrow> (int \<times> u32 list \<times> 'w) option" where
  "bandwidth_client net inet tty clock req rsp fresh_tcp fresh_rtu arg w =
     (if arg = None \<or> arg = Some ''tcp'' then
        do { ctx \<leftarrow> modbus_new_tcp (Some (c_str ''192.168.1.11'')) 502 fresh_tcp;
             case ctx of None \<Rightarrow> Some (-1, [], w)
             | Some ctx \<Rightarrow>
                 let ln = \<lparr>ln_net = net, ln_be = tcp_backend net inet, ln_small = req, ln_req = rsp, ln_rsp = rsp\<rparr> in
                 bandwidth_run ln clock (if arg = None then 2 else 10000) (snd (modbus_set_slave (ln_be ln) 1 ctx)) w }
      else if arg = Some ''rtu'' then
        case modbus_new_rtu tty (Some (c_str ''/dev/ttyUSB1'')) 115200 (CHR ''N'') 8 1 fresh_rtu of
          None \<Rightarrow> Some (-1, [], w)
        | Some ctx \<Rightarrow>
            let ln = \<lparr>ln_net = net, ln_be = rtu_backend net tty, ln_small = req, ln_req = rsp, ln_rsp = rsp\<rparr> in
            bandwidth_run ln clock 100 (snd (modbus_set_slave (ln_be ln) 1 ctx)) w
      else Some (1, [], w))"

text \<open>A measurement that takes less than a millisecond divides by zero.\<close>

lemma measure_calls_too_fast:
  assumes "gettime_ms clock w = (t, w1)" and "call_repeatedly n_loop call ctx w1 = Some (True, ctx2, w2)"
    and "gettime_ms clock w2 = (t, w3)"
  shows "measure_calls clock n_loop nb_points value_bytes message_bytes call ctx w = None"
  using assms by (simp add: measure_calls_def)

end
