(* ===== verification/Spec2Isabelle.thy ===== *)
theory Spec2Isabelle
  imports Modbus_Client_Writes Tcp_Server_Setup Fw_Serial_Verify Fw_Spi_Correct Test_Programs
begin

text \<open>
  A verification library for the Neuron TCP/Modbus overlay: the server
  \<open>neuron_tcp_server\<close> that exposes the boards of a UniPi Neuron controller, reached
  over SPI, to Modbus/TCP clients, and the library \<open>libmodbus\<close> it is built with. All paths
  below are relative to \<open>src/neuron_tcp_server\<close>.

  \<^bold>\<open>The program.\<close> A Modbus/TCP client sends request frames. \<open>nb_modbus.c\<close> finds the frames in
  the received bytes, turns each in place into its reply, and calls the operations of
  \<open>armspi.c\<close> on one of up to three boards. Those exchange frames of two chunks, each with a
  CRC (\<open>spicrc.c\<close>) chained over both, over SPI; characters of the boards' UARTs arrive in
  passing in the chunk headers and are queued. \<open>armutil.c\<close> knows the boards and their
  versions. \<open>neuron_tcp_server.c\<close> is the event loop around this: a pool of message buffers,
  the connections with their receive buffers and unsent replies, the interrupt lines of the
  boards and the pseudo terminals of \<open>armpty.c\<close>, which carry the characters of the UARTs.
  \<open>libmodbus-master/src\<close> is a Modbus library of its own, with a server, a client and
  two transports, TCP and serial. \<open>fwserial.c\<close> programs a board over a serial line as a client
  of that library, \<open>fwspi.c\<close> over SPI with the loader of \<open>armspi.c\<close>.

  \<^bold>\<open>Conventions.\<close> Memory is a list of bytes (\<open>mem\<close>); a read or write outside a buffer is
  \<open>None\<close> (a fault), so that every theorem with \<open>Some\<close> says that the code stays in its buffers.
  Machine integers are words where they wrap, and \<open>int\<close> where the C type cannot overflow at
  its values. Failing calls return \<open>-1\<close> and set the \<open>errno\<close> field of the context. System
  calls are functions on an arbitrary state \<open>'w\<close> of the world, collected in the records \<open>os\<close>
  (\<open>Os_Calls\<close>), \<open>net\<close> (\<open>Net_Calls\<close>), \<open>tty\<close> (\<open>Modbus_Rtu\<close>), \<open>pty_calls\<close> (\<open>Arm_Pty\<close>),
  \<open>fw_files\<close> (\<open>Nb_Firmware\<close>) and \<open>epoll_calls\<close> (\<open>Tcp_Server\<close>); what a theorem needs of them
  is a named hypothesis (\<open>full_duplex\<close>, \<open>answers\<close>, \<open>posix_sockets\<close>, \<open>delivers\<close>, \<open>drains\<close>,
  \<open>serves\<close>, \<open>sends\<close>, \<open>never_full\<close>, \<open>never_fails\<close>, \<open>reads\<close>, \<open>acks\<close>, \<open>records\<close>; \<open>good_env\<close>
  is their conjunction for the whole server, \<open>client_ready\<close> that for a client and its peer). Pointers to contexts and mappings are not null: the \<open>ctx == NULL\<close> guards at the
  head of the functions of \<open>libmodbus\<close> have no branch in the model.

  \<^bold>\<open>Theories.\<close>
  \<^item> \<open>Neuron_Prelude\<close>: words, bytes, memory accesses, \<open>for_each\<close> loops with their rule, the
    collection \<open>no_fault\<close>.
  \<^item> \<open>Spi_Crc\<close>: \<open>spicrc.c\<close>; locale \<open>byte_crc\<close> (a CRC step that is injective in the byte and in
    the register detects a change of two adjacent bytes), interpreted for \<open>SpiCrcString\<close> and,
    in \<open>Modbus_Rtu_Crc\<close>, for the CRC of the serial line.
  \<^item> \<open>Board_Util\<close>: \<open>armutil.c\<close>, the board tables, versions and firmware names.
  \<^item> \<open>Uart_Queue\<close>: the character queues of \<open>armspi.c\<close>; locale for queues, with a refinement to
    a list.
  \<^item> \<open>Arm_Spi\<close>, \<open>Arm_Spi_Correct\<close>, \<open>Arm_Spi_Ops\<close>, \<open>Arm_Spi_Safe\<close>: \<open>armspi.c\<close>. The record
    \<open>arm_handle\<close> is the handle of a board with its buffers and its seven SPI transfers;
    \<open>wf_arm\<close> is its invariant, which \<open>arm_init\<close> establishes and every operation keeps;
    \<open>frame1\<close> and \<open>frame2\<close> are the chunks of a frame in terms of lists.
  \<^item> \<open>Nb_Modbus\<close>, \<open>Nb_Modbus_Correct\<close>, \<open>Nb_Modbus_Replies\<close>: \<open>nb_modbus.c\<close>. The handler is
    written over a record of board operations; the locale \<open>register_bus\<close> states what it needs of
    them and is interpreted on \<open>Arm_Spi\<close>'s operations.
  \<^item> \<open>Loops\<close>: \<open>loop\<close>, a \<open>while\<close> loop whose body may fail, go on or leave with a value, with
    rules for its result, for its end and for not ending (\<open>endless\<close>).
  \<^item> \<open>Arm_Firmware\<close>, \<open>Arm_Firmware_Correct\<close>: the firmware loader of \<open>armspi.c\<close>; \<open>fw_pages\<close> and
    \<open>fw_frames\<close> say what a file looks like on the bus. \<open>Nb_Firmware\<close>: adding and closing boards
    and the firmware files in \<open>nb_modbus.c\<close>.
  \<^item> \<open>Arm_Pty\<close>: \<open>armpty.c\<close>, the pseudo terminals and the copying of characters.
  \<^item> \<open>Buffer_Pool\<close>: the buffers of \<open>neuron_tcp_server.c\<close> on an explicit store, since they are
    linked and shared; the locale \<open>block_pool\<close> is the contract of the pool. \<open>Tcp_Server\<close>: the
    connections, the event handlers and one turn of the loop in \<open>main\<close>, on the record \<open>server\<close>;
    \<open>Tcp_Server_Correct\<close>: sending; \<open>Tcp_Server_Serve\<close>: the requests of a connection;
    \<open>Tcp_Server_Reach\<close>: the server as a step relation, its reachable states and their
    invariant; \<open>Tcp_Server_Setup\<close>: the options and the start of \<open>main\<close>. \<open>C_Strings\<close>: \<open>atoi\<close>,
    \<open>strtol\<close> and strings in memory.
  \<^item> \<open>Modbus_Data\<close>: \<open>modbus-data.c\<close>. \<open>Modbus_Core\<close>, \<open>Modbus_Server\<close>, \<open>Modbus_Client\<close>: the three
    parts of \<open>modbus.c\<close> over a record \<open>modbus_backend\<close> of the transport's functions.
    \<open>Modbus_Tcp\<close> and \<open>Modbus_Rtu\<close>: the transports.
  \<^item> \<open>Modbus_Framing\<close>: the locale \<open>modbus_framing\<close>, the contract of a transport (header, PDU,
    checksum), interpreted for the three backends; \<open>Modbus_Receive\<close>: receiving a message, in
    that locale; \<open>Modbus_Server_Spec\<close>: an abstract server on PDUs and tables;
    \<open>Modbus_Server_Correct\<close>: \<open>modbus_reply\<close> refines it, in that locale.
  \<^item> \<open>Modbus_Endpoints\<close>, \<open>Modbus_Client_Correct\<close> and \<open>Modbus_Client_Writes\<close>: servers and clients
    on the transports.
  \<^item> \<open>Fw_Serial\<close>, \<open>Fw_Serial_Correct\<close>, \<open>Fw_Serial_Verify\<close>: \<open>fwserial.c\<close>, and the pages it writes to
    and compares with those of a board that keeps a log of its registers, proved for every transport in the locale \<open>modbus_framing\<close>;
    \<open>Fw_Spi\<close>, \<open>Fw_Spi_Correct\<close>: \<open>fwspi.c\<close>, and the frames it sends. \<open>Test_Programs\<close>:
    \<open>neuronspi.c\<close> and \<open>bandwidth-client.c\<close>.

  \<^bold>\<open>What is shown.\<close> For the boards: no operation leaves a buffer whatever the board replies,
  damaged replies are refused, correct ones delivered, characters are neither lost nor
  reordered. For the request handler: every request gets a well-formed reply, register reads
  and writes reach the bus exactly as the client sent them. For the server: however clients
  come and go, no buffer is lost or shared while replies can be sent at once, and the requests
  of a connection are answered completely and in order. For \<open>libmodbus\<close>: a message is
  received exactly however the network cuts it, the server refines \<open>server_spec\<close> on both
  transports, and the client reads what that server holds and changes what it writes. For the firmware
  tools: the board gets every page of the file, once and in order. Where the code does not do what it
  means to do, a theorem says what it does: \<open>nb_modbus_reqlen_complete\<close>,
  \<open>write_and_read_below_start\<close>, \<open>write_string_hides_failure\<close>, \<open>float_abcd_host_order\<close>,
  \<open>partial_send_shares_buffer\<close>, \<open>epollout_never_returns\<close>, \<open>send_firmware_livelock\<close>,
  \<open>arm_firmware_never_updates\<close>, \<open>armpty_readuart_loses\<close>, \<open>parse_slist_overflows\<close>, \<open>load_fw_eq\<close>, \<open>fwserial_programs\<close>.

  \<^bold>\<open>Bounds.\<close> The buffers have the sizes of the code: 260 bytes for a message, 298 for an SPI
  chunk with its CRC, 256 for a queue. The version string of \<open>libmodbus\<close> comes from a
  generated header and is a parameter, of at most 246 characters so that it fits in a message.
  Loops of the code that end by themselves are structural or \<open>function\<close>s with a termination
  proof; those that depend on the world (\<open>nanosleep\<close>, flushing, sending with recovery,
  \<open>select\<close>) are \<open>partial_function\<close>s, and the theorems prove that they return under the stated
  hypotheses on the calls. No fuel is used.

  \<^bold>\<open>Not modelled.\<close> Output for debugging, pauses, the Windows branches of \<open>libmodbus\<close>, freeing
  of memory except for the event data of a connection; in \<open>main\<close> the parsing of the argument
  vector by \<open>getopt_long\<close> and the change into a daemon; the texts that the programs print;
  \<open>nb_modbus_new_tcp\<close>, which returns no value.
\<close>

end
